(* ===== verification/Prelude.thy ===== *)
theory Prelude
  imports
    Main
    "HOL-Library.Word"
    "HOL-Library.Char_ord"
    "HOL-Library.List_Lexorder"
    "HOL-Library.Multiset"
begin

text \<open>
  Shared vocabulary of the development: Rust's \<open>Result\<close> as a sum with the error on the
  left, the \<open>?\<close> operator as \<open>and_then\<close>, the machine integers the agent uses, the
  three-way \<open>Ordering\<close>, a stable sort by a comparison function, and the character and
  string functions of the standard library that the agent calls.

  A \<open>char\<close> stands for one Unicode scalar value between U+0000 and U+00FF; a \<open>string\<close>
  is a sequence of those. The classification functions below are the standard library's
  on that range. Text with scalar values above U+00FF is outside the model.
\<close>

named_theorems result_simps \<open>evaluation of \<open>and_then\<close> and its inversion\<close>
named_theorems guard_defs \<open>definitions of validation predicates to unfold together\<close>

section \<open>Results\<close>

definition and_then :: "'e + 'a \<Rightarrow> ('a \<Rightarrow> 'e + 'b) \<Rightarrow> 'e + 'b" where
  "and_then r k = (case r of Inl e \<Rightarrow> Inl e | Inr a \<Rightarrow> k a)"

lemma and_then_simps [simp, result_simps]:
  "and_then (Inl e) k = Inl e"
  "and_then (Inr a) k = k a"
  by (simp_all add: and_then_def)

lemma and_then_Inr_iff [result_simps]:
  "and_then r k = Inr b \<longleftrightarrow> (\<exists>a. r = Inr a \<and> k a = Inr b)"
  by (cases r) auto

lemma and_then_Inl_iff [result_simps]:
  "and_then r k = Inl e \<longleftrightarrow> r = Inl e \<or> (\<exists>a. r = Inr a \<and> k a = Inl e)"
  by (cases r) auto

definition guard_else :: "bool \<Rightarrow> 'e \<Rightarrow> 'e + unit" where
  "guard_else ok e = (if ok then Inr () else Inl e)"

lemma guard_else_iff [simp, result_simps]:
  "guard_else ok e = Inr u \<longleftrightarrow> ok"
  "guard_else ok e = Inl e' \<longleftrightarrow> \<not> ok \<and> e' = e"
  by (auto simp: guard_else_def)

lemma guard_else_eval [simp]:
  "guard_else True e = Inr ()"
  "guard_else False e = Inl e"
  by (simp_all add: guard_else_def)

definition ok_or :: "'a option \<Rightarrow> 'e \<Rightarrow> 'e + 'a" where
  "ok_or m e = (case m of None \<Rightarrow> Inl e | Some a \<Rightarrow> Inr a)"

lemma ok_or_simps [simp, result_simps]:
  "ok_or None e = Inl e"
  "ok_or (Some a) e = Inr a"
  "ok_or m e = Inr a \<longleftrightarrow> m = Some a"
  "ok_or m e = Inl e' \<longleftrightarrow> m = None \<and> e' = e"
  by (auto simp: ok_or_def split: option.splits)

definition is_ok :: "'e + 'a \<Rightarrow> bool" where
  "is_ok r = (case r of Inl _ \<Rightarrow> False | Inr _ \<Rightarrow> True)"

lemma is_ok_simps [simp]:
  "is_ok (Inl e) = False"
  "is_ok (Inr a) = True"
  by (simp_all add: is_ok_def)

lemma is_ok_iff: "is_ok r \<longleftrightarrow> (\<exists>a. r = Inr a)"
  by (cases r) auto

text \<open>\<open>Option::unwrap_or\<close>, \<open>Option::or\<close> and \<open>Option::filter\<close>.\<close>

definition unwrap_or :: "'a option \<Rightarrow> 'a \<Rightarrow> 'a" where
  "unwrap_or m d = (case m of None \<Rightarrow> d | Some a \<Rightarrow> a)"

lemma unwrap_or_simps [simp]:
  "unwrap_or None d = d"
  "unwrap_or (Some a) d = a"
  by (simp_all add: unwrap_or_def)

definition option_or :: "'a option \<Rightarrow> 'a option \<Rightarrow> 'a option" where
  "option_or m n = (case m of None \<Rightarrow> n | Some a \<Rightarrow> Some a)"

lemma option_or_simps [simp]:
  "option_or None n = n"
  "option_or (Some a) n = Some a"
  by (simp_all add: option_or_def)

definition option_filter :: "('a \<Rightarrow> bool) \<Rightarrow> 'a option \<Rightarrow> 'a option" where
  "option_filter p m = (case m of None \<Rightarrow> None | Some a \<Rightarrow> (if p a then Some a else None))"

lemma option_filter_simps [simp]:
  "option_filter p None = None"
  "option_filter p (Some a) = (if p a then Some a else None)"
  by (simp_all add: option_filter_def)

lemma option_filter_Some_iff: "option_filter p m = Some a \<longleftrightarrow> m = Some a \<and> p a"
  by (cases m) auto

section \<open>Machine integers\<close>

type_synonym u8 = "8 word"
type_synonym u16 = "16 word"
type_synonym u32 = "32 word"
type_synonym u64 = "64 word"
type_synonym u128 = "128 word"

definition checked_add :: "u64 \<Rightarrow> u64 \<Rightarrow> u64 option" where
  "checked_add a b = (if unat a + unat b < 2 ^ 64 then Some (a + b) else None)"

definition saturating_add :: "u64 \<Rightarrow> u64 \<Rightarrow> u64" where
  "saturating_add a b = (if unat a + unat b < 2 ^ 64 then a + b else - 1)"

definition saturating_sub :: "u64 \<Rightarrow> u64 \<Rightarrow> u64" where
  "saturating_sub a b = (if b \<le> a then a - b else 0)"

definition saturating_mul :: "u64 \<Rightarrow> u64 \<Rightarrow> u64" where
  "saturating_mul a b = (if unat a * unat b < 2 ^ 64 then a * b else - 1)"

lemma unat_max_u64 [simp]: "unat (- 1 :: u64) = 18446744073709551615"
  by (simp add: unat_eq_nat_uint uint_word_ariths)

lemma unat_lt_u64: "unat (a :: u64) < 2 ^ 64"
  using unsigned_less [of a] by simp

lemma checked_add_Some: "checked_add a b = Some c \<Longrightarrow> unat c = unat a + unat b"
  by (auto simp: checked_add_def unat_word_ariths split: if_splits)

lemma checked_add_None_iff: "checked_add a b = None \<longleftrightarrow> 2 ^ 64 \<le> unat a + unat b"
  by (auto simp: checked_add_def)

lemma unat_saturating_add: "unat (saturating_add a b) = min (unat a + unat b) (2 ^ 64 - 1)"
  by (auto simp: saturating_add_def unat_word_ariths)

lemma unat_saturating_sub: "unat (saturating_sub a b) = unat a - unat b"
  by (auto simp: saturating_sub_def unat_sub word_le_nat_alt)

lemma unat_saturating_mul: "unat (saturating_mul a b) = min (unat a * unat b) (2 ^ 64 - 1)"
  by (auto simp: saturating_mul_def unat_word_ariths)

lemma unat_div_u64: "unat (a div b) = unat a div unat (b :: u64)"
  by (rule unat_div)

section \<open>Three-way comparison and stable sorting\<close>

datatype ordering = Less | Equal | Greater

fun reverse_ordering :: "ordering \<Rightarrow> ordering" where
  "reverse_ordering Less = Greater"
| "reverse_ordering Equal = Equal"
| "reverse_ordering Greater = Less"

lemma reverse_ordering_twice [simp]: "reverse_ordering (reverse_ordering x) = x"
  by (cases x) auto

lemma reverse_ordering_eq [simp]:
  "reverse_ordering x = Less \<longleftrightarrow> x = Greater"
  "reverse_ordering x = Equal \<longleftrightarrow> x = Equal"
  "reverse_ordering x = Greater \<longleftrightarrow> x = Less"
  by (cases x; simp)+

text \<open>\<open>Ord::cmp\<close> of a linearly ordered type, and \<open>Ordering::then_with\<close>.\<close>

definition cmp :: "'a::linorder \<Rightarrow> 'a \<Rightarrow> ordering" where
  "cmp x y = (if x < y then Less else if x = y then Equal else Greater)"

lemma cmp_eq [simp]:
  "cmp x y = Less \<longleftrightarrow> x < y"
  "cmp x y = Equal \<longleftrightarrow> x = y"
  "cmp x y = Greater \<longleftrightarrow> y < x"
  by (auto simp: cmp_def)

fun then_with :: "ordering \<Rightarrow> ordering \<Rightarrow> ordering" where
  "then_with Equal o2 = o2"
| "then_with o1 _ = o1"

text \<open>
  The laws a comparison must satisfy for \<open>slice::sort_by\<close> to be meaningful, and the sort
  itself as a stable insertion sort.
\<close>

fun insort_by :: "('a \<Rightarrow> 'a \<Rightarrow> ordering) \<Rightarrow> 'a \<Rightarrow> 'a list \<Rightarrow> 'a list" where
  "insort_by c x [] = [x]"
| "insort_by c x (y # ys) = (if c x y = Greater then y # insort_by c x ys else x # y # ys)"

definition sort_by :: "('a \<Rightarrow> 'a \<Rightarrow> ordering) \<Rightarrow> 'a list \<Rightarrow> 'a list" where
  "sort_by c xs = foldr (insort_by c) xs []"

lemma sort_by_simps [simp]:
  "sort_by c [] = []"
  "sort_by c (x # xs) = insort_by c x (sort_by c xs)"
  by (simp_all add: sort_by_def)

lemma mset_insort_by [simp]: "mset (insort_by c x xs) = add_mset x (mset xs)"
  by (induction xs) auto

lemma mset_sort_by [simp]: "mset (sort_by c xs) = mset xs"
  by (induction xs) auto

lemma set_insort_by [simp]: "set (insort_by c x xs) = insert x (set xs)"
  by (metis mset_insort_by set_mset_add_mset_insert set_mset_mset)

lemma set_sort_by [simp]: "set (sort_by c xs) = set xs"
  by (metis mset_sort_by set_mset_mset)

lemma length_sort_by [simp]: "length (sort_by c xs) = length xs"
  by (metis mset_sort_by size_mset)

lemma filter_insort_by:
  "(\<And>y. P y \<Longrightarrow> P x \<Longrightarrow> c x y \<noteq> Greater) \<Longrightarrow>
   filter P (insort_by c x xs) = (if P x then x # filter P xs else filter P xs)"
  by (induction xs) auto

locale total_comparison =
  fixes c :: "'a \<Rightarrow> 'a \<Rightarrow> ordering"
  assumes c_refl: "c x x = Equal"
    and c_dual: "c y x = reverse_ordering (c x y)"
    and c_trans: "c x y \<noteq> Greater \<Longrightarrow> c y z \<noteq> Greater \<Longrightarrow> c x z \<noteq> Greater"
begin

lemma sorted_wrt_insort_by:
  "sorted_wrt (\<lambda>x y. c x y \<noteq> Greater) xs \<Longrightarrow>
   sorted_wrt (\<lambda>x y. c x y \<noteq> Greater) (insort_by c x xs)"
proof (induction xs)
  case Nil
  then show ?case by simp
next
  case (Cons y ys)
  show ?case
  proof (cases "c x y = Greater")
    case True
    then have "c y x \<noteq> Greater" using c_dual [of y x] by simp
    with True Cons show ?thesis by auto
  next
    case False
    with Cons.prems show ?thesis by (auto dest: c_trans)
  qed
qed

lemma sorted_wrt_sort_by: "sorted_wrt (\<lambda>x y. c x y \<noteq> Greater) (sort_by c xs)"
  by (induction xs) (auto intro: sorted_wrt_insort_by)

lemma insort_by_sorted:
  "sorted_wrt (\<lambda>x y. c x y \<noteq> Greater) (x # xs) \<Longrightarrow> insort_by c x xs = x # xs"
  by (cases xs) auto

lemma sort_by_sorted:
  "sorted_wrt (\<lambda>x y. c x y \<noteq> Greater) xs \<Longrightarrow> sort_by c xs = xs"
  by (induction xs) (simp_all add: insort_by_sorted del: sorted_wrt.simps(2) add: sorted_wrt.simps)

lemma sort_by_idem: "sort_by c (sort_by c xs) = sort_by c xs"
  by (rule sort_by_sorted) (rule sorted_wrt_sort_by)

text \<open>Stability: the elements equal to a given one keep their order.\<close>

lemma filter_sort_by_equal: "filter (\<lambda>y. c z y = Equal) (sort_by c xs) = filter (\<lambda>y. c z y = Equal) xs"
proof (induction xs)
  case Nil
  then show ?case by simp
next
  case (Cons x xs)
  have "filter (\<lambda>y. c z y = Equal) (insort_by c x (sort_by c xs)) =
        (if c z x = Equal then x # filter (\<lambda>y. c z y = Equal) (sort_by c xs)
         else filter (\<lambda>y. c z y = Equal) (sort_by c xs))"
  proof (rule filter_insort_by)
    fix y assume "c z y = Equal" "c z x = Equal"
    moreover from this have "c x z \<noteq> Greater" using c_dual [of x z] by simp
    ultimately show "c x y \<noteq> Greater" using c_trans [of x z y] by simp
  qed
  with Cons show ?case by simp
qed

text \<open>Sorting commutes with dropping elements.\<close>

lemma filter_insort_by_sorted:
  "sorted_wrt (\<lambda>x y. c x y \<noteq> Greater) xs \<Longrightarrow>
   filter P (insort_by c x xs) = (if P x then insort_by c x (filter P xs) else filter P xs)"
proof (induction xs)
  case (Cons y ys)
  have first: "insort_by c x (filter P ys) = x # filter P ys" if "c x y \<noteq> Greater"
  proof (cases "filter P ys")
    case (Cons z zs)
    then have "z \<in> set ys" by (metis filter_eq_Cons_iff in_set_conv_decomp)
    with Cons.prems that have "c x z \<noteq> Greater" by (auto dest: c_trans)
    with Cons show ?thesis by simp
  qed simp
  from Cons first show ?case by auto
qed simp

lemma filter_sort_by: "filter P (sort_by c xs) = sort_by c (filter P xs)"
  by (induction xs) (simp_all add: filter_insort_by_sorted [OF sorted_wrt_sort_by])

lemma sorted_last_greatest:
  "sorted_wrt (\<lambda>x y. c x y \<noteq> Greater) xs \<Longrightarrow> y \<in> set xs \<Longrightarrow> \<forall>x\<in>set xs. x \<noteq> y \<longrightarrow> c y x = Greater \<Longrightarrow>
   last xs = y"
proof (induction xs)
  case (Cons x xs)
  show ?case
  proof (cases "xs = []")
    case False
    show ?thesis
    proof (cases "y \<in> set xs")
      case True
      with Cons False show ?thesis by simp
    next
      case out: False
      then have "y = x" using Cons.prems(2) by simp
      moreover have "last xs \<in> set xs" using False by simp
      ultimately have "c y (last xs) = Greater" "c y (last xs) \<noteq> Greater"
        using Cons.prems(1,3) out by auto
      then show ?thesis by simp
    qed
  qed (use Cons in simp)
qed simp

lemma last_sort_by_greatest:
  "y \<in> set xs \<Longrightarrow> \<forall>x\<in>set xs. x \<noteq> y \<longrightarrow> c y x = Greater \<Longrightarrow> last (sort_by c xs) = y"
  by (rule sorted_last_greatest [OF sorted_wrt_sort_by]) simp_all

end

interpretation linorder_cmp: total_comparison "cmp :: 'a::linorder \<Rightarrow> 'a \<Rightarrow> ordering"
  by unfold_locales (auto simp: cmp_def split: if_splits)

lemma total_comparison_on_key:
  "total_comparison c \<Longrightarrow> total_comparison (\<lambda>x y. c (f x) (f y))"
  unfolding total_comparison_def by blast

lemma total_comparison_reverse:
  assumes "total_comparison c"
  shows "total_comparison (\<lambda>x y. c y x)"
  using assms unfolding total_comparison_def by blast

lemma then_with_eq [simp]:
  "then_with a b = Equal \<longleftrightarrow> a = Equal \<and> b = Equal"
  "then_with a b = Greater \<longleftrightarrow> a = Greater \<or> a = Equal \<and> b = Greater"
  "then_with a b = Less \<longleftrightarrow> a = Less \<or> a = Equal \<and> b = Less"
  by (cases a; simp)+

lemma reverse_then_with [simp]:
  "reverse_ordering (then_with a b) = then_with (reverse_ordering a) (reverse_ordering b)"
  by (cases a) auto

end
