(* ===== verification/Text.thy ===== *)
theory Text
  imports Prelude
begin

text \<open>
  The character and string functions of Rust's standard library that the agent uses, on
  scalar values U+0000 to U+00FF: classification, ASCII and full lower-casing, trimming,
  whitespace splitting, prefix and suffix tests, byte length in UTF-8, decimal and
  hexadecimal digits.
\<close>

section \<open>Characters\<close>

definition scalar :: "char \<Rightarrow> nat" where
  "scalar c = of_char c"

definition is_ascii_digit :: "char \<Rightarrow> bool" where
  "is_ascii_digit c \<longleftrightarrow> 48 \<le> scalar c \<and> scalar c \<le> 57"

definition is_ascii_lowercase :: "char \<Rightarrow> bool" where
  "is_ascii_lowercase c \<longleftrightarrow> 97 \<le> scalar c \<and> scalar c \<le> 122"

definition is_ascii_uppercase :: "char \<Rightarrow> bool" where
  "is_ascii_uppercase c \<longleftrightarrow> 65 \<le> scalar c \<and> scalar c \<le> 90"

definition is_ascii_hexdigit :: "char \<Rightarrow> bool" where
  "is_ascii_hexdigit c \<longleftrightarrow> is_ascii_digit c
     \<or> 97 \<le> scalar c \<and> scalar c \<le> 102 \<or> 65 \<le> scalar c \<and> scalar c \<le> 70"

definition is_lower_hexdigit :: "char \<Rightarrow> bool" where
  "is_lower_hexdigit c \<longleftrightarrow> is_ascii_digit c \<or> 97 \<le> scalar c \<and> scalar c \<le> 102"

definition is_ascii_alphanumeric :: "char \<Rightarrow> bool" where
  "is_ascii_alphanumeric c \<longleftrightarrow>
     is_ascii_digit c \<or> is_ascii_lowercase c \<or> is_ascii_uppercase c"

text \<open>\<open>char::is_alphanumeric\<close>: letters (Alphabetic) or numbers (Nd, Nl, No).\<close>

definition is_alphabetic :: "char \<Rightarrow> bool" where
  "is_alphabetic c \<longleftrightarrow> is_ascii_lowercase c \<or> is_ascii_uppercase c
     \<or> scalar c \<in> {170, 181, 186}
     \<or> 192 \<le> scalar c \<and> scalar c \<noteq> 215 \<and> scalar c \<noteq> 247"

definition is_numeric :: "char \<Rightarrow> bool" where
  "is_numeric c \<longleftrightarrow> is_ascii_digit c \<or> scalar c \<in> {178, 179, 185, 188, 189, 190}"

definition is_alphanumeric :: "char \<Rightarrow> bool" where
  "is_alphanumeric c \<longleftrightarrow> is_alphabetic c \<or> is_numeric c"

text \<open>\<open>char::is_whitespace\<close> (the White_Space property).\<close>

definition is_whitespace :: "char \<Rightarrow> bool" where
  "is_whitespace c \<longleftrightarrow> 9 \<le> scalar c \<and> scalar c \<le> 13 \<or> scalar c \<in> {32, 133, 160}"

definition ascii_lower :: "char \<Rightarrow> char" where
  "ascii_lower c = (if is_ascii_uppercase c then char_of (scalar c + 32) else c)"

definition lower :: "char \<Rightarrow> char" where
  "lower c = (if is_ascii_uppercase c \<or> 192 \<le> scalar c \<and> scalar c \<le> 222 \<and> scalar c \<noteq> 215
              then char_of (scalar c + 32) else c)"

lemmas char_class_defs =
  is_ascii_digit_def is_ascii_lowercase_def is_ascii_uppercase_def is_ascii_hexdigit_def
  is_lower_hexdigit_def is_ascii_alphanumeric_def is_alphabetic_def is_numeric_def
  is_alphanumeric_def is_whitespace_def

lemma scalar_less: "scalar c < 256"
  by (simp add: scalar_def)

lemma scalar_char_of [simp]: "n < 256 \<Longrightarrow> scalar (char_of n) = n"
  by (simp add: scalar_def)

lemma scalar_eq_iff: "scalar c = scalar d \<longleftrightarrow> c = d"
  by (simp add: scalar_def)

lemma ascii_digit_alphanumeric [simp]: "is_ascii_digit c \<Longrightarrow> is_alphanumeric c"
  by (simp add: char_class_defs)

lemma scalar_ascii_lower:
  "scalar (ascii_lower c) = (if 65 \<le> scalar c \<and> scalar c \<le> 90 then scalar c + 32 else scalar c)"
  by (simp add: ascii_lower_def is_ascii_uppercase_def)

lemma scalar_lower:
  "scalar (lower c) =
     (if 65 \<le> scalar c \<and> scalar c \<le> 90 \<or> 192 \<le> scalar c \<and> scalar c \<le> 222 \<and> scalar c \<noteq> 215
      then scalar c + 32 else scalar c)"
  by (simp add: lower_def is_ascii_uppercase_def)

lemma ascii_lower_idem [simp]: "ascii_lower (ascii_lower c) = ascii_lower c"
  by (rule iffD1 [OF scalar_eq_iff]) (simp add: scalar_ascii_lower)

lemma lower_idem [simp]: "lower (lower c) = lower c"
  by (rule iffD1 [OF scalar_eq_iff]) (simp add: scalar_lower)

lemma whitespace_ascii_lower [simp]: "is_whitespace (ascii_lower c) = is_whitespace c"
  by (auto simp: is_whitespace_def scalar_ascii_lower)

section \<open>Strings\<close>

definition to_ascii_lowercase :: "string \<Rightarrow> string" where
  "to_ascii_lowercase s = map ascii_lower s"

definition to_lowercase :: "string \<Rightarrow> string" where
  "to_lowercase s = map lower s"

definition eq_ignore_ascii_case :: "string \<Rightarrow> string \<Rightarrow> bool" where
  "eq_ignore_ascii_case s t \<longleftrightarrow> to_ascii_lowercase s = to_ascii_lowercase t"

text \<open>\<open>str::len\<close> counts UTF-8 bytes: two for a scalar value from U+0080 on.\<close>

definition utf8_len :: "string \<Rightarrow> nat" where
  "utf8_len s = sum_list (map (\<lambda>c. if scalar c < 128 then 1 else 2) s)"

definition trim_start :: "string \<Rightarrow> string" where
  "trim_start s = dropWhile is_whitespace s"

definition trim_end :: "string \<Rightarrow> string" where
  "trim_end s = rev (dropWhile is_whitespace (rev s))"

definition trim :: "string \<Rightarrow> string" where
  "trim s = trim_end (trim_start s)"

definition starts_with :: "string \<Rightarrow> string \<Rightarrow> bool" where
  "starts_with s p \<longleftrightarrow> take (length p) s = p"

definition ends_with :: "string \<Rightarrow> string \<Rightarrow> bool" where
  "ends_with s p \<longleftrightarrow> starts_with (rev s) (rev p)"

definition strip_suffix :: "string \<Rightarrow> string \<Rightarrow> string option" where
  "strip_suffix s p = (if ends_with s p then Some (take (length s - length p) s) else None)"

definition strip_prefix :: "string \<Rightarrow> string \<Rightarrow> string option" where
  "strip_prefix s p = (if starts_with s p then Some (drop (length p) s) else None)"

text \<open>\<open>str::split_whitespace\<close>: the maximal runs of other characters.\<close>

function split_whitespace :: "string \<Rightarrow> string list" where
  "split_whitespace s =
     (let t = dropWhile is_whitespace s in
      if t = [] then []
      else takeWhile (\<lambda>c. \<not> is_whitespace c) t
           # split_whitespace (dropWhile (\<lambda>c. \<not> is_whitespace c) t))"
  by pat_completeness auto

lemma dropWhile_strict_prefix:
  "dropWhile P s \<noteq> [] \<Longrightarrow>
   length (dropWhile (\<lambda>c. \<not> P c) (dropWhile P s)) < length s"
proof -
  assume ne: "dropWhile P s \<noteq> []"
  then have "\<not> P (hd (dropWhile P s))" by (rule hd_dropWhile)
  with ne have "length (dropWhile (\<lambda>c. \<not> P c) (dropWhile P s)) < length (dropWhile P s)"
    by (cases "dropWhile P s") (auto simp: le_imp_less_Suc length_dropWhile_le)
  also have "\<dots> \<le> length s" by (rule length_dropWhile_le)
  finally show ?thesis .
qed

termination split_whitespace
  by (relation "measure length") (auto simp: dropWhile_strict_prefix)

declare split_whitespace.simps [simp del]

fun join :: "string \<Rightarrow> string list \<Rightarrow> string" where
  "join sep [] = []"
| "join sep [x] = x"
| "join sep (x # y # ys) = x @ sep @ join sep (y # ys)"

text \<open>\<open>str::split\<close> on one character: \<open>n\<close> separators give \<open>n + 1\<close> parts.\<close>

fun split_on :: "char \<Rightarrow> string \<Rightarrow> string list" where
  "split_on d [] = [[]]"
| "split_on d (c # s) =
     (if c = d then [] # split_on d s
      else (case split_on d s of [] \<Rightarrow> [[c]] | p # ps \<Rightarrow> (c # p) # ps))"

text \<open>\<open>str::split_once\<close> on one character: at the first occurrence.\<close>

fun split_once :: "char \<Rightarrow> string \<Rightarrow> (string \<times> string) option" where
  "split_once d [] = None"
| "split_once d (c # s) =
     (if c = d then Some ([], s)
      else map_option (\<lambda>(a, b). (c # a, b)) (split_once d s))"

text \<open>Decimal parsing of an unsigned integer (an optional plus sign, then digits).\<close>

definition digit_value :: "char \<Rightarrow> nat" where
  "digit_value c = scalar c - 48"

definition decimal_value :: "string \<Rightarrow> nat" where
  "decimal_value s = foldl (\<lambda>n c. 10 * n + digit_value c) 0 s"

definition parse_unsigned :: "nat \<Rightarrow> string \<Rightarrow> nat option" where
  "parse_unsigned bits s =
     (let digits = (case s of c # t \<Rightarrow> if c = CHR ''+'' \<and> t \<noteq> [] then t else s | [] \<Rightarrow> []) in
      if digits \<noteq> [] \<and> list_all is_ascii_digit digits \<and> decimal_value digits < 2 ^ bits
      then Some (decimal_value digits) else None)"

text \<open>Decimal output of an unsigned integer.\<close>

fun show_nat :: "nat \<Rightarrow> string" where
  "show_nat n = (if n < 10 then [char_of (48 + n)] else show_nat (n div 10) @ [char_of (48 + n mod 10)])"

declare show_nat.simps [simp del]

lemma show_nat_digits: "show_nat n \<noteq> [] \<and> list_all is_ascii_digit (show_nat n)"
proof (induction n rule: show_nat.induct)
  case (1 n)
  have "is_ascii_digit (char_of (48 + m))" if "m < 10" for m :: nat
    using that by (simp add: is_ascii_digit_def)
  with 1 show ?case by (cases "n < 10") (simp_all add: show_nat.simps [of n])
qed

lemma to_ascii_lowercase_idem [simp]:
  "to_ascii_lowercase (to_ascii_lowercase s) = to_ascii_lowercase s"
  by (simp add: to_ascii_lowercase_def)

lemma to_lowercase_idem [simp]: "to_lowercase (to_lowercase s) = to_lowercase s"
  by (simp add: to_lowercase_def)

lemma to_lowercase_Nil [simp]: "to_lowercase [] = []"
  by (simp add: to_lowercase_def)

lemma length_le_utf8_len: "length s \<le> utf8_len s"
  by (induction s) (auto simp: utf8_len_def)

lemma utf8_len_Nil [simp]: "utf8_len [] = 0"
  by (simp add: utf8_len_def)

lemma utf8_len_ascii: "list_all (\<lambda>c. scalar c < 128) s \<Longrightarrow> utf8_len s = length s"
  by (induction s) (auto simp: utf8_len_def)

lemma hexdigit_ascii: "is_ascii_hexdigit c \<Longrightarrow> scalar c < 128"
  by (auto simp: char_class_defs)

lemma lower_hexdigit_is_hexdigit: "is_lower_hexdigit c \<Longrightarrow> is_ascii_hexdigit c"
  by (auto simp: char_class_defs)

lemma trim_start_no_leading: "trim_start s = [] \<or> \<not> is_whitespace (hd (trim_start s))"
  using hd_dropWhile [of is_whitespace s] by (auto simp: trim_start_def)

lemma trim_Nil_iff: "trim s = [] \<longleftrightarrow> list_all is_whitespace s"
proof
  assume "trim s = []"
  then have "\<forall>c\<in>set (dropWhile is_whitespace s). is_whitespace c"
    by (auto simp: trim_def trim_end_def trim_start_def)
  then have "dropWhile is_whitespace s = []"
    using hd_dropWhile [of is_whitespace s] list.set_sel(1) by blast
  then show "list_all is_whitespace s" by (simp add: list_all_iff)
next
  assume "list_all is_whitespace s"
  then show "trim s = []"
    by (auto simp: trim_def trim_end_def trim_start_def list_all_iff dest: set_dropWhileD)
qed

text \<open>Words without whitespace, joined by single spaces, split back into themselves.\<close>

definition is_word :: "string \<Rightarrow> bool" where
  "is_word w \<longleftrightarrow> w \<noteq> [] \<and> list_all (\<lambda>c. \<not> is_whitespace c) w"

lemma split_whitespace_words: "w \<in> set (split_whitespace s) \<Longrightarrow> is_word w"
proof (induction s rule: split_whitespace.induct)
  case (1 s)
  let ?t = "dropWhile is_whitespace s"
  show ?case
  proof (cases "?t = []")
    case True
    with "1.prems" show ?thesis by (simp add: split_whitespace.simps [of s])
  next
    case False
    then have "\<not> is_whitespace (hd ?t)" by (rule hd_dropWhile)
    with False have "is_word (takeWhile (\<lambda>c. \<not> is_whitespace c) ?t)"
      by (cases ?t) (auto simp: is_word_def list_all_iff dest: set_takeWhileD)
    moreover from False "1.prems"
    have "w = takeWhile (\<lambda>c. \<not> is_whitespace c) ?t
        \<or> w \<in> set (split_whitespace (dropWhile (\<lambda>c. \<not> is_whitespace c) ?t))"
      by (simp only: split_whitespace.simps [of s] Let_def if_False list.set insert_iff)
    ultimately show ?thesis using "1.IH" [OF refl False] by blast
  qed
qed

lemma split_whitespace_word_space:
  assumes "is_word w"
  shows "split_whitespace (w @ CHR '' '' # s) = w # split_whitespace s"
proof -
  have sp: "is_whitespace (CHR '' '')" by (simp add: is_whitespace_def scalar_def)
  obtain c cs where w: "w = c # cs" "\<not> is_whitespace c" "list_all (\<lambda>c. \<not> is_whitespace c) cs"
    using assms by (cases w) (auto simp: is_word_def)
  have tk: "takeWhile (\<lambda>c. \<not> is_whitespace c) (w @ CHR '' '' # s) = w"
    using assms sp by (simp add: is_word_def list_all_iff takeWhile_append2)
  have dr: "dropWhile (\<lambda>c. \<not> is_whitespace c) (w @ CHR '' '' # s) = CHR '' '' # s"
    using assms sp by (simp add: is_word_def list_all_iff dropWhile_append2)
  have eq: "split_whitespace (CHR '' '' # s) = split_whitespace s"
    using sp by (simp add: split_whitespace.simps [of s] split_whitespace.simps [of "CHR '' '' # s"])
  have "dropWhile is_whitespace (w @ CHR '' '' # s) = w @ CHR '' '' # s"
    using w by simp
  then show ?thesis
    using w(1) tk dr eq by (subst split_whitespace.simps) simp
qed

lemma split_whitespace_single:
  assumes "is_word w"
  shows "split_whitespace w = [w]"
proof -
  have all: "\<forall>c\<in>set w. \<not> is_whitespace c" and ne: "w \<noteq> []"
    using assms by (auto simp: is_word_def list_all_iff)
  have a: "dropWhile is_whitespace w = w" using all ne by (cases w) auto
  have b: "takeWhile (\<lambda>c. \<not> is_whitespace c) w = w" using all by (simp add: takeWhile_eq_all_conv)
  have c: "dropWhile (\<lambda>c. \<not> is_whitespace c) w = []" using all by simp
  have "split_whitespace [] = []" by (simp add: split_whitespace.simps [of "[]"])
  with a b c ne show ?thesis
    by (simp only: split_whitespace.simps [of w] Let_def a if_False b c)
qed

lemma split_whitespace_join:
  "\<forall>w\<in>set ws. is_word w \<Longrightarrow> split_whitespace (join '' '' ws) = ws"
proof (induction "'' ''" ws rule: join.induct)
  case 1
  show ?case by (simp add: split_whitespace.simps [of "[]"])
next
  case (2 x)
  then show ?case by (simp add: split_whitespace_single)
next
  case (3 x y ys)
  then show ?case using split_whitespace_word_space [of x "join '' '' (y # ys)"] by simp
qed

end
