(* ===== verification/Version_Order.thy ===== *)
theory Version_Order
  imports Text
begin

text \<open>
  The natural version order of \<open>src/model.rs\<close> (\<open>compare_versions\<close>, \<open>Chunk\<close>,
  \<open>version_chunks\<close>): digit runs compare as numbers, other runs as lower-cased text, a
  number outranks a text at the same position, a missing version is below any version.
  The order is shown to be the lexicographic order of the chunk lists, hence a total
  comparison, which is what \<open>sort_by\<close> needs of it.
\<close>

section \<open>Chunks\<close>

datatype chunk = Number u128 | Txt string

instantiation chunk :: linorder
begin

fun less_eq_chunk :: "chunk \<Rightarrow> chunk \<Rightarrow> bool" where
  "less_eq_chunk (Number x) (Number y) = (x \<le> y)"
| "less_eq_chunk (Txt x) (Txt y) = (x \<le> y)"
| "less_eq_chunk (Number _) (Txt _) = False"
| "less_eq_chunk (Txt _) (Number _) = True"

definition less_chunk :: "chunk \<Rightarrow> chunk \<Rightarrow> bool" where
  "less_chunk a b \<longleftrightarrow> a \<le> b \<and> \<not> b \<le> (a :: chunk)"

instance
proof
  fix a b c :: chunk
  show "a < b \<longleftrightarrow> a \<le> b \<and> \<not> b \<le> a" by (rule less_chunk_def)
  show "a \<le> a" by (cases a) auto
  show "a \<le> b \<Longrightarrow> b \<le> c \<Longrightarrow> a \<le> c" by (cases a; cases b; cases c) auto
  show "a \<le> b \<Longrightarrow> b \<le> a \<Longrightarrow> a = b" by (cases a; cases b) auto
  show "a \<le> b \<or> b \<le> a" by (cases a; cases b) auto
qed

end

lemma less_chunk_simps [simp]:
  "Number x < Number y \<longleftrightarrow> x < y"
  "Txt s < Txt t \<longleftrightarrow> s < t"
  "\<not> Number x < Txt t"
  "Txt s < Number y"
  by (auto simp: less_chunk_def less_le)

text \<open>The match on two chunks inside \<open>compare_versions\<close>.\<close>

fun compare_chunk :: "chunk \<Rightarrow> chunk \<Rightarrow> ordering" where
  "compare_chunk (Number x) (Number y) = cmp x y"
| "compare_chunk (Txt x) (Txt y) = cmp x y"
| "compare_chunk (Number _) (Txt _) = Greater"
| "compare_chunk (Txt _) (Number _) = Less"

lemma compare_chunk_cmp: "compare_chunk a b = cmp a b"
  by (cases a; cases b) (auto simp: cmp_def)

section \<open>Splitting a version\<close>

definition is_separator :: "char \<Rightarrow> bool" where
  "is_separator c \<longleftrightarrow> \<not> (is_ascii_digit c \<or> is_alphanumeric c)"

definition same_run :: "bool \<Rightarrow> char \<Rightarrow> bool" where
  "same_run numeric c \<longleftrightarrow> \<not> (is_ascii_digit c \<noteq> numeric \<or> \<not> is_alphanumeric c)"

definition make_chunk :: "bool \<Rightarrow> string \<Rightarrow> chunk" where
  "make_chunk numeric head =
     (if numeric then
        (case dropWhile (\<lambda>c. c = CHR ''0'') head of
           [] \<Rightarrow> Number 0
         | trimmed \<Rightarrow> (case parse_unsigned 128 trimmed of
                        Some number \<Rightarrow> Number (of_nat number)
                      | None \<Rightarrow> Txt head))
      else Txt (to_ascii_lowercase head))"

function chunks_from :: "string \<Rightarrow> chunk list" where
  "chunks_from rest =
     (case dropWhile is_separator rest of
        [] \<Rightarrow> []
      | first # tail \<Rightarrow>
          (let numeric = is_ascii_digit first in
           make_chunk numeric (takeWhile (same_run numeric) (first # tail))
           # chunks_from (dropWhile (same_run numeric) (first # tail))))"
  by pat_completeness auto

lemma same_run_first: "\<not> is_separator c \<Longrightarrow> same_run (is_ascii_digit c) c"
  by (auto simp: is_separator_def same_run_def)

lemma dropWhile_Cons_hd: "dropWhile P xs = y # ys \<Longrightarrow> \<not> P y"
  using hd_dropWhile [of P xs] by simp

lemma chunks_from_shorter:
  assumes "dropWhile is_separator rest = first # tail"
  shows "length (dropWhile (same_run (is_ascii_digit first)) (first # tail)) < length rest"
proof -
  have "same_run (is_ascii_digit first) first"
    using assms by (intro same_run_first) (rule dropWhile_Cons_hd)
  then have "length (dropWhile (same_run (is_ascii_digit first)) (first # tail)) < length (first # tail)"
    by (simp add: le_imp_less_Suc length_dropWhile_le)
  also have "\<dots> \<le> length rest"
    using length_dropWhile_le [of is_separator rest] assms by simp
  finally show ?thesis .
qed

termination chunks_from
  by (relation "measure length") (auto simp: chunks_from_shorter simp del: dropWhile.simps)

declare chunks_from.simps [simp del]

definition version_chunks :: "string \<Rightarrow> chunk list" where
  "version_chunks value = chunks_from (trim value)"

section \<open>Comparing versions\<close>

fun compare_chunks :: "chunk list \<Rightarrow> chunk list \<Rightarrow> ordering" where
  "compare_chunks [] [] = Equal"
| "compare_chunks [] (_ # _) = Less"
| "compare_chunks (_ # _) [] = Greater"
| "compare_chunks (a # left) (b # right) =
     (let ordering = compare_chunk a b in
      if ordering \<noteq> Equal then ordering else compare_chunks left right)"

fun compare_versions :: "string option \<Rightarrow> string option \<Rightarrow> ordering" where
  "compare_versions None None = Equal"
| "compare_versions None (Some _) = Less"
| "compare_versions (Some _) None = Greater"
| "compare_versions (Some left) (Some right) =
     compare_chunks (version_chunks left) (version_chunks right)"

lemma compare_chunks_cmp: "compare_chunks xs ys = cmp xs ys"
  by (induction xs ys rule: compare_chunks.induct) (auto simp: compare_chunk_cmp cmp_def Let_def)

text \<open>The reference order: a missing version first, then chunk lists lexicographically.\<close>

definition version_rank :: "string option \<Rightarrow> chunk list list" where
  "version_rank v = (case v of None \<Rightarrow> [] | Some s \<Rightarrow> [version_chunks s])"

lemma compare_versions_rank: "compare_versions v w = cmp (version_rank v) (version_rank w)"
  by (induction v w rule: compare_versions.induct)
     (auto simp: version_rank_def compare_chunks_cmp cmp_def)

interpretation version_cmp: total_comparison compare_versions
  unfolding compare_versions_rank [abs_def]
  by (rule total_comparison_on_key) (rule linorder_cmp.total_comparison_axioms)

lemma compare_versions_strict:
  "compare_versions v w = Less \<longleftrightarrow> version_rank v < version_rank w"
  "compare_versions v w = Equal \<longleftrightarrow> version_rank v = version_rank w"
  "compare_versions v w = Greater \<longleftrightarrow> version_rank w < version_rank v"
  by (simp_all add: compare_versions_rank)

section \<open>Leading zeros and separators\<close>

lemma chunks_from_Nil [simp]: "chunks_from [] = []"
  by (simp add: chunks_from.simps)

lemma chunks_from_separators:
  "list_all is_separator s \<Longrightarrow> chunks_from (s @ t) = chunks_from t"
proof -
  assume "list_all is_separator s"
  then have "dropWhile is_separator (s @ t) = dropWhile is_separator t"
    by (simp add: list_all_iff)
  then show ?thesis
    by (simp only: chunks_from.simps [of "s @ t"] chunks_from.simps [of t])
qed

text \<open>A run of digits followed by something else becomes one numeric chunk.\<close>

lemma chunks_from_digits:
  assumes "ds \<noteq> []" and "list_all is_ascii_digit ds"
    and "t = [] \<or> \<not> is_ascii_digit (hd t)"
  shows "chunks_from (ds @ t) = make_chunk True ds # chunks_from t"
proof -
  have digits: "\<forall>c\<in>set ds. same_run True c \<and> \<not> is_separator c"
    using assms(2) by (auto simp: same_run_def is_separator_def list_all_iff)
  have stop: "t = [] \<or> \<not> same_run True (hd t)"
    using assms(3) by (auto simp: same_run_def)
  obtain d ds' where ds: "ds = d # ds'" using assms(1) by (cases ds) auto
  have "is_ascii_digit d" using assms(2) ds by simp
  moreover have "dropWhile is_separator (ds @ t) = d # (ds' @ t)"
    using digits ds by simp
  moreover have "takeWhile (same_run True) (ds @ t) = ds"
    using digits stop by (cases t) (auto simp: takeWhile_append2)
  moreover have "dropWhile (same_run True) (ds @ t) = t"
    using digits stop by (cases t) (auto simp: dropWhile_append2)
  ultimately show ?thesis using ds by (subst chunks_from.simps) (simp add: Let_def)
qed

lemma decimal_value_Nil [simp]: "decimal_value [] = 0"
  by (simp add: decimal_value_def)

lemma decimal_value_zeros: "decimal_value (dropWhile (\<lambda>c. c = CHR ''0'') ds) = decimal_value ds"
  by (induction ds) (auto simp: decimal_value_def digit_value_def scalar_def)

lemma parse_unsigned_digits:
  assumes "ds \<noteq> []" and "list_all is_ascii_digit ds" and "decimal_value ds < 2 ^ n"
  shows "parse_unsigned n ds = Some (decimal_value ds)"
proof (cases ds)
  case (Cons c cs)
  with assms(2) have "c \<noteq> CHR ''+''" by (auto simp: is_ascii_digit_def scalar_def)
  with assms Cons show ?thesis by (simp add: parse_unsigned_def Let_def)
qed (use assms in simp)

lemma make_chunk_digits:
  assumes "list_all is_ascii_digit ds" and "decimal_value ds < 2 ^ 128"
  shows "make_chunk True ds = Number (of_nat (decimal_value ds))"
proof (cases "dropWhile (\<lambda>c. c = CHR ''0'') ds")
  case Nil
  then have "decimal_value ds = 0" using decimal_value_zeros [of ds] by (metis decimal_value_Nil)
  then show ?thesis unfolding make_chunk_def Nil by simp
next
  case (Cons c cs)
  have "list_all is_ascii_digit (c # cs)"
    using assms(1) Cons by (metis list_all_iff set_dropWhileD)
  then have "parse_unsigned 128 (c # cs) = Some (decimal_value ds)"
    using parse_unsigned_digits [of "c # cs" 128] assms(2) decimal_value_zeros [of ds] Cons by simp
  with Cons show ?thesis by (simp add: make_chunk_def)
qed

section \<open>Dotted numeric versions\<close>

definition numeric_component :: "string \<Rightarrow> bool" where
  "numeric_component d \<longleftrightarrow> d \<noteq> [] \<and> list_all is_ascii_digit d \<and> decimal_value d < 2 ^ 128"

lemma dot_separator: "is_separator (CHR ''.'')" "\<not> is_ascii_digit (CHR ''.'')"
  by (simp_all add: is_separator_def char_class_defs scalar_def)

lemma chunks_from_dotted:
  "list_all numeric_component ds \<Longrightarrow>
   chunks_from (join ''.'' ds) = map (\<lambda>d. Number (of_nat (decimal_value d))) ds"
proof (induction "''.''" ds rule: join.induct)
  case 1
  show ?case by simp
next
  case (2 d)
  then show ?case
    using chunks_from_digits [of d "[]"] by (simp add: numeric_component_def make_chunk_digits)
next
  case (3 d e ds)
  have "chunks_from (CHR ''.'' # join ''.'' (e # ds)) = chunks_from (join ''.'' (e # ds))"
    using chunks_from_separators [of "''.''"] dot_separator by simp
  with 3 show ?case
    using chunks_from_digits [of d "CHR ''.'' # join ''.'' (e # ds)"] dot_separator
    by (simp add: numeric_component_def make_chunk_digits)
qed

lemma set_join: "set (join sep ws) \<subseteq> set sep \<union> \<Union> (set ` set ws)"
  by (induction sep ws rule: join.induct) auto

lemma trim_no_whitespace: "list_all (\<lambda>c. \<not> is_whitespace c) s \<Longrightarrow> trim s = s"
proof -
  assume *: "list_all (\<lambda>c. \<not> is_whitespace c) s"
  then have "dropWhile is_whitespace s = s" by (cases s) auto
  moreover from * have "dropWhile is_whitespace (rev s) = rev s"
    by (cases "rev s") (auto simp: list_all_iff dest: arg_cong [where f = set])
  ultimately show ?thesis by (simp add: trim_def trim_start_def trim_end_def)
qed

lemma version_chunks_dotted:
  assumes "list_all numeric_component ds"
  shows "version_chunks (join ''.'' ds) = map (\<lambda>d. Number (of_nat (decimal_value d))) ds"
proof -
  have "list_all (\<lambda>c. \<not> is_whitespace c) (join ''.'' ds)"
    unfolding list_all_iff
  proof
    fix c assume "c \<in> set (join ''.'' ds)"
    then have "c = CHR ''.'' \<or> is_ascii_digit c"
      using set_join [of "''.''" ds] assms by (auto simp: numeric_component_def list_all_iff)
    then show "\<not> is_whitespace c" by (auto simp: char_class_defs scalar_def)
  qed
  then show ?thesis using assms by (simp add: version_chunks_def trim_no_whitespace chunks_from_dotted)
qed

lemma cmp_map_Number:
  "\<forall>x\<in>set xs \<union> set ys. x < 2 ^ 128 \<Longrightarrow>
   cmp (map (\<lambda>n. Number (of_nat n)) xs) (map (\<lambda>n. Number (of_nat n)) ys) = cmp xs (ys :: nat list)"
proof (induction xs ys rule: list_induct2')
  case (4 x xs y ys)
  have "unat (of_nat x :: u128) = x" "unat (of_nat y :: u128) = y"
    using 4(2) by (simp_all add: unat_of_nat)
  then have "(of_nat x :: u128) < of_nat y \<longleftrightarrow> x < y" "(of_nat x :: u128) = of_nat y \<longleftrightarrow> x = y"
    by (simp_all add: word_less_nat_alt) metis
  with 4 show ?case by (auto simp: cmp_def split: if_splits)
qed (auto simp: cmp_def)

text \<open>
  The version order is a total comparison: it is the lexicographic order of the
  chunk lists with a missing version at the bottom, so it is reflexive, dual under
  exchange and transitive, which \<open>slice::sort_by\<close> requires and the survivor choice of
  the de-duplication rests on.
\<close>

theorem compare_versions_total_order:
  "total_comparison compare_versions
   \<and> (\<forall>v w. compare_versions v w = cmp (version_rank v) (version_rank w))"
  by (simp add: version_cmp.total_comparison_axioms compare_versions_rank)

text \<open>
  Versions made of dotted decimal components compare as the lists of the component
  numbers, whatever the digit counts and leading zeros: the reason the function exists.
\<close>

theorem dotted_versions_compare_as_numbers:
  assumes "list_all numeric_component xs" and "list_all numeric_component ys"
  shows "compare_versions (Some (join ''.'' xs)) (Some (join ''.'' ys))
       = cmp (map decimal_value xs) (map decimal_value ys)"
proof -
  have "\<forall>n\<in>set (map decimal_value xs) \<union> set (map decimal_value ys). n < 2 ^ 128"
    using assms by (auto simp: list_all_iff numeric_component_def)
  from cmp_map_Number [OF this] show ?thesis
    using assms by (simp add: compare_chunks_cmp version_chunks_dotted o_def)
qed

theorem dotted_versions_compare_as_numbers_witness:
  "compare_versions (Some ''1.10.08029'') (Some ''1.9.8029'') = Greater"
proof -
  have "list_all numeric_component [''1'', ''10'', ''08029'']"
    and "list_all numeric_component [''1'', ''9'', ''8029'']"
    by (simp_all add: numeric_component_def is_ascii_digit_def scalar_def decimal_value_def
        digit_value_def)
  from dotted_versions_compare_as_numbers [OF this] show ?thesis
    by (simp add: decimal_value_def digit_value_def scalar_def cmp_def)
qed

end
