(* ===== verification/Btree.thy ===== *)
theory Btree
  imports Prelude
begin

text \<open>
  \<open>std::collections::BTreeMap\<close> as an association list in strictly ascending key order,
  the order in which the source iterates it. Insertion replaces the value of a present
  key; \<open>collect\<close> inserts from left to right, so the last value of a key wins.
\<close>

type_synonym ('k, 'v) btree = "('k \<times> 'v) list"

fun btree_insert :: "'k::linorder \<Rightarrow> 'v \<Rightarrow> ('k, 'v) btree \<Rightarrow> ('k, 'v) btree" where
  "btree_insert k v [] = [(k, v)]"
| "btree_insert k v ((l, w) # m) =
     (if k < l then (k, v) # (l, w) # m
      else if k = l then (k, v) # m
      else (l, w) # btree_insert k v m)"

definition btree_get :: "('k, 'v) btree \<Rightarrow> 'k \<Rightarrow> 'v option" where
  "btree_get m k = map_of m k"

definition btree_collect :: "('k::linorder \<times> 'v) list \<Rightarrow> ('k, 'v) btree" where
  "btree_collect kvs = foldl (\<lambda>m (k, v). btree_insert k v m) [] kvs"

definition btree_wf :: "('k::linorder, 'v) btree \<Rightarrow> bool" where
  "btree_wf m \<longleftrightarrow> sorted_wrt (<) (map fst m)"

lemma btree_insert_keys: "fst ` set (btree_insert k v m) = insert k (fst ` set m)"
  by (induction k v m rule: btree_insert.induct) (simp_all add: insert_commute)

lemma btree_wf_insert: "btree_wf m \<Longrightarrow> btree_wf (btree_insert k v m)"
proof (induction m)
  case Nil
  then show ?case by (simp add: btree_wf_def)
next
  case (Cons a m)
  obtain l w where [simp]: "a = (l, w)" by (cases a)
  from Cons.prems have l: "\<forall>x\<in>fst ` set m. l < x" and m: "btree_wf m"
    by (auto simp: btree_wf_def)
  from Cons.IH [OF m] have "btree_wf (btree_insert k v m)" .
  moreover have "\<forall>x\<in>fst ` set (btree_insert k v m). l < x" if "l < k"
    using l that unfolding btree_insert_keys by auto
  ultimately show ?case using l m by (auto simp: btree_wf_def image_iff)
qed

lemma btree_get_insert:
  "btree_wf m \<Longrightarrow> btree_get (btree_insert k v m) = (btree_get m)(k := Some v)"
proof (induction m)
  case (Cons a m)
  obtain l w where [simp]: "a = (l, w)" by (cases a)
  from Cons.prems have "btree_wf m" and l: "\<forall>x\<in>fst ` set m. l < x"
    by (auto simp: btree_wf_def)
  have "k < l \<Longrightarrow> map_of m k = None"
    using l by (metis map_of_eq_None_iff order.asym)
  with Cons.IH [OF \<open>btree_wf m\<close>] show ?case
    by (auto simp: btree_get_def fun_eq_iff)
qed (simp add: btree_get_def fun_eq_iff)

lemma btree_wf_Nil [simp]: "btree_wf []"
  by (simp add: btree_wf_def)

text \<open>
  The interface the clients rely on: what a lookup returns after an insertion, and that
  insertion keeps the representation sorted.
\<close>

locale ordered_map =
  fixes empty :: 'm
    and insert_kv :: "'k \<Rightarrow> 'v \<Rightarrow> 'm \<Rightarrow> 'm"
    and lookup :: "'m \<Rightarrow> 'k \<Rightarrow> 'v option"
    and inv :: "'m \<Rightarrow> bool"
  assumes inv_empty: "inv empty"
    and lookup_empty: "lookup empty k = None"
    and inv_insert: "inv m \<Longrightarrow> inv (insert_kv k v m)"
    and lookup_insert: "inv m \<Longrightarrow> lookup (insert_kv k v m) = (lookup m)(k := Some v)"
begin

lemma lookup_insert_same: "inv m \<Longrightarrow> lookup (insert_kv k v m) k = Some v"
  by (simp add: lookup_insert)

lemma lookup_insert_other: "inv m \<Longrightarrow> l \<noteq> k \<Longrightarrow> lookup (insert_kv k v m) l = lookup m l"
  by (simp add: lookup_insert)

lemma insert_all:
  "inv m \<Longrightarrow> inv (foldl (\<lambda>m (k, v). insert_kv k v m) m kvs)
    \<and> lookup (foldl (\<lambda>m (k, v). insert_kv k v m) m kvs) = lookup m ++ map_of (rev kvs)"
proof (induction kvs arbitrary: m)
  case (Cons a kvs)
  obtain k v where a: "a = (k, v)" by (cases a)
  from Cons.IH [OF inv_insert [OF Cons.prems, of k v]] show ?case
    using Cons.prems by (simp add: a lookup_insert map_add_def fun_eq_iff split: option.splits)
qed simp

end

interpretation bt: ordered_map "[]" btree_insert btree_get "btree_wf :: ('k::linorder, 'v) btree \<Rightarrow> bool"
  by unfold_locales (simp_all add: btree_wf_insert btree_get_insert, simp add: btree_get_def)

lemma btree_wf_collect [simp]: "btree_wf (btree_collect kvs)"
  using bt.insert_all [of "[]" kvs] by (simp add: btree_collect_def)

lemma btree_get_collect: "btree_get (btree_collect kvs) = map_of (rev kvs)"
  using bt.insert_all [of "[]" kvs] by (simp add: btree_collect_def btree_get_def fun_eq_iff map_add_def split: option.splits)

lemma btree_wf_distinct: "btree_wf m \<Longrightarrow> distinct (map fst m)"
  by (simp add: btree_wf_def strict_sorted_iff)

lemma btree_get_iff: "btree_wf m \<Longrightarrow> btree_get m k = Some v \<longleftrightarrow> (k, v) \<in> set m"
  by (simp add: btree_get_def btree_wf_distinct)

end
