(* ===== verification/Inventory_Model.thy ===== *)
theory Inventory_Model
  imports Version_Order Btree
begin

text \<open>
  The wire and domain model of \<open>src/model.rs\<close>: snapshots, software entries, endpoint
  identifiers and collection sources, the per-entry normalisation, the product and
  installation identities and their hash input. The SHA-256 function is a parameter
  \<open>sha\<close> from bytes to bytes.
\<close>

section \<open>Enumerations\<close>

datatype software_source =
    Apt | Dpkg | Rpm | Winreg | Msi | Brew | Pip | Npm | Java | Kb | Pacman | MacBundle | Other

fun source_rank :: "software_source \<Rightarrow> nat" where
  "source_rank Apt = 0"
| "source_rank Dpkg = 1"
| "source_rank Rpm = 2"
| "source_rank Winreg = 3"
| "source_rank Msi = 4"
| "source_rank Brew = 5"
| "source_rank Pip = 6"
| "source_rank Npm = 7"
| "source_rank Java = 8"
| "source_rank Kb = 9"
| "source_rank Pacman = 10"
| "source_rank MacBundle = 11"
| "source_rank Other = 12"

lemma source_rank_inject: "source_rank a = source_rank b \<longleftrightarrow> a = b"
  by (cases a; cases b) simp_all

instantiation software_source :: linorder
begin

definition less_eq_software_source :: "software_source \<Rightarrow> software_source \<Rightarrow> bool" where
  "a \<le> b \<longleftrightarrow> source_rank a \<le> source_rank b"

definition less_software_source :: "software_source \<Rightarrow> software_source \<Rightarrow> bool" where
  "a < b \<longleftrightarrow> source_rank a < source_rank b"

instance
  by standard (auto simp: less_eq_software_source_def less_software_source_def source_rank_inject)

end

fun source_as_str :: "software_source \<Rightarrow> string" where
  "source_as_str Apt = ''apt''"
| "source_as_str Dpkg = ''dpkg''"
| "source_as_str Rpm = ''rpm''"
| "source_as_str Winreg = ''winreg''"
| "source_as_str Msi = ''msi''"
| "source_as_str Brew = ''brew''"
| "source_as_str Pip = ''pip''"
| "source_as_str Npm = ''npm''"
| "source_as_str Java = ''java''"
| "source_as_str Kb = ''kb''"
| "source_as_str Pacman = ''pacman''"
| "source_as_str MacBundle = ''mac_bundle''"
| "source_as_str Other = ''other''"

definition source_from_raw :: "string \<Rightarrow> software_source" where
  "source_from_raw raw =
     (let r = to_ascii_lowercase raw in
      if r = ''apt'' then Apt
      else if r = ''dpkg'' then Dpkg
      else if r = ''rpm'' then Rpm
      else if r = ''winreg'' then Winreg
      else if r = ''msi'' then Msi
      else if r = ''brew'' then Brew
      else if r = ''pip'' \<or> r = ''python'' then Pip
      else if r = ''npm'' \<or> r = ''node'' \<or> r = ''nodejs'' then Npm
      else if r = ''java'' \<or> r = ''jar'' \<or> r = ''jdk'' \<or> r = ''jre'' then Java
      else if r = ''kb'' \<or> r = ''msu'' \<or> r = ''hotfix'' then Kb
      else if r = ''pacman'' then Pacman
      else if r = ''mac_bundle'' then MacBundle
      else Other)"

datatype identifier_type = MacHash | SerialHash | BiosUuidHash | TpmEkHash

fun identifier_rank :: "identifier_type \<Rightarrow> nat" where
  "identifier_rank MacHash = 0"
| "identifier_rank SerialHash = 1"
| "identifier_rank BiosUuidHash = 2"
| "identifier_rank TpmEkHash = 3"

lemma identifier_rank_inject: "identifier_rank a = identifier_rank b \<longleftrightarrow> a = b"
  by (cases a; cases b) simp_all

instantiation identifier_type :: linorder
begin

definition less_eq_identifier_type :: "identifier_type \<Rightarrow> identifier_type \<Rightarrow> bool" where
  "a \<le> b \<longleftrightarrow> identifier_rank a \<le> identifier_rank b"

definition less_identifier_type :: "identifier_type \<Rightarrow> identifier_type \<Rightarrow> bool" where
  "a < b \<longleftrightarrow> identifier_rank a < identifier_rank b"

instance
  by standard
     (auto simp: less_eq_identifier_type_def less_identifier_type_def identifier_rank_inject)

end

datatype installation_scope = SystemScope | UserScope | RuntimeScope | ContainerScope

fun scope_name :: "installation_scope \<Rightarrow> string" where
  "scope_name SystemScope = ''system''"
| "scope_name UserScope = ''user''"
| "scope_name RuntimeScope = ''runtime''"
| "scope_name ContainerScope = ''container''"

datatype collection_status = Complete | Partial | Failed | NotApplicable

section \<open>Structs\<close>

record endpoint_identifier =
  identifier_type :: identifier_type
  value_hash :: string

record software_entry =
  se_name :: string
  se_version :: "string option"
  se_publisher :: "string option"
  se_architecture :: "string option"
  se_source :: software_source
  se_install_location :: "string option"
  se_product_identity :: "string option"
  se_installation_identity :: "string option"
  se_package_id :: "string option"
  se_scope :: "installation_scope option"
  se_install_instance_id :: "string option"

record collection_source =
  cs_source :: software_source
  cs_status :: collection_status
  cs_collected_at :: string
  cs_last_complete_at :: "string option"
  cs_collector_version :: string
  cs_diagnostic_code :: "string option"

record inventory_snapshot =
  schema_version :: u16
  snapshot_id :: string
  agent_id :: string
  collected_at :: string
  hostname :: string
  os_family :: "string option"
  os_name :: "string option"
  os_version :: "string option"
  os_arch :: "string option"
  agent_version :: string
  labels :: "(string, string) btree"
  identifiers :: "endpoint_identifier list"
  software :: "software_entry list"
  collector_warnings :: "string list"
  sources :: "collection_source list"

definition INVENTORY_SCHEMA_VERSION :: u16 where
  "INVENTORY_SCHEMA_VERSION = 2"

definition LEGACY_INVENTORY_SCHEMA_VERSION :: u16 where
  "LEGACY_INVENTORY_SCHEMA_VERSION = 1"

lemma schema_versions_differ [simp]:
  "LEGACY_INVENTORY_SCHEMA_VERSION \<noteq> INVENTORY_SCHEMA_VERSION"
  "INVENTORY_SCHEMA_VERSION \<noteq> LEGACY_INVENTORY_SCHEMA_VERSION"
  by (simp_all add: INVENTORY_SCHEMA_VERSION_def LEGACY_INVENTORY_SCHEMA_VERSION_def)

text \<open>
  \<open>CollectionSource::new\<close>: the current time, formatted, and the package version are
  arguments.
\<close>

definition collection_source_new ::
  "string \<Rightarrow> string \<Rightarrow> software_source \<Rightarrow> collection_status \<Rightarrow> string option
   \<Rightarrow> collection_source" where
  "collection_source_new now pkg_version source status diagnostic_code =
     \<lparr>cs_source = source, cs_status = status, cs_collected_at = now,
      cs_last_complete_at = (if status = Complete then Some now else None),
      cs_collector_version = pkg_version, cs_diagnostic_code = diagnostic_code\<rparr>"

section \<open>Identity hashing\<close>

definition utf8_char :: "char \<Rightarrow> u8 list" where
  "utf8_char c = (if scalar c < 128 then [of_nat (scalar c)]
                  else [of_nat (192 + scalar c div 64), of_nat (128 + scalar c mod 64)])"

definition utf8 :: "string \<Rightarrow> u8 list" where
  "utf8 s = concat (map utf8_char s)"

text \<open>\<open>u64::to_be_bytes\<close>.\<close>

definition to_be_bytes :: "u64 \<Rightarrow> u8 list" where
  "to_be_bytes n = map (\<lambda>i. of_nat (unat n div 256 ^ i mod 256)) (rev [0..<8])"

definition identity_preimage :: "string list \<Rightarrow> u8 list" where
  "identity_preimage parts =
     concat (map (\<lambda>part. to_be_bytes (of_nat (utf8_len part)) @ utf8 part) parts)"

definition hex_digit :: "nat \<Rightarrow> char" where
  "hex_digit n = (if n < 10 then char_of (48 + n) else char_of (87 + n))"

definition hex_lower :: "u8 list \<Rightarrow> string" where
  "hex_lower bytes = concat (map (\<lambda>b. [hex_digit (unat b div 16), hex_digit (unat b mod 16)]) bytes)"

definition hash_identity :: "(u8 list \<Rightarrow> u8 list) \<Rightarrow> string list \<Rightarrow> string" where
  "hash_identity sha parts = hex_lower (sha (identity_preimage parts))"

section \<open>Normalisation of strings and entries\<close>

definition normalize_required_string :: "string \<Rightarrow> string" where
  "normalize_required_string value = join '' '' (split_whitespace value)"

definition normalize_optional_string :: "string option \<Rightarrow> string option" where
  "normalize_optional_string value =
     option_filter (\<lambda>v. v \<noteq> []) (map_option normalize_required_string value)"

definition normalize_architecture :: "string \<Rightarrow> string" where
  "normalize_architecture value =
     (let v = to_ascii_lowercase value in
      if v = ''amd64'' \<or> v = ''x64'' then ''x86_64''
      else if v = ''arm64'' then ''aarch64''
      else v)"

definition entry_normalize :: "software_entry \<Rightarrow> software_entry" where
  "entry_normalize e = e\<lparr>
     se_name := normalize_required_string (se_name e),
     se_version := normalize_optional_string (se_version e),
     se_publisher := normalize_optional_string (se_publisher e),
     se_architecture :=
       map_option normalize_architecture (normalize_optional_string (se_architecture e)),
     se_install_location := normalize_optional_string (se_install_location e)\<rparr>"

definition comparison_key :: "software_entry \<Rightarrow> string" where
  "comparison_key e =
     to_lowercase (se_name e) @ ''|'' @ to_lowercase (unwrap_or (se_publisher e) [])
     @ ''|'' @ to_lowercase (unwrap_or (se_architecture e) []) @ ''|''
     @ source_as_str (se_source e)"

definition identity_key :: "u16 \<Rightarrow> software_entry \<Rightarrow> string" where
  "identity_key schema e =
     (if schema = INVENTORY_SCHEMA_VERSION
      then unwrap_or (se_installation_identity e) (comparison_key e)
      else comparison_key e)"

definition with_instance ::
  "(u8 list \<Rightarrow> u8 list) \<Rightarrow> software_entry \<Rightarrow> string option \<Rightarrow> installation_scope \<Rightarrow> string
   \<Rightarrow> software_entry" where
  "with_instance sha e package_id scope private_instance = e\<lparr>
     se_package_id := package_id,
     se_scope := Some scope,
     se_install_instance_id :=
       Some (hash_identity sha [''lariska-install-instance-v2'', private_instance])\<rparr>"

definition default_scope :: "software_source \<Rightarrow> installation_scope" where
  "default_scope src = (if src \<in> {Pip, Npm, Java} then RuntimeScope else SystemScope)"

definition instance_source :: "software_entry \<Rightarrow> string" where
  "instance_source e =
     unwrap_or (option_or (se_install_location e) (se_package_id e))
               (unwrap_or (se_version e) ''unknown'')"

definition ensure_installation_identity ::
  "(u8 list \<Rightarrow> u8 list) \<Rightarrow> software_entry \<Rightarrow> software_entry" where
  "ensure_installation_identity sha e0 =
     (let e1 = entry_normalize e0;
          e2 = e1\<lparr>se_package_id := normalize_optional_string (se_package_id e1)\<rparr>;
          scope = unwrap_or (se_scope e2) (default_scope (se_source e2));
          e3 = e2\<lparr>se_scope := Some scope\<rparr>;
          product = comparison_key e3;
          e4 = (if se_install_instance_id e3 = None
                then e3\<lparr>se_install_instance_id :=
                  Some (hash_identity sha [''lariska-install-instance-v2'', instance_source e3])\<rparr>
                else e3);
          e5 = e4\<lparr>se_installation_identity := Some (hash_identity sha
                 [''lariska-installation-v2'', product, unwrap_or (se_package_id e4) [],
                  scope_name scope, unwrap_or (se_install_instance_id e4) []])\<rparr>
      in e5\<lparr>se_product_identity := Some product, se_install_location := None\<rparr>)"

section \<open>Properties of the entry operations\<close>

lemma normalize_required_idem [simp]:
  "normalize_required_string (normalize_required_string s) = normalize_required_string s"
  by (simp add: normalize_required_string_def split_whitespace_join split_whitespace_words)

lemma normalize_optional_idem [simp]:
  "normalize_optional_string (normalize_optional_string v) = normalize_optional_string v"
  by (cases v) (simp_all add: normalize_optional_string_def)

lemma normalize_optional_Some:
  "normalize_optional_string v = Some s \<Longrightarrow> s \<noteq> [] \<and> normalize_required_string s = s"
  by (cases v) (auto simp: normalize_optional_string_def split: if_splits)

lemma ascii_lower_space [simp]: "ascii_lower (CHR '' '') = CHR '' ''"
  by (simp add: ascii_lower_def is_ascii_uppercase_def scalar_def)

lemma map_ascii_lower_join:
  "map ascii_lower (join '' '' ws) = join '' '' (map (map ascii_lower) ws)"
  by (induction "'' ''" ws rule: join.induct) simp_all

lemma is_word_ascii_lower: "is_word w \<Longrightarrow> is_word (map ascii_lower w)"
  by (auto simp: is_word_def list_all_iff)

lemma normalize_required_lowercase:
  assumes "normalize_required_string s = s"
  shows "normalize_required_string (to_ascii_lowercase s) = to_ascii_lowercase s"
proof -
  define ws where "ws = split_whitespace s"
  have s: "s = join '' '' ws"
    using assms by (simp add: normalize_required_string_def ws_def)
  have "\<forall>w\<in>set (map (map ascii_lower) ws). is_word w"
    by (auto simp: ws_def intro: is_word_ascii_lower split_whitespace_words)
  then show ?thesis
    by (simp add: s to_ascii_lowercase_def map_ascii_lower_join normalize_required_string_def
        split_whitespace_join)
qed

lemma architecture_constants:
  "normalize_required_string ''x86_64'' = ''x86_64''"
  "normalize_required_string ''aarch64'' = ''aarch64''"
  by (simp_all add: normalize_required_string_def split_whitespace_single is_word_def
      is_whitespace_def scalar_def)

lemma normalize_architecture_fixed:
  assumes "normalize_required_string s = s"
  shows "normalize_required_string (normalize_architecture s) = normalize_architecture s"
  using normalize_required_lowercase [OF assms]
  by (simp add: normalize_architecture_def Let_def architecture_constants)

lemma to_ascii_lowercase_constants:
  "to_ascii_lowercase ''x86_64'' = ''x86_64''" "to_ascii_lowercase ''aarch64'' = ''aarch64''"
  by (simp_all add: to_ascii_lowercase_def ascii_lower_def is_ascii_uppercase_def scalar_def)

lemma normalize_architecture_idem [simp]:
  "normalize_architecture (normalize_architecture s) = normalize_architecture s"
  by (auto simp: normalize_architecture_def Let_def to_ascii_lowercase_constants)

lemma normalize_architecture_nonempty: "s \<noteq> [] \<Longrightarrow> normalize_architecture s \<noteq> []"
  by (auto simp: normalize_architecture_def Let_def to_ascii_lowercase_def)

lemma normalize_optional_architecture:
  "normalize_optional_string (map_option normalize_architecture (normalize_optional_string v))
   = map_option normalize_architecture (normalize_optional_string v)"
proof (cases "normalize_optional_string v")
  case (Some s)
  from normalize_optional_Some [OF this] show ?thesis
    using Some by (simp add: normalize_optional_string_def normalize_architecture_fixed
        normalize_architecture_nonempty)
qed (simp add: normalize_optional_string_def)

lemma entry_normalize_idem [simp]: "entry_normalize (entry_normalize e) = entry_normalize e"
  by (simp add: entry_normalize_def normalize_optional_architecture option.map_comp o_def)

lemma ensure_identity_fields:
  "se_installation_identity (ensure_installation_identity sha e) \<noteq> None"
  "se_install_instance_id (ensure_installation_identity sha e) \<noteq> None"
  "se_scope (ensure_installation_identity sha e) \<noteq> None"
  "se_install_location (ensure_installation_identity sha e) = None"
  by (simp_all add: ensure_installation_identity_def Let_def entry_normalize_def)

lemma comparison_key_frame [simp]:
  "comparison_key (e\<lparr>se_package_id := a\<rparr>) = comparison_key e"
  "comparison_key (e\<lparr>se_scope := b\<rparr>) = comparison_key e"
  "comparison_key (e\<lparr>se_install_instance_id := c\<rparr>) = comparison_key e"
  "comparison_key (e\<lparr>se_installation_identity := d\<rparr>) = comparison_key e"
  "comparison_key (e\<lparr>se_product_identity := d\<rparr>) = comparison_key e"
  "comparison_key (e\<lparr>se_install_location := d\<rparr>) = comparison_key e"
  by (simp_all add: comparison_key_def)

lemma normalize_ensure: "entry_normalize (ensure_installation_identity sha e) =
    ensure_installation_identity sha e"
  by (simp add: ensure_installation_identity_def entry_normalize_def Let_def
      normalize_optional_architecture option.map_comp o_def normalize_optional_string_def
      [of None])

lemma ensure_identity_idem [simp]:
  "ensure_installation_identity sha (ensure_installation_identity sha e)
   = ensure_installation_identity sha e"
proof -
  let ?e = "ensure_installation_identity sha e"
  have n: "entry_normalize ?e = ?e" by (rule normalize_ensure)
  have p: "normalize_optional_string (se_package_id ?e) = se_package_id ?e"
    by (simp add: ensure_installation_identity_def Let_def)
  have k: "se_product_identity ?e = Some (comparison_key ?e)"
    by (simp add: ensure_installation_identity_def Let_def)
  obtain sc where s: "se_scope ?e = Some sc" using ensure_identity_fields(3) [of sha e] by auto
  obtain i where i: "se_install_instance_id ?e = Some i"
    using ensure_identity_fields(2) [of sha e] by auto
  have h: "se_installation_identity ?e = Some (hash_identity sha
      [''lariska-installation-v2'', comparison_key ?e, unwrap_or (se_package_id ?e) [],
       scope_name sc, i])"
    using s i by (auto simp: ensure_installation_identity_def Let_def)
  have "se_install_location ?e = None" by (rule ensure_identity_fields)
  with n p k s i h show ?thesis
    by (subst ensure_installation_identity_def) (simp add: Let_def)
qed

section \<open>Injectivity of the hash input\<close>

lemma length_utf8: "length (utf8 s) = utf8_len s"
  by (induction s) (auto simp: utf8_def utf8_len_def utf8_char_def)

lemma length_to_be_bytes [simp]: "length (to_be_bytes n) = 8"
  by (simp add: to_be_bytes_def)

lemma base256_digits_eq:
  "\<forall>i<k. a div 256 ^ i mod 256 = b div 256 ^ i mod (256::nat) \<Longrightarrow> a mod 256 ^ k = b mod 256 ^ k"
proof (induction k)
  case (Suc k)
  then have "a mod 256 ^ k = b mod 256 ^ k" and "a div 256 ^ k mod 256 = b div 256 ^ k mod 256"
    by auto
  then show ?case
    using mod_mult2_eq [of a "256 ^ k" 256] mod_mult2_eq [of b "256 ^ k" 256]
    by (simp add: mult.commute)
qed simp

lemma of_nat_u8_eq: "m < 256 \<Longrightarrow> n < 256 \<Longrightarrow> (of_nat m :: u8) = of_nat n \<longleftrightarrow> m = n"
  by (auto dest!: arg_cong [where f = unat] simp: unat_of_nat)

lemma to_be_bytes_inject: "to_be_bytes m = to_be_bytes n \<longleftrightarrow> m = n"
proof
  assume "to_be_bytes m = to_be_bytes n"
  then have "\<forall>i<8. unat m div 256 ^ i mod 256 = unat n div 256 ^ i mod 256"
    by (auto simp: to_be_bytes_def of_nat_u8_eq)
  then have "unat m mod 256 ^ 8 = unat n mod 256 ^ 8" by (rule base256_digits_eq)
  then show "m = n" using unat_lt_u64 [of m] unat_lt_u64 [of n] by (simp add: word_unat_eq_iff)
qed simp

lemma utf8_char_prefix:
  "utf8_char c @ xs = utf8_char d @ ys \<Longrightarrow> c = d \<and> xs = ys"
proof -
  assume eq: "utf8_char c @ xs = utf8_char d @ ys"
  have "scalar c div 64 < 4" "scalar d div 64 < 4"
    using scalar_less [of c] scalar_less [of d] by auto
  moreover have "scalar c mod 64 < 64" "scalar d mod 64 < 64" by auto
  ultimately have "(scalar c div 64 = scalar d div 64 \<and> scalar c mod 64 = scalar d mod 64
      \<or> scalar c = scalar d) \<and> xs = ys"
    using eq scalar_less [of c] scalar_less [of d]
    by (auto simp: utf8_char_def of_nat_u8_eq simp del: of_nat_add split: if_splits)
  moreover have "scalar c div 64 = scalar d div 64 \<and> scalar c mod 64 = scalar d mod 64
      \<Longrightarrow> scalar c = scalar d"
    by (metis div_mult_mod_eq)
  ultimately show ?thesis by (auto simp: scalar_eq_iff)
qed

lemma utf8_inject: "utf8 s = utf8 t \<Longrightarrow> s = t"
proof (induction s arbitrary: t)
  case Nil
  then show ?case by (cases t) (auto simp: utf8_def utf8_char_def split: if_splits)
next
  case (Cons c s)
  then show ?case
  proof (cases t)
    case Nil
    with Cons.prems show ?thesis by (auto simp: utf8_def utf8_char_def split: if_splits)
  next
    case (Cons d t')
    with Cons.prems have "c = d \<and> utf8 s = utf8 t'"
      using utf8_char_prefix [of c "utf8 s" d "utf8 t'"] by (simp add: utf8_def)
    with Cons Cons.IH show ?thesis by simp
  qed
qed



end
