(* ===== verification/Snapshot.thy ===== *)
theory Snapshot
  imports Inventory_Model
begin

text \<open>
  Construction and normalisation of \<open>InventorySnapshot\<close> in \<open>src/model.rs\<close>: \<open>new\<close>,
  \<open>new_v2\<close>, \<open>into_v1\<close>, \<open>normalize\<close> and \<open>deduplicate_software\<close>. The lemmas show
  that normalisation leaves one entry per identity key in ascending key order, that the
  survivor of a key is a newest entry of it, and that normalising twice changes nothing.
\<close>

section \<open>Operations\<close>

definition compare_identifiers :: "endpoint_identifier \<Rightarrow> endpoint_identifier \<Rightarrow> ordering" where
  "compare_identifiers l r =
     then_with (cmp (identifier_type l) (identifier_type r)) (cmp (value_hash l) (value_hash r))"

definition compare_entries :: "u16 \<Rightarrow> software_entry \<Rightarrow> software_entry \<Rightarrow> ordering" where
  "compare_entries schema l r =
     then_with (cmp (identity_key schema l) (identity_key schema r))
               (compare_versions (se_version r) (se_version l))"

text \<open>The body of the loop over the entries in \<open>normalize\<close>, after \<open>SoftwareEntry::normalize\<close>.\<close>

definition prepare_entry ::
  "(u8 list \<Rightarrow> u8 list) \<Rightarrow> u16 \<Rightarrow> string \<Rightarrow> software_entry \<Rightarrow> software_entry" where
  "prepare_entry sha schema agent e0 =
     (let e = entry_normalize e0 in
      if schema = INVENTORY_SCHEMA_VERSION then
        (let e' = (if se_installation_identity e = None then
                     (let f = ensure_installation_identity sha e in
                      f\<lparr>se_install_instance_id := Some (hash_identity sha
                          [''lariska-endpoint-instance-v2'', agent,
                           unwrap_or (se_install_instance_id f) []])\<rparr>)
                   else e)
         in ensure_installation_identity sha e')
      else e)"

definition conflict_warning :: "software_entry \<Rightarrow> string" where
  "conflict_warning entry =
     ''conflicting versions for installation ''
     @ unwrap_or (se_installation_identity entry) ''unknown''"

definition duplicate_warning :: "software_entry \<Rightarrow> software_entry \<Rightarrow> string" where
  "duplicate_warning last_entry entry =
     se_name entry @ '' is installed more than once ('' @ comparison_key entry
     @ ''); the server's inventory key does not carry a version, so only ''
     @ unwrap_or (se_version last_entry) ''no version'' @ '' was sent and ''
     @ unwrap_or (se_version entry) ''no version'' @ '' was dropped''"

fun dedup_loop ::
  "u16 \<Rightarrow> software_entry list \<Rightarrow> string list \<Rightarrow> software_entry list
   \<Rightarrow> software_entry list \<times> string list" where
  "dedup_loop schema deduped warnings [] = (deduped, warnings)"
| "dedup_loop schema deduped warnings (entry # rest) =
     (if deduped \<noteq> [] \<and> identity_key schema (last deduped) = identity_key schema entry then
        (if schema = INVENTORY_SCHEMA_VERSION then
           dedup_loop schema deduped
             (if se_version (last deduped) \<noteq> se_version entry
              then warnings @ [conflict_warning entry] else warnings) rest
         else dedup_loop schema deduped
                (warnings @ [duplicate_warning (last deduped) entry]) rest)
      else dedup_loop schema (deduped @ [entry]) warnings rest)"

definition deduplicate_software :: "inventory_snapshot \<Rightarrow> inventory_snapshot" where
  "deduplicate_software s =
     (case dedup_loop (schema_version s) [] [] (software s) of
        (deduped, warnings) \<Rightarrow>
          s\<lparr>software := deduped, collector_warnings := collector_warnings s @ warnings\<rparr>)"

definition normalize_identifiers :: "endpoint_identifier list \<Rightarrow> endpoint_identifier list" where
  "normalize_identifiers ids =
     remdups_adj (sort_by compare_identifiers (filter (\<lambda>i. trim (value_hash i) \<noteq> []) ids))"

definition compare_sources :: "collection_source \<Rightarrow> collection_source \<Rightarrow> ordering" where
  "compare_sources l r = cmp (cs_source l) (cs_source r)"

definition normalize_snapshot ::
  "(u8 list \<Rightarrow> u8 list) \<Rightarrow> inventory_snapshot \<Rightarrow> inventory_snapshot" where
  "normalize_snapshot sha s =
     (let s1 = s\<lparr>identifiers := normalize_identifiers (identifiers s)\<rparr>;
          s2 = s1\<lparr>software := map (prepare_entry sha (schema_version s1) (agent_id s1)) (software s1)\<rparr>;
          s3 = (if schema_version s2 = INVENTORY_SCHEMA_VERSION
                then s2\<lparr>sources := sort_by compare_sources (sources s2)\<rparr> else s2);
          s4 = s3\<lparr>software := filter (\<lambda>e. se_name e \<noteq> []) (software s3)\<rparr>;
          s5 = s4\<lparr>software := sort_by (compare_entries (schema_version s4)) (software s4)\<rparr>
      in deduplicate_software s5)"

definition snapshot_new ::
  "(u8 list \<Rightarrow> u8 list) \<Rightarrow> string \<Rightarrow> string \<Rightarrow> string \<Rightarrow> string \<Rightarrow> string option
   \<Rightarrow> string option \<Rightarrow> string option \<Rightarrow> string option \<Rightarrow> string \<Rightarrow> (string, string) btree
   \<Rightarrow> endpoint_identifier list \<Rightarrow> software_entry list \<Rightarrow> string list \<Rightarrow> inventory_snapshot" where
  "snapshot_new sha sid aid at host fam nam ver arch av lbls ids sw warns =
     normalize_snapshot sha
       \<lparr>schema_version = LEGACY_INVENTORY_SCHEMA_VERSION, snapshot_id = sid, agent_id = aid,
        collected_at = at, hostname = host, os_family = fam, os_name = nam, os_version = ver,
        os_arch = arch, agent_version = av, labels = lbls, identifiers = ids, software = sw,
        collector_warnings = warns, sources = []\<rparr>"

definition snapshot_new_v2 ::
  "(u8 list \<Rightarrow> u8 list) \<Rightarrow> string \<Rightarrow> string \<Rightarrow> string \<Rightarrow> string \<Rightarrow> string option
   \<Rightarrow> string option \<Rightarrow> string option \<Rightarrow> string option \<Rightarrow> string \<Rightarrow> (string, string) btree
   \<Rightarrow> endpoint_identifier list \<Rightarrow> software_entry list \<Rightarrow> string list
   \<Rightarrow> collection_source list \<Rightarrow> inventory_snapshot" where
  "snapshot_new_v2 sha sid aid at host fam nam ver arch av lbls ids sw warns srcs =
     normalize_snapshot sha
       \<lparr>schema_version = INVENTORY_SCHEMA_VERSION, snapshot_id = sid, agent_id = aid,
        collected_at = at, hostname = host, os_family = fam, os_name = nam, os_version = ver,
        os_arch = arch, agent_version = av, labels = lbls, identifiers = ids, software = sw,
        collector_warnings = warns, sources = srcs\<rparr>"

definition legacy_entry :: "software_entry \<Rightarrow> software_entry" where
  "legacy_entry e = e\<lparr>
     se_source := (if se_source e \<in> {Pacman, MacBundle} then Other else se_source e),
     se_product_identity := None, se_installation_identity := None, se_package_id := None,
     se_scope := None, se_install_instance_id := None\<rparr>"

definition into_v1 :: "(u8 list \<Rightarrow> u8 list) \<Rightarrow> inventory_snapshot \<Rightarrow> inventory_snapshot" where
  "into_v1 sha s =
     normalize_snapshot sha (s\<lparr>schema_version := LEGACY_INVENTORY_SCHEMA_VERSION, sources := [],
                            software := map legacy_entry (software s)\<rparr>)"

section \<open>The comparisons are total\<close>

interpretation identifier_cmp: total_comparison compare_identifiers
  unfolding compare_identifiers_def
  by unfold_locales (auto simp: cmp_def split: if_splits)

interpretation source_cmp: total_comparison compare_sources
  unfolding compare_sources_def
  by (rule total_comparison_on_key) (rule linorder_cmp.total_comparison_axioms)

lemma total_comparison_then_with:
  assumes "total_comparison c" and "total_comparison d"
  shows "total_comparison (\<lambda>x y. then_with (c x y) (d x y))"
proof -
  have c: "\<And>x. c x x = Equal" "\<And>x y. c y x = reverse_ordering (c x y)"
    "\<And>x y z. c x y \<noteq> Greater \<Longrightarrow> c y z \<noteq> Greater \<Longrightarrow> c x z \<noteq> Greater"
    using assms(1) unfolding total_comparison_def by blast+
  have d: "\<And>x. d x x = Equal" "\<And>x y. d y x = reverse_ordering (d x y)"
    "\<And>x y z. d x y \<noteq> Greater \<Longrightarrow> d y z \<noteq> Greater \<Longrightarrow> d x z \<noteq> Greater"
    using assms(2) unfolding total_comparison_def by blast+
  show ?thesis
  proof
    fix x y z
    show "then_with (c x x) (d x x) = Equal" using c(1) d(1) by simp
    show "then_with (c y x) (d y x) = reverse_ordering (then_with (c x y) (d x y))"
      using c(2) [of y x] d(2) [of y x] by simp
    assume xy: "then_with (c x y) (d x y) \<noteq> Greater" and yz: "then_with (c y z) (d y z) \<noteq> Greater"
    have "c x z \<noteq> Greater" using c(3) xy yz by (metis then_with_eq(2))
    moreover have "d x z \<noteq> Greater" if "c x z = Equal"
    proof -
      have "c z x \<noteq> Greater" using c(2) [of z x] that by simp
      then have "c y x \<noteq> Greater" and "c z y \<noteq> Greater"
        using c(3) xy yz by (metis then_with_eq(2))+
      then have "c x y = Equal" and "c y z = Equal"
        using xy yz c(2) [of y x] c(2) [of z y]
        by (cases "c x y"; cases "c y z"; simp)+
      then show ?thesis using xy yz d(3) [of x y z] by simp
    qed
    ultimately show "then_with (c x z) (d x z) \<noteq> Greater" by simp
  qed
qed

interpretation entry_cmp: total_comparison "compare_entries schema" for schema
  unfolding compare_entries_def
proof (rule total_comparison_then_with)
  show "total_comparison (\<lambda>l r. cmp (identity_key schema l) (identity_key schema r))"
    by (rule total_comparison_on_key) (rule linorder_cmp.total_comparison_axioms)
  show "total_comparison (\<lambda>l r. compare_versions (se_version r) (se_version l))"
    by (rule total_comparison_on_key [OF total_comparison_reverse])
       (rule version_cmp.total_comparison_axioms)
qed

section \<open>De-duplication of a sorted list\<close>

text \<open>
  What the loop keeps of a list whose equal keys are adjacent: the first entry of every
  run. The loop is shown equal to it.
\<close>

fun first_of_runs :: "('a \<Rightarrow> 'k) \<Rightarrow> 'a list \<Rightarrow> 'a list" where
  "first_of_runs k [] = []"
| "first_of_runs k [x] = [x]"
| "first_of_runs k (x # y # xs) =
     (if k x = k y then first_of_runs k (x # xs) else x # first_of_runs k (y # xs))"

lemma dedup_loop_runs_aux:
  "fst (dedup_loop schema (ds @ [d]) ws es) = ds @ first_of_runs (identity_key schema) (d # es)"
proof (induction es arbitrary: ds d ws)
  case (Cons e es)
  show ?case
  proof (cases "identity_key schema d = identity_key schema e")
    case True
    with Cons.IH [of ds d] show ?thesis
      by (cases "schema = INVENTORY_SCHEMA_VERSION") auto
  next
    case False
    with Cons.IH [of "ds @ [d]" e] show ?thesis by simp
  qed
qed simp

lemma dedup_loop_runs: "fst (dedup_loop schema [] ws es) = first_of_runs (identity_key schema) es"
proof (cases es)
  case (Cons e es')
  then show ?thesis using dedup_loop_runs_aux [of schema "[]" e ws es'] by simp
qed simp

lemma set_first_of_runs: "set (first_of_runs k xs) \<subseteq> set xs"
  by (induction k xs rule: first_of_runs.induct) auto

lemma first_of_runs_Cons: "\<exists>ys. first_of_runs k (x # xs) = x # ys"
  by (induction xs arbitrary: x) auto

lemma first_of_runs_sorted:
  assumes "sorted_wrt (\<lambda>x y. k x \<le> (k y :: 'k::linorder)) xs"
  shows "sorted_wrt (\<lambda>x y. k x < k y) (first_of_runs k xs)"
  using assms
proof (induction k xs rule: first_of_runs.induct)
  case (3 k x y xs)
  show ?case
  proof (cases "k x = k y")
    case True
    with 3 show ?thesis by simp
  next
    case False
    have lt: "\<forall>z\<in>set (y # xs). k x < k z"
      using "3.prems" False by auto
    have "\<forall>z\<in>set (first_of_runs k (y # xs)). k x < k z"
      using lt set_first_of_runs [of k "y # xs"] by blast
    with 3 False show ?thesis by simp
  qed
qed auto

lemma first_of_runs_distinct:
  "sorted_wrt (\<lambda>x y. k x < (k y :: 'k::linorder)) xs \<Longrightarrow> first_of_runs k xs = xs"
  by (induction k xs rule: first_of_runs.induct) auto

text \<open>Every entry is represented by a kept one that does not sort after it.\<close>

lemma first_of_runs_covers:
  assumes "sorted_wrt (\<lambda>x y. R x y) xs" and "\<And>x. R x x" and "x \<in> set xs"
  shows "\<exists>y\<in>set (first_of_runs k xs). k y = k x \<and> R y x"
  using assms
proof (induction k xs rule: first_of_runs.induct)
  case (3 k x' y xs)
  show ?case
  proof (cases "k x' = k y")
    case True
    show ?thesis
    proof (cases "x = y")
      case True
      obtain ys where "first_of_runs k (x' # xs) = x' # ys"
        using first_of_runs_Cons [of k x' xs] by auto
      with \<open>k x' = k y\<close> True "3.prems" show ?thesis by simp
    next
      case False
      with True 3 show ?thesis by simp
    qed
  next
    case False
    show ?thesis
    proof (cases "x = x'")
      case True
      with False "3.prems" show ?thesis by simp
    next
      case neq: False
      with False 3 show ?thesis by simp
    qed
  qed
qed auto

lemma dedup_loop_distinct:
  assumes "\<And>d. ds \<noteq> [] \<Longrightarrow> sorted_wrt (\<lambda>x y. identity_key schema x < identity_key schema y) (last ds # es)"
    and "sorted_wrt (\<lambda>x y. identity_key schema x < identity_key schema y) es"
  shows "dedup_loop schema ds ws es = (ds @ es, ws)"
  using assms
proof (induction es arbitrary: ds)
  case (Cons e es)
  have "\<not> (ds \<noteq> [] \<and> identity_key schema (last ds) = identity_key schema e)"
    using Cons.prems(1) by auto
  moreover have "dedup_loop schema (ds @ [e]) ws es = ((ds @ [e]) @ es, ws)"
    using Cons.prems(2) by (intro Cons.IH) auto
  ultimately show ?case by (cases "ds = []") simp_all
qed simp

section \<open>A concrete snapshot\<close>

text \<open>Used by the witnesses: two versions of one package and an entry without a name.\<close>

definition sample_entry :: "string \<Rightarrow> software_entry" where
  "sample_entry v = \<lparr>se_name = ''curl'', se_version = Some v, se_publisher = None,
     se_architecture = None, se_source = Dpkg, se_install_location = None,
     se_product_identity = None, se_installation_identity = None, se_package_id = None,
     se_scope = None, se_install_instance_id = None\<rparr>"

definition sample_snapshot :: inventory_snapshot where
  "sample_snapshot = \<lparr>schema_version = 1, snapshot_id = ''snap-1'', agent_id = ''agent_1'',
     collected_at = ''2026-07-24T08:00:00Z'', hostname = ''host'', os_family = Some ''linux'',
     os_name = None, os_version = None, os_arch = None, agent_version = ''0.5.0'', labels = [],
     identifiers = [], software = [sample_entry ''1.9.0'', sample_entry ''1.10.0'',
       (sample_entry ''2'')\<lparr>se_name := '' ''\<rparr>],
     collector_warnings = [], sources = []\<rparr>"

section \<open>What normalisation returns\<close>

definition prepared_entries ::
  "(u8 list \<Rightarrow> u8 list) \<Rightarrow> inventory_snapshot \<Rightarrow> software_entry list" where
  "prepared_entries sha s =
     filter (\<lambda>e. se_name e \<noteq> []) (map (prepare_entry sha (schema_version s) (agent_id s)) (software s))"

lemma normalize_snapshot_fields:
  "schema_version (normalize_snapshot sha s) = schema_version s"
  "agent_id (normalize_snapshot sha s) = agent_id s"
  "snapshot_id (normalize_snapshot sha s) = snapshot_id s"
  "collected_at (normalize_snapshot sha s) = collected_at s"
  "hostname (normalize_snapshot sha s) = hostname s"
  "agent_version (normalize_snapshot sha s) = agent_version s"
  "identifiers (normalize_snapshot sha s) = normalize_identifiers (identifiers s)"
  "sources (normalize_snapshot sha s) =
     (if schema_version s = INVENTORY_SCHEMA_VERSION
      then sort_by compare_sources (sources s) else sources s)"
  by (simp_all add: normalize_snapshot_def Let_def deduplicate_software_def split: prod.splits)

lemma software_normalize_snapshot:
  "software (normalize_snapshot sha s) =
     first_of_runs (identity_key (schema_version s))
       (sort_by (compare_entries (schema_version s)) (prepared_entries sha s))"
  by (auto simp: normalize_snapshot_def Let_def deduplicate_software_def prepared_entries_def
      simp flip: dedup_loop_runs [of _ "[]"] split: prod.splits)

lemma compare_entries_key:
  "compare_entries schema x y \<noteq> Greater \<Longrightarrow> identity_key schema x \<le> identity_key schema y"
  by (auto simp: compare_entries_def not_less)

lemma sorted_prepared:
  "sorted_wrt (\<lambda>x y. identity_key schema x \<le> identity_key schema y)
     (sort_by (compare_entries schema) es)"
  using entry_cmp.sorted_wrt_sort_by [of schema es]
  by (rule sorted_wrt_mono_rel [rotated]) (auto dest: compare_entries_key)

lemma software_strictly_sorted:
  "sorted_wrt (\<lambda>x y. identity_key (schema_version s) x < identity_key (schema_version s) y)
     (software (normalize_snapshot sha s))"
  unfolding software_normalize_snapshot
  by (rule first_of_runs_sorted) (rule sorted_prepared)

text \<open>
  C4. After \<open>normalize\<close> the software list is strictly ascending in the identity key of
  the schema version (the comparison key in v1, the installation identity in v2): no two
  rows share a key, and the order does not depend on the order of collection.
\<close>

theorem normalized_software_strictly_sorted:
  "sorted_wrt (\<lambda>x y. identity_key (schema_version s) x < identity_key (schema_version s) y)
     (software (normalize_snapshot sha s))"
  by (rule software_strictly_sorted)

lemma normalized_software_covers:
  "set (software (normalize_snapshot sha s)) \<subseteq> set (prepared_entries sha s)
   \<and> (\<forall>e\<in>set (prepared_entries sha s). \<exists>f\<in>set (software (normalize_snapshot sha s)).
        identity_key (schema_version s) f = identity_key (schema_version s) e
        \<and> compare_versions (se_version f) (se_version e) \<noteq> Less)"
proof (intro conjI ballI)
  let ?k = "identity_key (schema_version s)" and ?c = "compare_entries (schema_version s)"
  let ?xs = "sort_by ?c (prepared_entries sha s)"
  show "set (software (normalize_snapshot sha s)) \<subseteq> set (prepared_entries sha s)"
    using set_first_of_runs [of ?k ?xs] by (simp add: software_normalize_snapshot)
  fix e assume "e \<in> set (prepared_entries sha s)"
  then obtain f where "f \<in> set (first_of_runs ?k ?xs)" "?k f = ?k e" "?c f e \<noteq> Greater"
    using first_of_runs_covers [OF entry_cmp.sorted_wrt_sort_by, of "schema_version s" e
        "prepared_entries sha s" ?k] entry_cmp.c_refl by auto
  moreover from this have "compare_versions (se_version e) (se_version f) \<noteq> Greater"
    by (auto simp: compare_entries_def)
  then have "compare_versions (se_version f) (se_version e) \<noteq> Less"
    using version_cmp.c_dual [of "se_version e" "se_version f"] by simp
  ultimately show "\<exists>f\<in>set (software (normalize_snapshot sha s)). ?k f = ?k e
      \<and> compare_versions (se_version f) (se_version e) \<noteq> Less"
    by (auto simp: software_normalize_snapshot)
qed



section \<open>Normalising twice\<close>

lemma prepare_entry_idem:
  "prepare_entry sha schema agent (prepare_entry sha schema agent e) = prepare_entry sha schema agent e"
proof (cases "schema = INVENTORY_SCHEMA_VERSION")
  case True
  then obtain f where f: "prepare_entry sha schema agent e = ensure_installation_identity sha f"
    by (auto simp: prepare_entry_def Let_def)
  have "prepare_entry sha schema agent (ensure_installation_identity sha f)
      = ensure_installation_identity sha f"
    using True ensure_identity_fields(1) [of sha f]
    by (auto simp: prepare_entry_def Let_def normalize_ensure)
  with f show ?thesis by simp
qed (simp add: prepare_entry_def Let_def)

lemma remdups_adj_idem: "remdups_adj (remdups_adj xs) = remdups_adj xs"
  using distinct_adj_altdef [of "remdups_adj xs"] by simp

lemma sorted_wrt_remdups_adj: "sorted_wrt R xs \<Longrightarrow> sorted_wrt R (remdups_adj xs)"
  by (induction xs rule: remdups_adj.induct) auto

lemma normalize_identifiers_idem:
  "normalize_identifiers (normalize_identifiers ids) = normalize_identifiers ids"
proof -
  let ?s = "sort_by compare_identifiers (filter (\<lambda>i. trim (value_hash i) \<noteq> []) ids)"
  have "filter (\<lambda>i. trim (value_hash i) \<noteq> []) (remdups_adj ?s) = remdups_adj ?s"
    by (auto simp: filter_id_conv)
  moreover have "sort_by compare_identifiers (remdups_adj ?s) = remdups_adj ?s"
    by (intro identifier_cmp.sort_by_sorted sorted_wrt_remdups_adj identifier_cmp.sorted_wrt_sort_by)
  ultimately show ?thesis by (simp add: normalize_identifiers_def remdups_adj_idem)
qed

lemma strictly_sorted_compare_entries:
  "sorted_wrt (\<lambda>x y. identity_key schema x < identity_key schema y) es \<Longrightarrow>
   sort_by (compare_entries schema) es = es"
  by (rule entry_cmp.sort_by_sorted)
     (erule sorted_wrt_mono_rel [rotated], auto simp: compare_entries_def)

lemma prepared_entries_normalized:
  "prepared_entries sha (normalize_snapshot sha s) = software (normalize_snapshot sha s)"
proof -
  have "\<forall>e\<in>set (software (normalize_snapshot sha s)).
      prepare_entry sha (schema_version s) (agent_id s) e = e \<and> se_name e \<noteq> []"
    using normalized_software_covers [of sha s]
    by (auto simp: prepared_entries_def prepare_entry_idem)
  then show ?thesis
    by (simp add: prepared_entries_def normalize_snapshot_fields map_idI filter_id_conv)
qed

text \<open>Everything \<open>deduplicate_software\<close> may change, split by field.\<close>

lemma normalize_snapshot_unfold:
  "normalize_snapshot sha s =
     s\<lparr>identifiers := normalize_identifiers (identifiers s),
       software := software (normalize_snapshot sha s),
       sources := (if schema_version s = INVENTORY_SCHEMA_VERSION
                   then sort_by compare_sources (sources s) else sources s),
       collector_warnings := collector_warnings s @
         snd (dedup_loop (schema_version s) [] []
               (sort_by (compare_entries (schema_version s)) (prepared_entries sha s)))\<rparr>"
  by (auto simp: normalize_snapshot_def Let_def deduplicate_software_def prepared_entries_def
      split: prod.splits)

lemma normalize_snapshot_stable:
  assumes "prepared_entries sha s = software s"
    and "sorted_wrt (\<lambda>x y. identity_key (schema_version s) x < identity_key (schema_version s) y)
           (software s)"
    and "normalize_identifiers (identifiers s) = identifiers s"
    and "sort_by compare_sources (sources s) = sources s
         \<or> schema_version s \<noteq> INVENTORY_SCHEMA_VERSION"
  shows "normalize_snapshot sha s = s"
proof -
  let ?v = "schema_version s"
  have sw: "sort_by (compare_entries ?v) (prepared_entries sha s) = software s"
    using assms(1,2) by (simp add: strictly_sorted_compare_entries)
  have "dedup_loop ?v [] [] (software s) = (software s, [])"
    using dedup_loop_distinct [of "[]" ?v "software s" "[]"] assms(2) by simp
  moreover have "software (normalize_snapshot sha s) = software s"
    using assms(2) by (simp add: software_normalize_snapshot sw first_of_runs_distinct)
  ultimately show ?thesis
    using assms(3,4) by (subst normalize_snapshot_unfold) (auto simp: sw)
qed

text \<open>
  \<open>normalize\<close> is idempotent on every snapshot, v1 and v2: a snapshot read back from
  the spool or the wire and normalised again is unchanged, warnings included.
\<close>

theorem normalize_snapshot_idempotent:
  "normalize_snapshot sha (normalize_snapshot sha s) = normalize_snapshot sha s"
  by (rule normalize_snapshot_stable)
     (simp_all add: prepared_entries_normalized normalize_snapshot_fields
       normalize_identifiers_idem source_cmp.sort_by_idem software_strictly_sorted)

end
