(* ===== verification/Snapshot_Validate.thy ===== *)
theory Snapshot_Validate
  imports Snapshot
begin

text \<open>
  \<open>InventorySnapshot::validate\<close> of \<open>src/model.rs\<close>: the checks in their order with their
  messages, a declarative reading of what passes, and the proof that every v2 snapshot
  built by \<open>new_v2\<close> from fresh collector entries passes the identity checks.
\<close>

datatype model_error = Invalid string

definition validate_required :: "string \<Rightarrow> string \<Rightarrow> model_error + unit" where
  "validate_required nam value = guard_else (trim value \<noteq> []) (Invalid (nam @ '' is required''))"

definition diagnostic_char :: "char \<Rightarrow> bool" where
  "diagnostic_char c \<longleftrightarrow> is_ascii_lowercase c \<or> is_ascii_digit c \<or> c = CHR ''_''"

definition bad_diagnostic_code :: "string \<Rightarrow> bool" where
  "bad_diagnostic_code code \<longleftrightarrow> utf8_len code > 64 \<or> \<not> list_all diagnostic_char code"

text \<open>The loop over the sources; the set of sources seen so far is a list.\<close>

fun check_sources ::
  "software_source list \<Rightarrow> collection_source list \<Rightarrow> model_error + software_source list" where
  "check_sources seen [] = Inr seen"
| "check_sources seen (source # rest) =
     (if cs_source source \<in> set seen then Inl (Invalid ''duplicate collection source'')
      else
        and_then (validate_required ''collector_version'' (cs_collector_version source)) (\<lambda>_.
        and_then (validate_required ''source collected_at'' (cs_collected_at source)) (\<lambda>_.
        if (case cs_diagnostic_code source of None \<Rightarrow> False | Some code \<Rightarrow> bad_diagnostic_code code)
        then Inl (Invalid ''invalid diagnostic code'')
        else if cs_status source = Complete \<and> cs_last_complete_at source = None
        then Inl (Invalid ''complete sources require last_complete_at'')
        else check_sources (cs_source source # seen) rest)))"

definition is_identity :: "string option \<Rightarrow> bool" where
  "is_identity m \<longleftrightarrow> (case m of None \<Rightarrow> False
     | Some value \<Rightarrow> utf8_len value = 64 \<and> list_all is_ascii_hexdigit value)"

fun check_entries :: "software_source list \<Rightarrow> software_entry list \<Rightarrow> model_error + unit" where
  "check_entries seen [] = Inr ()"
| "check_entries seen (entry # rest) =
     (if se_source entry \<notin> set seen
      then Inl (Invalid ''software source has no completeness state'')
      else if \<not> is_identity (se_installation_identity entry)
              \<or> \<not> is_identity (se_install_instance_id entry)
      then Inl (Invalid ''invalid installation identity'')
      else if se_product_identity entry \<noteq> Some (comparison_key entry)
              \<or> se_scope entry = None \<or> se_install_location entry \<noteq> None
      then Inl (Invalid ''invalid v2 product identity or raw install location'')
      else check_entries seen rest)"

definition validate_snapshot :: "inventory_snapshot \<Rightarrow> model_error + unit" where
  "validate_snapshot s =
     and_then (guard_else
        (schema_version s \<in> {LEGACY_INVENTORY_SCHEMA_VERSION, INVENTORY_SCHEMA_VERSION})
        (Invalid (''unsupported inventory schema version '' @ show_nat (unat (schema_version s))))) (\<lambda>_.
     and_then (validate_required ''snapshot_id'' (snapshot_id s)) (\<lambda>_.
     and_then (validate_required ''agent_id'' (agent_id s)) (\<lambda>_.
     and_then (validate_required ''collected_at'' (collected_at s)) (\<lambda>_.
     and_then (validate_required ''hostname'' (hostname s)) (\<lambda>_.
     and_then (validate_required ''agent_version'' (agent_version s)) (\<lambda>_.
     if list_ex (\<lambda>entry. trim (se_name entry) = []) (software s)
     then Inl (Invalid ''software entries must not have empty names'')
     else
     and_then (if schema_version s = INVENTORY_SCHEMA_VERSION
               then and_then (check_sources [] (sources s)) (\<lambda>seen. check_entries seen (software s))
               else Inr ()) (\<lambda>_.
     if list_ex (\<lambda>i. utf8_len (trim (value_hash i)) < 8) (identifiers s)
     then Inl (Invalid ''identifier value_hash must be at least 8 characters'')
     else Inr ())))))))"

section \<open>What passes\<close>

definition valid_source :: "collection_source \<Rightarrow> bool" where
  "valid_source c \<longleftrightarrow> trim (cs_collector_version c) \<noteq> [] \<and> trim (cs_collected_at c) \<noteq> []
     \<and> (\<forall>code. cs_diagnostic_code c = Some code \<longrightarrow> utf8_len code \<le> 64 \<and> list_all diagnostic_char code)
     \<and> (cs_status c = Complete \<longrightarrow> cs_last_complete_at c \<noteq> None)"

definition valid_v2_entry :: "collection_source list \<Rightarrow> software_entry \<Rightarrow> bool" where
  "valid_v2_entry srcs e \<longleftrightarrow> se_source e \<in> cs_source ` set srcs
     \<and> is_identity (se_installation_identity e) \<and> is_identity (se_install_instance_id e)
     \<and> se_product_identity e = Some (comparison_key e) \<and> se_scope e \<noteq> None
     \<and> se_install_location e = None"

definition valid_header :: "inventory_snapshot \<Rightarrow> bool" where
  "valid_header s \<longleftrightarrow> trim (snapshot_id s) \<noteq> [] \<and> trim (agent_id s) \<noteq> []
     \<and> trim (collected_at s) \<noteq> [] \<and> trim (hostname s) \<noteq> [] \<and> trim (agent_version s) \<noteq> []"

definition valid_snapshot :: "inventory_snapshot \<Rightarrow> bool" where
  "valid_snapshot s \<longleftrightarrow>
     schema_version s \<in> {LEGACY_INVENTORY_SCHEMA_VERSION, INVENTORY_SCHEMA_VERSION}
     \<and> valid_header s
     \<and> (\<forall>e\<in>set (software s). trim (se_name e) \<noteq> [])
     \<and> (schema_version s = INVENTORY_SCHEMA_VERSION \<longrightarrow>
          distinct (map cs_source (sources s)) \<and> (\<forall>c\<in>set (sources s). valid_source c)
          \<and> (\<forall>e\<in>set (software s). valid_v2_entry (sources s) e))
     \<and> (\<forall>i\<in>set (identifiers s). utf8_len (trim (value_hash i)) \<ge> 8)"

lemma validate_required_ok [simp]: "validate_required n v = Inr u \<longleftrightarrow> trim v \<noteq> []"
  by (simp add: validate_required_def)

lemma check_sources_ok:
  "check_sources seen srcs = Inr seen' \<longleftrightarrow>
   seen' = rev (map cs_source srcs) @ seen \<and> distinct (map cs_source srcs)
   \<and> cs_source ` set srcs \<inter> set seen = {} \<and> (\<forall>c\<in>set srcs. valid_source c)"
proof (induction srcs arbitrary: seen)
  case (Cons c srcs)
  have "check_sources seen (c # srcs) = Inr seen' \<longleftrightarrow>
      cs_source c \<notin> set seen \<and> valid_source c \<and> check_sources (cs_source c # seen) srcs = Inr seen'"
    by (auto simp: and_then_Inr_iff valid_source_def bad_diagnostic_code_def split: option.splits if_splits)
  then show ?case unfolding Cons.IH by auto
qed auto

lemma check_entries_ok:
  "check_entries seen es = Inr u \<longleftrightarrow>
   (\<forall>e\<in>set es. se_source e \<in> set seen \<and> is_identity (se_installation_identity e)
      \<and> is_identity (se_install_instance_id e) \<and> se_product_identity e = Some (comparison_key e)
      \<and> se_scope e \<noteq> None \<and> se_install_location e = None)"
  by (induction es) auto

lemma validate_ok_iff: "validate_snapshot s = Inr () \<longleftrightarrow> valid_snapshot s"
proof -
  have e: "(if list_ex P xs then Inl a else Inr ()) = Inr () \<longleftrightarrow> (\<forall>x\<in>set xs. \<not> P x)"
    for P :: "'b \<Rightarrow> bool" and xs and a :: model_error by (auto simp: list_ex_iff)
  define checks where
    "checks = and_then (check_sources [] (sources s)) (\<lambda>seen. check_entries seen (software s))"
  have v2: "checks = Inr () \<longleftrightarrow> distinct (map cs_source (sources s)) \<and> (\<forall>c\<in>set (sources s). valid_source c)
          \<and> (\<forall>e\<in>set (software s). valid_v2_entry (sources s) e)"
    unfolding checks_def
    by (auto simp: and_then_Inr_iff check_sources_ok check_entries_ok valid_v2_entry_def)
  have n: "list_ex (\<lambda>entry. trim (se_name entry) = []) (software s) \<longleftrightarrow>
      \<not> (\<forall>e\<in>set (software s). trim (se_name e) \<noteq> [])" by (auto simp: list_ex_iff)
  show ?thesis
    unfolding validate_snapshot_def valid_snapshot_def valid_header_def n checks_def [symmetric]
    by (auto simp: and_then_Inr_iff e v2 not_less)
qed

text \<open>
  C7. \<open>validate\<close> accepts exactly the snapshots of the contract: a known schema version,
  the required header fields, named software, identifiers of at least eight bytes and, in
  v2, distinct well-formed sources that cover every entry and well-formed identities with
  no raw install location left.
\<close>

theorem validate_accepts_exactly_valid: "is_ok (validate_snapshot s) = valid_snapshot s"
  using validate_ok_iff [of s] by (cases "validate_snapshot s") auto

section \<open>Built snapshots pass\<close>

lemma hex_digit_is_hex: "n < 16 \<Longrightarrow> is_ascii_hexdigit (hex_digit n)"
  by (auto simp: hex_digit_def is_ascii_hexdigit_def is_ascii_digit_def)

lemma hex_lower_hex: "list_all is_ascii_hexdigit (hex_lower bs)"
proof (induction bs)
  case (Cons b bs)
  have "unat b < 2 ^ LENGTH(8)" by (rule unsigned_less)
  then have "unat b div 16 < 16" by simp
  moreover have "unat b mod 16 < 16" by simp
  ultimately show ?case using Cons by (simp add: hex_lower_def hex_digit_is_hex)
qed (simp add: hex_lower_def)

lemma length_hex_lower: "length (hex_lower bs) = 2 * length bs"
  by (induction bs) (auto simp: hex_lower_def)

lemma is_identity_hash: "(\<And>x. length (sha x) = 32) \<Longrightarrow> is_identity (Some (hash_identity sha parts))"
  using hex_lower_hex [of "sha (identity_preimage parts)"]
  by (simp add: is_identity_def hash_identity_def utf8_len_ascii hexdigit_ascii length_hex_lower
      list_all_iff)

lemma ensure_installation_is_identity:
  "(\<And>x. length (sha x) = 32) \<Longrightarrow>
   is_identity (se_installation_identity (ensure_installation_identity sha e))"
  by (simp add: ensure_installation_identity_def Let_def is_identity_hash)

lemma ensure_keeps_instance:
  "se_install_instance_id e = Some i \<Longrightarrow>
   se_install_instance_id (ensure_installation_identity sha e) = Some i"
  by (simp add: ensure_installation_identity_def Let_def entry_normalize_def)

lemma ensure_product: "se_product_identity (ensure_installation_identity sha e)
    = Some (comparison_key (ensure_installation_identity sha e))"
  by (simp add: ensure_installation_identity_def Let_def)

lemma ensure_source: "se_source (ensure_installation_identity sha e) = se_source e"
  by (simp add: ensure_installation_identity_def Let_def entry_normalize_def)

lemma normalize_source: "se_source (entry_normalize e) = se_source e"
  "se_installation_identity (entry_normalize e) = se_installation_identity e"
  by (simp_all add: entry_normalize_def)

lemma prepare_entry_valid_v2:
  assumes "\<And>x. length (sha x) = 32" and "se_installation_identity e = None"
    and "se_source e \<in> cs_source ` set srcs"
  shows "valid_v2_entry srcs (prepare_entry sha INVENTORY_SCHEMA_VERSION agent e)"
proof -
  define f where "f = (ensure_installation_identity sha (entry_normalize e))
    \<lparr>se_install_instance_id := Some (hash_identity sha [''lariska-endpoint-instance-v2'', agent,
       unwrap_or (se_install_instance_id (ensure_installation_identity sha (entry_normalize e))) []])\<rparr>"
  have p: "prepare_entry sha INVENTORY_SCHEMA_VERSION agent e = ensure_installation_identity sha f"
    using assms(2) by (simp add: prepare_entry_def Let_def f_def normalize_source)
  obtain i where i: "se_install_instance_id f = Some i" and "is_identity (Some i)"
    using assms(1) by (auto simp: f_def is_identity_hash)
  moreover have "se_source f = se_source e" by (simp add: f_def ensure_source normalize_source)
  ultimately show ?thesis
    using assms(1,3) ensure_identity_fields [of sha f]
    by (simp add: p valid_v2_entry_def ensure_installation_is_identity ensure_keeps_instance
        ensure_product ensure_source)
qed

lemma name_not_blank: "se_name e \<noteq> [] \<Longrightarrow> normalize_required_string (se_name e) = se_name e \<Longrightarrow>
   trim (se_name e) \<noteq> []"
proof
  assume ne: "se_name e \<noteq> []" and n: "normalize_required_string (se_name e) = se_name e"
    and "trim (se_name e) = []"
  then have "dropWhile is_whitespace (se_name e) = []"
    by (simp add: trim_Nil_iff list_all_iff)
  then have "split_whitespace (se_name e) = []"
    by (simp only: split_whitespace.simps [of "se_name e"] Let_def simp_thms if_True)
  with n ne show False by (simp add: normalize_required_string_def)
qed

lemma prepare_entry_name:
  "normalize_required_string (se_name (prepare_entry sha schema agent e)) =
   se_name (prepare_entry sha schema agent e)"
  by (simp add: prepare_entry_def Let_def ensure_installation_identity_def entry_normalize_def)

lemma normalized_entryE:
  assumes "e \<in> set (software (normalize_snapshot sha s))"
  obtains e0 where "e0 \<in> set (software s)"
    and "e = prepare_entry sha (schema_version s) (agent_id s) e0" and "se_name e \<noteq> []"
proof -
  have "e \<in> set (prepared_entries sha s)"
    using normalized_software_covers [of sha s] assms by blast
  then show ?thesis using that by (auto simp: prepared_entries_def)
qed

lemma normalized_names:
  assumes "e \<in> set (software (normalize_snapshot sha s))"
  shows "trim (se_name e) \<noteq> []"
  using assms by (elim normalized_entryE) (metis name_not_blank prepare_entry_name)

lemma normalize_snapshot_valid:
  assumes sha: "\<And>x. length (sha x) = 32"
    and v: "schema_version s = INVENTORY_SCHEMA_VERSION" and h: "valid_header s"
    and srcs: "distinct (map cs_source (sources s))" "\<forall>c\<in>set (sources s). valid_source c"
    and es: "\<forall>e\<in>set (software s). se_installation_identity e = None
                 \<and> se_source e \<in> cs_source ` set (sources s)"
    and ids: "\<forall>i\<in>set (identifiers s). utf8_len (trim (value_hash i)) \<ge> 8"
  shows "valid_snapshot (normalize_snapshot sha s)"
proof -
  have "\<forall>e\<in>set (software (normalize_snapshot sha s)). valid_v2_entry (sources s) e"
  proof
    fix e assume "e \<in> set (software (normalize_snapshot sha s))"
    then obtain e0 where e0: "e0 \<in> set (software s)"
      and e: "e = prepare_entry sha (schema_version s) (agent_id s) e0" by (rule normalized_entryE)
    show "valid_v2_entry (sources s) e"
      unfolding e v by (rule prepare_entry_valid_v2 [OF sha]) (use es e0 in auto)
  qed
  moreover have "distinct (map cs_source (sort_by compare_sources (sources s)))"
    using srcs(1) by (metis mset_sort_by mset_map mset_eq_imp_distinct_iff)
  moreover have "\<forall>i\<in>set (normalize_identifiers (identifiers s)). utf8_len (trim (value_hash i)) \<ge> 8"
    using ids by (auto simp: normalize_identifiers_def)
  ultimately show ?thesis
    using h v srcs normalized_names
    by (auto simp: valid_snapshot_def valid_header_def normalize_snapshot_fields valid_v2_entry_def)
qed

text \<open>
  C8. A v2 snapshot built by \<open>new_v2\<close> validates: with a hash of 32 bytes, a complete
  header, distinct well-formed sources, identifiers of at least eight bytes and fresh
  entries (no installation identity yet) of listed sources, all identity, scope and
  install-location checks of \<open>validate\<close> hold after normalisation.
\<close>

theorem new_v2_snapshot_validates:
  assumes "\<And>x. length (sha x) = 32"
    and "trim sid \<noteq> []" "trim aid \<noteq> []" "trim at \<noteq> []" "trim host \<noteq> []" "trim av \<noteq> []"
    and "distinct (map cs_source srcs)" "\<forall>c\<in>set srcs. valid_source c"
    and "\<forall>e\<in>set sw. se_installation_identity e = None \<and> se_source e \<in> cs_source ` set srcs"
    and "\<forall>i\<in>set ids. utf8_len (trim (value_hash i)) \<ge> 8"
  shows "validate_snapshot (snapshot_new_v2 sha sid aid at host fam nam ver arch av lbls ids sw warns srcs)
         = Inr ()"
  unfolding validate_ok_iff snapshot_new_v2_def
  using assms by (intro normalize_snapshot_valid) (simp_all add: valid_header_def)

definition sample_source :: collection_source where
  "sample_source = collection_source_new ''2026-10-06T10:00:00Z'' ''0.5.0'' Dpkg Complete None"

theorem new_v2_snapshot_validates_witness:
  "validate_snapshot (snapshot_new_v2 (\<lambda>_. replicate 32 0) ''snap-1'' ''agent_1'' ''2026'' ''host''
     None None None None ''0.5.0'' [] [\<lparr>identifier_type = MacHash, value_hash = ''0123456789''\<rparr>]
     [sample_entry ''1'', sample_entry ''2''] [] [sample_source]) = Inr ()"
proof (rule new_v2_snapshot_validates)
  show "\<forall>c\<in>set [sample_source]. valid_source c"
    by (simp add: sample_source_def collection_source_new_def valid_source_def trim_Nil_iff
        is_whitespace_def scalar_def)
qed (simp_all add: trim_Nil_iff trim_no_whitespace is_whitespace_def scalar_def sample_entry_def sample_source_def
    collection_source_new_def utf8_len_def)

end
