(* ===== verification/Snapshot_Diff.thy ===== *)
theory Snapshot_Diff
  imports Snapshot
begin

text \<open>
  \<open>InventorySnapshot::diff\<close> of \<open>src/model.rs\<close> (\<open>DeltaAction\<close>, \<open>SoftwareDeltaItem\<close>,
  \<open>InventoryDelta\<close>). The delta is refined to an update of the map from identity keys to
  versions: replaying it over the previous map gives the current one wherever the current
  snapshot is authoritative, and leaves the previous value everywhere else.
\<close>

datatype delta_action = Added | Removed | Modified

record software_delta_item =
  di_action :: delta_action
  di_entry :: software_entry
  di_previous_version :: "string option"

record inventory_delta =
  d_schema_version :: u16
  d_snapshot_id :: string
  d_base_snapshot_id :: string
  d_agent_id :: string
  d_collected_at :: string
  d_software_changes :: "software_delta_item list"
  d_collector_warnings :: "string list"

definition source_complete :: "inventory_snapshot \<Rightarrow> software_source \<Rightarrow> bool" where
  "source_complete s src \<longleftrightarrow>
     list_ex (\<lambda>c. cs_source c = src \<and> cs_status c = Complete) (sources s)"

definition key_map :: "u16 \<Rightarrow> software_entry list \<Rightarrow> (string, software_entry) btree" where
  "key_map schema es = btree_collect (map (\<lambda>e. (identity_key schema e, e)) es)"

definition upsert_item ::
  "inventory_snapshot \<Rightarrow> (string, software_entry) btree \<Rightarrow> string \<times> software_entry
   \<Rightarrow> software_delta_item list" where
  "upsert_item cur prev_map = (\<lambda>(key, curr_entry).
     if schema_version cur = INVENTORY_SCHEMA_VERSION \<and> \<not> source_complete cur (se_source curr_entry)
     then []
     else case btree_get prev_map key of
       Some prev_entry \<Rightarrow>
         (if se_version curr_entry \<noteq> se_version prev_entry
          then [\<lparr>di_action = Modified, di_entry = curr_entry,
                 di_previous_version = se_version prev_entry\<rparr>]
          else [])
     | None \<Rightarrow> [\<lparr>di_action = Added, di_entry = curr_entry, di_previous_version = None\<rparr>])"

definition removal_item ::
  "inventory_snapshot \<Rightarrow> (string, software_entry) btree \<Rightarrow> string \<times> software_entry
   \<Rightarrow> software_delta_item list" where
  "removal_item cur curr_map = (\<lambda>(key, prev_entry).
     if btree_get curr_map key = None
        \<and> (schema_version cur = LEGACY_INVENTORY_SCHEMA_VERSION
           \<or> source_complete cur (se_source prev_entry))
     then [\<lparr>di_action = Removed, di_entry = prev_entry, di_previous_version = se_version prev_entry\<rparr>]
     else [])"

definition snapshot_changes ::
  "inventory_snapshot \<Rightarrow> inventory_snapshot \<Rightarrow> software_delta_item list" where
  "snapshot_changes cur previous =
     (let prev_map = key_map (schema_version cur) (software previous);
          curr_map = key_map (schema_version cur) (software cur);
          changes = concat (map (upsert_item cur prev_map) curr_map)
                    @ concat (map (removal_item cur curr_map) prev_map)
      in sort_by (\<lambda>l r. cmp (comparison_key (di_entry l)) (comparison_key (di_entry r))) changes)"

definition snapshot_diff :: "inventory_snapshot \<Rightarrow> inventory_snapshot \<Rightarrow> inventory_delta" where
  "snapshot_diff cur previous =
     \<lparr>d_schema_version = schema_version cur, d_snapshot_id = snapshot_id cur,
      d_base_snapshot_id = snapshot_id previous, d_agent_id = agent_id cur,
      d_collected_at = collected_at cur, d_software_changes = snapshot_changes cur previous,
      d_collector_warnings = collector_warnings cur\<rparr>"

section \<open>Replaying a delta\<close>

text \<open>The receiver's view: identity keys to versions.\<close>

type_synonym version_view = "string \<Rightarrow> string option option"

definition view_of :: "u16 \<Rightarrow> inventory_snapshot \<Rightarrow> version_view" where
  "view_of schema s key = map_option se_version (btree_get (key_map schema (software s)) key)"

definition replay_item :: "u16 \<Rightarrow> version_view \<Rightarrow> software_delta_item \<Rightarrow> version_view" where
  "replay_item schema view i =
     view(identity_key schema (di_entry i) :=
       (if di_action i = Removed then None else Some (se_version (di_entry i))))"

definition replay :: "u16 \<Rightarrow> version_view \<Rightarrow> software_delta_item list \<Rightarrow> version_view" where
  "replay schema view items = foldl (replay_item schema) view items"

lemma replay_other:
  "k \<notin> (\<lambda>i. identity_key schema (di_entry i)) ` set items \<Longrightarrow> replay schema view items k = view k"
  by (induction items arbitrary: view) (auto simp: replay_def replay_item_def)

lemma replay_hit:
  assumes "distinct (map (\<lambda>i. identity_key schema (di_entry i)) items)" and "i \<in> set items"
  shows "replay schema view items (identity_key schema (di_entry i)) =
         (if di_action i = Removed then None else Some (se_version (di_entry i)))"
  using assms
proof (induction items arbitrary: view)
  case (Cons j items)
  let ?k = "\<lambda>i. identity_key schema (di_entry i)"
  have step: "replay schema view (j # items) = replay schema (replay_item schema view j) items"
    by (simp add: replay_def)
  show ?case
  proof (cases "i = j")
    case True
    with Cons.prems have "?k i \<notin> ?k ` set items" by auto
    with True show ?thesis by (simp add: step replay_other replay_item_def)
  next
    case False
    with Cons show ?thesis by (simp add: step)
  qed
qed simp

lemma key_map_get: "btree_get (key_map schema es) k = Some e \<Longrightarrow> identity_key schema e = k"
  by (auto simp: key_map_def btree_get_collect dest!: map_of_SomeD)

lemma key_map_mem:
  "(k, e) \<in> set (key_map schema es) \<longleftrightarrow> btree_get (key_map schema es) k = Some e"
  by (simp add: key_map_def btree_get_iff)

lemma distinct_key_map: "distinct (map fst (key_map schema es))"
  by (simp add: key_map_def btree_wf_distinct)

text \<open>
  At most one item per map entry, with that entry's key: the keys of the concatenation
  are distinct.
\<close>

lemma distinct_concat_keys:
  assumes "distinct (map fst m)"
    and "\<And>k e. (k, e) \<in> set m \<Longrightarrow> f (k, e) = [] \<or> (\<exists>i. f (k, e) = [i] \<and> key i = k)"
  shows "distinct (map key (concat (map f m)))
    \<and> key ` set (concat (map f m)) \<subseteq> fst ` set m"
  using assms
proof (induction m)
  case (Cons a m)
  obtain k e where a: "a = (k, e)" by (cases a)
  have IH: "distinct (map key (concat (map f m))) \<and> key ` set (concat (map f m)) \<subseteq> fst ` set m"
    using Cons.prems by (intro Cons.IH) auto
  from Cons.prems(2) [of k e] consider "f a = []" | i where "f a = [i]" "key i = k"
    by (auto simp: a)
  then show ?case
  proof cases
    case 1
    with IH show ?thesis by auto
  next
    case 2
    moreover have "k \<notin> fst ` set m" using Cons.prems(1) by (simp add: a)
    ultimately show ?thesis using IH by (auto simp: a)
  qed
qed simp

definition unsorted_changes ::
  "inventory_snapshot \<Rightarrow> inventory_snapshot \<Rightarrow> software_delta_item list" where
  "unsorted_changes cur previous =
     concat (map (upsert_item cur (key_map (schema_version cur) (software previous)))
                 (key_map (schema_version cur) (software cur)))
     @ concat (map (removal_item cur (key_map (schema_version cur) (software cur)))
                 (key_map (schema_version cur) (software previous)))"

lemma mset_snapshot_changes: "mset (snapshot_changes cur previous) = mset (unsorted_changes cur previous)"
  by (simp add: snapshot_changes_def unsorted_changes_def Let_def)

lemma set_snapshot_changes: "set (snapshot_changes cur previous) = set (unsorted_changes cur previous)"
  by (metis mset_snapshot_changes set_mset_mset)

lemma upsert_single:
  "(k, e) \<in> set (key_map (schema_version cur) es) \<Longrightarrow>
   upsert_item cur pm (k, e) = []
   \<or> (\<exists>i. upsert_item cur pm (k, e) = [i] \<and> identity_key (schema_version cur) (di_entry i) = k)"
  by (auto simp: upsert_item_def key_map_mem dest: key_map_get split: option.splits)

lemma removal_single:
  "(k, e) \<in> set (key_map (schema_version cur) es) \<Longrightarrow>
   removal_item cur cm (k, e) = []
   \<or> (\<exists>i. removal_item cur cm (k, e) = [i] \<and> identity_key (schema_version cur) (di_entry i) = k)"
  by (auto simp: removal_item_def key_map_mem dest: key_map_get)

lemma distinct_map_append:
  "distinct (map f xs) \<and> f ` set xs \<subseteq> A \<Longrightarrow> distinct (map f ys) \<Longrightarrow>
   (\<And>i. i \<in> set ys \<Longrightarrow> f i \<notin> A) \<Longrightarrow> distinct (map f (xs @ ys))"
  by auto

lemma distinct_changes:
  "distinct (map (\<lambda>i. identity_key (schema_version cur) (di_entry i)) (snapshot_changes cur previous))"
proof -
  let ?v = "schema_version cur" and ?key = "\<lambda>i. identity_key (schema_version cur) (di_entry i)"
  let ?cm = "key_map ?v (software cur)" and ?pm = "key_map ?v (software previous)"
  let ?ups = "concat (map (upsert_item cur ?pm) ?cm)"
  let ?rms = "concat (map (removal_item cur ?cm) ?pm)"
  have u: "distinct (map ?key ?ups) \<and> ?key ` set ?ups \<subseteq> fst ` set ?cm"
    by (rule distinct_concat_keys [OF distinct_key_map]) (rule upsert_single)
  have r: "distinct (map ?key ?rms)"
    using distinct_concat_keys [OF distinct_key_map, of ?v "software previous" "removal_item cur ?cm" ?key]
      removal_single by blast
  have "?key i \<notin> fst ` set ?cm" if "i \<in> set ?rms" for i
  proof -
    from that obtain k e where "(k, e) \<in> set ?pm" and "btree_get ?cm k = None" and "di_entry i = e"
      by (auto simp: removal_item_def split: if_splits)
    then have "?key i = k" and "k \<notin> fst ` set ?cm"
      by (auto simp: key_map_mem dest: key_map_get)
    then show ?thesis by simp
  qed
  then have "distinct (map ?key (unsorted_changes cur previous))"
    unfolding unsorted_changes_def using distinct_map_append u r by blast
  then show ?thesis
    by (metis mset_snapshot_changes mset_map mset_eq_imp_distinct_iff)
qed

text \<open>Which source of the current snapshot speaks for a software source.\<close>

definition authoritative :: "inventory_snapshot \<Rightarrow> software_source \<Rightarrow> bool" where
  "authoritative cur src \<longleftrightarrow>
     schema_version cur = LEGACY_INVENTORY_SCHEMA_VERSION \<or> source_complete cur src"

lemma upsert_mem:
  "i \<in> set (upsert_item cur pm (k, e)) \<longleftrightarrow>
   (schema_version cur = INVENTORY_SCHEMA_VERSION \<longrightarrow> source_complete cur (se_source e))
   \<and> di_entry i = e \<and> map_option se_version (btree_get pm k) \<noteq> Some (se_version e)
   \<and> i = \<lparr>di_action = (if btree_get pm k = None then Added else Modified), di_entry = e,
          di_previous_version = Option.bind (btree_get pm k) se_version\<rparr>"
  by (auto simp: upsert_item_def split: option.splits)

definition merged_view ::
  "inventory_snapshot \<Rightarrow> inventory_snapshot \<Rightarrow> version_view" where
  "merged_view cur previous key =
     (case btree_get (key_map (schema_version cur) (software cur)) key of
        Some e \<Rightarrow> (if authoritative cur (se_source e) then Some (se_version e)
                  else view_of (schema_version cur) previous key)
      | None \<Rightarrow> (case btree_get (key_map (schema_version cur) (software previous)) key of
          Some p \<Rightarrow> (if authoritative cur (se_source p) then None else Some (se_version p))
        | None \<Rightarrow> None))"

lemma replay_changes:
  assumes v: "schema_version cur \<in> {LEGACY_INVENTORY_SCHEMA_VERSION, INVENTORY_SCHEMA_VERSION}"
  shows "replay (schema_version cur) (view_of (schema_version cur) previous)
           (snapshot_changes cur previous) k = merged_view cur previous k"
proof -
  let ?v = "schema_version cur" and ?items = "snapshot_changes cur previous"
  let ?cm = "key_map ?v (software cur)" and ?pm = "key_map ?v (software previous)"
  let ?key = "\<lambda>i. identity_key ?v (di_entry i)"
  have mem: "i \<in> set ?items \<longleftrightarrow>
      (\<exists>k e. btree_get ?cm k = Some e \<and> i \<in> set (upsert_item cur ?pm (k, e)))
      \<or> (\<exists>k p. btree_get ?pm k = Some p \<and> i \<in> set (removal_item cur ?cm (k, p)))" for i
    by (force simp: set_snapshot_changes unsorted_changes_def key_map_mem simp flip: key_map_mem)
  show ?thesis
  proof (cases "\<exists>i\<in>set ?items. ?key i = k")
    case True
    then obtain i where i: "i \<in> set ?items" "?key i = k" by blast
    have hit: "replay ?v (view_of ?v previous) ?items k =
        (if di_action i = Removed then None else Some (se_version (di_entry i)))"
      using replay_hit [OF distinct_changes i(1)] i(2) by simp
    from i(1) consider
      (up) k' e where "btree_get ?cm k' = Some e" "i \<in> set (upsert_item cur ?pm (k', e))"
    | (rm) k' p where "btree_get ?pm k' = Some p" "i \<in> set (removal_item cur ?cm (k', p))"
      unfolding mem by blast
    then show ?thesis
    proof cases
      case up
      then have "k' = k" using i(2) by (auto simp: upsert_mem dest: key_map_get)
      with up v show ?thesis
        by (auto simp: hit upsert_mem merged_view_def authoritative_def)
    next
      case rm
      then have "k' = k" using i(2) by (auto simp: removal_item_def dest: key_map_get split: if_splits)
      with rm show ?thesis
        by (auto simp: hit removal_item_def merged_view_def authoritative_def split: if_splits)
    qed
  next
    case False
    then have old: "replay ?v (view_of ?v previous) ?items k = view_of ?v previous k"
      by (intro replay_other) auto
    show ?thesis
    proof (cases "btree_get ?cm k")
      case (Some e)
      have "view_of ?v previous k = Some (se_version e)" if "authoritative cur (se_source e)"
      proof (rule ccontr)
        assume "view_of ?v previous k \<noteq> Some (se_version e)"
        with that v have "\<exists>i. i \<in> set (upsert_item cur ?pm (k, e))"
          by (auto simp: upsert_mem view_of_def authoritative_def)
        then obtain i where "i \<in> set (upsert_item cur ?pm (k, e))" by blast
        moreover from this have "?key i = k" using Some by (auto simp: upsert_mem dest: key_map_get)
        ultimately show False using False Some mem by blast
      qed
      with Some old show ?thesis by (simp add: merged_view_def)
    next
      case None
      show ?thesis
      proof (cases "btree_get ?pm k")
        case (Some p)
        have "\<not> authoritative cur (se_source p)"
        proof
          assume "authoritative cur (se_source p)"
          with None obtain i where "i \<in> set (removal_item cur ?cm (k, p))" "di_entry i = p"
            by (auto simp: removal_item_def authoritative_def)
          with Some False mem show False using key_map_get [OF Some] by blast
        qed
        with Some None old show ?thesis by (simp add: merged_view_def view_of_def)
      qed (use None old in \<open>simp add: merged_view_def view_of_def\<close>)
    qed
  qed
qed

text \<open>
  C9. The delta refines the snapshot: for a v1 or v2 snapshot, replaying the changes over
  the previous key-to-version map gives the current version of every key whose source is
  authoritative (every key in v1), removes exactly the keys an authoritative source no
  longer reports, and leaves all other keys at their previous version.
\<close>

theorem diff_replay_refines_snapshot:
  assumes "schema_version cur \<in> {LEGACY_INVENTORY_SCHEMA_VERSION, INVENTORY_SCHEMA_VERSION}"
  shows "replay (schema_version cur) (view_of (schema_version cur) previous)
           (d_software_changes (snapshot_diff cur previous)) = merged_view cur previous"
  using replay_changes [OF assms] by (auto simp: snapshot_diff_def)

theorem diff_replay_refines_snapshot_witness:
  "replay 1 (view_of 1 sample_snapshot)
     (d_software_changes (snapshot_diff (sample_snapshot\<lparr>software := [sample_entry ''3'']\<rparr>) sample_snapshot))
   = merged_view (sample_snapshot\<lparr>software := [sample_entry ''3'']\<rparr>) sample_snapshot"
  using diff_replay_refines_snapshot [of "sample_snapshot\<lparr>software := [sample_entry ''3'']\<rparr>" sample_snapshot]
  by (simp add: sample_snapshot_def LEGACY_INVENTORY_SCHEMA_VERSION_def)

text \<open>
  C10. A degraded source manufactures no change: every item of a v2 delta names an entry
  of a source that the current snapshot reports as complete, whether the item adds,
  modifies or removes.
\<close>

theorem diff_only_from_complete_sources:
  assumes "schema_version cur = INVENTORY_SCHEMA_VERSION"
    and "i \<in> set (d_software_changes (snapshot_diff cur previous))"
  shows "source_complete cur (se_source (di_entry i))"
  using assms
  by (auto simp: snapshot_diff_def set_snapshot_changes unsorted_changes_def upsert_item_def
      removal_item_def split: if_splits option.splits)

definition sample_v2 :: "software_entry list \<Rightarrow> inventory_snapshot" where
  "sample_v2 es = sample_snapshot\<lparr>schema_version := 2, software := es,
     sources := [collection_source_new ''t'' ''0.5.0'' Dpkg Complete None]\<rparr>"

theorem diff_only_from_complete_sources_witness:
  "source_complete (sample_v2 [sample_entry ''3'']) Dpkg"
proof -
  let ?i = "\<lparr>di_action = Modified, di_entry = sample_entry ''3'', di_previous_version = Some ''1''\<rparr>"
  have "?i \<in> set (d_software_changes (snapshot_diff (sample_v2 [sample_entry ''3''])
            (sample_v2 [sample_entry ''1''])))"
    by code_simp
  moreover have "schema_version (sample_v2 [sample_entry ''3'']) = INVENTORY_SCHEMA_VERSION"
    by (simp add: sample_v2_def INVENTORY_SCHEMA_VERSION_def)
  ultimately have "source_complete (sample_v2 [sample_entry ''3'']) (se_source (di_entry ?i))"
    by (intro diff_only_from_complete_sources)
  then show ?thesis by (simp add: sample_entry_def)
qed

end
