(* ===== verification/Api.thy ===== *)
theory Api
  imports Text
begin

text \<open>
  The HTTP boundary of \<open>src/api.rs\<close> and the retry policy of \<open>src/delivery/retry.rs\<close>:
  error classification, the bounded body reader, the one-time certificate recovery inside
  \<open>post_json\<close>, and the back-off. The transport (reqwest) and the JSON decoder
  (serde_json) are parameters: what \<open>send\<close> returned at each attempt, and the function
  from a body to a value or an error text. A body chunk is text of the model's character
  range whose byte length is its UTF-8 length. Durations are in milliseconds.
\<close>

section \<open>Errors\<close>

datatype api_error =
    Auth
  | Forbidden string
  | Conflict string
  | RateLimited "nat option"
  | PayloadTooLarge string
  | Validation string
  | Transient string
  | Fatal string

fun api_error_display :: "api_error \<Rightarrow> string" where
  "api_error_display Auth = ''authentication failed or expired''"
| "api_error_display (Forbidden d) = ''access forbidden: '' @ d"
| "api_error_display (Conflict d) = ''conflicting request: '' @ d"
| "api_error_display (RateLimited _) = ''rate limited''"
| "api_error_display (PayloadTooLarge d) = ''payload too large: '' @ d"
| "api_error_display (Validation d) = ''request validation failed: '' @ d"
| "api_error_display (Transient d) = ''transient error: '' @ d"
| "api_error_display (Fatal d) = ''unrecoverable error: '' @ d"

section \<open>Responses\<close>

record http_response =
  rs_status :: nat
  rs_content_length :: "nat option"
  rs_retry_after :: "string option"
  rs_cert_error :: "string option"
  rs_chunks :: "(api_error + string) list"

definition MAX_ERROR_DETAIL_CHARS :: nat where "MAX_ERROR_DETAIL_CHARS = 500"
definition MAX_SUCCESS_RESPONSE_BYTES :: nat where "MAX_SUCCESS_RESPONSE_BYTES = 1024 * 1024"
definition MAX_ERROR_RESPONSE_BYTES :: nat where "MAX_ERROR_RESPONSE_BYTES = 64 * 1024"

datatype body_read_error = TooLarge nat | Transport api_error

text \<open>The loop over \<open>response.chunk()\<close>: the list is what the calls return, then \<open>None\<close>.\<close>

fun read_chunks :: "nat \<Rightarrow> string \<Rightarrow> (api_error + string) list \<Rightarrow> body_read_error + string" where
  "read_chunks limit body [] = Inr body"
| "read_chunks limit body (Inl e # rest) = Inl (Transport e)"
| "read_chunks limit body (Inr chunk # rest) =
     (if utf8_len chunk > limit - utf8_len body then Inl (TooLarge limit)
      else read_chunks limit (body @ chunk) rest)"

definition read_response_body_limited :: "http_response \<Rightarrow> nat \<Rightarrow> body_read_error + string" where
  "read_response_body_limited r limit =
     (if (case rs_content_length r of None \<Rightarrow> False | Some len \<Rightarrow> len > limit)
      then Inl (TooLarge limit) else read_chunks limit [] (rs_chunks r))"

definition sanitize_detail :: "string \<Rightarrow> string" where
  "sanitize_detail body =
     (let trimmed = trim body in
      if length trimmed \<le> MAX_ERROR_DETAIL_CHARS then trimmed
      else take MAX_ERROR_DETAIL_CHARS trimmed @ ''... (truncated)'')"

definition too_large_text :: "nat \<Rightarrow> string" where
  "too_large_text limit = ''response body exceeds '' @ show_nat limit @ '' bytes''"

text \<open>\<open>Duration::from_secs\<close> of the parsed header, in milliseconds.\<close>

definition retry_after_ms :: "http_response \<Rightarrow> nat option" where
  "retry_after_ms r = map_option (\<lambda>secs. 1000 * secs) (Option.bind (rs_retry_after r) (parse_unsigned 64))"

definition error_for_status :: "nat \<Rightarrow> nat option \<Rightarrow> string \<Rightarrow> api_error" where
  "error_for_status status retry_after detail =
     (if status = 401 then Auth
      else if status = 403 then Forbidden detail
      else if status = 409 then Conflict detail
      else if status = 429 then RateLimited retry_after
      else if status = 413 then PayloadTooLarge detail
      else if status = 422 then Validation detail
      else if status = 408 \<or> status = 425 then Transient detail
      else if 500 \<le> status \<and> status < 600 then Transient detail
      else Fatal (''unexpected status '' @ show_nat status @ '': '' @ detail))"

definition classify_response :: "(string \<Rightarrow> string + 'r) \<Rightarrow> http_response \<Rightarrow> api_error + 'r" where
  "classify_response decode r =
     (if 200 \<le> rs_status r \<and> rs_status r < 300 then
        (case read_response_body_limited r MAX_SUCCESS_RESPONSE_BYTES of
           Inl (TooLarge limit) \<Rightarrow> Inl (Fatal (too_large_text limit))
         | Inl (Transport e) \<Rightarrow> Inl e
         | Inr body \<Rightarrow> (case decode body of
             Inl e \<Rightarrow> Inl (Fatal (''failed to decode response: '' @ e))
           | Inr v \<Rightarrow> Inr v))
      else
        (case read_response_body_limited r MAX_ERROR_RESPONSE_BYTES of
           Inl (Transport e) \<Rightarrow> Inl e
         | Inl (TooLarge limit) \<Rightarrow>
             Inl (error_for_status (rs_status r) (retry_after_ms r) (too_large_text limit))
         | Inr body \<Rightarrow>
             Inl (error_for_status (rs_status r) (retry_after_ms r) (sanitize_detail body))))"

section \<open>Sending\<close>

definition recover_certificate :: "bool \<Rightarrow> http_response \<Rightarrow> string option \<Rightarrow> bool" where
  "recover_certificate has_mtls r token \<longleftrightarrow>
     rs_status r = 403 \<and> token \<noteq> None
     \<and> rs_cert_error r \<in> {Some ''missing'', Some ''revoked'', Some ''expired''} \<and> has_mtls"

text \<open>
  \<open>post_json\<close> (and \<open>post_compressed_json\<close>, which differs in the request it builds):
  \<open>for attempt in 0..2\<close>. \<open>send n\<close> is the outcome of the \<open>n\<close>-th attempt, client set-up
  failures and transport failures included. The result carries the number of attempts
  made; \<open>None\<close> is the \<open>unreachable!()\<close> after the loop.
\<close>

fun post_attempts ::
  "bool \<Rightarrow> string option \<Rightarrow> (nat \<Rightarrow> api_error + http_response) \<Rightarrow> (string \<Rightarrow> string + 'r)
   \<Rightarrow> nat list \<Rightarrow> (nat \<times> (api_error + 'r)) option" where
  "post_attempts has_mtls token send decode [] = None"
| "post_attempts has_mtls token send decode (attempt # later) =
     (case send attempt of
        Inl e \<Rightarrow> Some (attempt + 1, Inl e)
      | Inr r \<Rightarrow>
          (if attempt = 0 \<and> recover_certificate has_mtls r token
           then post_attempts has_mtls token send decode later
           else Some (attempt + 1, classify_response decode r)))"

definition post_json ::
  "bool \<Rightarrow> string option \<Rightarrow> (nat \<Rightarrow> api_error + http_response) \<Rightarrow> (string \<Rightarrow> string + 'r)
   \<Rightarrow> (nat \<times> (api_error + 'r)) option" where
  "post_json has_mtls token send decode = post_attempts has_mtls token send decode [0..<2]"

section \<open>Retry policy\<close>

datatype retry_decision = RetryAfter nat | GiveUp

definition BASE_BACKOFF :: nat where "BASE_BACKOFF = 2000"
definition MAX_BACKOFF :: nat where "MAX_BACKOFF = 300000"
definition MAX_BACKOFF_EXPONENT :: nat where "MAX_BACKOFF_EXPONENT = 16"

text \<open>\<open>rng n\<close> is the draw \<open>gen_range(0..=n)\<close> of the \<open>rand\<close> crate.\<close>

definition backoff :: "(nat \<Rightarrow> nat) \<Rightarrow> nat \<Rightarrow> nat option \<Rightarrow> nat" where
  "backoff rng attempt retry_after =
     (case retry_after of
        Some d \<Rightarrow> d
      | None \<Rightarrow>
          (let capped_attempt = min attempt MAX_BACKOFF_EXPONENT;
               max_delay = min (BASE_BACKOFF * 2 ^ capped_attempt) MAX_BACKOFF
           in rng (max max_delay 1)))"

fun classify :: "(nat \<Rightarrow> nat) \<Rightarrow> api_error \<Rightarrow> nat \<Rightarrow> retry_decision" where
  "classify rng (Transient _) attempt = RetryAfter (backoff rng attempt None)"
| "classify rng (RateLimited retry_after) attempt = RetryAfter (backoff rng attempt retry_after)"
| "classify rng Auth attempt = GiveUp"
| "classify rng (Forbidden _) attempt = GiveUp"
| "classify rng (Conflict _) attempt = GiveUp"
| "classify rng (Validation _) attempt = GiveUp"
| "classify rng (PayloadTooLarge _) attempt = GiveUp"
| "classify rng (Fatal _) attempt = GiveUp"

section \<open>Properties\<close>

lemma utf8_len_append [simp]: "utf8_len (s @ t) = utf8_len s + utf8_len t"
  by (simp add: utf8_len_def)

lemma read_chunks_bounded:
  "read_chunks limit body cs = Inr out \<Longrightarrow> utf8_len body \<le> limit \<Longrightarrow> utf8_len out \<le> limit"
  by (induction limit body cs rule: read_chunks.induct) (auto split: if_splits)

lemma read_chunks_complete:
  "utf8_len (body @ concat cs) \<le> limit \<Longrightarrow> read_chunks limit body (map Inr cs) = Inr (body @ concat cs)"
  by (induction cs arbitrary: body) auto

text \<open>
  C11. The body reader is a bounded concatenation: whatever arrives, an accepted body is at
  most the limit long, and a body of error-free chunks is accepted, unchanged, exactly when
  its announced and its real length are within the limit.
\<close>

theorem body_reader_bounded_and_exact:
  assumes "rs_chunks r = map Inr cs"
  shows "read_response_body_limited r limit =
    (if (\<forall>len. rs_content_length r = Some len \<longrightarrow> len \<le> limit) \<and> utf8_len (concat cs) \<le> limit
     then Inr (concat cs) else Inl (TooLarge limit))"
proof -
  have "read_chunks limit body (map Inr cs) = Inl (TooLarge limit)"
    if "utf8_len body \<le> limit" "\<not> utf8_len (body @ concat cs) \<le> limit" for body
    using that by (induction cs arbitrary: body) (auto simp: not_le)
  from this [of "[]"] read_chunks_complete [of "[]" cs limit] assms show ?thesis
    by (auto simp: read_response_body_limited_def split: option.splits)
qed

theorem body_reader_bounded_and_exact_witness:
  "read_response_body_limited
     \<lparr>rs_status = 200, rs_content_length = Some 3, rs_retry_after = None, rs_cert_error = None,
      rs_chunks = [Inr ''ab'', Inr ''c'']\<rparr> 3 = Inr ''abc''"
  using body_reader_bounded_and_exact [of "\<lparr>rs_status = 200, rs_content_length = Some 3,
      rs_retry_after = None, rs_cert_error = None, rs_chunks = [Inr ''ab'', Inr ''c'']\<rparr>"
      "[''ab'', ''c'']" 3]
  by (simp add: utf8_len_def scalar_def)

lemma sanitize_detail_length: "length (sanitize_detail body) \<le> MAX_ERROR_DETAIL_CHARS + 15"
  by (simp add: sanitize_detail_def Let_def)

lemma upt_0_2: "[0..<2] = [0, 1::nat]"
  by (simp add: upt_conv_Cons)

text \<open>
  \<open>post_json\<close> always returns (its \<open>unreachable!()\<close> is unreachable) after one or two
  attempts, and it makes the second one exactly when the first was answered 403 with a
  recoverable certificate reason on an authenticated mTLS connection.
\<close>

theorem post_json_at_most_one_recovery:
  "\<exists>attempts result. post_json has_mtls token send decode = Some (attempts, result)
     \<and> attempts \<in> {1, 2}
     \<and> (attempts = 2 \<longleftrightarrow> (\<exists>r. send 0 = Inr r \<and> recover_certificate has_mtls r token))"
  by (cases "send 0"; cases "send 1") (auto simp: post_json_def upt_0_2)

lemma backoff_bound: "(\<And>n. rng n \<le> n) \<Longrightarrow> backoff rng attempt None \<le> MAX_BACKOFF"
proof -
  assume rng: "\<And>n. rng n \<le> n"
  let ?m = "max (min (BASE_BACKOFF * 2 ^ min attempt MAX_BACKOFF_EXPONENT) MAX_BACKOFF) 1"
  have "rng ?m \<le> ?m" by (rule rng)
  also have "\<dots> \<le> MAX_BACKOFF" by (simp add: MAX_BACKOFF_def)
  finally show ?thesis by (simp add: backoff_def Let_def)
qed

text \<open>
  The retry policy: only transient failures and rate limiting are retried, a server's
  \<open>Retry-After\<close> is used as it is, and every other delay is at most five minutes and at
  most \<open>2 s * 2 ^ attempt\<close>.
\<close>

theorem retry_delay_policy:
  assumes "\<And>n. rng n \<le> n"
  shows "(classify rng e attempt = GiveUp \<longleftrightarrow>
            \<not> (\<exists>d. e = Transient d) \<and> \<not> (\<exists>ra. e = RateLimited ra))
    \<and> classify rng (RateLimited (Some d)) attempt = RetryAfter d
    \<and> (\<forall>delay. classify rng e attempt = RetryAfter delay \<and> (\<forall>ra. e \<noteq> RateLimited (Some ra)) \<longrightarrow>
         delay \<le> MAX_BACKOFF \<and> delay \<le> BASE_BACKOFF * 2 ^ attempt)"
proof -
  have exp: "backoff rng attempt None \<le> BASE_BACKOFF * 2 ^ attempt"
  proof -
    let ?m = "max (min (BASE_BACKOFF * 2 ^ min attempt MAX_BACKOFF_EXPONENT) MAX_BACKOFF) 1"
    have "rng ?m \<le> ?m" by (rule assms)
    also have "\<dots> \<le> max (BASE_BACKOFF * 2 ^ min attempt MAX_BACKOFF_EXPONENT) 1" by simp
    also have "\<dots> \<le> BASE_BACKOFF * 2 ^ attempt"
      by (simp add: BASE_BACKOFF_def power_increasing) 
    finally show ?thesis by (simp add: backoff_def Let_def)
  qed
  have some: "backoff rng attempt (Some r) = r" for r by (simp add: backoff_def)
  show ?thesis
  proof (cases e)
    case (RateLimited ra)
    with exp backoff_bound [of rng attempt] assms show ?thesis
      by (cases ra) (simp_all add: some)
  qed (use exp backoff_bound [of rng attempt] assms in \<open>simp_all add: some\<close>)
qed

theorem retry_delay_policy_witness:
  "classify (\<lambda>n. n) (Transient ''x'') 3 = RetryAfter 16000
   \<and> 16000 \<le> MAX_BACKOFF \<and> 16000 \<le> BASE_BACKOFF * 2 ^ 3"
proof -
  have c: "classify (\<lambda>n. n) (Transient ''x'') 3 = RetryAfter 16000"
    by (simp add: backoff_def BASE_BACKOFF_def MAX_BACKOFF_EXPONENT_def MAX_BACKOFF_def)
  then show ?thesis using retry_delay_policy [of "\<lambda>n. n" "Transient ''x''" 3 0] by auto
qed

end
