(* ===== verification/Auth.thy ===== *)
theory Auth
  imports Api Complex_Main
begin

text \<open>
  The access-token cache of \<open>src/auth.rs\<close> (\<open>AuthClient\<close>): \<open>token\<close>, \<open>force_refresh\<close>
  and \<open>exchange\<close>. The state is the cached token with its refresh instant; the key file's
  content and the answer of the exchange endpoint are inputs. The refresh-once-and-retry
  rule that every caller follows is \<open>call_with_refresh\<close>.
\<close>

record token_state =
  access_token :: string
  refresh_at :: nat

text \<open>What one exchange sees: the key file's content and the endpoint's answer.\<close>

record exchange_env =
  key_file :: "string + string"
  exchange_response :: "api_error + (string \<times> int)"
  jitter_fraction :: rat
  exchange_now :: nat

definition exchange :: "exchange_env \<Rightarrow> api_error + token_state" where
  "exchange env =
     (case key_file env of
        Inl error \<Rightarrow> Inl (Fatal (''failed to read provisioning key: '' @ error))
      | Inr content \<Rightarrow>
          if trim content = [] then Inl (Fatal ''provisioning key file is empty'')
          else and_then (exchange_response env) (\<lambda>(tok, expires_in).
            let ttl_secs = nat (max expires_in 1);
                refresh_in = nat \<lfloor>of_nat (1000 * ttl_secs) * max (1 - jitter_fraction env) 0\<rfloor>
            in Inr \<lparr>access_token = tok, refresh_at = exchange_now env + refresh_in\<rparr>))"

text \<open>The result, the new cache, and whether an exchange was made.\<close>

definition force_refresh ::
  "exchange_env \<Rightarrow> token_state option \<Rightarrow> (api_error + string) \<times> token_state option" where
  "force_refresh env st =
     (case exchange env of
        Inl e \<Rightarrow> (Inl e, st)
      | Inr fresh \<Rightarrow> (Inr (access_token fresh), Some fresh))"

definition auth_token ::
  "nat \<Rightarrow> exchange_env \<Rightarrow> token_state option \<Rightarrow> (api_error + string) \<times> token_state option \<times> bool" where
  "auth_token now env st =
     (case st of
        Some t \<Rightarrow>
          (if now < refresh_at t then (Inr (access_token t), st, False)
           else (case force_refresh env st of (r, st') \<Rightarrow> (r, st', True)))
      | None \<Rightarrow> (case force_refresh env st of (r, st') \<Rightarrow> (r, st', True)))"

section \<open>Refresh once, retry once\<close>

text \<open>
  The body shared by \<open>register\<close> and \<open>heartbeat_with_revision\<close>: post with the cached
  token; on \<open>Auth\<close> force one exchange and post once more. \<open>post n\<close> is the outcome of the
  \<open>n\<close>-th request for a token. The number of requests made is returned with the result.
\<close>

definition call_with_refresh ::
  "(api_error + string) \<Rightarrow> (api_error + string) \<Rightarrow> (nat \<Rightarrow> string \<Rightarrow> api_error + 'r)
   \<Rightarrow> nat \<times> (api_error + 'r)" where
  "call_with_refresh tok refreshed post =
     (case tok of
        Inl e \<Rightarrow> (0, Inl e)
      | Inr t \<Rightarrow>
          (case post 0 t of
             Inl Auth \<Rightarrow>
               (case refreshed of
                  Inl e \<Rightarrow> (1, Inl e)
                | Inr t' \<Rightarrow> (2, post 1 t'))
           | other \<Rightarrow> (1, other)))"

lemma call_with_refresh_requests:
  "fst (call_with_refresh tok refreshed post) \<le> 2"
  by (auto simp: call_with_refresh_def split: sum.splits api_error.splits)

lemma exchange_refresh_window:
  assumes "exchange env = Inr t" and "exchange_response env = Inr (tok, expires_in)"
    and "1 / 10 \<le> jitter_fraction env" and "jitter_fraction env < 1 / 4"
  shows "exchange_now env \<le> refresh_at t
    \<and> rat_of_nat (refresh_at t - exchange_now env) \<le> 9 / 10 * of_nat (1000 * nat (max expires_in 1))
    \<and> 3 / 4 * of_nat (1000 * nat (max expires_in 1)) - 1 < rat_of_nat (refresh_at t - exchange_now env)"
proof -
  define m where "m = rat_of_nat (1000 * nat (max expires_in 1))"
  define x where "x = m * (1 - jitter_fraction env)"
  have m: "0 \<le> m" by (simp add: m_def)
  have mx: "max (1 - jitter_fraction env) 0 = 1 - jitter_fraction env" using assms(4) by simp
  have t: "refresh_at t = exchange_now env + nat \<lfloor>x\<rfloor>"
    using assms(1,2) by (auto simp: exchange_def x_def m_def mx Let_def split: sum.splits if_splits)
  have "m * (3 / 4) \<le> x" unfolding x_def using assms(4) m by (intro mult_left_mono) auto
  moreover have "x \<le> m * (9 / 10)" unfolding x_def using assms(3) m by (intro mult_left_mono) auto
  moreover have "0 \<le> x" using \<open>m * (3 / 4) \<le> x\<close> m by linarith
  then have "rat_of_nat (nat \<lfloor>x\<rfloor>) = of_int \<lfloor>x\<rfloor>" by simp
  moreover have "of_int \<lfloor>x\<rfloor> \<le> x" "x - 1 < of_int \<lfloor>x\<rfloor>" by linarith+
  ultimately have "rat_of_nat (nat \<lfloor>x\<rfloor>) \<le> 9 / 10 * m" "3 / 4 * m - 1 < rat_of_nat (nat \<lfloor>x\<rfloor>)"
    by linarith+
  then show ?thesis unfolding t m_def [symmetric] diff_add_inverse by (intro conjI le_add1)
qed

lemma exchange_refresh_window_nat:
  assumes "exchange env = Inr t" and "exchange_response env = Inr (tok, expires_in)"
    and "1 / 10 \<le> jitter_fraction env" and "jitter_fraction env < 1 / 4"
  shows "refresh_at t \<le> exchange_now env + 900 * nat (max expires_in 1)"
    and "exchange_now env + 750 * nat (max expires_in 1) \<le> refresh_at t"
proof -
  define n where "n = nat (max expires_in 1)"
  note w = exchange_refresh_window [OF assms, folded n_def]
  have 1: "9 / 10 * rat_of_nat (1000 * n) = rat_of_nat (900 * n)"
    and 2: "3 / 4 * rat_of_nat (1000 * n) = rat_of_nat (750 * n)" by simp_all
  from w have "rat_of_nat (refresh_at t - exchange_now env) \<le> rat_of_nat (900 * n)"
    by (simp only: 1)
  then have "refresh_at t - exchange_now env \<le> 900 * n" by (simp only: of_nat_le_iff)
  with w show "refresh_at t \<le> exchange_now env + 900 * nat (max expires_in 1)"
    unfolding n_def by linarith
  from w have "rat_of_nat (750 * n) < rat_of_nat (refresh_at t - exchange_now env) + 1"
    by (simp only: 2) linarith
  then have "rat_of_nat (750 * n) < rat_of_nat (refresh_at t - exchange_now env + 1)"
    by (simp only: of_nat_add of_nat_1)
  then have "750 * n < refresh_at t - exchange_now env + 1" by (simp only: of_nat_less_iff)
  with w show "exchange_now env + 750 * nat (max expires_in 1) \<le> refresh_at t"
    unfolding n_def by linarith
qed

text \<open>
  A fresh token is refreshed between 75 and 90 percent of its life: with the jitter
  drawn from \<open>0.10..0.25\<close>, \<open>token\<close> answers from the cache at every instant before the
  refresh point, which is strictly inside the token's lifetime, without an exchange.
\<close>

theorem cached_token_used_until_refresh_point:
  assumes "force_refresh env st = (Inr tok, Some t)"
    and "exchange_response env = Inr (tok', expires_in)"
    and "1 / 10 \<le> jitter_fraction env" and "jitter_fraction env < 1 / 4"
    and "now < refresh_at t"
  shows "auth_token now env' (Some t) = (Inr tok, Some t, False)
    \<and> refresh_at t \<le> exchange_now env + 900 * nat (max expires_in 1)
    \<and> exchange_now env + 750 * nat (max expires_in 1) \<le> refresh_at t"
proof -
  have ex: "exchange env = Inr t" and tok: "tok = access_token t"
    using assms(1) by (auto simp: force_refresh_def split: sum.splits)
  from exchange_refresh_window_nat [OF ex assms(2,3,4)] assms(5)
  show ?thesis by (simp add: auth_token_def tok)
qed

definition sample_exchange :: exchange_env where
  "sample_exchange = \<lparr>key_file = Inr ''bootstrap'', exchange_response = Inr (''jwt'', 7200),
     jitter_fraction = 1 / 5, exchange_now = 1000\<rparr>"

theorem cached_token_used_until_refresh_point_witness:
  "auth_token 5000000 sample_exchange (Some \<lparr>access_token = ''jwt'', refresh_at = 5761000\<rparr>)
     = (Inr ''jwt'', Some \<lparr>access_token = ''jwt'', refresh_at = 5761000\<rparr>, False)
   \<and> (5761000::nat) \<le> 1000 + 900 * 7200"
proof -
  have "force_refresh sample_exchange None =
      (Inr ''jwt'', Some \<lparr>access_token = ''jwt'', refresh_at = 5761000\<rparr>)"
    by (simp add: force_refresh_def exchange_def sample_exchange_def trim_Nil_iff is_whitespace_def
        scalar_def)
  from cached_token_used_until_refresh_point [OF this, of "''jwt''" 7200 5000000 sample_exchange]
  show ?thesis by (simp add: sample_exchange_def)
qed

end
