(* ===== verification/Json.thy ===== *)
theory Json
  imports Prelude
begin

text \<open>
  JSON values as \<open>serde_json::Value\<close> has them: what the \<open>Serialize\<close> and \<open>Deserialize\<close>
  attributes of the source are translated to. Printing and parsing their text is the JSON
  crate's and a parameter of the definitions that need it.
\<close>

text \<open>A number with a fraction or an exponent is only kept as its text.\<close>

datatype json =
    JNull
  | JBool bool
  | JInt int
  | JFloat string
  | JText string
  | JArray "json list"
  | JMap "(string \<times> json) list"

end
