(* ===== verification/Wire_Format.thy ===== *)
theory Wire_Format
  imports Snapshot Json
begin

text \<open>
  The JSON form of the model: what the \<open>Serialize\<close> and \<open>Deserialize\<close> attributes of
  \<open>src/src/model.rs\<close> derive for the snapshot, its entries, identifiers and sources, and
  \<open>to_canonical_json\<close>. Turning a JSON value into text is the JSON crate's and a parameter.
  A locale states what every type on the wire owes the types that contain it; it is
  interpreted for every struct and enumeration of the snapshot.
\<close>

section \<open>Sequences\<close>

fun traverse :: "('a \<Rightarrow> 'e + 'b) \<Rightarrow> 'a list \<Rightarrow> 'e + 'b list" where
  "traverse f [] = Inr []"
| "traverse f (x # xs) = and_then (f x) (\<lambda>y. and_then (traverse f xs) (\<lambda>ys. Inr (y # ys)))"

section \<open>Scalars and containers\<close>

fun text_from_json :: "json \<Rightarrow> string + string" where
  "text_from_json (JText s) = Inr s"
| "text_from_json j = Inl ''invalid type: expected a string''"

fun u16_from_json :: "json \<Rightarrow> string + u16" where
  "u16_from_json (JInt i) =
     (if 0 \<le> i \<and> i < 65536 then Inr (word_of_int i) else Inl ''invalid value: expected u16'')"
| "u16_from_json j = Inl ''invalid type: expected u16''"

definition option_to_json :: "('a \<Rightarrow> json) \<Rightarrow> 'a option \<Rightarrow> json" where
  "option_to_json f v = (case v of None \<Rightarrow> JNull | Some a \<Rightarrow> f a)"

definition option_from_json :: "(json \<Rightarrow> string + 'a) \<Rightarrow> json \<Rightarrow> string + 'a option" where
  "option_from_json f j = (if j = JNull then Inr None else map_sum id Some (f j))"

definition list_to_json :: "('a \<Rightarrow> json) \<Rightarrow> 'a list \<Rightarrow> json" where
  "list_to_json f xs = JArray (map f xs)"

fun list_from_json :: "(json \<Rightarrow> string + 'a) \<Rightarrow> json \<Rightarrow> string + 'a list" where
  "list_from_json f (JArray js) = traverse f js"
| "list_from_json f j = Inl ''invalid type: expected a sequence''"

definition labels_to_json :: "(string, string) btree \<Rightarrow> json" where
  "labels_to_json m = JMap (map (\<lambda>(k, v). (k, JText v)) m)"

fun labels_from_json :: "json \<Rightarrow> string + (string, string) btree" where
  "labels_from_json (JMap ms) =
     and_then (traverse (\<lambda>(k, j). and_then (text_from_json j) (\<lambda>v. Inr (k, v))) ms)
       (\<lambda>kvs. Inr (btree_collect kvs))"
| "labels_from_json j = Inl ''invalid type: expected a map''"

text \<open>
  A unit variant: its name, or a map from its name to null. \<open>variants\<close> are the variants with
  their names in snake case.
\<close>

definition variant_named :: "('a \<times> string) list \<Rightarrow> string \<Rightarrow> string + 'a" where
  "variant_named variants name =
     ok_or (map_option fst (find (\<lambda>(v, n). n = name) variants)) (''unknown variant '' @ name)"

fun enum_from_json :: "('a \<times> string) list \<Rightarrow> json \<Rightarrow> string + 'a" where
  "enum_from_json variants (JText name) = variant_named variants name"
| "enum_from_json variants (JMap [(name, JNull)]) = variant_named variants name"
| "enum_from_json variants j = Inl ''invalid type: expected a variant''"

section \<open>Structs\<close>

text \<open>
  A struct is read from a map, in which unknown members are ignored and a repeated field is an
  error, or from a sequence of its fields in order.
\<close>

fun struct_shape :: "nat \<Rightarrow> json \<Rightarrow> string + unit" where
  "struct_shape n (JMap ms) = Inr ()"
| "struct_shape n (JArray js) = guard_else (length js \<le> n) ''trailing characters''"
| "struct_shape n j = Inl ''invalid type: expected a struct''"

fun field_of :: "string \<Rightarrow> nat \<Rightarrow> json \<Rightarrow> string + json option" where
  "field_of name i (JMap ms) =
     (case filter (\<lambda>(k, _). k = name) ms of
        [] \<Rightarrow> Inr None
      | [(_, j)] \<Rightarrow> Inr (Some j)
      | _ \<Rightarrow> Inl (''duplicate field '' @ name))"
| "field_of name i (JArray js) = Inr (if i < length js then Some (js ! i) else None)"
| "field_of name i j = Inl ''invalid type: expected a struct''"

definition required :: "string \<Rightarrow> nat \<Rightarrow> (json \<Rightarrow> string + 'a) \<Rightarrow> json \<Rightarrow> string + 'a" where
  "required name i from j = and_then (field_of name i j) (\<lambda>v.
     case v of None \<Rightarrow> Inl (''missing field '' @ name) | Some x \<Rightarrow> from x)"

text \<open>A field of type \<open>Option\<close> may be missing from a map, not from a sequence.\<close>

definition nullable :: "string \<Rightarrow> nat \<Rightarrow> (json \<Rightarrow> string + 'a) \<Rightarrow> json \<Rightarrow> string + 'a option" where
  "nullable name i from j = and_then (field_of name i j) (\<lambda>v.
     case v of
       None \<Rightarrow> (case j of JMap _ \<Rightarrow> Inr None | _ \<Rightarrow> Inl ''invalid length'')
     | Some x \<Rightarrow> option_from_json from x)"

definition defaulted :: "string \<Rightarrow> nat \<Rightarrow> 'a \<Rightarrow> (json \<Rightarrow> string + 'a) \<Rightarrow> json \<Rightarrow> string + 'a" where
  "defaulted name i d from j = and_then (field_of name i j) (\<lambda>v.
     case v of None \<Rightarrow> Inr d | Some x \<Rightarrow> from x)"

text \<open>A field that is skipped when there is nothing in it.\<close>

definition unless :: "bool \<Rightarrow> string \<Rightarrow> json \<Rightarrow> (string \<times> json) list" where
  "unless skip name j = (if skip then [] else [(name, j)])"

section \<open>The enumerations\<close>

definition source_variants :: "(software_source \<times> string) list" where
  "source_variants = [(Apt, ''apt''), (Dpkg, ''dpkg''), (Rpm, ''rpm''), (Winreg, ''winreg''), (Msi, ''msi''),
     (Brew, ''brew''), (Pip, ''pip''), (Npm, ''npm''), (Java, ''java''), (Kb, ''kb''), (Pacman, ''pacman''),
     (MacBundle, ''mac_bundle''), (Other, ''other'')]"

definition identifier_variants :: "(identifier_type \<times> string) list" where
  "identifier_variants = [(MacHash, ''mac_hash''), (SerialHash, ''serial_hash''),
     (BiosUuidHash, ''bios_uuid_hash''), (TpmEkHash, ''tpm_ek_hash'')]"

definition scope_variants :: "(installation_scope \<times> string) list" where
  "scope_variants = [(SystemScope, ''system''), (UserScope, ''user''), (RuntimeScope, ''runtime''),
     (ContainerScope, ''container'')]"

definition status_variants :: "(collection_status \<times> string) list" where
  "status_variants = [(Complete, ''complete''), (Partial, ''partial''), (Failed, ''failed''),
     (NotApplicable, ''not_applicable'')]"

definition variant_to_json :: "('a \<times> string) list \<Rightarrow> 'a \<Rightarrow> json" where
  "variant_to_json variants v = JText (unwrap_or (map_of variants v) [])"

section \<open>The structs\<close>

definition identifier_to_json :: "endpoint_identifier \<Rightarrow> json" where
  "identifier_to_json i = JMap [(''identifier_type'', variant_to_json identifier_variants (identifier_type i)),
     (''value_hash'', JText (value_hash i))]"

definition identifier_from_json :: "json \<Rightarrow> string + endpoint_identifier" where
  "identifier_from_json j =
     and_then (struct_shape 2 j) (\<lambda>_.
     and_then (required ''identifier_type'' 0 (enum_from_json identifier_variants) j) (\<lambda>t.
     and_then (required ''value_hash'' 1 text_from_json j) (\<lambda>h.
       Inr \<lparr>identifier_type = t, value_hash = h\<rparr>)))"

definition entry_to_json :: "software_entry \<Rightarrow> json" where
  "entry_to_json e = JMap
     ([(''name'', JText (se_name e)), (''version'', option_to_json JText (se_version e)),
       (''publisher'', option_to_json JText (se_publisher e)),
       (''architecture'', option_to_json JText (se_architecture e)),
       (''source'', variant_to_json source_variants (se_source e)),
       (''install_location'', option_to_json JText (se_install_location e))]
      @ unless (se_product_identity e = None) ''product_identity'' (option_to_json JText (se_product_identity e))
      @ unless (se_installation_identity e = None) ''installation_identity''
          (option_to_json JText (se_installation_identity e))
      @ unless (se_package_id e = None) ''package_id'' (option_to_json JText (se_package_id e))
      @ unless (se_scope e = None) ''scope'' (option_to_json (variant_to_json scope_variants) (se_scope e))
      @ unless (se_install_instance_id e = None) ''install_instance_id''
          (option_to_json JText (se_install_instance_id e)))"

definition entry_from_json :: "json \<Rightarrow> string + software_entry" where
  "entry_from_json j =
     and_then (struct_shape 11 j) (\<lambda>_.
     and_then (required ''name'' 0 text_from_json j) (\<lambda>name.
     and_then (nullable ''version'' 1 text_from_json j) (\<lambda>version.
     and_then (nullable ''publisher'' 2 text_from_json j) (\<lambda>publisher.
     and_then (nullable ''architecture'' 3 text_from_json j) (\<lambda>architecture.
     and_then (required ''source'' 4 (enum_from_json source_variants) j) (\<lambda>source.
     and_then (nullable ''install_location'' 5 text_from_json j) (\<lambda>location.
     and_then (defaulted ''product_identity'' 6 None (option_from_json text_from_json) j) (\<lambda>product.
     and_then (defaulted ''installation_identity'' 7 None (option_from_json text_from_json) j) (\<lambda>installation.
     and_then (defaulted ''package_id'' 8 None (option_from_json text_from_json) j) (\<lambda>package.
     and_then (defaulted ''scope'' 9 None (option_from_json (enum_from_json scope_variants)) j) (\<lambda>scope.
     and_then (defaulted ''install_instance_id'' 10 None (option_from_json text_from_json) j) (\<lambda>inst.
       Inr \<lparr>se_name = name, se_version = version, se_publisher = publisher, se_architecture = architecture,
            se_source = source, se_install_location = location, se_product_identity = product,
            se_installation_identity = installation, se_package_id = package, se_scope = scope,
            se_install_instance_id = inst\<rparr>))))))))))))"

definition source_to_json :: "collection_source \<Rightarrow> json" where
  "source_to_json c = JMap [(''source'', variant_to_json source_variants (cs_source c)),
     (''status'', variant_to_json status_variants (cs_status c)), (''collected_at'', JText (cs_collected_at c)),
     (''last_complete_at'', option_to_json JText (cs_last_complete_at c)),
     (''collector_version'', JText (cs_collector_version c)),
     (''diagnostic_code'', option_to_json JText (cs_diagnostic_code c))]"

definition source_from_json :: "json \<Rightarrow> string + collection_source" where
  "source_from_json j =
     and_then (struct_shape 6 j) (\<lambda>_.
     and_then (required ''source'' 0 (enum_from_json source_variants) j) (\<lambda>source.
     and_then (required ''status'' 1 (enum_from_json status_variants) j) (\<lambda>status.
     and_then (required ''collected_at'' 2 text_from_json j) (\<lambda>collected.
     and_then (nullable ''last_complete_at'' 3 text_from_json j) (\<lambda>completed.
     and_then (required ''collector_version'' 4 text_from_json j) (\<lambda>version.
     and_then (nullable ''diagnostic_code'' 5 text_from_json j) (\<lambda>code.
       Inr \<lparr>cs_source = source, cs_status = status, cs_collected_at = collected,
            cs_last_complete_at = completed, cs_collector_version = version,
            cs_diagnostic_code = code\<rparr>)))))))"

definition snapshot_to_json :: "inventory_snapshot \<Rightarrow> json" where
  "snapshot_to_json s = JMap
     ([(''schema_version'', JInt (uint (schema_version s))), (''snapshot_id'', JText (snapshot_id s)),
       (''agent_id'', JText (agent_id s)), (''collected_at'', JText (collected_at s)),
       (''hostname'', JText (hostname s)), (''os_family'', option_to_json JText (os_family s)),
       (''os_name'', option_to_json JText (os_name s)), (''os_version'', option_to_json JText (os_version s)),
       (''os_arch'', option_to_json JText (os_arch s)), (''agent_version'', JText (agent_version s)),
       (''labels'', labels_to_json (labels s)),
       (''identifiers'', list_to_json identifier_to_json (identifiers s)),
       (''software'', list_to_json entry_to_json (software s)),
       (''collector_warnings'', list_to_json JText (collector_warnings s))]
      @ unless (sources s = []) ''sources'' (list_to_json source_to_json (sources s)))"

definition snapshot_from_json :: "json \<Rightarrow> string + inventory_snapshot" where
  "snapshot_from_json j =
     and_then (struct_shape 15 j) (\<lambda>_.
     and_then (required ''schema_version'' 0 u16_from_json j) (\<lambda>schema.
     and_then (required ''snapshot_id'' 1 text_from_json j) (\<lambda>sid.
     and_then (required ''agent_id'' 2 text_from_json j) (\<lambda>aid.
     and_then (required ''collected_at'' 3 text_from_json j) (\<lambda>collected.
     and_then (required ''hostname'' 4 text_from_json j) (\<lambda>host.
     and_then (nullable ''os_family'' 5 text_from_json j) (\<lambda>fam.
     and_then (nullable ''os_name'' 6 text_from_json j) (\<lambda>nam.
     and_then (nullable ''os_version'' 7 text_from_json j) (\<lambda>ver.
     and_then (nullable ''os_arch'' 8 text_from_json j) (\<lambda>arch.
     and_then (required ''agent_version'' 9 text_from_json j) (\<lambda>av.
     and_then (required ''labels'' 10 labels_from_json j) (\<lambda>lbls.
     and_then (required ''identifiers'' 11 (list_from_json identifier_from_json) j) (\<lambda>ids.
     and_then (required ''software'' 12 (list_from_json entry_from_json) j) (\<lambda>sw.
     and_then (required ''collector_warnings'' 13 (list_from_json text_from_json) j) (\<lambda>warns.
     and_then (defaulted ''sources'' 14 [] (list_from_json source_from_json) j) (\<lambda>srcs.
       Inr \<lparr>schema_version = schema, snapshot_id = sid, agent_id = aid, collected_at = collected,
            hostname = host, os_family = fam, os_name = nam, os_version = ver, os_arch = arch,
            agent_version = av, labels = lbls, identifiers = ids, software = sw,
            collector_warnings = warns, sources = srcs\<rparr>))))))))))))))))"

text \<open>\<open>to_canonical_json\<close>; \<open>render\<close> is the JSON crate's compact printer into its text.\<close>

definition to_canonical_json :: "(json \<Rightarrow> 'text) \<Rightarrow> inventory_snapshot \<Rightarrow> 'text" where
  "to_canonical_json render s = render (snapshot_to_json s)"

section \<open>The interface of a type on the wire\<close>

locale wire_type =
  fixes to_json :: "'a \<Rightarrow> json"
    and from_json :: "json \<Rightarrow> string + 'a"
  assumes from_to: "from_json (to_json v) = Inr v"
    and not_null: "to_json v \<noteq> JNull"
begin

lemma option_from_to: "option_from_json from_json (option_to_json to_json v) = Inr v"
  by (cases v) (simp_all add: option_from_json_def option_to_json_def from_to not_null)

lemma list_from_to: "list_from_json from_json (list_to_json to_json vs) = Inr vs"
  by (induction vs) (simp_all add: list_to_json_def from_to)

lemma to_json_inject: "to_json v = to_json w \<longleftrightarrow> v = w"
  using from_to by (metis Inr_inject)

end

interpretation wire_text: wire_type JText text_from_json
  by unfold_locales simp_all

lemma enum_wire_type:
  assumes "\<And>v. map_of variants v \<noteq> None" "distinct (map snd variants)"
  shows "wire_type (variant_to_json variants) (enum_from_json variants)"
proof
  fix v
  obtain n where n: "map_of variants v = Some n" using assms(1) by auto
  then have mem: "(v, n) \<in> set variants" by (rule map_of_SomeD)
  then have "find (\<lambda>(v, m). m = n) variants = Some (v, n)"
    using assms(2) by (induction variants) (auto, metis image_eqI snd_conv)
  then show "enum_from_json variants (variant_to_json variants v) = Inr v"
    using n by (simp add: variant_to_json_def variant_named_def unwrap_or_def)
  show "variant_to_json variants v \<noteq> JNull" by (simp add: variant_to_json_def)
qed

interpretation wire_source_kind: wire_type "variant_to_json source_variants" "enum_from_json source_variants"
proof (rule enum_wire_type)
  show "map_of source_variants v \<noteq> None" for v by (cases v) (simp_all add: source_variants_def)
qed (simp add: source_variants_def)

interpretation wire_identifier_type: wire_type "variant_to_json identifier_variants" "enum_from_json identifier_variants"
proof (rule enum_wire_type)
  show "map_of identifier_variants v \<noteq> None" for v by (cases v) (simp_all add: identifier_variants_def)
qed (simp add: identifier_variants_def)

interpretation wire_scope: wire_type "variant_to_json scope_variants" "enum_from_json scope_variants"
proof (rule enum_wire_type)
  show "map_of scope_variants v \<noteq> None" for v by (cases v) (simp_all add: scope_variants_def)
qed (simp add: scope_variants_def)

interpretation wire_status: wire_type "variant_to_json status_variants" "enum_from_json status_variants"
proof (rule enum_wire_type)
  show "map_of status_variants v \<noteq> None" for v by (cases v) (simp_all add: status_variants_def)
qed (simp add: status_variants_def)

text \<open>Looking up the members of a struct that is written out.\<close>

lemma filter_unless [simp]:
  "filter (\<lambda>(k, _). k = name) (unless skip n j) = (if n = name then unless skip n j else [])"
  by (simp add: unless_def)

lemma unless_case [simp]:
  "(case unless skip n j of [] \<Rightarrow> Inr None | [(_, x)] \<Rightarrow> Inr (Some x) | _ \<Rightarrow> Inl e)
   = Inr (if skip then None else Some j)"
  by (simp add: unless_def)

lemmas struct_simps = required_def nullable_def defaulted_def
  wire_text.from_to wire_text.option_from_to wire_text.list_from_to
  wire_source_kind.from_to wire_identifier_type.from_to wire_scope.option_from_to wire_status.from_to

lemma option_from_null [simp]: "option_from_json f JNull = Inr None"
  by (simp add: option_from_json_def)

interpretation wire_identifier: wire_type identifier_to_json identifier_from_json
proof
  fix i :: endpoint_identifier
  show "identifier_from_json (identifier_to_json i) = Inr i"
    unfolding identifier_from_json_def identifier_to_json_def by (simp add: struct_simps)
qed (simp add: identifier_to_json_def)

interpretation wire_source: wire_type source_to_json source_from_json
proof
  fix c :: collection_source
  show "source_from_json (source_to_json c) = Inr c"
    unfolding source_from_json_def source_to_json_def by (simp add: struct_simps)
qed (simp add: source_to_json_def)

interpretation wire_entry: wire_type entry_to_json entry_from_json
proof
  fix e :: software_entry
  show "entry_from_json (entry_to_json e) = Inr e"
    unfolding entry_from_json_def entry_to_json_def by (simp add: struct_simps)
qed (simp add: entry_to_json_def)

section \<open>The snapshot on the wire\<close>

lemma btree_insert_last: "\<forall>x\<in>set (map fst m). x < k \<Longrightarrow> btree_insert k v m = m @ [(k, v)]"
proof (induction m)
  case (Cons a m)
  then show ?case by (cases a) (auto dest: order.asym)
qed simp

lemma btree_collect_sorted: "btree_wf m \<Longrightarrow> btree_collect m = m"
proof (induction m rule: rev_induct)
  case (snoc a m)
  then have "btree_wf m" "\<forall>x\<in>set (map fst m). x < fst a" by (auto simp: btree_wf_def sorted_wrt_append)
  then show ?case using snoc.IH by (cases a) (simp add: btree_collect_def btree_insert_last)
qed (simp add: btree_collect_def)

lemma labels_from_to: "btree_wf m \<Longrightarrow> labels_from_json (labels_to_json m) = Inr m"
proof -
  have "traverse (\<lambda>(k, j). and_then (text_from_json j) (\<lambda>v. Inr (k, v))) (map (\<lambda>(k, v). (k, JText v)) m) = Inr m"
    by (induction m) auto
  then show "btree_wf m \<Longrightarrow> ?thesis" by (simp add: labels_to_json_def btree_collect_sorted)
qed

lemma u16_from_to: "u16_from_json (JInt (uint w)) = Inr w"
proof -
  have "uint w < 65536" using uint_bounded [of w] by simp
  then show ?thesis by simp
qed

text \<open>
  C22. A snapshot written to JSON and read again is the same snapshot, whatever its texts,
  options and lists are, when its labels are a map; the text between the two is the JSON
  crate's, which reads back what it printed.
\<close>

theorem snapshot_json_roundtrip:
  assumes "btree_wf (labels s)" and "\<And>j. parse (render j) = Inr j"
  shows "and_then (parse (to_canonical_json render s)) snapshot_from_json = Inr s"
  unfolding to_canonical_json_def assms(2) snapshot_to_json_def snapshot_from_json_def
  by (simp add: struct_simps u16_from_to labels_from_to [OF assms(1)] wire_identifier.list_from_to
      wire_entry.list_from_to wire_source.list_from_to del: u16_from_json.simps)

text \<open>A document that an older agent stored has no sources and no identities, and still reads.\<close>

lemma old_document_reads:
  assumes "field_of ''sources'' 14 (JMap ms) = Inr None" "snapshot_from_json (JMap ms) = Inr s"
  shows "sources s = []"
  using assms by (auto simp: snapshot_from_json_def defaulted_def and_then_Inr_iff)

fun member_names :: "json \<Rightarrow> string list" where
  "member_names (JMap ms) = map fst ms"
| "member_names j = []"

definition legacy_members :: "string list" where
  "legacy_members = [''schema_version'', ''snapshot_id'', ''agent_id'', ''collected_at'', ''hostname'',
     ''os_family'', ''os_name'', ''os_version'', ''os_arch'', ''agent_version'', ''labels'', ''identifiers'',
     ''software'', ''collector_warnings'']"

definition legacy_entry_members :: "string list" where
  "legacy_entry_members = [''name'', ''version'', ''publisher'', ''architecture'', ''source'', ''install_location'']"

lemma legacy_prepared:
  assumes "e \<in> set (software (into_v1 sha s))"
  obtains e0 where "e = entry_normalize (legacy_entry e0)"
proof -
  have sub: "set (first_of_runs f xs) \<subseteq> set xs" for f :: "software_entry \<Rightarrow> string" and xs
    by (rule set_first_of_runs)
  have "e \<in> set (prepared_entries sha (s\<lparr>schema_version := LEGACY_INVENTORY_SCHEMA_VERSION, sources := [],
                            software := map legacy_entry (software s)\<rparr>))"
    using assms sub unfolding into_v1_def software_normalize_snapshot by fastforce
  then show thesis using that by (auto simp: prepared_entries_def prepare_entry_def)
qed

text \<open>
  C21. The legacy form of any snapshot has the wire type of schema version 1: exactly its
  fourteen members with the number 1, no collection sources, and entries of exactly the six
  members whose source is one that a version 1 server knows.
\<close>

theorem legacy_wire_type:
  "member_names (snapshot_to_json (into_v1 sha s)) = legacy_members
   \<and> field_of ''schema_version'' 0 (snapshot_to_json (into_v1 sha s)) = Inr (Some (JInt 1))
   \<and> (\<forall>e\<in>set (software (into_v1 sha s)). member_names (entry_to_json e) = legacy_entry_members
        \<and> enum_from_json source_variants (variant_to_json source_variants (se_source e)) \<notin> {Inr Pacman, Inr MacBundle})"
proof (intro conjI ballI)
  have f: "sources (into_v1 sha s) = []" "schema_version (into_v1 sha s) = 1"
    by (simp_all add: into_v1_def normalize_snapshot_fields LEGACY_INVENTORY_SCHEMA_VERSION_def
        INVENTORY_SCHEMA_VERSION_def)
  then show "member_names (snapshot_to_json (into_v1 sha s)) = legacy_members"
    "field_of ''schema_version'' 0 (snapshot_to_json (into_v1 sha s)) = Inr (Some (JInt 1))"
    by (simp_all add: snapshot_to_json_def unless_def legacy_members_def)
  fix e assume "e \<in> set (software (into_v1 sha s))"
  then obtain e0 where e: "e = entry_normalize (legacy_entry e0)" by (rule legacy_prepared)
  then show "member_names (entry_to_json e) = legacy_entry_members"
    by (simp add: entry_normalize_def legacy_entry_def entry_to_json_def unless_def legacy_entry_members_def)
  show "enum_from_json source_variants (variant_to_json source_variants (se_source e)) \<notin> {Inr Pacman, Inr MacBundle}"
    by (simp add: wire_source_kind.from_to e entry_normalize_def legacy_entry_def)
qed

section \<open>Witnesses\<close>

definition sample_wire_snapshot :: inventory_snapshot where
  "sample_wire_snapshot = \<lparr>schema_version = 2, snapshot_id = ''snap-1'', agent_id = ''agent_1'',
     collected_at = ''2026-07-24T08:00:00Z'', hostname = ''host'', os_family = Some ''linux'', os_name = None,
     os_version = None, os_arch = None, agent_version = ''0.5.0'', labels = [(''site'', ''helsinki'')],
     identifiers = [\<lparr>identifier_type = MacHash, value_hash = ''00''\<rparr>],
     software = [\<lparr>se_name = ''firefox'', se_version = Some ''128.0'', se_publisher = None, se_architecture = None,
       se_source = MacBundle, se_install_location = None, se_product_identity = Some ''p'',
       se_installation_identity = Some ''i'', se_package_id = None, se_scope = Some SystemScope,
       se_install_instance_id = Some ''x''\<rparr>],
     collector_warnings = [], sources = [\<lparr>cs_source = MacBundle, cs_status = Complete, cs_collected_at = ''t'',
       cs_last_complete_at = Some ''t'', cs_collector_version = ''0.5.0'', cs_diagnostic_code = None\<rparr>]\<rparr>"

theorem snapshot_json_roundtrip_witness:
  "and_then (Inr (to_canonical_json (\<lambda>j. j) sample_wire_snapshot)) snapshot_from_json = Inr sample_wire_snapshot
   \<and> member_names (to_canonical_json (\<lambda>j. j) sample_wire_snapshot) = legacy_members @ [''sources'']"
proof
  have "btree_wf (labels sample_wire_snapshot)" by (simp add: sample_wire_snapshot_def btree_wf_def)
  from snapshot_json_roundtrip [where parse = Inr and render = "\<lambda>j. j", OF this refl]
  show "and_then (Inr (to_canonical_json (\<lambda>j. j) sample_wire_snapshot)) snapshot_from_json = Inr sample_wire_snapshot" .
  show "member_names (to_canonical_json (\<lambda>j. j) sample_wire_snapshot) = legacy_members @ [''sources'']"
    by (simp add: to_canonical_json_def snapshot_to_json_def unless_def sample_wire_snapshot_def legacy_members_def)
qed

theorem legacy_wire_type_witness:
  "\<exists>e\<in>set (software (into_v1 (\<lambda>_. []) sample_wire_snapshot)). member_names (entry_to_json e) = legacy_entry_members"
proof -
  have "prepared_entries (\<lambda>_. []) (sample_wire_snapshot\<lparr>schema_version := LEGACY_INVENTORY_SCHEMA_VERSION, sources := [],
      software := map legacy_entry (software sample_wire_snapshot)\<rparr>) \<noteq> []"
    by code_simp
  then obtain e where "e \<in> set (software (into_v1 (\<lambda>_. []) sample_wire_snapshot))"
    unfolding into_v1_def software_normalize_snapshot
    by (metis ex_in_conv first_of_runs_Cons list.exhaust set_empty set_sort_by list.set_intros(1))
  with legacy_wire_type [of "\<lambda>_. []" sample_wire_snapshot] show ?thesis by blast
qed

end
