(* ===== verification/Atomic_File.thy ===== *)
theory Atomic_File
  imports Text "HOL-Library.AList"
begin

text \<open>
  The directory of files that the durable stores share, and the one pattern with which
  every store of the agent replaces a file: create a temporary sibling, write and sync it,
  rename it over the target, sync the directory. A directory is an association list in
  the order \<open>read_dir\<close> yields it. The operating system's failures are inputs: \<open>fault op\<close> is
  the error that operation \<open>op\<close> returns, if any. The replacement yields its result together
  with every directory state that a crash of the process could leave behind.
\<close>

datatype file_op =
    OpenFile | ReadFile | CreateTemp | WriteTemp | RemoveTemp | Publish | SyncDir | RemoveFile
  | ReadDir | StatFile

type_synonym 'v dir = "(string \<times> 'v) list"

text \<open>
  A fault plan: the error of each operation, and how many bytes a failing write gets onto
  the disk before it fails.
\<close>

record fault_plan =
  fault :: "file_op \<Rightarrow> string option"
  bytes_written :: nat

definition no_faults :: fault_plan where
  "no_faults = \<lparr>fault = (\<lambda>_. None), bytes_written = 0\<rparr>"

lemma no_faults_simps [simp]: "fault no_faults op = None"
  by (simp add: no_faults_def)

text \<open>The byte-by-byte states of writing the temporary file.\<close>

definition temp_states :: "(u8 list \<Rightarrow> 'v) \<Rightarrow> string \<Rightarrow> u8 list \<Rightarrow> nat \<Rightarrow> 'v dir \<Rightarrow> 'v dir list" where
  "temp_states mk temp bytes n d = map (\<lambda>k. AList.update temp (mk (take k bytes)) d) [0..<Suc n]"

definition write_temp ::
  "fault_plan \<Rightarrow> (u8 list \<Rightarrow> 'v) \<Rightarrow> string \<Rightarrow> u8 list \<Rightarrow> 'v dir
   \<Rightarrow> ((file_op \<times> string) + unit) \<times> 'v dir list" where
  "write_temp plan mk temp bytes d =
     (case fault plan CreateTemp of
        Some e \<Rightarrow> (Inl (CreateTemp, e), [d])
      | None \<Rightarrow>
          (case fault plan WriteTemp of
             Some e \<Rightarrow> (Inl (WriteTemp, e),
                        temp_states mk temp bytes (min (bytes_written plan) (length bytes)) d)
           | None \<Rightarrow> (Inr (), temp_states mk temp bytes (length bytes) d)))"

definition atomic_replace ::
  "fault_plan \<Rightarrow> (u8 list \<Rightarrow> 'v) \<Rightarrow> string \<Rightarrow> string \<Rightarrow> u8 list \<Rightarrow> 'v dir
   \<Rightarrow> ((file_op \<times> string) + unit) \<times> 'v dir list" where
  "atomic_replace plan mk temp target bytes d =
     (case write_temp plan mk temp bytes d of
        (Inl e, states) \<Rightarrow>
          (Inl e, states @ (if fault plan RemoveTemp = None then [AList.delete temp (last states)] else []))
      | (Inr _, states) \<Rightarrow>
          (case fault plan Publish of
             Some e \<Rightarrow> (Inl (Publish, e), states)
           | None \<Rightarrow>
               (let d' = AList.update target (mk bytes) (AList.delete temp (last states)) in
                (case fault plan SyncDir of
                   Some e \<Rightarrow> (Inl (SyncDir, e), states @ [d'])
                 | None \<Rightarrow> (Inr (), states @ [d'])))))"

section \<open>Directory lemmas\<close>

lemma dir_update [simp]: "map_of (AList.update k v d) k' = (if k' = k then Some v else map_of d k')"
  by (simp add: AList.update_conv')

lemma dir_delete [simp]: "map_of (AList.delete k d) k' = (if k' = k then None else map_of d k')"
  by (simp add: AList.delete_conv')

lemma dir_distinct [simp]:
  "distinct (map fst d) \<Longrightarrow> distinct (map fst (AList.update k v d))"
  "distinct (map fst d) \<Longrightarrow> distinct (map fst (AList.delete k d))"
  by (simp_all add: AList.distinct_update AList.distinct_delete)

lemma filter_update_other: "\<not> P temp \<Longrightarrow>
    filter (\<lambda>(k, _). P k) (AList.update temp v d) = filter (\<lambda>(k, _). P k) d"
  by (induction d) auto

lemma filter_delete_other: "\<not> P temp \<Longrightarrow>
    filter (\<lambda>(k, _). P k) (AList.delete temp d) = filter (\<lambda>(k, _). P k) d"
  by (induction d) (auto simp: AList.delete_eq)

lemma filter_update_hit: "P k \<Longrightarrow>
    filter (\<lambda>(k, _). P k) (AList.update k v d) = AList.update k v (filter (\<lambda>(k, _). P k) d)"
  by (induction d) auto

lemma last_temp_states [simp]:
  "last (temp_states mk temp bytes n d) = AList.update temp (mk (take n bytes)) d"
  by (simp add: temp_states_def)

lemma temp_states_mem:
  "e \<in> set (temp_states mk temp bytes n d) \<Longrightarrow> \<exists>v. e = AList.update temp v d"
  by (auto simp: temp_states_def)

lemma write_temp_states:
  assumes "write_temp plan mk temp bytes d = (r, states)"
  shows "states \<noteq> [] \<and> (\<forall>e\<in>set states. e = d \<or> (\<exists>v. e = AList.update temp v d))"
  using assms
  by (auto simp: write_temp_def temp_states_def split: option.splits)

lemma write_temp_error: "write_temp plan mk temp bytes d = (Inl (oper, err), ts) \<Longrightarrow> oper \<noteq> SyncDir"
  by (auto simp: write_temp_def split: option.splits)

text \<open>
  The shape of a replacement: the states of the temporary file, then nothing (the rename
  failed), the clean-up of the temporary file, or the renamed file.
\<close>

lemma atomic_replace_shape:
  assumes "atomic_replace plan mk temp target bytes d = (r, states)"
  obtains w ts where "write_temp plan mk temp bytes d = (w, ts)"
    and "(states = ts \<or> states = ts @ [AList.delete temp (last ts)])
         \<and> (\<exists>oper err. r = Inl (oper, err) \<and> oper \<noteq> SyncDir)
       \<or> states = ts @ [AList.update target (mk bytes) (AList.delete temp (last ts))]
         \<and> (r = Inr () \<or> (\<exists>err. r = Inl (SyncDir, err)))"
proof -
  obtain w ts where w: "write_temp plan mk temp bytes d = (w, ts)" by force
  show thesis
  proof (cases w)
    case (Inl a)
    then have "r = w" "states = ts \<or> states = ts @ [AList.delete temp (last ts)]"
      using assms w by (auto simp: atomic_replace_def split: if_splits)
    moreover from Inl w have "fst a \<noteq> SyncDir"
      by (intro write_temp_error [of plan mk temp bytes d _ "snd a" ts]) simp
    ultimately have "(states = ts \<or> states = ts @ [AList.delete temp (last ts)])
        \<and> (\<exists>oper err. r = Inl (oper, err) \<and> oper \<noteq> SyncDir)"
      using Inl by (cases a) simp
    then show ?thesis by (intro that [OF w] disjI1)
  next
    case (Inr u)
    let ?d = "AList.update target (mk bytes) (AList.delete temp (last ts))"
    have unfold: "(r, states) = (case fault plan Publish of
        Some e \<Rightarrow> (Inl (Publish, e), ts)
      | None \<Rightarrow> (case fault plan SyncDir of
          Some e \<Rightarrow> (Inl (SyncDir, e), ts @ [?d]) | None \<Rightarrow> (Inr (), ts @ [?d])))"
      unfolding assms [symmetric] atomic_replace_def using w Inr by (simp add: Let_def split: option.splits)
    show ?thesis
    proof (cases "fault plan Publish")
      case (Some e)
      with unfold have "states = ts \<and> r = Inl (Publish, e)" by simp
      then show ?thesis by (intro that [OF w] disjI1) simp
    next
      case None
      with unfold have "states = ts @ [?d] \<and> (r = Inr () \<or> (\<exists>e. r = Inl (SyncDir, e)))"
        by (cases "fault plan SyncDir") simp_all
      then show ?thesis by (intro that [OF w] disjI2)
    qed
  qed
qed

text \<open>What a reader of the files that satisfy \<open>P\<close> sees.\<close>

definition visible :: "(string \<Rightarrow> bool) \<Rightarrow> 'v dir \<Rightarrow> 'v dir" where
  "visible P d = filter (\<lambda>(k, _). P k) d"

lemma visible_simps:
  "\<not> P temp \<Longrightarrow> visible P (AList.update temp v d) = visible P d"
  "\<not> P temp \<Longrightarrow> visible P (AList.delete temp d) = visible P d"
  "P target \<Longrightarrow> visible P (AList.update target w d) = AList.update target w (visible P d)"
  by (simp_all add: visible_def filter_update_other filter_delete_other filter_update_hit)

lemma atomic_replace_views:
  assumes "atomic_replace plan mk temp target bytes d = (r, states)"
    and "\<not> P temp" and "P target"
  shows "states \<noteq> []"
    and "\<forall>e\<in>set states. visible P e \<in> {visible P d, AList.update target (mk bytes) (visible P d)}"
    and "r = Inr () \<Longrightarrow> visible P (last states) = AList.update target (mk bytes) (visible P d)"
    and "r = Inl (oper, err) \<Longrightarrow> oper \<noteq> SyncDir \<Longrightarrow> \<forall>e\<in>set states. visible P e = visible P d"
proof -
  from assms(1) obtain w ts where w: "write_temp plan mk temp bytes d = (w, ts)"
    and shape: "(states = ts \<or> states = ts @ [AList.delete temp (last ts)])
         \<and> (\<exists>oper err. r = Inl (oper, err) \<and> oper \<noteq> SyncDir)
       \<or> states = ts @ [AList.update target (mk bytes) (AList.delete temp (last ts))]
         \<and> (r = Inr () \<or> (\<exists>err. r = Inl (SyncDir, err)))" (is "?A \<or> ?B")
    by (rule atomic_replace_shape)
  note old = write_temp_states [OF w]
  have view: "\<forall>e\<in>set ts. visible P e = visible P d"
    using old assms(2) by (metis visible_simps(1))
  then have lastv: "visible P (last ts) = visible P d" using old by simp
  from shape old show "states \<noteq> []" by auto
  show "\<forall>e\<in>set states. visible P e \<in> {visible P d, AList.update target (mk bytes) (visible P d)}"
    using shape view lastv assms(2,3) by (elim disjE conjE) (simp_all add: visible_simps)
  show "r = Inr () \<Longrightarrow> visible P (last states) = AList.update target (mk bytes) (visible P d)"
    using shape lastv assms(2,3) by (elim disjE conjE exE) (simp_all add: visible_simps)
  show "r = Inl (oper, err) \<Longrightarrow> oper \<noteq> SyncDir \<Longrightarrow> \<forall>e\<in>set states. visible P e = visible P d"
    using shape view lastv assms(2,3) by (elim disjE conjE exE) (simp_all add: visible_simps)
qed

lemma map_of_visible: "P k \<Longrightarrow> map_of (visible P d) k = map_of d k"
  unfolding visible_def by (induction d) auto

text \<open>The same for one file: its content is the old or the new one, never a part of it.\<close>

lemma atomic_replace_lookup:
  assumes "atomic_replace plan mk temp target bytes d = (r, states)" and "temp \<noteq> target"
  shows "states \<noteq> []"
    and "e \<in> set states \<Longrightarrow> map_of e target \<in> {map_of d target, Some (mk bytes)}"
    and "r = Inr () \<Longrightarrow> map_of (last states) target = Some (mk bytes)"
    and "r = Inl (oper, err) \<Longrightarrow> oper \<noteq> SyncDir \<Longrightarrow> e \<in> set states \<Longrightarrow>
      map_of e target = map_of d target"
proof -
  note v = atomic_replace_views [OF assms(1), of "\<lambda>k. k = target"]
  have m: "map_of f target = map_of (visible (\<lambda>k. k = target) f) target" for f :: "'a dir"
    by (simp add: map_of_visible)
  show "states \<noteq> []" using v(1) assms(2) by simp
  show "e \<in> set states \<Longrightarrow> map_of e target \<in> {map_of d target, Some (mk bytes)}"
    using v(2) assms(2) by (auto simp: m [of e] m [of d])
  show "r = Inr () \<Longrightarrow> map_of (last states) target = Some (mk bytes)"
    using v(3) assms(2) by (simp add: m [of "last states"])
  show "r = Inl (oper, err) \<Longrightarrow> oper \<noteq> SyncDir \<Longrightarrow> e \<in> set states \<Longrightarrow>
      map_of e target = map_of d target"
    using v(4) assms(2) by (simp add: m [of e] m [of d])
qed

lemma atomic_replace_no_faults: "fst (atomic_replace no_faults mk temp target bytes d) = Inr ()"
  by (simp add: atomic_replace_def write_temp_def Let_def)

section \<open>The interface of a durable document\<close>

text \<open>
  What the owner of a stored document relies on: after a successful store the document
  loads back (in its canonical form), and a crash during a store leaves the old or the new
  document. \<open>ok v\<close> is what the store needs of a value for it to load again.
\<close>

locale durable_store =
  fixes load :: "'d \<Rightarrow> 'e + 'v option"
    and store :: "'v \<Rightarrow> 'd \<Rightarrow> ('f + unit) \<times> 'd list"
    and ok :: "'v \<Rightarrow> bool"
    and canon :: "'v \<Rightarrow> 'v"
  assumes store_states: "snd (store v d) \<noteq> []"
    and store_load: "ok v \<Longrightarrow> fst (store v d) = Inr () \<Longrightarrow> load (last (snd (store v d))) = Inr (Some (canon v))"
    and store_atomic: "ok v \<Longrightarrow> e \<in> set (snd (store v d)) \<Longrightarrow>
          load e = load d \<or> load e = Inr (Some (canon v))"
begin

lemma crash_keeps_a_document:
  "load d = Inr (Some w) \<Longrightarrow> ok v \<Longrightarrow> e \<in> set (snd (store v d)) \<Longrightarrow>
   \<exists>u\<in>{w, canon v}. load e = Inr (Some u)"
  using store_atomic by fastforce

lemma later_store_wins:
  "ok v \<Longrightarrow> ok w \<Longrightarrow> e \<in> set (snd (store v d)) \<Longrightarrow> fst (store w e) = Inr () \<Longrightarrow>
   load (last (snd (store w e))) = Inr (Some (canon w))"
  by (rule store_load)

lemma final_state_loads:
  "ok v \<Longrightarrow> load (last (snd (store v d))) = load d \<or> load (last (snd (store v d))) = Inr (Some (canon v))"
  using store_atomic [of v "last (snd (store v d))" d] store_states [of v d] by simp

end

end
