(* ===== verification/Spool.thy ===== *)
theory Spool
  imports Atomic_File Snapshot_Validate
begin

text \<open>
  The durable queue of snapshots of \<open>src/delivery/spool.rs\<close>: one file per snapshot in the
  spool directory, a quarantine directory beside it. The zstd stream and serde\_json are a
  codec parameter, the operating system's errors are an input (\<open>io op name\<close> is the error
  of operation \<open>op\<close> on the file \<open>name\<close>).
\<close>

definition MAX_SNAPSHOT_BYTES :: nat where "MAX_SNAPSHOT_BYTES = 8 * 1024 * 1024"
definition MAX_SPOOL_BYTES :: u64 where "MAX_SPOOL_BYTES = 128 * 1024 * 1024"

datatype spool_error = Io string | Capacity string

fun spool_error_display :: "spool_error \<Rightarrow> string" where
  "spool_error_display (Io message) = message"
| "spool_error_display (Capacity message) = message"

record spool_file =
  sf_content :: "u8 list"
  sf_modified :: nat

record pending_file =
  pf_name :: string
  pf_modified :: nat
  pf_size :: u64

record spool =
  spool_dir :: "spool_file dir"
  quarantine_dir :: "spool_file dir"

type_synonym name_faults = "file_op \<Rightarrow> string \<Rightarrow> string option"

record spool_codec =
  to_canonical_json :: "inventory_snapshot \<Rightarrow> u8 list"
  of_json :: "u8 list \<Rightarrow> string + inventory_snapshot"
  compress :: "u8 list \<Rightarrow> u8 list"
  decompress :: "nat \<Rightarrow> u8 list \<Rightarrow> string + u8 list"

text \<open>
  What the agent relies on for a snapshot: its JSON reads back as the snapshot, and the
  decoder stopped after the entry limit yields what was compressed, up to the limit.
\<close>

definition codec_reads_back :: "spool_codec \<Rightarrow> inventory_snapshot \<Rightarrow> bool" where
  "codec_reads_back c s \<longleftrightarrow> of_json c (to_canonical_json c s) = Inr s
     \<and> decompress c (MAX_SNAPSHOT_BYTES + 1) (compress c (to_canonical_json c s))
         = Inr (take (MAX_SNAPSHOT_BYTES + 1) (to_canonical_json c s))"

section \<open>Writing an entry\<close>

definition entry_name :: "string \<Rightarrow> string" where
  "entry_name sid = sid @ ''.json.zst''"

text \<open>\<open>with_extension\<close> replaces the part after the last dot.\<close>

definition entry_temp_name :: "nat \<Rightarrow> string \<Rightarrow> string" where
  "entry_temp_name pid sid = sid @ ''.json.tmp-'' @ show_nat pid"

definition spool_io_error :: "file_op \<times> string \<Rightarrow> spool_error" where
  "spool_io_error oe =
     (case fst oe of
        CreateTemp \<Rightarrow> Io (''failed to create spool temp file: '' @ snd oe)
      | WriteTemp \<Rightarrow> Io (''failed to compress snapshot: '' @ snd oe)
      | Publish \<Rightarrow> Io (''failed to persist spool entry: '' @ snd oe)
      | _ \<Rightarrow> Io (''failed to sync spool directory '' @ snd oe))"

definition spool_write ::
  "spool_codec \<Rightarrow> fault_plan \<Rightarrow> nat \<Rightarrow> nat \<Rightarrow> inventory_snapshot \<Rightarrow> spool
   \<Rightarrow> (spool_error + unit) \<times> spool list" where
  "spool_write codec plan pid now s sp =
     (let payload = to_canonical_json codec s in
      if length payload > MAX_SNAPSHOT_BYTES
      then (Inl (Capacity (''snapshot '' @ snapshot_id s @ '' is '' @ show_nat (length payload)
              @ '' bytes, exceeding the '' @ show_nat MAX_SNAPSHOT_BYTES @ '' byte spool entry limit'')), [sp])
      else (case atomic_replace plan (\<lambda>bytes. \<lparr>sf_content = bytes, sf_modified = now\<rparr>)
                   (entry_temp_name pid (snapshot_id s)) (entry_name (snapshot_id s))
                   (compress codec payload) (spool_dir sp) of
              (r, states) \<Rightarrow> (map_sum spool_io_error id r, map (\<lambda>d. sp\<lparr>spool_dir := d\<rparr>) states)))"

section \<open>Listing\<close>

text \<open>\<open>Path::extension\<close> is \<open>json\<close> when the name ends in \<open>.json\<close> after a nonempty stem.\<close>

definition is_spool_file :: "string \<Rightarrow> bool" where
  "is_spool_file name \<longleftrightarrow>
     ends_with name ''.json.zst'' \<or> ends_with name ''.json'' \<and> name \<noteq> ''.json''"

fun pending_candidates :: "name_faults \<Rightarrow> spool_file dir \<Rightarrow> spool_error + pending_file list" where
  "pending_candidates io [] = Inr []"
| "pending_candidates io ((name, file) # entries) =
     (case io ReadDir name of
        Some e \<Rightarrow> Inl (Io (''failed to read spool entry: '' @ e))
      | None \<Rightarrow>
          if \<not> is_spool_file name then pending_candidates io entries
          else case io StatFile name of
            Some e \<Rightarrow> Inl (Io (''failed to stat '' @ name @ '': '' @ e))
          | None \<Rightarrow> and_then (pending_candidates io entries) (\<lambda>rest.
              Inr (\<lparr>pf_name = name, pf_modified = sf_modified file,
                    pf_size = of_nat (length (sf_content file))\<rparr> # rest)))"

definition by_modified :: "pending_file \<Rightarrow> pending_file \<Rightarrow> ordering" where
  "by_modified a b = cmp (pf_modified a) (pf_modified b)"

definition pending_files :: "name_faults \<Rightarrow> spool \<Rightarrow> spool_error + pending_file list" where
  "pending_files io sp =
     (case io ReadDir [] of
        Some e \<Rightarrow> Inl (Io (''failed to read spool dir: '' @ e))
      | None \<Rightarrow> and_then (pending_candidates io (spool_dir sp)) (\<lambda>cs. Inr (sort_by by_modified cs)))"

definition pending_paths :: "name_faults \<Rightarrow> spool \<Rightarrow> spool_error + string list" where
  "pending_paths io sp = and_then (pending_files io sp) (\<lambda>es. Inr (map pf_name es))"

section \<open>Reading an entry\<close>

definition is_zstd_magic :: "u8 list \<Rightarrow> bool" where
  "is_zstd_magic bytes \<longleftrightarrow> 4 \<le> length bytes \<and> take 4 bytes = [0x28, 0xB5, 0x2F, 0xFD]"

fun model_error_display :: "model_error \<Rightarrow> string" where
  "model_error_display (Invalid message) = message"

definition read_entry :: "spool_codec \<Rightarrow> name_faults \<Rightarrow> spool \<Rightarrow> string \<Rightarrow> string + inventory_snapshot" where
  "read_entry codec io sp name =
     (case io OpenFile name of Some e \<Rightarrow> Inl e | None \<Rightarrow>
      case map_of (spool_dir sp) name of
        None \<Rightarrow> Inl ''No such file or directory''
      | Some file \<Rightarrow>
      case io StatFile name of Some e \<Rightarrow> Inl e | None \<Rightarrow>
      if length (sf_content file) > MAX_SNAPSHOT_BYTES
      then Inl (''spool entry exceeds the '' @ show_nat MAX_SNAPSHOT_BYTES @ '' byte compressed-input limit'')
      else case io ReadFile name of Some e \<Rightarrow> Inl e | None \<Rightarrow>
        (let magic = take 4 (sf_content file);
             compressed = (ends_with name ''.zst'' \<or> is_zstd_magic magic)
         in and_then (if compressed
              then (case decompress codec (MAX_SNAPSHOT_BYTES + 1) (sf_content file) of
                      Inl e \<Rightarrow> Inl (''failed to decompress spool entry: '' @ e)
                    | Inr bytes \<Rightarrow> Inr bytes)
              else Inr (take (MAX_SNAPSHOT_BYTES + 1) (sf_content file)))
            (\<lambda>json_bytes.
              if length json_bytes > MAX_SNAPSHOT_BYTES
              then Inl (''decompressed spool entry exceeds the '' @ show_nat MAX_SNAPSHOT_BYTES @ '' byte limit'')
              else and_then (of_json codec json_bytes) (\<lambda>s.
                case validate_snapshot s of
                  Inl e \<Rightarrow> Inl (model_error_display e)
                | Inr _ \<Rightarrow> Inr s))))"

section \<open>Moving entries away\<close>

text \<open>A rename over an existing quarantined file of the same name replaces it.\<close>

definition quarantine :: "name_faults \<Rightarrow> string \<Rightarrow> spool \<Rightarrow> (spool_error + unit) \<times> spool" where
  "quarantine io name sp =
     (case (io Publish name, map_of (spool_dir sp) name) of
        (Some e, _) \<Rightarrow> (Inl (Io (''failed to quarantine spool entry: '' @ e)), sp)
      | (None, None) \<Rightarrow> (Inl (Io ''failed to quarantine spool entry: No such file or directory''), sp)
      | (None, Some file) \<Rightarrow>
          (let sp' = \<lparr>spool_dir = AList.delete name (spool_dir sp),
                      quarantine_dir = AList.update name file (quarantine_dir sp)\<rparr> in
           case io SyncDir name of
             Some e \<Rightarrow> (Inl (Io (''failed to sync spool directory '' @ e)), sp')
           | None \<Rightarrow> (Inr (), sp')))"

definition read_pending ::
  "spool_codec \<Rightarrow> name_faults \<Rightarrow> string \<Rightarrow> spool \<Rightarrow> (spool_error + inventory_snapshot option) \<times> spool" where
  "read_pending codec io name sp =
     (case read_entry codec io sp name of
        Inr s \<Rightarrow> (Inr (Some s), sp)
      | Inl _ \<Rightarrow> (case quarantine io name sp of
            (Inl e, sp') \<Rightarrow> (Inl e, sp')
          | (Inr _, sp') \<Rightarrow> (Inr None, sp')))"

text \<open>\<open>remove\<close> deletes both spellings; only an error other than a missing file counts.\<close>

definition remove_one :: "name_faults \<Rightarrow> string \<Rightarrow> spool_file dir \<Rightarrow> string option \<times> spool_file dir" where
  "remove_one io name d =
     (case io RemoveFile name of
        Some e \<Rightarrow> (Some e, d)
      | None \<Rightarrow> (None, AList.delete name d))"

definition spool_remove :: "name_faults \<Rightarrow> string \<Rightarrow> spool \<Rightarrow> (spool_error + unit) \<times> spool" where
  "spool_remove io sid sp =
     (case remove_one io (entry_name sid) (spool_dir sp) of
        (e1, d1) \<Rightarrow> (case remove_one io (sid @ ''.json'') d1 of
          (e2, d2) \<Rightarrow> (case option_or e2 e1 of
             Some e \<Rightarrow> (Inl (Io (''failed to remove spool entry: '' @ e)), sp\<lparr>spool_dir := d2\<rparr>)
           | None \<Rightarrow> (Inr (), sp\<lparr>spool_dir := d2\<rparr>))))"

fun quarantine_each :: "name_faults \<Rightarrow> string list \<Rightarrow> spool \<Rightarrow> (spool_error + unit) \<times> spool" where
  "quarantine_each io [] sp = (Inr (), sp)"
| "quarantine_each io (name # names) sp =
     (if map_of (spool_dir sp) name = None then quarantine_each io names sp
      else case quarantine io name sp of
        (Inl e, sp') \<Rightarrow> (Inl e, sp')
      | (Inr _, sp') \<Rightarrow> quarantine_each io names sp')"

definition quarantine_by_id :: "name_faults \<Rightarrow> string \<Rightarrow> spool \<Rightarrow> (spool_error + unit) \<times> spool" where
  "quarantine_by_id io sid sp = quarantine_each io [entry_name sid, sid @ ''.json''] sp"

section \<open>Capacity\<close>

definition snapshot_id_from_path :: "string \<Rightarrow> string" where
  "snapshot_id_from_path name =
     unwrap_or (option_or (strip_suffix name ''.json.zst'') (strip_suffix name ''.json'')) name"

fun evict_loop ::
  "name_faults \<Rightarrow> nat \<Rightarrow> pending_file list \<Rightarrow> nat \<Rightarrow> u64 \<Rightarrow> string list \<Rightarrow> spool
   \<Rightarrow> (spool_error + string list) \<times> spool" where
  "evict_loop io max_entries [] remaining_entries total_bytes evicted sp = (Inr evicted, sp)"
| "evict_loop io max_entries (entry # entries) remaining_entries total_bytes evicted sp =
     (if remaining_entries \<le> max_entries \<and> total_bytes \<le> MAX_SPOOL_BYTES then (Inr evicted, sp)
      else if remaining_entries \<le> 1 then (Inr evicted, sp)
      else case io RemoveFile (pf_name entry) of
        Some e \<Rightarrow> (Inl (Io (''failed to evict spool entry: '' @ e)), sp)
      | None \<Rightarrow>
          (let sp' = sp\<lparr>spool_dir := AList.delete (pf_name entry) (spool_dir sp)\<rparr> in
           case io SyncDir (pf_name entry) of
             Some e \<Rightarrow> (Inl (Io (''failed to sync spool directory '' @ e)), sp')
           | None \<Rightarrow> evict_loop io max_entries entries (remaining_entries - 1)
                (saturating_sub total_bytes (pf_size entry))
                (evicted @ [snapshot_id_from_path (pf_name entry)]) sp'))"

definition enforce_limit ::
  "name_faults \<Rightarrow> nat \<Rightarrow> spool \<Rightarrow> (spool_error + string list) \<times> spool" where
  "enforce_limit io max_entries sp =
     (case pending_files io sp of
        Inl e \<Rightarrow> (Inl e, sp)
      | Inr entries \<Rightarrow>
          if entries = [] then (Inr [], sp)
          else evict_loop io (max max_entries 1) entries (length entries)
                 (foldl (\<lambda>total entry. saturating_add total (pf_size entry)) 0 entries) [] sp)"

section \<open>Lemmas: writing and reading back\<close>

lemma ends_with_append [simp]: "ends_with (s @ t) t"
  by (simp add: ends_with_def starts_with_def)

lemma ends_with_iff: "ends_with s t \<longleftrightarrow> (\<exists>u. s = u @ t)"
proof
  assume "ends_with s t"
  then have "take (length t) (rev s) = rev t" by (simp add: ends_with_def starts_with_def)
  then have "rev s = rev t @ drop (length t) (rev s)" by (metis append_take_drop_id)
  then have "s = rev (drop (length t) (rev s)) @ t" by (metis rev_append rev_rev_ident)
  then show "\<exists>u. s = u @ t" by blast
qed auto

lemma entry_name_spool [simp]: "is_spool_file (entry_name sid)"
  by (simp add: is_spool_file_def entry_name_def)

lemma entry_name_zst [simp]: "ends_with (entry_name sid) ''.zst''"
proof -
  have "entry_name sid = (sid @ ''.json'') @ ''.zst''" by (simp add: entry_name_def)
  then show ?thesis by (simp only: ends_with_append)
qed

lemma last_show_nat: "is_ascii_digit (last (xs @ show_nat n))"
  using show_nat_digits [of n] by (auto simp: list_all_iff)

lemma temp_not_spool_file: "\<not> is_spool_file (entry_temp_name pid sid)"
proof
  assume "is_spool_file (entry_temp_name pid sid)"
  then have "\<exists>u. entry_temp_name pid sid = u @ ''.json.zst'' \<or> entry_temp_name pid sid = u @ ''.json''"
    by (auto simp: is_spool_file_def ends_with_iff)
  then have "last (entry_temp_name pid sid) \<in> {CHR ''t'', CHR ''n''}" by auto
  moreover have "is_ascii_digit (last (entry_temp_name pid sid))"
    using last_show_nat [of "sid @ ''.json.tmp-''" pid] by (simp add: entry_temp_name_def)
  ultimately show False by (auto simp: is_ascii_digit_def scalar_def)
qed

lemma pending_candidates_visible:
  "pending_candidates io (visible is_spool_file d) = pending_candidates io d"
  if "\<And>name. io ReadDir name = None"
  unfolding visible_def by (induction d) (use that in \<open>auto split: option.splits\<close>)

lemma pending_files_cong:
  "(\<And>name. io ReadDir name = None) \<Longrightarrow>
   visible is_spool_file (spool_dir sp) = visible is_spool_file (spool_dir sp') \<Longrightarrow>
   pending_files io sp = pending_files io sp'"
  by (metis pending_candidates_visible pending_files_def)

lemma read_written_entry:
  assumes "codec_reads_back c s" and "validate_snapshot s = Inr ()"
    and "length (to_canonical_json c s) \<le> MAX_SNAPSHOT_BYTES"
    and "length (compress c (to_canonical_json c s)) \<le> MAX_SNAPSHOT_BYTES"
    and "map_of (spool_dir sp) (entry_name (snapshot_id s)) =
        Some \<lparr>sf_content = compress c (to_canonical_json c s), sf_modified = now\<rparr>"
    and "\<And>oper. io oper (entry_name (snapshot_id s)) = None"
  shows "read_entry c io sp (entry_name (snapshot_id s)) = Inr s"
  using assms by (simp add: read_entry_def codec_reads_back_def Let_def)

lemma spool_write_shape:
  assumes "spool_write c plan pid now s sp = (r, states)"
  shows "states \<noteq> []" and "e \<in> set states \<Longrightarrow> quarantine_dir e = quarantine_dir sp"
    and "e \<in> set states \<Longrightarrow> visible is_spool_file (spool_dir e) \<in>
      {visible is_spool_file (spool_dir sp),
       AList.update (entry_name (snapshot_id s))
         \<lparr>sf_content = compress c (to_canonical_json c s), sf_modified = now\<rparr>
         (visible is_spool_file (spool_dir sp))}"
    and "r = Inr () \<Longrightarrow> visible is_spool_file (spool_dir (last states)) =
       AList.update (entry_name (snapshot_id s))
         \<lparr>sf_content = compress c (to_canonical_json c s), sf_modified = now\<rparr>
         (visible is_spool_file (spool_dir sp))"
proof -
  let ?t = "entry_temp_name pid (snapshot_id s)" and ?n = "entry_name (snapshot_id s)"
    and ?b = "compress c (to_canonical_json c s)"
    and ?mk = "\<lambda>bytes. \<lparr>sf_content = bytes, sf_modified = now\<rparr>"
  obtain q ds where ar: "atomic_replace plan ?mk ?t ?n ?b (spool_dir sp) = (q, ds)" by force
  note v = atomic_replace_views [OF ar, of is_spool_file, OF temp_not_spool_file entry_name_spool]
  have "r \<noteq> Inr () \<and> states = [sp] \<or> r = map_sum spool_io_error id q \<and> states = map (\<lambda>d. sp\<lparr>spool_dir := d\<rparr>) ds"
    using assms ar by (auto simp: spool_write_def Let_def split: if_splits)
  moreover have "r = Inr () \<Longrightarrow> r = map_sum spool_io_error id q \<Longrightarrow> q = Inr ()" by (cases q) auto
  ultimately consider (kept) "r \<noteq> Inr ()" "states = [sp]"
    | (replaced) "r = Inr () \<longrightarrow> q = Inr ()" "states = map (\<lambda>d. sp\<lparr>spool_dir := d\<rparr>) ds" by blast
  note shape = this
  show "states \<noteq> []" by (cases rule: shape) (use v(1) in simp_all)
  show "e \<in> set states \<Longrightarrow> quarantine_dir e = quarantine_dir sp" by (cases rule: shape) auto
  show "e \<in> set states \<Longrightarrow> visible is_spool_file (spool_dir e) \<in>
      {visible is_spool_file (spool_dir sp), AList.update ?n (?mk ?b) (visible is_spool_file (spool_dir sp))}"
    by (cases rule: shape) (use v(2) in auto)
  show "r = Inr () \<Longrightarrow> visible is_spool_file (spool_dir (last states)) =
       AList.update ?n (?mk ?b) (visible is_spool_file (spool_dir sp))"
    by (cases rule: shape) (use v(1,3) in \<open>simp_all add: last_map\<close>)
qed

lemma spool_write_lookup:
  assumes "spool_write c plan pid now s sp = (Inr (), states)"
  shows "map_of (spool_dir (last states)) (entry_name (snapshot_id s)) =
      Some \<lparr>sf_content = compress c (to_canonical_json c s), sf_modified = now\<rparr>"
proof -
  have "map_of (visible is_spool_file (spool_dir (last states))) (entry_name (snapshot_id s)) =
      Some \<lparr>sf_content = compress c (to_canonical_json c s), sf_modified = now\<rparr>"
    using spool_write_shape(4) [OF assms] by simp
  then show ?thesis by (simp add: map_of_visible)
qed

section \<open>Lemmas: eviction\<close>

interpretation modified_cmp: total_comparison by_modified
  using total_comparison_on_key [OF linorder_cmp.total_comparison_axioms, of pf_modified]
  by (simp add: by_modified_def [abs_def])

definition total_size :: "pending_file list \<Rightarrow> nat" where
  "total_size es = sum_list (map (\<lambda>e. unat (pf_size e)) es)"

definition within_limits :: "nat \<Rightarrow> pending_file list \<Rightarrow> bool" where
  "within_limits max_entries es \<longleftrightarrow>
     length es \<le> max max_entries 1 \<and> total_size es \<le> unat MAX_SPOOL_BYTES"

definition fault_free :: "name_faults \<Rightarrow> bool" where
  "fault_free io \<longleftrightarrow> (\<forall>oper name. io oper name = None)"

lemma fault_freeD [simp]: "fault_free io \<Longrightarrow> io oper name = None"
  by (simp add: fault_free_def)

lemma total_size_simps [simp]:
  "total_size [] = 0"
  "total_size (e # es) = unat (pf_size e) + total_size es"
  by (simp_all add: total_size_def)

lemma fold_saturating_total:
  "unat acc + total_size es < 2 ^ 64 \<Longrightarrow>
   unat (foldl (\<lambda>total entry. saturating_add total (pf_size entry)) acc es) = unat acc + total_size es"
  by (induction es arbitrary: acc) (simp_all add: unat_saturating_add)

definition without_names :: "string set \<Rightarrow> 'v dir \<Rightarrow> 'v dir" where
  "without_names ns d = filter (\<lambda>(k, _). k \<notin> ns) d"

lemma delete_without_names: "AList.delete k (without_names ns d) = without_names (insert k ns) d"
  by (auto simp: without_names_def AList.delete_eq intro!: filter_cong)

lemma without_names_empty [simp]: "without_names {} d = d"
  by (induction d) (auto simp: without_names_def)

lemma evict_loop_spec:
  assumes "fault_free io" and "1 \<le> m" and "unat tot = total_size es"
    and "spool_dir sp = without_names ns d"
  shows "\<exists>k. evict_loop io m es (length es) tot ev sp =
        (Inr (ev @ map (\<lambda>e. snapshot_id_from_path (pf_name e)) (take k es)),
         sp\<lparr>spool_dir := without_names (pf_name ` set (take k es) \<union> ns) d\<rparr>)
      \<and> (es \<noteq> [] \<longrightarrow> k < length es)
      \<and> (within_limits m (drop k es) \<or> length (drop k es) \<le> 1)
      \<and> (\<forall>j<k. \<not> within_limits m (drop j es))"
  using assms(3,4)
proof (induction es arbitrary: tot ev sp ns)
  case Nil
  then show ?case by (intro exI [of _ 0]) simp
next
  case (Cons e es)
  have fits: "within_limits m (e # es) \<longleftrightarrow> Suc (length es) \<le> m \<and> tot \<le> MAX_SPOOL_BYTES"
    using Cons.prems(1) assms(2) by (simp add: within_limits_def word_le_nat_alt max_absorb1)
  show ?case
  proof (cases "within_limits m (e # es) \<or> es = []")
    case True
    then show ?thesis using fits Cons.prems(2) by (intro exI [of _ 0]) auto
  next
    case False
    let ?sp = "sp\<lparr>spool_dir := AList.delete (pf_name e) (spool_dir sp)\<rparr>"
    have tot: "unat (saturating_sub tot (pf_size e)) = total_size es"
      using Cons.prems(1) by (simp add: unat_saturating_sub)
    have dir: "spool_dir ?sp = without_names (insert (pf_name e) ns) d"
      using Cons.prems(2) by (simp add: delete_without_names)
    from Cons.IH [OF tot dir, of "ev @ [snapshot_id_from_path (pf_name e)]"] obtain k where
      k: "evict_loop io m es (length es) (saturating_sub tot (pf_size e))
            (ev @ [snapshot_id_from_path (pf_name e)]) ?sp =
          (Inr ((ev @ [snapshot_id_from_path (pf_name e)])
              @ map (\<lambda>e. snapshot_id_from_path (pf_name e)) (take k es)),
           ?sp\<lparr>spool_dir := without_names (pf_name ` set (take k es) \<union> insert (pf_name e) ns) d\<rparr>)"
        "es \<noteq> [] \<longrightarrow> k < length es"
        "within_limits m (drop k es) \<or> length (drop k es) \<le> 1"
        "\<forall>j<k. \<not> within_limits m (drop j es)" by blast
    have step: "evict_loop io m (e # es) (length (e # es)) tot ev sp =
        evict_loop io m es (length es) (saturating_sub tot (pf_size e))
          (ev @ [snapshot_id_from_path (pf_name e)]) ?sp"
      using False fits assms(1) by (auto simp: Let_def)
    have "\<forall>j<Suc k. \<not> within_limits m (drop j (e # es))"
      using k(4) False by (auto simp: less_Suc_eq_0_disj)
    then show ?thesis unfolding step k(1) using k(2,3) False by (intro exI [of _ "Suc k"]) auto
  qed
qed

definition pending_of :: "string \<times> spool_file \<Rightarrow> pending_file" where
  "pending_of nf = \<lparr>pf_name = fst nf, pf_modified = sf_modified (snd nf),
     pf_size = of_nat (length (sf_content (snd nf)))\<rparr>"

lemma pf_name_pending_of [simp]: "pf_name (pending_of nf) = fst nf"
  by (simp add: pending_of_def)

lemma pending_candidates_eq:
  "fault_free io \<Longrightarrow> pending_candidates io d = Inr (map pending_of (visible is_spool_file d))"
  unfolding visible_def by (induction d) (auto simp: pending_of_def)

lemma pending_files_eq:
  "fault_free io \<Longrightarrow> pending_files io sp =
   Inr (sort_by by_modified (map pending_of (visible is_spool_file (spool_dir sp))))"
  by (simp add: pending_files_def pending_candidates_eq)

lemma visible_without_names:
  "visible P (without_names ns d) = filter (\<lambda>nf. fst nf \<notin> ns) (visible P d)"
  by (auto simp: visible_def without_names_def intro!: filter_cong)

lemma pending_files_without:
  assumes "fault_free io" and "pending_files io sp = Inr es"
  shows "pending_files io (sp\<lparr>spool_dir := without_names ns (spool_dir sp)\<rparr>) =
    Inr (filter (\<lambda>e. pf_name e \<notin> ns) es)"
proof -
  have "filter (\<lambda>e. pf_name e \<notin> ns) es = sort_by by_modified
      (filter (\<lambda>e. pf_name e \<notin> ns) (map pending_of (visible is_spool_file (spool_dir sp))))"
    using assms by (simp add: pending_files_eq modified_cmp.filter_sort_by [symmetric])
  then show ?thesis
    using assms by (simp add: pending_files_eq visible_without_names filter_map comp_def)
qed

lemma distinct_pending_names:
  assumes "fault_free io" and "pending_files io sp = Inr es" and "distinct (map fst (spool_dir sp))"
  shows "distinct (map pf_name es)"
proof -
  have v: "distinct (map fst (visible is_spool_file (spool_dir sp)))"
    using assms(3) unfolding visible_def by (simp add: distinct_map_filter)
  have "mset es = mset (map pending_of (visible is_spool_file (spool_dir sp)))"
    using assms(1,2) by (auto simp: pending_files_eq)
  then have "mset (map pf_name es) = mset (map fst (visible is_spool_file (spool_dir sp)))"
    by (simp add: multiset.map_comp comp_def)
  with v show ?thesis by (metis mset_eq_imp_distinct_iff)
qed

lemma filter_names_drop:
  "distinct (map f es) \<Longrightarrow> filter (\<lambda>e. f e \<notin> f ` set (take k es)) es = drop k es"
proof -
  assume d: "distinct (map f es)"
  then have disj: "f ` set (take k es) \<inter> f ` set (drop k es) = {}"
    by (metis append_take_drop_id distinct_append map_append list.set_map)
  have "filter (\<lambda>e. f e \<notin> f ` set (take k es)) (take k es @ drop k es) = drop k es"
    using disj by (subst filter_append) (auto simp: filter_empty_conv filter_id_conv)
  then show ?thesis by simp
qed

lemma enforce_limit_dir:
  assumes "fault_free io" and "pending_files io sp = Inr es" and "total_size es < 2 ^ 64"
  shows "\<exists>k. enforce_limit io n sp =
        (Inr (map (\<lambda>e. snapshot_id_from_path (pf_name e)) (take k es)),
         sp\<lparr>spool_dir := without_names (pf_name ` set (take k es)) (spool_dir sp)\<rparr>)
      \<and> (es \<noteq> [] \<longrightarrow> k < length es)
      \<and> (within_limits n (drop k es) \<or> length (drop k es) = 1)
      \<and> (\<forall>j<k. \<not> within_limits n (drop j es))"
proof (cases "es = []")
  case True
  then show ?thesis using assms(2)
    by (intro exI [of _ 0]) (simp add: enforce_limit_def within_limits_def)
next
  case False
  let ?t = "foldl (\<lambda>total entry. saturating_add total (pf_size entry)) 0 es"
  have t: "unat ?t = total_size es" using fold_saturating_total [of 0 es] assms(3) by simp
  have w: "within_limits (max n 1) = within_limits n" by (auto simp: within_limits_def fun_eq_iff)
  from evict_loop_spec [OF assms(1) _ t, of "max n 1" sp "{}" "spool_dir sp" "[]"]
  obtain k where k: "evict_loop io (max n 1) es (length es) ?t [] sp =
        (Inr (map (\<lambda>e. snapshot_id_from_path (pf_name e)) (take k es)),
         sp\<lparr>spool_dir := without_names (pf_name ` set (take k es)) (spool_dir sp)\<rparr>)"
      "k < length es" "within_limits n (drop k es) \<or> length (drop k es) \<le> 1"
      "\<forall>j<k. \<not> within_limits n (drop j es)"
    using False w by auto
  have "within_limits n (drop k es) \<or> length (drop k es) = 1"
    using k(2,3) by (auto simp: le_Suc_eq)
  then show ?thesis using False assms(2) k
    by (intro exI [of _ k]) (simp add: enforce_limit_def)
qed

lemma enforce_limit_spec:
  assumes "fault_free io" and "pending_files io sp = Inr es" and "total_size es < 2 ^ 64"
    and "distinct (map fst (spool_dir sp))"
  shows "\<exists>k sp'. enforce_limit io n sp =
        (Inr (map (\<lambda>e. snapshot_id_from_path (pf_name e)) (take k es)), sp')
      \<and> pending_files io sp' = Inr (drop k es) \<and> quarantine_dir sp' = quarantine_dir sp
      \<and> (es \<noteq> [] \<longrightarrow> k < length es)
      \<and> (within_limits n (drop k es) \<or> length (drop k es) = 1)
      \<and> (\<forall>j<k. \<not> within_limits n (drop j es))"
proof -
  from enforce_limit_dir [OF assms(1-3), of n] obtain k where
    k: "enforce_limit io n sp = (Inr (map (\<lambda>e. snapshot_id_from_path (pf_name e)) (take k es)),
         sp\<lparr>spool_dir := without_names (pf_name ` set (take k es)) (spool_dir sp)\<rparr>)"
      "es \<noteq> [] \<longrightarrow> k < length es" "within_limits n (drop k es) \<or> length (drop k es) = 1"
      "\<forall>j<k. \<not> within_limits n (drop j es)" by blast
  have "pending_files io (sp\<lparr>spool_dir := without_names (pf_name ` set (take k es)) (spool_dir sp)\<rparr>)
      = Inr (drop k es)"
    using pending_files_without [OF assms(1,2)] filter_names_drop
      distinct_pending_names [OF assms(1,2,4)] by simp
  with k show ?thesis
    by (intro exI [of _ k] exI [of _ "sp\<lparr>spool_dir := without_names (pf_name ` set (take k es)) (spool_dir sp)\<rparr>"])
       simp
qed

lemma map_of_without_names [simp]:
  "map_of (without_names ns d) k = (if k \<in> ns then None else map_of d k)"
  by (induction d) (auto simp: without_names_def)

lemma read_entry_cong:
  assumes "map_of (spool_dir sp) name = map_of (spool_dir sp') name"
  shows "read_entry c io sp name = read_entry c io sp' name"
  unfolding read_entry_def assms by (rule refl)

section \<open>Properties\<close>

text \<open>
  C15. Writing an entry is atomic under crashes: every state that the write can leave on
  the disk, after any number of bytes and with any operating-system error, shows a reader
  of the spool either the files from before or those with the complete entry added, and
  the quarantine is untouched.
\<close>

theorem spool_write_crash_atomic:
  assumes "e \<in> set (snd (spool_write c plan pid now s sp))"
  shows "visible is_spool_file (spool_dir e) \<in>
      {visible is_spool_file (spool_dir sp),
       visible is_spool_file (AList.update (entry_name (snapshot_id s))
         \<lparr>sf_content = compress c (to_canonical_json c s), sf_modified = now\<rparr> (spool_dir sp))}
    \<and> quarantine_dir e = quarantine_dir sp"
proof -
  obtain r states where w: "spool_write c plan pid now s sp = (r, states)" by force
  then have "e \<in> set states" using assms by simp
  note shape = spool_write_shape(2,3) [OF w this]
  show ?thesis
    unfolding visible_simps(3) [of is_spool_file, OF entry_name_spool] using shape by (intro conjI)
qed

definition valid_sample :: inventory_snapshot where
  "valid_sample = sample_snapshot\<lparr>software := [sample_entry ''1'']\<rparr>"

definition sample_codec :: spool_codec where
  "sample_codec = \<lparr>to_canonical_json = (\<lambda>_. [7, 8]), of_json = (\<lambda>_. Inr valid_sample),
     compress = id, decompress = (\<lambda>n b. Inr (take n b))\<rparr>"

lemma sample_write:
  "spool_write sample_codec no_faults 7 5 valid_sample \<lparr>spool_dir = [], quarantine_dir = []\<rparr> =
   (Inr (), map (\<lambda>d. \<lparr>spool_dir = d, quarantine_dir = []\<rparr>)
     [[(entry_temp_name 7 (snapshot_id valid_sample), \<lparr>sf_content = [], sf_modified = 5\<rparr>)],
      [(entry_temp_name 7 (snapshot_id valid_sample), \<lparr>sf_content = [7], sf_modified = 5\<rparr>)],
      [(entry_temp_name 7 (snapshot_id valid_sample), \<lparr>sf_content = [7, 8], sf_modified = 5\<rparr>)],
      [(entry_name (snapshot_id valid_sample), \<lparr>sf_content = [7, 8], sf_modified = 5\<rparr>)]])"
  by (simp add: spool_write_def sample_codec_def MAX_SNAPSHOT_BYTES_def atomic_replace_def
      write_temp_def Let_def temp_states_def numeral_2_eq_2)

theorem spool_write_crash_atomic_witness:
  "visible is_spool_file [(entry_temp_name 7 (snapshot_id valid_sample),
        \<lparr>sf_content = [7], sf_modified = 5\<rparr>)] \<in>
     {[], [(entry_name (snapshot_id valid_sample), \<lparr>sf_content = [7, 8], sf_modified = 5\<rparr>)]}"
proof -
  let ?e = "\<lparr>spool_dir = [(entry_temp_name 7 (snapshot_id valid_sample),
        \<lparr>sf_content = [7], sf_modified = 5\<rparr>)], quarantine_dir = []\<rparr>"
  have "?e \<in> set (snd (spool_write sample_codec no_faults 7 5 valid_sample
          \<lparr>spool_dir = [], quarantine_dir = []\<rparr>))"
    by (simp add: sample_write)
  from spool_write_crash_atomic [OF this] show ?thesis
    by (simp add: visible_simps visible_def sample_codec_def)
qed

text \<open>
  A written entry is there to be sent: after a successful write, the entry is listed
  and reads back as the snapshot that was written, from whatever else the spool held.
\<close>

theorem written_entry_reads_back:
  assumes "spool_write c plan pid now s sp = (Inr (), states)" and "fault_free io"
    and "codec_reads_back c s" and "validate_snapshot s = Inr ()"
    and "length (compress c (to_canonical_json c s)) \<le> MAX_SNAPSHOT_BYTES"
  shows "read_entry c io (last states) (entry_name (snapshot_id s)) = Inr s
    \<and> (\<exists>paths. pending_paths io (last states) = Inr paths \<and> entry_name (snapshot_id s) \<in> set paths)"
proof
  note look = spool_write_lookup [OF assms(1)]
  have "length (to_canonical_json c s) \<le> MAX_SNAPSHOT_BYTES"
    using assms(1) by (auto simp: spool_write_def Let_def split: if_splits)
  with assms look show "read_entry c io (last states) (entry_name (snapshot_id s)) = Inr s"
    by (intro read_written_entry) simp_all
  have "entry_name (snapshot_id s) \<in> fst ` set (visible is_spool_file (spool_dir (last states)))"
    using map_of_SomeD [OF look] by (force simp: visible_def)
  then show "\<exists>paths. pending_paths io (last states) = Inr paths \<and> entry_name (snapshot_id s) \<in> set paths"
    using assms(2) by (simp add: pending_paths_def pending_files_eq image_image)
qed

theorem written_entry_reads_back_witness:
  "read_entry sample_codec (\<lambda>_ _. None)
     \<lparr>spool_dir = [(entry_name (snapshot_id valid_sample), \<lparr>sf_content = [7, 8], sf_modified = 5\<rparr>)],
      quarantine_dir = []\<rparr> (entry_name (snapshot_id valid_sample)) = Inr valid_sample"
proof -
  have valid: "validate_snapshot valid_sample = Inr ()" by code_simp
  have "codec_reads_back sample_codec valid_sample"
    by (simp add: codec_reads_back_def sample_codec_def)
  moreover have "length (compress sample_codec (to_canonical_json sample_codec valid_sample)) \<le> MAX_SNAPSHOT_BYTES"
    by (simp add: sample_codec_def MAX_SNAPSHOT_BYTES_def)
  moreover have "fault_free (\<lambda>_ _. None)" by (simp add: fault_free_def)
  ultimately show ?thesis
    using written_entry_reads_back [OF sample_write _ _ valid, of "\<lambda>_ _. None"] by simp
qed

text \<open>
  C17. Capacity is enforced by dropping the oldest entries and no more than needed: the
  evicted entries are the first \<open>k\<close> in order of age, what remains is listed unchanged, it
  fits the entry and byte limits or is a single entry, no shorter prefix would have done,
  and the newest entry is never evicted.
\<close>

theorem enforce_limit_evicts_minimal_oldest_prefix:
  assumes "fault_free io" and "pending_files io sp = Inr es" and "total_size es < 2 ^ 64"
    and "distinct (map fst (spool_dir sp))"
  shows "\<exists>k sp'. enforce_limit io n sp =
        (Inr (map (\<lambda>e. snapshot_id_from_path (pf_name e)) (take k es)), sp')
      \<and> pending_files io sp' = Inr (drop k es) \<and> quarantine_dir sp' = quarantine_dir sp
      \<and> (es \<noteq> [] \<longrightarrow> k < length es)
      \<and> (within_limits n (drop k es) \<or> length (drop k es) = 1)
      \<and> (\<forall>j<k. \<not> within_limits n (drop j es))"
  using assms by (rule enforce_limit_spec)

theorem enforce_limit_evicts_minimal_oldest_prefix_witness:
  "\<exists>k sp'. enforce_limit (\<lambda>_ _. None) 1
      \<lparr>spool_dir = [(''b.json'', \<lparr>sf_content = [1], sf_modified = 2\<rparr>),
                   (''a.json'', \<lparr>sf_content = [], sf_modified = 1\<rparr>)], quarantine_dir = []\<rparr>
     = (Inr (map (\<lambda>e. snapshot_id_from_path (pf_name e)) (take k
        [\<lparr>pf_name = ''a.json'', pf_modified = 1, pf_size = 0\<rparr>,
         \<lparr>pf_name = ''b.json'', pf_modified = 2, pf_size = 1\<rparr>])), sp')"
proof -
  let ?sp = "\<lparr>spool_dir = [(''b.json'', \<lparr>sf_content = [1], sf_modified = 2\<rparr>),
      (''a.json'', \<lparr>sf_content = [], sf_modified = 1\<rparr>)], quarantine_dir = []\<rparr>"
  have "pending_files (\<lambda>_ _. None) ?sp =
      Inr [\<lparr>pf_name = ''a.json'', pf_modified = 1, pf_size = 0\<rparr>,
           \<lparr>pf_name = ''b.json'', pf_modified = 2, pf_size = 1\<rparr>]"
    by (simp add: pending_files_def is_spool_file_def ends_with_def starts_with_def by_modified_def cmp_def)
  from enforce_limit_evicts_minimal_oldest_prefix [OF _ this, of 1]
  show ?thesis by (fastforce simp: fault_free_def)
qed

end
