(* ===== verification/Delivery_State.thy ===== *)
theory Delivery_State
  imports Atomic_File
begin

text \<open>
  The persisted acceptance record of \<open>src/delivery/state.rs\<close>: which content digest the
  server accepted last and when. The JSON encoder and decoder are parameters. The store is
  the Unix one, where the rename replaces the target.
\<close>

definition STATE_FILE :: string where "STATE_FILE = ''delivery-state-v1.json''"
definition FORMAT_VERSION :: u16 where "FORMAT_VERSION = 1"
definition MAX_STATE_BYTES :: nat where "MAX_STATE_BYTES = 4 * 1024"

record accepted_state =
  digest :: string
  accepted_at_unix_secs :: u64

record state_document =
  sd_format_version :: u16
  sd_digest :: string
  sd_accepted_at :: u64

text \<open>\<open>Path::with_extension\<close> on the name of the state file, for a process id.\<close>

definition state_temp_name :: "nat \<Rightarrow> string" where
  "state_temp_name pid = ''delivery-state-v1.tmp-'' @ show_nat pid"

definition io_or :: "fault_plan \<Rightarrow> file_op \<Rightarrow> string \<Rightarrow> string + unit" where
  "io_or plan oper context_text =
     (case fault plan oper of None \<Rightarrow> Inr () | Some e \<Rightarrow> Inl (context_text @ e))"

definition valid_digest :: "string \<Rightarrow> bool" where
  "valid_digest s \<longleftrightarrow> utf8_len s = 64 \<and> list_all is_ascii_hexdigit s"

definition check_document :: "state_document \<Rightarrow> string + accepted_state" where
  "check_document document =
     (if sd_format_version document \<noteq> FORMAT_VERSION
      then Inl (''unsupported delivery state format version '' @ show_nat (unat (sd_format_version document)))
      else if \<not> valid_digest (sd_digest document)
      then Inl ''delivery state contains an invalid SHA-256 digest''
      else if sd_accepted_at document = 0
      then Inl ''delivery state contains an invalid acceptance timestamp''
      else Inr \<lparr>digest = to_ascii_lowercase (sd_digest document),
                accepted_at_unix_secs = sd_accepted_at document\<rparr>)"

definition load_state ::
  "(u8 list \<Rightarrow> string + state_document) \<Rightarrow> fault_plan \<Rightarrow> u8 list dir \<Rightarrow> string + accepted_state option" where
  "load_state decode plan d =
     and_then (io_or plan OpenFile (''failed to open delivery state '' @ STATE_FILE @ '': ''))
       (\<lambda>_. case map_of d STATE_FILE of
          None \<Rightarrow> Inr None
        | Some content \<Rightarrow>
            and_then (io_or plan ReadFile ''failed to read delivery state: '') (\<lambda>_.
              let bytes = take (MAX_STATE_BYTES + 1) content in
              if length bytes > MAX_STATE_BYTES
              then Inl (''delivery state exceeds the '' @ show_nat MAX_STATE_BYTES @ '' byte limit'')
              else case decode bytes of
                Inl e \<Rightarrow> Inl (''failed to parse delivery state: '' @ e)
              | Inr document \<Rightarrow> and_then (check_document document) (\<lambda>st. Inr (Some st))))"

definition load_or_discard_invalid ::
  "(u8 list \<Rightarrow> string + state_document) \<Rightarrow> fault_plan \<Rightarrow> u8 list dir
   \<Rightarrow> accepted_state option \<times> u8 list dir" where
  "load_or_discard_invalid decode plan d =
     (case load_state decode plan d of
        Inr st \<Rightarrow> (st, d)
      | Inl _ \<Rightarrow> (None, if fault plan RemoveFile = None then AList.delete STATE_FILE d else d))"

definition state_io_message :: "file_op \<times> string \<Rightarrow> string" where
  "state_io_message oe =
     (case fst oe of
        CreateTemp \<Rightarrow> ''failed to create delivery state: '' @ snd oe
      | WriteTemp \<Rightarrow> ''failed to write delivery state: '' @ snd oe
      | Publish \<Rightarrow> ''failed to publish delivery state '' @ STATE_FILE @ '': '' @ snd oe
      | _ \<Rightarrow> ''failed to sync delivery state directory '' @ snd oe)"

definition document_of :: "accepted_state \<Rightarrow> state_document" where
  "document_of st = \<lparr>sd_format_version = FORMAT_VERSION, sd_digest = digest st,
     sd_accepted_at = accepted_at_unix_secs st\<rparr>"

text \<open>\<open>encode\<close> is \<open>serde_json::to_vec\<close>, which does not fail on this type.\<close>

definition store_state ::
  "(state_document \<Rightarrow> u8 list) \<Rightarrow> fault_plan \<Rightarrow> nat \<Rightarrow> accepted_state \<Rightarrow> u8 list dir
   \<Rightarrow> (string + unit) \<times> u8 list dir list" where
  "store_state encode plan pid st d =
     (let bytes = encode (document_of st) in
      if length bytes > MAX_STATE_BYTES
      then (Inl (''delivery state is '' @ show_nat (length bytes) @ '' bytes, exceeding the ''
                 @ show_nat MAX_STATE_BYTES @ '' byte limit''), [d])
      else case atomic_replace plan id (state_temp_name pid) STATE_FILE bytes d of
        (r, states) \<Rightarrow> (map_sum state_io_message id r, states))"

section \<open>The store is a durable document\<close>

text \<open>
  What a record needs in order to load again: a digest of 64 hexadecimal digits and a
  nonzero time (the delivery client only stores such), and a codec that reads back what it
  wrote, within the size limit.
\<close>

definition state_ok ::
  "(state_document \<Rightarrow> u8 list) \<Rightarrow> (u8 list \<Rightarrow> string + state_document) \<Rightarrow> accepted_state \<Rightarrow> bool" where
  "state_ok encode decode st \<longleftrightarrow>
     valid_digest (digest st) \<and> accepted_at_unix_secs st \<noteq> 0
     \<and> decode (encode (document_of st)) = Inr (document_of st)
     \<and> length (encode (document_of st)) \<le> MAX_STATE_BYTES"

definition state_canon :: "accepted_state \<Rightarrow> accepted_state" where
  "state_canon st = st\<lparr>digest := to_ascii_lowercase (digest st)\<rparr>"

lemma state_temp_other: "state_temp_name pid \<noteq> STATE_FILE"
  by (simp add: state_temp_name_def STATE_FILE_def)

lemma load_state_cong: "map_of d STATE_FILE = map_of e STATE_FILE \<Longrightarrow> load_state c p d = load_state c p e"
  by (simp add: load_state_def)

lemma check_document_ok:
  "valid_digest (digest st) \<Longrightarrow> accepted_at_unix_secs st \<noteq> 0 \<Longrightarrow>
   check_document (document_of st) = Inr (state_canon st)"
  by (simp add: check_document_def document_of_def state_canon_def)

lemma load_stored:
  "state_ok encode decode st \<Longrightarrow> map_of d STATE_FILE = Some (encode (document_of st)) \<Longrightarrow>
   load_state decode no_faults d = Inr (Some (state_canon st))"
  by (simp add: load_state_def io_or_def state_ok_def check_document_ok Let_def)

interpretation state_file: durable_store
  "load_state decode no_faults" "store_state encode plan pid" "state_ok encode decode" state_canon
  for encode decode plan pid
proof
  fix st d e
  show "snd (store_state encode plan pid st d) \<noteq> []"
    by (auto simp: store_state_def Let_def split: prod.splits
        dest: atomic_replace_lookup(1) [OF _ state_temp_other])
  { assume ok: "state_ok encode decode st"
    then have small: "\<not> length (encode (document_of st)) > MAX_STATE_BYTES" by (simp add: state_ok_def)
    obtain r states where ar: "atomic_replace plan id (state_temp_name pid) STATE_FILE
        (encode (document_of st)) d = (r, states)" by force
    note look = atomic_replace_lookup [OF ar state_temp_other]
    have st: "store_state encode plan pid st d = (map_sum state_io_message id r, states)"
      using small ar by (simp add: store_state_def Let_def)
    { assume "fst (store_state encode plan pid st d) = Inr ()"
      then have "r = Inr ()" using st by (cases r) auto
      then show "load_state decode no_faults (last (snd (store_state encode plan pid st d)))
          = Inr (Some (state_canon st))"
        using load_stored [OF ok] look(3) st by simp }
    { assume "e \<in> set (snd (store_state encode plan pid st d))"
      then have "map_of e STATE_FILE \<in> {map_of d STATE_FILE, Some (encode (document_of st))}"
        using look(2) st by simp
      then show "load_state decode no_faults e = load_state decode no_faults d
          \<or> load_state decode no_faults e = Inr (Some (state_canon st))"
        using load_stored [OF ok] load_state_cong [of e d] by auto } }
qed

text \<open>An invalid document is never loaded: whatever \<open>load\<close> returns is well formed.\<close>

lemma loaded_state_valid:
  "load_state decode plan d = Inr (Some st) \<Longrightarrow>
   length (digest st) = 64 \<and> list_all is_lower_hexdigit (digest st) \<and> accepted_at_unix_secs st \<noteq> 0"
proof -
  assume "load_state decode plan d = Inr (Some st)"
  then obtain document where "check_document document = Inr st"
    by (auto simp: load_state_def Let_def and_then_Inr_iff split: option.splits if_splits sum.splits)
  then have v: "valid_digest (sd_digest document)" "digest st = to_ascii_lowercase (sd_digest document)"
    "accepted_at_unix_secs st \<noteq> 0"
    by (auto simp: check_document_def split: if_splits)
  have ascii: "list_all (\<lambda>c. scalar c < 128) (sd_digest document)"
    using v(1) by (auto simp: valid_digest_def list_all_iff hexdigit_ascii)
  have low: "is_lower_hexdigit (ascii_lower c)" if "is_ascii_hexdigit c" for c
    using that by (auto simp: char_class_defs scalar_ascii_lower)
  show ?thesis
    using v utf8_len_ascii [OF ascii] low
    by (auto simp: valid_digest_def to_ascii_lowercase_def list_all_iff)
qed

end
