(* ===== verification/Delivery.thy ===== *)
theory Delivery
  imports Spool Delivery_State Api
begin

text \<open>
  The delivery client of \<open>src/delivery/mod.rs\<close>: deciding whether a snapshot must be sent,
  queueing it, submitting the queue oldest first, and the record of what the server
  accepted. The server, the token exchange and the clock are inputs.
\<close>

definition MAX_ATTEMPTS_PER_ENTRY :: nat where "MAX_ATTEMPTS_PER_ENTRY = 6"

section \<open>The content digest\<close>

text \<open>
  The JSON object that is hashed: everything that describes the endpoint, without the
  snapshot's id, its time, the agent's id and the sources' times.
\<close>

record source_payload =
  sp_source :: software_source
  sp_status :: collection_status
  sp_collector_version :: string
  sp_diagnostic_code :: "string option"

record content_payload =
  cp_schema_version :: u16
  cp_sources :: "source_payload list"
  cp_hostname :: string
  cp_os_family :: "string option"
  cp_os_name :: "string option"
  cp_os_version :: "string option"
  cp_os_arch :: "string option"
  cp_agent_version :: string
  cp_labels :: "(string \<times> string) list"
  cp_identifiers :: "endpoint_identifier list"
  cp_software :: "software_entry list"
  cp_warnings :: "string list"

definition source_payload_of :: "collection_source \<Rightarrow> source_payload" where
  "source_payload_of c = \<lparr>sp_source = cs_source c, sp_status = cs_status c,
     sp_collector_version = cs_collector_version c, sp_diagnostic_code = cs_diagnostic_code c\<rparr>"

definition content_payload_of :: "inventory_snapshot \<Rightarrow> content_payload" where
  "content_payload_of s = \<lparr>cp_schema_version = schema_version s,
     cp_sources = map source_payload_of (sources s), cp_hostname = hostname s,
     cp_os_family = os_family s, cp_os_name = os_name s, cp_os_version = os_version s,
     cp_os_arch = os_arch s, cp_agent_version = agent_version s, cp_labels = labels s,
     cp_identifiers = identifiers s, cp_software = software s,
     cp_warnings = collector_warnings s\<rparr>"

text \<open>The JSON encoder and the hash, the store's codec, and the configuration.\<close>

record delivery_env =
  payload_json :: "content_payload \<Rightarrow> u8 list"
  sha256 :: "u8 list \<Rightarrow> u8 list"
  entry_codec :: spool_codec
  state_encode :: "state_document \<Rightarrow> u8 list"
  state_decode :: "u8 list \<Rightarrow> string + state_document"
  max_spool_entries :: nat
  full_refresh_interval :: u64
  process_id :: nat

definition content_digest :: "delivery_env \<Rightarrow> inventory_snapshot \<Rightarrow> string" where
  "content_digest env s = hex_lower (sha256 env (payload_json env (content_payload_of s)))"

section \<open>The client's state\<close>

record delivery =
  dl_spool :: spool
  dl_disk :: "u8 list dir"
  last_accepted :: "accepted_state option"
  last_enqueued_digest :: "string option"

fun first_pending_digest ::
  "delivery_env \<Rightarrow> name_faults \<Rightarrow> string list \<Rightarrow> spool \<Rightarrow> string option \<times> spool" where
  "first_pending_digest env io [] sp = (None, sp)"
| "first_pending_digest env io (path # paths) sp =
     (case read_pending (entry_codec env) io path sp of
        (Inr (Some s), sp') \<Rightarrow> (Some (content_digest env s), sp')
      | (Inr None, sp') \<Rightarrow> first_pending_digest env io paths sp'
      | (Inl _, sp') \<Rightarrow> first_pending_digest env io paths sp')"

definition newest_pending_digest ::
  "delivery_env \<Rightarrow> name_faults \<Rightarrow> spool \<Rightarrow> string option \<times> spool" where
  "newest_pending_digest env io sp =
     (case pending_paths io sp of
        Inl _ \<Rightarrow> (None, sp)
      | Inr paths \<Rightarrow> first_pending_digest env io (rev paths) sp)"

definition delivery_new ::
  "delivery_env \<Rightarrow> fault_plan \<Rightarrow> name_faults \<Rightarrow> spool \<Rightarrow> u8 list dir \<Rightarrow> delivery" where
  "delivery_new env plan io sp disk =
     (case load_or_discard_invalid (state_decode env) plan disk of
        (accepted, disk') \<Rightarrow> (case newest_pending_digest env io sp of
          (queued, sp') \<Rightarrow> \<lparr>dl_spool = sp', dl_disk = disk', last_accepted = accepted,
                           last_enqueued_digest = queued\<rparr>))"

section \<open>Enqueueing\<close>

definition due_for_submission :: "delivery_env \<Rightarrow> u64 \<Rightarrow> string \<Rightarrow> accepted_state option \<Rightarrow> bool" where
  "due_for_submission env now dg accepted =
     (case accepted of
        None \<Rightarrow> True
      | Some l \<Rightarrow>
          (let due_for_refresh = (accepted_at_unix_secs l > now
                 \<or> saturating_sub now (accepted_at_unix_secs l) \<ge> full_refresh_interval env)
           in digest l \<noteq> dg \<or> due_for_refresh))"

text \<open>
  The rest of \<open>enqueue_if_needed\<close>, under the lock on the queued digest, with the answer of
  \<open>due_for_submission\<close> that was computed before the lock was taken.
\<close>

definition enqueue_commit ::
  "delivery_env \<Rightarrow> fault_plan \<Rightarrow> name_faults \<Rightarrow> nat \<Rightarrow> bool \<Rightarrow> inventory_snapshot \<Rightarrow> delivery
   \<Rightarrow> (string + bool) \<times> delivery" where
  "enqueue_commit env plan io mtime due s st =
     (let dg = content_digest env s in
      if last_enqueued_digest st = Some dg then (Inr False, st)
      else if \<not> due \<and> last_enqueued_digest st = None then (Inr False, st)
      else (case spool_write (entry_codec env) plan (process_id env) mtime s (dl_spool st) of
        (Inl e, states) \<Rightarrow>
          (Inl (''failed to spool snapshot: '' @ spool_error_display e), st\<lparr>dl_spool := last states\<rparr>)
      | (Inr _, states) \<Rightarrow>
          (case enforce_limit io (max_spool_entries env) (last states) of
             (_, sp') \<Rightarrow> (Inr True, st\<lparr>dl_spool := sp', last_enqueued_digest := Some dg\<rparr>))))"

definition enqueue_if_needed ::
  "delivery_env \<Rightarrow> fault_plan \<Rightarrow> name_faults \<Rightarrow> nat \<Rightarrow> u64 \<Rightarrow> inventory_snapshot \<Rightarrow> delivery
   \<Rightarrow> (string + bool) \<times> delivery" where
  "enqueue_if_needed env plan io mtime now s st =
     enqueue_commit env plan io mtime
       (due_for_submission env now (content_digest env s) (last_accepted st)) s st"

section \<open>Submitting one entry\<close>

datatype submit_failure = Blocking string | Quarantined string

text \<open>
  What happens around one submission: the answers of \<open>token\<close> by attempt, of the one
  \<open>force_refresh\<close>, of the \<open>n\<close>-th post with a token, and the random draws.
\<close>

record submit_env =
  sv_token :: "nat \<Rightarrow> api_error + string"
  sv_refresh :: "api_error + string"
  sv_post :: "nat \<Rightarrow> string \<Rightarrow> api_error + unit"
  sv_rng :: "nat \<Rightarrow> nat"

text \<open>
  One turn of the loop up to its error: the post, and on the first 401 the refresh and the
  second post. \<open>Inl\<close> is an early return, \<open>Inr\<close> the outcome of the last post made.
\<close>

definition attempt_post ::
  "submit_env \<Rightarrow> bool \<Rightarrow> nat \<Rightarrow> string \<Rightarrow> nat \<times> bool \<times> (submit_failure + (api_error + unit))" where
  "attempt_post sv refreshed_once posts tok =
     (case sv_post sv posts tok of
        Inl Auth \<Rightarrow>
          (if refreshed_once then (posts + 1, refreshed_once, Inr (Inl Auth))
           else (case sv_refresh sv of
                   Inl e \<Rightarrow> (posts + 1, True, Inl (Blocking (api_error_display e)))
                 | Inr tok' \<Rightarrow> (posts + 2, True, Inr (sv_post sv (posts + 1) tok'))))
      | r \<Rightarrow> (posts + 1, refreshed_once, Inr r))"

fun payload_specific :: "api_error \<Rightarrow> bool" where
  "payload_specific (Conflict _) = True"
| "payload_specific (Validation _) = True"
| "payload_specific (PayloadTooLarge _) = True"
| "payload_specific _ = False"

definition reject_entry ::
  "name_faults \<Rightarrow> string \<Rightarrow> api_error \<Rightarrow> spool \<Rightarrow> submit_failure \<times> spool" where
  "reject_entry io sid error sp =
     (let message = ''snapshot '' @ sid @ '' rejected and quarantined: '' @ api_error_display error in
      case quarantine_by_id io sid sp of
        (Inl qe, sp') \<Rightarrow>
          (Blocking (message @ ''; failed to quarantine it: '' @ spool_error_display qe), sp')
      | (Inr _, sp') \<Rightarrow> (Quarantined message, sp'))"

text \<open>The result: posts made, delays slept, outcome, spool.\<close>

type_synonym submit_result = "nat \<times> nat list \<times> (submit_failure + unit) \<times> spool"

function submit_loop ::
  "submit_env \<Rightarrow> name_faults \<Rightarrow> string \<Rightarrow> nat \<Rightarrow> bool \<Rightarrow> nat \<Rightarrow> nat list \<Rightarrow> spool \<Rightarrow> submit_result" where
  "submit_loop sv io sid attempt0 refreshed_once posts delays sp =
     (let attempt = attempt0 + 1 in
      case sv_token sv attempt of
        Inl e \<Rightarrow> (posts, delays, Inl (Blocking (api_error_display e)), sp)
      | Inr tok \<Rightarrow>
        (case attempt_post sv refreshed_once posts tok of
           (posts', refreshed', Inl failure) \<Rightarrow> (posts', delays, Inl failure, sp)
         | (posts', refreshed', Inr (Inr _)) \<Rightarrow> (posts', delays, Inr (), sp)
         | (posts', refreshed', Inr (Inl error)) \<Rightarrow>
             (if payload_specific error then
                (case reject_entry io sid error sp of
                   (failure, sp') \<Rightarrow> (posts', delays, Inl failure, sp'))
              else (case classify (sv_rng sv) error attempt of
                 RetryAfter delay \<Rightarrow>
                   (if attempt < MAX_ATTEMPTS_PER_ENTRY
                    then submit_loop sv io sid attempt refreshed' posts' (delays @ [delay]) sp
                    else (posts', delays, Inl (Blocking (api_error_display error)), sp))
               | GiveUp \<Rightarrow> (posts', delays, Inl (Blocking (api_error_display error)), sp)))))"
  by pat_completeness auto

termination submit_loop
  by (relation "measure (\<lambda>(_, _, _, attempt, _). MAX_ATTEMPTS_PER_ENTRY - attempt)") auto

declare submit_loop.simps [simp del]

definition submit_one :: "submit_env \<Rightarrow> name_faults \<Rightarrow> string \<Rightarrow> spool \<Rightarrow> submit_result" where
  "submit_one sv io sid sp = submit_loop sv io sid 0 False 0 [] sp"

section \<open>Draining the queue\<close>

text \<open>
  The environment of a drain: per entry name the submission's environment and the clock
  when it is accepted, and the fault plan of the state file. The ids and digests the
  server accepted are returned, in order.
\<close>

record drain_env =
  dr_submit :: "string \<Rightarrow> submit_env"
  dr_now :: "string \<Rightarrow> u64"
  dr_plan :: fault_plan
  dr_io :: name_faults

definition record_accepted ::
  "delivery_env \<Rightarrow> fault_plan \<Rightarrow> string \<Rightarrow> u64 \<Rightarrow> delivery \<Rightarrow> delivery" where
  "record_accepted env plan dg now st =
     (let accepted = \<lparr>digest = dg, accepted_at_unix_secs = now\<rparr> in
      case store_state (state_encode env) plan (process_id env) accepted (dl_disk st) of
        (_, states) \<Rightarrow> st\<lparr>dl_disk := last states, last_accepted := Some accepted\<rparr>)"

text \<open>The loop over the paths: an early error, or the first quarantine message.\<close>

fun drain_loop ::
  "delivery_env \<Rightarrow> drain_env \<Rightarrow> string list \<Rightarrow> string option \<Rightarrow> (string \<times> string) list \<Rightarrow> delivery
   \<Rightarrow> (string + string option) \<times> (string \<times> string) list \<times> delivery" where
  "drain_loop env dr [] first_quarantined acks st = (Inr first_quarantined, acks, st)"
| "drain_loop env dr (path # paths) first_quarantined acks st =
     (case read_pending (entry_codec env) (dr_io dr) path (dl_spool st) of
        (Inl e, sp) \<Rightarrow>
          (Inl (''failed to read spool entry: '' @ spool_error_display e), acks, st\<lparr>dl_spool := sp\<rparr>)
      | (Inr None, sp) \<Rightarrow> drain_loop env dr paths first_quarantined acks (st\<lparr>dl_spool := sp\<rparr>)
      | (Inr (Some s), sp) \<Rightarrow>
          (let dg = content_digest env s in
           case submit_one (dr_submit dr path) (dr_io dr) (snapshot_id s) sp of
             (_, _, Inr _, sp') \<Rightarrow>
               (case spool_remove (dr_io dr) (snapshot_id s) sp' of
                  (Inl e, sp'') \<Rightarrow>
                    (Inl (''snapshot '' @ snapshot_id s
                       @ '' was accepted but could not be removed from spool: '' @ spool_error_display e),
                     acks @ [(snapshot_id s, dg)], st\<lparr>dl_spool := sp''\<rparr>)
                | (Inr _, sp'') \<Rightarrow>
                    drain_loop env dr paths first_quarantined (acks @ [(snapshot_id s, dg)])
                      (record_accepted env (dr_plan dr) dg (dr_now dr path) (st\<lparr>dl_spool := sp''\<rparr>)))
           | (_, _, Inl (Quarantined error), sp') \<Rightarrow>
               drain_loop env dr paths
                 (if first_quarantined = None then Some error else first_quarantined)
                 acks (st\<lparr>dl_spool := sp'\<rparr>)
           | (_, _, Inl (Blocking error), sp') \<Rightarrow> (Inl error, acks, st\<lparr>dl_spool := sp'\<rparr>)))"

definition clear_enqueued_if_spool_empty ::
  "name_faults \<Rightarrow> delivery \<Rightarrow> (string + unit) \<times> delivery" where
  "clear_enqueued_if_spool_empty io st =
     (case pending_paths io (dl_spool st) of
        Inl e \<Rightarrow> (Inl (''failed to inspect spool after drain: '' @ spool_error_display e), st)
      | Inr paths \<Rightarrow> (Inr (), if paths = [] then st\<lparr>last_enqueued_digest := None\<rparr> else st))"

definition drain_spool ::
  "delivery_env \<Rightarrow> drain_env \<Rightarrow> delivery \<Rightarrow> (string + unit) \<times> (string \<times> string) list \<times> delivery" where
  "drain_spool env dr st =
     (case pending_paths (dr_io dr) (dl_spool st) of
        Inl e \<Rightarrow> (Inl (''failed to read spool: '' @ spool_error_display e), [], st)
      | Inr paths \<Rightarrow>
          (case drain_loop env dr paths None [] st of
             (Inl e, acks, st') \<Rightarrow> (Inl e, acks, st')
           | (Inr first_quarantined, acks, st') \<Rightarrow>
               (case clear_enqueued_if_spool_empty (dr_io dr) st' of
                  (Inl e, st'') \<Rightarrow> (Inl e, acks, st'')
                | (Inr _, st'') \<Rightarrow>
                    (case first_quarantined of
                       Some error \<Rightarrow> (Inl error, acks, st'')
                     | None \<Rightarrow> (Inr (), acks, st'')))))"

definition has_pending :: "name_faults \<Rightarrow> delivery \<Rightarrow> bool" where
  "has_pending io st =
     (case pending_paths io (dl_spool st) of Inr paths \<Rightarrow> paths \<noteq> [] | Inl _ \<Rightarrow> True)"

definition submit_if_needed ::
  "delivery_env \<Rightarrow> fault_plan \<Rightarrow> name_faults \<Rightarrow> nat \<Rightarrow> u64 \<Rightarrow> drain_env \<Rightarrow> inventory_snapshot \<Rightarrow> delivery
   \<Rightarrow> (string + unit) \<times> (string \<times> string) list \<times> delivery" where
  "submit_if_needed env plan io mtime now dr s st =
     (case enqueue_if_needed env plan io mtime now s st of
        (Inl e, st') \<Rightarrow> (Inl e, [], st')
      | (Inr _, st') \<Rightarrow> drain_spool env dr st')"

section \<open>The worker's loop\<close>

text \<open>
  One turn of \<open>run_loop\<close>: the shutdown flag before and after the drain, and which branch of
  the select woke the worker, given whether entries are pending (the retry timer only runs
  when some are). A changed shutdown channel stops the loop when it is closed or true.
\<close>

datatype wake = Notified | RetryTimer | ShutdownChanged bool

record loop_turn =
  lt_stop_before :: bool
  lt_drain :: drain_env
  lt_stop_after :: bool
  lt_io :: name_faults
  lt_wake :: "bool \<Rightarrow> wake"

fun delivery_run_loop ::
  "delivery_env \<Rightarrow> loop_turn list \<Rightarrow> (string \<times> string) list \<Rightarrow> delivery
   \<Rightarrow> bool \<times> (string \<times> string) list \<times> delivery" where
  "delivery_run_loop env [] acks st = (False, acks, st)"
| "delivery_run_loop env (turn # turns) acks st =
     (if lt_stop_before turn then (True, acks, st)
      else (case drain_spool env (lt_drain turn) st of
        (_, new_acks, st') \<Rightarrow>
          if lt_stop_after turn then (True, acks @ new_acks, st')
          else (case lt_wake turn (has_pending (lt_io turn) st') of
            ShutdownChanged stop \<Rightarrow>
              if stop then (True, acks @ new_acks, st')
              else delivery_run_loop env turns (acks @ new_acks) st'
          | _ \<Rightarrow> delivery_run_loop env turns (acks @ new_acks) st')))"

section \<open>Lemmas: no entry is lost\<close>

text \<open>The file is still in the queue, or it has left the queue for the quarantine.\<close>

definition kept :: "spool \<Rightarrow> string \<Rightarrow> spool_file \<Rightarrow> bool" where
  "kept sp name f \<longleftrightarrow> map_of (spool_dir sp) name = Some f
     \<or> map_of (spool_dir sp) name = None \<and> map_of (quarantine_dir sp) name = Some f"

lemma kept_quarantine: "kept sp name f \<Longrightarrow> kept (snd (quarantine io n sp)) name f"
  by (auto simp: kept_def quarantine_def Let_def split: option.splits)

lemma kept_read_pending: "kept sp name f \<Longrightarrow> kept (snd (read_pending c io n sp)) name f"
  using kept_quarantine [of sp name f io n]
  by (auto simp: read_pending_def split: sum.splits prod.splits)

lemma kept_quarantine_each: "kept sp name f \<Longrightarrow> kept (snd (quarantine_each io ns sp)) name f"
proof (induction io ns sp rule: quarantine_each.induct)
  case (2 io n ns sp)
  then show ?case using kept_quarantine [of sp name f io n] by (auto split: prod.splits sum.splits)
qed simp

lemma kept_reject: "kept sp name f \<Longrightarrow> kept (snd (reject_entry io sid e sp)) name f"
  using kept_quarantine_each [of sp name f io "[entry_name sid, sid @ ''.json'']"]
  by (auto simp: reject_entry_def quarantine_by_id_def Let_def split: prod.splits sum.splits)

lemma submit_loop_spool:
  "submit_loop sv io sid a r p ds sp = (p', ds', res, sp') \<Longrightarrow>
   sp' = sp \<and> (\<forall>m. res \<noteq> Inl (Quarantined m)) \<or> (\<exists>e m. reject_entry io sid e sp = (m, sp') \<and> res = Inl m)"
proof (induction sv io sid a r p ds sp rule: submit_loop.induct)
  case (1 sv io sid a r p ds sp)
  have early: "\<And>tok q r' m. attempt_post sv r p tok \<noteq> (q, r', Inl (Quarantined m))"
    by (auto simp: attempt_post_def split: sum.splits api_error.splits if_splits)
  show ?case
    using "1.prems" "1.IH" early
    by (subst (asm) submit_loop.simps)
       (auto simp: Let_def split: sum.splits prod.splits if_splits retry_decision.splits)
qed

lemma kept_submit_one:
  assumes "kept sp name f" and "submit_one sv io sid sp = (p, ds, res, sp')"
  shows "kept sp' name f"
  using submit_loop_spool [OF assms(2) [unfolded submit_one_def]] kept_reject [OF assms(1)] assms(1)
  by (metis snd_conv)

text \<open>The names under which the entry of a snapshot id is stored.\<close>

definition names_of :: "string \<Rightarrow> string set" where
  "names_of sid = {entry_name sid, sid @ ''.json''}"

lemma names_of_inj: "name \<in> names_of a \<Longrightarrow> name \<in> names_of b \<Longrightarrow> a = b"
proof -
  have "a @ ''.json.zst'' \<noteq> b @ ''.json''" for a b :: string
  proof
    assume "a @ ''.json.zst'' = b @ ''.json''"
    then have "last (a @ ''.json.zst'') = last (b @ ''.json'')" by simp
    then show False by simp
  qed
  note ne = this this [symmetric]
  assume "name \<in> names_of a" "name \<in> names_of b"
  with ne [of a b] ne [of b a] show "a = b" by (auto simp: names_of_def entry_name_def)
qed

lemma kept_remove:
  assumes "kept sp name f" and "name \<notin> names_of sid"
  shows "kept (snd (spool_remove io sid sp)) name f"
  using assms
  by (auto simp: kept_def spool_remove_def remove_one_def names_of_def split: option.splits prod.splits)

lemma record_accepted_spool [simp]: "dl_spool (record_accepted env plan dg now st) = dl_spool st"
  by (simp add: record_accepted_def Let_def split: prod.splits)

lemma drain_loop_keeps:
  assumes "drain_loop env dr paths fq acks st = (r, acks', st')"
    and "name \<in> names_of sid" and "kept (dl_spool st) name f \<or> sid \<in> fst ` set acks"
  shows "kept (dl_spool st') name f \<or> sid \<in> fst ` set acks'"
  using assms
proof (induction paths arbitrary: fq acks st)
  case Nil
  then show ?case by simp
next
  case (Cons path paths)
  obtain rp sp where rp: "read_pending (entry_codec env) (dr_io dr) path (dl_spool st) = (rp, sp)" by force
  have k: "kept sp name f \<or> sid \<in> fst ` set acks"
    using Cons.prems(3) kept_read_pending [of "dl_spool st" name f "entry_codec env" "dr_io dr" path] rp by auto
  show ?case
  proof (cases "\<exists>s. rp = Inr (Some s)")
    case False
    then consider (err) e where "rp = Inl e" | (skip) "rp = Inr None"
      by (cases rp) (auto simp: not_Some_eq)
    then show ?thesis
    proof cases
      case err
      then show ?thesis using Cons.prems(1) k rp by auto
    next
      case skip
      then show ?thesis using Cons.IH [of fq acks "st\<lparr>dl_spool := sp\<rparr>"] Cons.prems(1,2) k rp by auto
    qed
  next
    case True
    then obtain s where s: "rp = Inr (Some s)" by blast
    obtain p ds res sp' where sub: "submit_one (dr_submit dr path) (dr_io dr) (snapshot_id s) sp
        = (p, ds, res, sp')" by (metis prod_cases4)
    have k': "kept sp' name f \<or> sid \<in> fst ` set acks" using k kept_submit_one [OF _ sub] by blast
    show ?thesis
    proof (cases res)
      case (Inr u)
      obtain rr sp'' where rem: "spool_remove (dr_io dr) (snapshot_id s) sp' = (rr, sp'')" by force
      have k'': "kept sp'' name f \<or> sid \<in> fst ` set (acks @ [(snapshot_id s, content_digest env s)])"
        using k' kept_remove [of sp' name f "snapshot_id s" "dr_io dr"] rem
          names_of_inj [OF Cons.prems(2), of "snapshot_id s"] by auto
      show ?thesis
        using Cons.prems(1,2) k'' rp s sub rem Inr
        by (cases rr) (auto simp: Let_def dest!: Cons.IH)
    next
      case (Inl fail)
      then show ?thesis
        using Cons.prems(1,2) k' rp s sub Inl
        by (cases fail) (auto simp: Let_def dest!: Cons.IH)
    qed
  qed
qed

section \<open>Lemmas: the bounds of a submission\<close>

lemma attempt_post_bound:
  "attempt_post sv r p tok = (p', r', x) \<Longrightarrow>
   p < p' \<and> p' + (if r' then 0 else 1) \<le> p + 1 + (if r then 0 else 1)"
  by (auto simp: attempt_post_def split: sum.splits api_error.splits if_splits)

lemma attempt_post_success:
  "attempt_post sv r p tok = (p', r', Inr (Inr u)) \<Longrightarrow> \<exists>n t. n < p' \<and> sv_post sv n t = Inr ()"
  by (auto simp: attempt_post_def split: sum.splits api_error.splits if_splits)

lemma submit_loop_bounds:
  "submit_loop sv io sid a r p ds sp = (p', ds', res, sp') \<Longrightarrow> a < MAX_ATTEMPTS_PER_ENTRY \<Longrightarrow>
   p' \<le> p + (MAX_ATTEMPTS_PER_ENTRY - a) + (if r then 0 else 1)
   \<and> length ds' \<le> length ds + (MAX_ATTEMPTS_PER_ENTRY - a - 1)"
proof (induction sv io sid a r p ds sp rule: submit_loop.induct)
  case (1 sv io sid a r p ds sp)
  show ?case
  proof (cases "sv_token sv (a + 1)")
    case (Inl e)
    then show ?thesis using "1.prems" by (subst (asm) submit_loop.simps) auto
  next
    case (Inr tok)
    obtain q r' x where ap: "attempt_post sv r p tok = (q, r', x)" by (metis prod_cases3)
    note b = attempt_post_bound [OF ap]
    have stop: ?thesis if "p' = q" "ds' = ds"
      using that b "1.prems"(2) by (auto split: if_splits)
    have more: ?thesis if "submit_loop sv io sid (a + 1) r' q (ds @ [delay]) sp = (p', ds', res, sp')"
      "a + 1 < MAX_ATTEMPTS_PER_ENTRY"
      "x = Inr (Inl error)" "\<not> payload_specific error" "classify (sv_rng sv) error (a + 1) = RetryAfter delay"
      for error delay
      using "1.IH" [OF refl Inr ap [symmetric] refl that(3) refl that(4,5,2,1,2)] b that(2)
      by (auto split: if_splits)
    show ?thesis
      using "1.prems"(1) Inr ap stop more "1.prems"(2)
      by (subst (asm) submit_loop.simps)
         (auto simp: Let_def Suc_diff_le less_imp_le split: sum.splits prod.splits if_splits retry_decision.splits)
  qed
qed

lemma submit_loop_success:
  "submit_loop sv io sid a r p ds sp = (p', ds', Inr (), sp') \<Longrightarrow>
   sp' = sp \<and> (\<exists>n t. n < p' \<and> sv_post sv n t = Inr ())"
proof (induction sv io sid a r p ds sp rule: submit_loop.induct)
  case (1 sv io sid a r p ds sp)
  show ?case
    using "1.prems" "1.IH" attempt_post_success
    by (subst (asm) submit_loop.simps)
       (auto simp: Let_def split: sum.splits prod.splits if_splits retry_decision.splits)
qed

lemma submit_one_immediate:
  "sv_token sv 1 = Inr tok \<Longrightarrow> sv_post sv 0 tok = Inr () \<Longrightarrow> submit_one sv io sid sp = (1, [], Inr (), sp)"
  by (simp add: submit_one_def submit_loop.simps attempt_post_def)

section \<open>Lemmas: what an acknowledgement means, and the run without failures\<close>

definition server_accepted :: "drain_env \<Rightarrow> bool" where
  "server_accepted dr \<longleftrightarrow> (\<exists>path n t. sv_post (dr_submit dr path) n t = Inr ())"

lemma drain_loop_acks:
  assumes "drain_loop env dr paths fq acks st = (r, acks', st')" and "acks = [] \<or> server_accepted dr"
  shows "acks' = [] \<or> server_accepted dr"
  using assms
proof (induction paths arbitrary: fq acks st)
  case (Cons path paths)
  show ?case
  proof (cases "server_accepted dr")
    case False
    then have no: "\<And>s sp p ds sp'. submit_one (dr_submit dr path) (dr_io dr) s sp \<noteq> (p, ds, Inr (), sp')"
      using submit_loop_success unfolding submit_one_def server_accepted_def by blast
    with Cons.prems Cons.IH False show ?thesis
      by (fastforce simp: Let_def split: prod.splits sum.splits option.splits submit_failure.splits)
  qed simp
qed simp

lemma drain_spool_loop:
  assumes "drain_spool env dr st = (r, acks, st')"
  obtains "acks = []" "st' = st"
  | paths q st1 where "drain_loop env dr paths None [] st = (q, acks, st1)" "dl_spool st' = dl_spool st1"
  using assms
  by (fastforce simp: drain_spool_def clear_enqueued_if_spool_empty_def
      split: sum.splits prod.splits option.splits if_splits)

lemma remove_without_names:
  assumes "fault_free io"
  shows "spool_remove io sid sp = (Inr (), sp\<lparr>spool_dir := without_names (names_of sid) (spool_dir sp)\<rparr>)"
proof -
  have "AList.delete (sid @ ''.json'') (AList.delete (entry_name sid) (without_names {} (spool_dir sp)))
      = without_names (names_of sid) (spool_dir sp)"
    by (simp only: delete_without_names names_of_def) (simp add: insert_commute)
  with assms show ?thesis by (simp add: spool_remove_def remove_one_def)
qed

lemma without_names_twice: "without_names a (without_names b d) = without_names (a \<union> b) d"
  by (auto simp: without_names_def intro!: filter_cong)

definition ids_of :: "(string \<Rightarrow> inventory_snapshot) \<Rightarrow> string list \<Rightarrow> string list" where
  "ids_of snap paths = map (\<lambda>p. snapshot_id (snap p)) paths"

lemma drain_loop_delivers:
  assumes "fault_free (dr_io dr)"
    and "\<forall>p\<in>set paths. read_entry (entry_codec env) (dr_io dr) sp p = Inr (snap p)
           \<and> p \<in> names_of (snapshot_id (snap p))"
    and "distinct (ids_of snap paths)"
    and "\<forall>p\<in>set paths. \<exists>tok. sv_token (dr_submit dr p) 1 = Inr tok \<and> sv_post (dr_submit dr p) 0 tok = Inr ()"
    and "dl_spool st = sp\<lparr>spool_dir := without_names ns (spool_dir sp)\<rparr>"
    and "\<forall>p\<in>set paths. p \<notin> ns"
  shows "\<exists>st'. drain_loop env dr paths None acks st =
      (Inr None, acks @ map (\<lambda>p. (snapshot_id (snap p), content_digest env (snap p))) paths, st')
    \<and> dl_spool st' = sp\<lparr>spool_dir := without_names (\<Union> (names_of ` set (ids_of snap paths)) \<union> ns) (spool_dir sp)\<rparr>
    \<and> (paths \<noteq> [] \<longrightarrow> last_accepted st' = Some \<lparr>digest = content_digest env (snap (last paths)),
          accepted_at_unix_secs = dr_now dr (last paths)\<rparr>)
    \<and> (paths = [] \<longrightarrow> last_accepted st' = last_accepted st)"
  using assms(2-)
proof (induction paths arbitrary: acks st ns)
  case Nil
  then show ?case by (simp add: ids_of_def)
next
  case (Cons path paths)
  let ?s = "snap path" and ?dg = "content_digest env (snap path)"
  let ?ns = "names_of (snapshot_id ?s) \<union> ns"
  have "read_entry (entry_codec env) (dr_io dr) (dl_spool st) path = Inr ?s"
    using Cons.prems read_entry_cong [of "dl_spool st" path sp "entry_codec env" "dr_io dr"] by simp
  then have read: "read_pending (entry_codec env) (dr_io dr) path (dl_spool st) = (Inr (Some ?s), dl_spool st)"
    by (simp add: read_pending_def)
  obtain tok where tok: "sv_token (dr_submit dr path) 1 = Inr tok" "sv_post (dr_submit dr path) 0 tok = Inr ()"
    using Cons.prems(3) by auto
  define st1 where "st1 = record_accepted env (dr_plan dr) ?dg (dr_now dr path)
      (st\<lparr>dl_spool := sp\<lparr>spool_dir := without_names ?ns (spool_dir sp)\<rparr>\<rparr>)"
  have step: "drain_loop env dr (path # paths) None acks st =
      drain_loop env dr paths None (acks @ [(snapshot_id ?s, ?dg)]) st1"
    using read submit_one_immediate [OF tok] remove_without_names [OF assms(1)] Cons.prems(4)
    by (simp add: Let_def st1_def without_names_twice)
  have sp1: "dl_spool st1 = sp\<lparr>spool_dir := without_names ?ns (spool_dir sp)\<rparr>"
    by (simp add: st1_def)
  have fresh: "\<forall>p\<in>set paths. p \<notin> ?ns"
  proof
    fix p assume p: "p \<in> set paths"
    then have "snapshot_id (snap p) \<noteq> snapshot_id ?s" using Cons.prems(2) by (auto simp: ids_of_def image_iff)
    moreover have "p \<in> names_of (snapshot_id (snap p))" using p Cons.prems(1) by simp
    ultimately show "p \<notin> ?ns" using p Cons.prems(5) names_of_inj by auto
  qed
  from Cons.IH [OF _ _ _ sp1 fresh, of "acks @ [(snapshot_id ?s, ?dg)]"] Cons.prems
  obtain st' where IH: "drain_loop env dr paths None (acks @ [(snapshot_id ?s, ?dg)]) st1 =
      (Inr None, (acks @ [(snapshot_id ?s, ?dg)])
         @ map (\<lambda>p. (snapshot_id (snap p), content_digest env (snap p))) paths, st')"
    "dl_spool st' = sp\<lparr>spool_dir := without_names (\<Union> (names_of ` set (ids_of snap paths)) \<union> ?ns) (spool_dir sp)\<rparr>"
    "paths \<noteq> [] \<longrightarrow> last_accepted st' = Some \<lparr>digest = content_digest env (snap (last paths)),
          accepted_at_unix_secs = dr_now dr (last paths)\<rparr>"
    "paths = [] \<longrightarrow> last_accepted st' = last_accepted st1"
    by (auto simp: ids_of_def)
  have acc: "last_accepted st1 = Some \<lparr>digest = ?dg, accepted_at_unix_secs = dr_now dr path\<rparr>"
    by (simp add: st1_def record_accepted_def Let_def split: prod.splits)
  have ns: "\<Union> (names_of ` set (ids_of snap paths)) \<union> ?ns = \<Union> (names_of ` set (ids_of snap (path # paths))) \<union> ns"
    by (auto simp: ids_of_def)
  show ?case unfolding step using IH acc ns by (intro exI [of _ st']) (simp add: Un_assoc)
qed

lemma pending_paths_eq:
  "fault_free io \<Longrightarrow> pending_paths io sp = Inr paths \<Longrightarrow>
   set paths = fst ` set (visible is_spool_file (spool_dir sp))"
  by (force simp: pending_paths_def pending_files_eq image_image)

lemma pending_paths_none:
  assumes "fault_free io" and "pending_paths io sp = Inr paths" and "set paths \<subseteq> ns"
  shows "pending_paths io (sp\<lparr>spool_dir := without_names ns (spool_dir sp)\<rparr>) = Inr []"
proof -
  have "filter (\<lambda>nf. fst nf \<notin> ns) (visible is_spool_file (spool_dir sp)) = []"
    using pending_paths_eq [OF assms(1,2)] assms(3) by (auto simp: filter_empty_conv)
  with assms(1) show ?thesis
    by (simp add: pending_paths_def pending_files_eq visible_without_names)
qed

section \<open>Properties\<close>

text \<open>
  C18. A submission is bounded and reports the truth: at most seven posts (six attempts and
  the one repeat after a refreshed token) and five delays, and it reports success only when
  the server accepted one of those posts, leaving the queue for the caller to update.
\<close>

theorem submit_one_bounded_and_truthful:
  assumes "submit_one sv io sid sp = (posts, delays, outcome, sp')"
  shows "posts \<le> 7 \<and> length delays \<le> 5
    \<and> (outcome = Inr () \<longrightarrow> sp' = sp \<and> (\<exists>n t. n < posts \<and> sv_post sv n t = Inr ()))"
  using submit_loop_bounds [OF assms [unfolded submit_one_def]]
    submit_loop_success [of sv io sid 0 False 0 "[]" sp posts delays sp'] assms
  by (auto simp: MAX_ATTEMPTS_PER_ENTRY_def submit_one_def)

definition flaky_server :: submit_env where
  "flaky_server = \<lparr>sv_token = (\<lambda>_. Inr ''t''), sv_refresh = Inr ''u'',
     sv_post = (\<lambda>n _. if n = 0 then Inl Auth else Inr ()), sv_rng = (\<lambda>n. n)\<rparr>"

theorem submit_one_bounded_and_truthful_witness:
  "\<exists>n t. n < (2::nat) \<and> sv_post flaky_server n t = Inr ()"
proof -
  have "submit_one flaky_server (\<lambda>_ _. None) ''a'' \<lparr>spool_dir = [], quarantine_dir = []\<rparr> =
      (2, [], Inr (), \<lparr>spool_dir = [], quarantine_dir = []\<rparr>)"
    by (simp add: submit_one_def submit_loop.simps attempt_post_def flaky_server_def)
  from submit_one_bounded_and_truthful [OF this] show ?thesis by simp
qed

text \<open>
  Draining loses no entry: whatever the server answers and whichever file operation
  fails, every file queued for a snapshot id is afterwards still queued unchanged, or in
  the quarantine unchanged, or its id was acknowledged, and an acknowledgement exists only
  when the server accepted a post.
\<close>

theorem drain_loses_no_entry:
  assumes "drain_spool env dr st = (r, acks, st')"
    and "name \<in> names_of sid" and "map_of (spool_dir (dl_spool st)) name = Some f"
  shows "map_of (spool_dir (dl_spool st')) name = Some f
    \<or> map_of (quarantine_dir (dl_spool st')) name = Some f
    \<or> sid \<in> fst ` set acks \<and> server_accepted dr"
proof -
  have k: "kept (dl_spool st) name f" using assms(3) by (simp add: kept_def)
  from assms(1) show ?thesis
  proof (cases rule: drain_spool_loop)
    case 1
    then show ?thesis using assms(3) by simp
  next
    case (2 paths q st1)
    from drain_loop_keeps [OF 2(1) assms(2)] drain_loop_acks [OF 2(1)] k 2(2)
    show ?thesis by (auto simp: kept_def)
  qed
qed

definition sample_delivery_env :: delivery_env where
  "sample_delivery_env = \<lparr>payload_json = (\<lambda>_. [1]), sha256 = (\<lambda>_. [2]), entry_codec = sample_codec,
     state_encode = (\<lambda>_. [3]), state_decode = (\<lambda>_. Inl ''no''), max_spool_entries = 2,
     full_refresh_interval = 10, process_id = 7\<rparr>"

definition sample_delivery :: delivery where
  "sample_delivery = \<lparr>dl_spool = \<lparr>spool_dir = [(''snap-1.json'', \<lparr>sf_content = [7, 8], sf_modified = 5\<rparr>)],
     quarantine_dir = []\<rparr>, dl_disk = [], last_accepted = None, last_enqueued_digest = Some ''02''\<rparr>"

definition sample_drain :: drain_env where
  "sample_drain = \<lparr>dr_submit = (\<lambda>_. flaky_server\<lparr>sv_post := (\<lambda>_ _. Inr ())\<rparr>), dr_now = (\<lambda>_. 9),
     dr_plan = no_faults, dr_io = (\<lambda>_ _. None)\<rparr>"

theorem drain_loses_no_entry_witness:
  "let st' = snd (snd (drain_spool sample_delivery_env sample_drain sample_delivery)) in
     map_of (spool_dir (dl_spool st')) ''snap-1.json'' = Some \<lparr>sf_content = [7, 8], sf_modified = 5\<rparr>
   \<or> map_of (quarantine_dir (dl_spool st')) ''snap-1.json'' = Some \<lparr>sf_content = [7, 8], sf_modified = 5\<rparr>
   \<or> ''snap-1'' \<in> fst ` set (fst (snd (drain_spool sample_delivery_env sample_drain sample_delivery)))
     \<and> server_accepted sample_drain"
proof -
  obtain r acks st' where d: "drain_spool sample_delivery_env sample_drain sample_delivery = (r, acks, st')"
    by (metis prod_cases3)
  from drain_loses_no_entry [OF d, of "''snap-1.json''" "''snap-1''" "\<lparr>sf_content = [7, 8], sf_modified = 5\<rparr>"]
  have "map_of (spool_dir (dl_spool st')) ''snap-1.json'' = Some \<lparr>sf_content = [7, 8], sf_modified = 5\<rparr>
   \<or> map_of (quarantine_dir (dl_spool st')) ''snap-1.json'' = Some \<lparr>sf_content = [7, 8], sf_modified = 5\<rparr>
   \<or> ''snap-1'' \<in> fst ` set acks \<and> server_accepted sample_drain"
    by (simp add: names_of_def sample_delivery_def)
  then show ?thesis by (simp add: d)
qed

text \<open>
  A healthy server empties the queue: without I/O failures, when every queued entry
  reads back, is named for its own id and is accepted at the first post, one drain returns
  success, acknowledges the entries in queue order, leaves nothing pending, forgets the
  queued digest and remembers the newest content as accepted.
\<close>

theorem drain_delivers_everything_in_order:
  assumes "fault_free (dr_io dr)" and "pending_paths (dr_io dr) (dl_spool st) = Inr paths"
    and "\<forall>p\<in>set paths. read_entry (entry_codec env) (dr_io dr) (dl_spool st) p = Inr (snap p)
           \<and> p \<in> names_of (snapshot_id (snap p))"
    and "distinct (map (\<lambda>p. snapshot_id (snap p)) paths)"
    and "\<forall>p\<in>set paths. \<exists>tok. sv_token (dr_submit dr p) 1 = Inr tok \<and> sv_post (dr_submit dr p) 0 tok = Inr ()"
  shows "\<exists>st'. drain_spool env dr st =
      (Inr (), map (\<lambda>p. (snapshot_id (snap p), content_digest env (snap p))) paths, st')
    \<and> pending_paths (dr_io dr) (dl_spool st') = Inr []
    \<and> last_enqueued_digest st' = None
    \<and> (paths \<noteq> [] \<longrightarrow> last_accepted st' = Some \<lparr>digest = content_digest env (snap (last paths)),
          accepted_at_unix_secs = dr_now dr (last paths)\<rparr>)"
proof -
  have sp: "dl_spool st = dl_spool st\<lparr>spool_dir := without_names {} (spool_dir (dl_spool st))\<rparr>" by simp
  from drain_loop_delivers [OF assms(1,3) _ assms(5) sp, of "[]"] assms(4)
  obtain st1 where st1: "drain_loop env dr paths None [] st =
      (Inr None, map (\<lambda>p. (snapshot_id (snap p), content_digest env (snap p))) paths, st1)"
    "dl_spool st1 = dl_spool st\<lparr>spool_dir := without_names (\<Union> (names_of ` set (ids_of snap paths))) (spool_dir (dl_spool st))\<rparr>"
    "paths \<noteq> [] \<longrightarrow> last_accepted st1 = Some \<lparr>digest = content_digest env (snap (last paths)),
          accepted_at_unix_secs = dr_now dr (last paths)\<rparr>"
    by (auto simp: ids_of_def)
  have "set paths \<subseteq> \<Union> (names_of ` set (ids_of snap paths))"
    using assms(3) by (auto simp: ids_of_def)
  from pending_paths_none [OF assms(1,2) this] st1 assms(2)
  show ?thesis
    by (intro exI [of _ "st1\<lparr>last_enqueued_digest := None\<rparr>"])
       (simp add: drain_spool_def clear_enqueued_if_spool_empty_def)
qed

theorem drain_delivers_everything_in_order_witness:
  "\<exists>st'. drain_spool sample_delivery_env sample_drain sample_delivery = (Inr (), [(''snap-1'', ''02'')], st')
     \<and> last_enqueued_digest st' = None"
proof -
  have p: "pending_paths (dr_io sample_drain) (dl_spool sample_delivery) = Inr [''snap-1.json'']"
    by (simp add: pending_paths_def pending_files_def sample_drain_def sample_delivery_def
        is_spool_file_def ends_with_def starts_with_def)
  have "validate_snapshot valid_sample = Inr ()" by code_simp
  then have r: "read_entry (entry_codec sample_delivery_env) (dr_io sample_drain) (dl_spool sample_delivery)
      ''snap-1.json'' = Inr valid_sample"
    by (simp add: read_entry_def sample_delivery_env_def sample_drain_def sample_delivery_def
        sample_codec_def MAX_SNAPSHOT_BYTES_def ends_with_def starts_with_def is_zstd_magic_def)
  have id: "snapshot_id valid_sample = ''snap-1''" by (simp add: valid_sample_def sample_snapshot_def)
  have dg: "content_digest sample_delivery_env valid_sample = ''02''"
    by code_simp
  show ?thesis
    using drain_delivers_everything_in_order [OF _ p, of sample_delivery_env "\<lambda>_. valid_sample"] r id dg
    by (auto simp: sample_drain_def fault_free_def names_of_def flaky_server_def)
qed

text \<open>
  The decision to queue: a snapshot is skipped exactly when its content is already the
  last one queued, or when nothing is queued and the server accepted this very content
  recently; a change back to the accepted content while another content is queued is not
  skipped. Skipping changes nothing, queueing records the digest, and an error records none.
\<close>

theorem enqueue_skips_exactly_known_content:
  "(case enqueue_if_needed env plan io mtime now s st of (r, st') \<Rightarrow>
     (r = Inr False \<longleftrightarrow>
        last_enqueued_digest st = Some (content_digest env s)
        \<or> last_enqueued_digest st = None
          \<and> (\<exists>l. last_accepted st = Some l \<and> digest l = content_digest env s
               \<and> accepted_at_unix_secs l \<le> now
               \<and> unat now - unat (accepted_at_unix_secs l) < unat (full_refresh_interval env)))
     \<and> (r = Inr False \<longrightarrow> st' = st)
     \<and> (r = Inr True \<longrightarrow> last_enqueued_digest st' = Some (content_digest env s))
     \<and> (\<forall>e. r = Inl e \<longrightarrow> last_enqueued_digest st' = last_enqueued_digest st)
     \<and> last_accepted st' = last_accepted st)"
proof -
  have due: "due_for_submission env now dg acc \<longleftrightarrow> \<not> (\<exists>l. acc = Some l \<and> digest l = dg
      \<and> accepted_at_unix_secs l \<le> now
      \<and> unat now - unat (accepted_at_unix_secs l) < unat (full_refresh_interval env))" for dg acc
    by (auto simp: due_for_submission_def Let_def word_le_nat_alt word_less_nat_alt unat_saturating_sub not_le split: option.splits)
  show ?thesis
    by (auto simp: enqueue_if_needed_def enqueue_commit_def due Let_def split: prod.splits sum.splits)
qed

theorem enqueue_skips_exactly_known_content_witness:
  "let st = sample_delivery\<lparr>last_enqueued_digest := Some (content_digest sample_delivery_env sample_snapshot)\<rparr>
   in enqueue_if_needed sample_delivery_env no_faults (dr_io sample_drain) 1 1 sample_snapshot st = (Inr False, st)"
  using enqueue_skips_exactly_known_content [where env = sample_delivery_env and plan = no_faults
      and io = "dr_io sample_drain" and mtime = 1 and now = 1 and s = sample_snapshot
      and st = "sample_delivery\<lparr>last_enqueued_digest := Some (content_digest sample_delivery_env sample_snapshot)\<rparr>"]
  by (auto simp: Let_def split: prod.splits)

lemma sum_list_update_le:
  "sum_list (map g (AList.update k x d)) \<le> sum_list (map g d) + (g (k, x) :: nat)"
  by (induction d) auto

lemma unat_of_nat_le: "unat (of_nat n :: u64) \<le> n"
  by (simp add: unat_of_nat)

lemma pf_size_le: "unat (pf_size (pending_of nf)) \<le> length (sf_content (snd nf))"
  by (simp only: pending_of_def pending_file.select_convs unat_of_nat_le)

lemma total_size_pending: "total_size (sort_by by_modified (map pending_of v))
    \<le> sum_list (map (\<lambda>(_, f). length (sf_content f)) v)"
proof -
  have "total_size (sort_by by_modified xs) = total_size xs" for xs
    unfolding total_size_def sum_mset_sum_list [symmetric] mset_map mset_sort_by by (rule refl)
  moreover have "total_size (map pending_of v) \<le> sum_list (map (\<lambda>(_, f). length (sf_content f)) v)"
    unfolding total_size_def map_map
    by (rule sum_list_mono) (simp add: pf_size_le case_prod_unfold)
  ultimately show ?thesis by simp
qed

text \<open>
  A queued snapshot is really in the queue: when queueing reports success without I/O
  failures and every other queued file is older, the capacity limit does not drop the new
  entry, and it reads back as the snapshot that was queued.
\<close>

theorem enqueued_snapshot_survives_capacity:
  assumes "enqueue_if_needed env plan io mtime now s st = (Inr True, st')"
    and "fault_free io" and "codec_reads_back (entry_codec env) s" and "validate_snapshot s = Inr ()"
    and "length (compress (entry_codec env) (to_canonical_json (entry_codec env) s)) \<le> MAX_SNAPSHOT_BYTES"
    and "\<forall>(name, f)\<in>set (spool_dir (dl_spool st)). name \<noteq> entry_name (snapshot_id s) \<longrightarrow> sf_modified f < mtime"
    and "distinct (map fst (spool_dir (dl_spool st)))"
    and "sum_list (map (\<lambda>(_, f). length (sf_content f)) (spool_dir (dl_spool st)))
           + length (compress (entry_codec env) (to_canonical_json (entry_codec env) s)) < 2 ^ 64"
  shows "read_entry (entry_codec env) io (dl_spool st') (entry_name (snapshot_id s)) = Inr s"
proof -
  let ?n = "entry_name (snapshot_id s)" and ?c = "entry_codec env"
  let ?f = "\<lparr>sf_content = compress ?c (to_canonical_json ?c s), sf_modified = mtime\<rparr>"
  obtain states sp' lim where w: "spool_write ?c plan (process_id env) mtime s (dl_spool st) = (Inr (), states)"
    and lim: "enforce_limit io (max_spool_entries env) (last states) = (lim, sp')" and st': "dl_spool st' = sp'"
    using assms(1)
    by (auto simp: enqueue_if_needed_def enqueue_commit_def Let_def split: if_splits prod.splits sum.splits)
  define v where "v = visible is_spool_file (spool_dir (last states))"
  define v0 where "v0 = visible is_spool_file (spool_dir (dl_spool st))"
  define es where "es = sort_by by_modified (map pending_of v)"
  have v: "v = AList.update ?n ?f v0" using spool_write_shape(4) [OF w] by (simp add: v_def v0_def)
  have d0: "distinct (map fst v0)"
    using assms(7) unfolding v0_def visible_def by (simp add: distinct_map_filter)
  then have dv: "distinct (map fst v)" unfolding v by (rule dir_distinct)
  have pending: "pending_files io (last states) = Inr es"
    using assms(2) by (simp add: pending_files_eq es_def v_def)
  have "mset (map pf_name es) = mset (map fst v)"
    by (simp add: es_def multiset.map_comp comp_def)
  then have de: "distinct (map pf_name es)" using dv by (metis mset_eq_imp_distinct_iff)
  have "sum_list (map (\<lambda>(_, f). length (sf_content f)) v)
      \<le> sum_list (map (\<lambda>(_, f). length (sf_content f)) v0) + length (sf_content ?f)"
    unfolding v by (rule order.trans [OF sum_list_update_le]) simp
  also have "sum_list (map (\<lambda>(_, f). length (sf_content f)) v0)
      \<le> sum_list (map (\<lambda>(_, f). length (sf_content f)) (spool_dir (dl_spool st)))"
    unfolding v0_def visible_def by (rule sum_list_filter_le_nat)
  finally have total: "total_size es < 2 ^ 64"
    using total_size_pending [of v] assms(8) by (simp add: es_def)
  have older: "by_modified (pending_of (?n, ?f)) e = Greater"
    if "e \<in> set (map pending_of v)" "e \<noteq> pending_of (?n, ?f)" for e
  proof -
    from that(1) obtain x where "x \<in> set v" "e = pending_of x" by auto
    then obtain name f where nf: "(name, f) \<in> set v" "e = pending_of (name, f)" by (metis surj_pair)
    then have m: "map_of v name = Some f" using dv by simp
    with nf(2) that(2) have ne: "name \<noteq> ?n" by (auto simp: v)
    then have "map_of v0 name = Some f" using m by (simp add: v)
    then have "(name, f) \<in> set (spool_dir (dl_spool st))"
      by (auto simp: v0_def visible_def dest: map_of_SomeD)
    with assms(6) ne nf(2) show ?thesis by (auto simp: by_modified_def pending_of_def)
  qed
  have "map_of v ?n = Some ?f" by (simp add: v)
  then have mem: "pending_of (?n, ?f) \<in> set (map pending_of v)" by (auto dest: map_of_SomeD)
  then have ne: "es \<noteq> []" and last: "last es = pending_of (?n, ?f)"
    using modified_cmp.last_sort_by_greatest [OF mem] older
    by (auto simp: es_def simp flip: length_greater_0_conv)
  from enforce_limit_dir [OF assms(2) pending total, of "max_spool_entries env"] lim ne
  obtain k where k: "sp' = last states\<lparr>spool_dir := without_names (pf_name ` set (take k es)) (spool_dir (last states))\<rparr>"
    "k < length es" by auto
  have "pending_of (?n, ?f) \<in> set (drop k es)"
    using last k(2) ne by (metis last_drop last_in_set drop_eq_Nil2 not_le)
  then have "pending_of (?n, ?f) \<in> set (filter (\<lambda>e. pf_name e \<notin> pf_name ` set (take k es)) es)"
    using filter_names_drop [OF de, of k] by simp
  then have "?n \<notin> pf_name ` set (take k es)" by simp
  then have "map_of (spool_dir sp') ?n = Some ?f" using spool_write_lookup [OF w] by (simp add: k(1))
  moreover have "length (to_canonical_json ?c s) \<le> MAX_SNAPSHOT_BYTES"
    using w by (auto simp: spool_write_def Let_def split: if_splits)
  ultimately show ?thesis
    unfolding st' using assms(2-5) by (intro read_written_entry) simp_all
qed

theorem enqueued_snapshot_survives_capacity_witness:
  "read_entry sample_codec (\<lambda>_ _. None)
     (dl_spool (snd (enqueue_if_needed sample_delivery_env no_faults (\<lambda>_ _. None) 5 0 valid_sample
        (sample_delivery\<lparr>dl_spool := \<lparr>spool_dir = [], quarantine_dir = []\<rparr>, last_enqueued_digest := None\<rparr>))))
     (entry_name ''snap-1'') = Inr valid_sample"
proof -
  let ?st = "sample_delivery\<lparr>dl_spool := \<lparr>spool_dir = [], quarantine_dir = []\<rparr>, last_enqueued_digest := None\<rparr>"
  let ?q = "enqueue_if_needed sample_delivery_env no_faults (\<lambda>_ _. None) 5 0 valid_sample ?st"
  have "fst ?q = Inr True"
    using sample_write
    by (simp add: enqueue_if_needed_def enqueue_commit_def due_for_submission_def sample_delivery_def
        sample_delivery_env_def Let_def split: prod.splits)
  then have q: "?q = (Inr True, snd ?q)" by (metis prod.collapse)
  have valid: "validate_snapshot valid_sample = Inr ()" by code_simp
  have rb: "codec_reads_back (entry_codec sample_delivery_env) valid_sample"
    by (simp add: codec_reads_back_def sample_codec_def sample_delivery_env_def)
  have id: "snapshot_id valid_sample = ''snap-1''" by (simp add: valid_sample_def sample_snapshot_def)
  have "read_entry (entry_codec sample_delivery_env) (\<lambda>_ _. None) (dl_spool (snd ?q))
      (entry_name (snapshot_id valid_sample)) = Inr valid_sample"
    by (rule enqueued_snapshot_survives_capacity [OF q _ rb valid])
       (simp_all add: sample_delivery_env_def sample_codec_def MAX_SNAPSHOT_BYTES_def
         sample_delivery_def fault_free_def)
  then show ?thesis by (simp add: sample_delivery_env_def id)
qed

end
