(* ===== verification/Delivery_Tasks.thy ===== *)
theory Delivery_Tasks
  imports Delivery
begin

text \<open>
  The delivery client under the two tasks that share it, \<open>src/delivery/mod.rs\<close>: the inventory
  cycle calls \<open>enqueue_if_needed\<close> while the worker is inside \<open>drain_spool\<close>. Both tasks are
  branches of one \<open>select!\<close>, so they interleave at their awaits: the worker while it submits
  an entry and while it takes the locks of the accepted state and of the queued digest, the
  cycle between its check and the lock of the queued digest. The worker's drain is cut at
  these points into turns; an uninterrupted sequence of turns is \<open>drain_spool\<close>.
\<close>

section \<open>The worker's turns\<close>

text \<open>
  Where the worker is: between two drains, with the result of the last one; in front of the
  remaining paths, with the first quarantine message; submitting a decoded entry; or about
  to remember an accepted state that is already stored.
\<close>

datatype worker =
    Resting "string + unit"
  | AtEntry "string list" "string option"
  | Sending inventory_snapshot "string list" "string option"
  | Recording accepted_state "string list" "string option"

text \<open>The environment of one turn: file errors, the submission, and at acceptance the clock and the store.\<close>

record turn_env =
  tn_io :: name_faults
  tn_submit :: submit_env
  tn_now :: u64
  tn_plan :: fault_plan

definition begin_drain :: "turn_env \<Rightarrow> delivery \<Rightarrow> worker" where
  "begin_drain tn st =
     (case pending_paths (tn_io tn) (dl_spool st) of
        Inl e \<Rightarrow> Resting (Inl (''failed to read spool: '' @ spool_error_display e))
      | Inr paths \<Rightarrow> AtEntry paths None)"

definition end_drain :: "turn_env \<Rightarrow> string option \<Rightarrow> delivery \<Rightarrow> worker \<times> delivery" where
  "end_drain tn first_quarantined st =
     (case clear_enqueued_if_spool_empty (tn_io tn) st of
        (Inl e, st') \<Rightarrow> (Resting (Inl e), st')
      | (Inr _, st') \<Rightarrow>
          (Resting (case first_quarantined of Some error \<Rightarrow> Inl error | None \<Rightarrow> Inr ()), st'))"

definition next_entry ::
  "delivery_env \<Rightarrow> turn_env \<Rightarrow> string \<Rightarrow> string list \<Rightarrow> string option \<Rightarrow> delivery \<Rightarrow> worker \<times> delivery" where
  "next_entry env tn path paths first_quarantined st =
     (case read_pending (entry_codec env) (tn_io tn) path (dl_spool st) of
        (Inl e, sp) \<Rightarrow>
          (Resting (Inl (''failed to read spool entry: '' @ spool_error_display e)), st\<lparr>dl_spool := sp\<rparr>)
      | (Inr None, sp) \<Rightarrow> (AtEntry paths first_quarantined, st\<lparr>dl_spool := sp\<rparr>)
      | (Inr (Some s), sp) \<Rightarrow> (Sending s paths first_quarantined, st\<lparr>dl_spool := sp\<rparr>))"

text \<open>
  The end of a submission, up to the lock of the accepted state. The acknowledgements are
  the ids and digests that the server accepted.
\<close>

definition end_submission ::
  "delivery_env \<Rightarrow> turn_env \<Rightarrow> inventory_snapshot \<Rightarrow> string list \<Rightarrow> string option \<Rightarrow> delivery
   \<Rightarrow> worker \<times> (string \<times> string) list \<times> delivery" where
  "end_submission env tn s paths first_quarantined st =
     (case submit_one (tn_submit tn) (tn_io tn) (snapshot_id s) (dl_spool st) of
        (_, _, Inr _, sp) \<Rightarrow>
          (let ack = (snapshot_id s, content_digest env s);
               accepted = \<lparr>digest = content_digest env s, accepted_at_unix_secs = tn_now tn\<rparr>
           in case spool_remove (tn_io tn) (snapshot_id s) sp of
             (Inl e, sp') \<Rightarrow>
               (Resting (Inl (''snapshot '' @ snapshot_id s
                  @ '' was accepted but could not be removed from spool: '' @ spool_error_display e)),
                [ack], st\<lparr>dl_spool := sp'\<rparr>)
           | (Inr _, sp') \<Rightarrow>
               (case store_state (state_encode env) (tn_plan tn) (process_id env) accepted (dl_disk st) of
                  (_, states) \<Rightarrow> (Recording accepted paths first_quarantined, [ack],
                     st\<lparr>dl_spool := sp', dl_disk := last states\<rparr>)))
      | (_, _, Inl (Quarantined error), sp) \<Rightarrow>
          (AtEntry paths (if first_quarantined = None then Some error else first_quarantined), [],
           st\<lparr>dl_spool := sp\<rparr>)
      | (_, _, Inl (Blocking error), sp) \<Rightarrow> (Resting (Inl error), [], st\<lparr>dl_spool := sp\<rparr>))"

fun worker_turn ::
  "delivery_env \<Rightarrow> turn_env \<Rightarrow> worker \<Rightarrow> delivery \<Rightarrow> worker \<times> (string \<times> string) list \<times> delivery" where
  "worker_turn env tn (Resting r) st = (begin_drain tn st, [], st)"
| "worker_turn env tn (AtEntry [] fq) st = (case end_drain tn fq st of (w, st') \<Rightarrow> (w, [], st'))"
| "worker_turn env tn (AtEntry (path # paths) fq) st =
     (case next_entry env tn path paths fq st of (w, st') \<Rightarrow> (w, [], st'))"
| "worker_turn env tn (Sending s paths fq) st = end_submission env tn s paths fq st"
| "worker_turn env tn (Recording accepted paths fq) st =
     (AtEntry paths fq, [], st\<lparr>last_accepted := Some accepted\<rparr>)"

section \<open>Turns without interruption are a drain\<close>

text \<open>The environment that \<open>drain_spool\<close> has at the same point; the entry in flight is a parameter.\<close>

definition turn_of :: "drain_env \<Rightarrow> string \<Rightarrow> turn_env" where
  "turn_of dr path = \<lparr>tn_io = dr_io dr, tn_submit = dr_submit dr path, tn_now = dr_now dr path, tn_plan = dr_plan dr\<rparr>"

lemma turn_of_simps [simp]:
  "tn_io (turn_of dr path) = dr_io dr" "tn_submit (turn_of dr path) = dr_submit dr path"
  "tn_now (turn_of dr path) = dr_now dr path" "tn_plan (turn_of dr path) = dr_plan dr"
  by (simp_all add: turn_of_def)

inductive undisturbed_turns ::
  "delivery_env \<Rightarrow> drain_env \<Rightarrow> worker \<Rightarrow> delivery \<Rightarrow> (string \<times> string) list \<Rightarrow> worker \<Rightarrow> delivery \<Rightarrow> bool"
  for env dr where
  turns_none: "undisturbed_turns env dr w st [] w st"
| turns_more: "worker_turn env (turn_of dr path) w st = (w1, acks1, st1) \<Longrightarrow>
         undisturbed_turns env dr w1 st1 acks w' st' \<Longrightarrow> undisturbed_turns env dr w st (acks1 @ acks) w' st'"

text \<open>
  From a state of the worker, turns lead to the outcome of the loop: an early error, or the
  end of the paths; \<open>acks0\<close> are the acknowledgements before.
\<close>

definition leads_to ::
  "delivery_env \<Rightarrow> drain_env \<Rightarrow> worker \<Rightarrow> delivery \<Rightarrow> (string \<times> string) list
   \<Rightarrow> (string + string option) \<times> (string \<times> string) list \<times> delivery \<Rightarrow> bool" where
  "leads_to env dr w st acks0 out \<longleftrightarrow> (\<exists>acks w' st'. undisturbed_turns env dr w st acks w' st'
     \<and> out = (case w' of Resting (Inl e) \<Rightarrow> Inl e | AtEntry [] fq \<Rightarrow> Inr fq | _ \<Rightarrow> fst out, acks0 @ acks, st')
     \<and> ((\<exists>e. w' = Resting (Inl e)) \<or> (\<exists>fq. w' = AtEntry [] fq)))"

lemma leads_now:
  "leads_to env dr (Resting (Inl e)) st acks0 (Inl e, acks0, st)"
  "leads_to env dr (AtEntry [] fq) st acks0 (Inr fq, acks0, st)"
  unfolding leads_to_def using turns_none by fastforce+

lemma leads_turn:
  assumes "worker_turn env (turn_of dr path) w st = (w1, acks1, st1)" and "leads_to env dr w1 st1 (acks0 @ acks1) out"
  shows "leads_to env dr w st acks0 out"
  using assms(2) turns_more [OF assms(1)] unfolding leads_to_def by fastforce

lemmas leads_silent = leads_turn [where ?acks1.0 = "[]", unfolded append_Nil2]

lemma submission_leads:
  assumes "\<And>fq acks st. leads_to env dr (AtEntry paths fq) st acks (drain_loop env dr paths fq acks st)"
    and "read_pending (entry_codec env) (dr_io dr) path (dl_spool st) = (Inr (Some s), sp)"
  shows "leads_to env dr (Sending s paths fq) (st\<lparr>dl_spool := sp\<rparr>) acks0 (drain_loop env dr (path # paths) fq acks0 st)"
proof -
  obtain p ds res sp1 where sub: "submit_one (dr_submit dr path) (dr_io dr) (snapshot_id s) sp = (p, ds, res, sp1)"
    by (metis prod_cases4)
  obtain rr sp2 where rem: "spool_remove (dr_io dr) (snapshot_id s) sp1 = (rr, sp2)" by force
  obtain sr states where store: "store_state (state_encode env) (dr_plan dr) (process_id env)
      \<lparr>digest = content_digest env s, accepted_at_unix_secs = dr_now dr path\<rparr> (dl_disk st) = (sr, states)" by force
  note sending = leads_turn [of env dr path "Sending s paths fq"]
  consider (blocking) e where "res = Inl (Blocking e)" | (quarantined) e where "res = Inl (Quarantined e)"
    | (stuck) e where "res = Inr ()" "rr = Inl e" | (accepted) "res = Inr ()" "rr = Inr ()"
    by (cases res; cases "projl res"; cases rr) auto
  then show ?thesis
  proof cases
    case accepted
    let ?a = "\<lparr>digest = content_digest env s, accepted_at_unix_secs = dr_now dr path\<rparr>"
      and ?acks = "acks0 @ [(snapshot_id s, content_digest env s)]"
      and ?st1 = "st\<lparr>dl_spool := sp2, dl_disk := last states\<rparr>"
    have eq: "drain_loop env dr (path # paths) fq acks0 st = drain_loop env dr paths fq ?acks (?st1\<lparr>last_accepted := Some ?a\<rparr>)"
      by (simp add: assms(2) sub rem accepted store record_accepted_def Let_def)
    have "leads_to env dr (Recording ?a paths fq) ?st1 ?acks (drain_loop env dr paths fq ?acks (?st1\<lparr>last_accepted := Some ?a\<rparr>))"
      by (rule leads_silent [OF _ assms(1)]) simp
    then show ?thesis
      unfolding eq by (rule sending [rotated]) (simp add: end_submission_def sub rem store accepted Let_def)
  next
    case quarantined
    show ?thesis
      by (rule sending, simp add: end_submission_def sub quarantined)
         (simp add: assms(1) assms(2) sub quarantined del: if_split)
  next
    case blocking
    show ?thesis
      by (rule sending, simp add: end_submission_def sub blocking) (simp add: assms(2) sub blocking leads_now)
  next
    case stuck
    show ?thesis
      by (rule sending, simp add: end_submission_def sub rem stuck Let_def)
         (simp add: assms(2) sub rem stuck Let_def leads_now)
  qed
qed

lemma loop_leads: "leads_to env dr (AtEntry paths fq) st acks0 (drain_loop env dr paths fq acks0 st)"
proof (induction paths arbitrary: fq acks0 st)
  case Nil
  show ?case by (simp add: leads_now)
next
  case (Cons path paths)
  obtain r sp where rp: "read_pending (entry_codec env) (dr_io dr) path (dl_spool st) = (r, sp)" by force
  note turn = leads_silent [of env dr path "AtEntry (path # paths) fq" st]
  consider (err) e where "r = Inl e" | (gone) "r = Inr None" | (entry) s where "r = Inr (Some s)"
    by (cases r; cases "projr r") auto
  then show ?case
  proof cases
    case entry
    show ?thesis
      by (rule turn, simp add: next_entry_def rp entry)
         (use submission_leads [of env dr paths path st s sp, OF Cons.IH] rp entry in simp)
  qed (rule turn, simp add: next_entry_def rp, simp add: rp leads_now Cons.IH)+
qed

lemma turns_then_turn:
  "undisturbed_turns env dr w st acks w1 st1 \<Longrightarrow> worker_turn env (turn_of dr path) w1 st1 = (w2, [], st2) \<Longrightarrow>
   undisturbed_turns env dr w st acks w2 st2"
proof (induction rule: undisturbed_turns.induct)
  case (turns_none w st)
  then show ?case using turns_more undisturbed_turns.turns_none by fastforce
qed (blast intro: turns_more)

text \<open>One call of \<open>drain_spool\<close> is what the turns of an undisturbed worker do, up to its result.\<close>

lemma drain_is_turns:
  assumes "drain_spool env dr st = (r, acks, st')"
  shows "undisturbed_turns env dr (Resting r0) st acks (Resting r) st'"
proof (cases "pending_paths (dr_io dr) (dl_spool st)")
  case (Inl e)
  then have "worker_turn env (turn_of dr []) (Resting r0) st = (Resting r, [], st')" and "acks = []"
    using assms by (auto simp: begin_drain_def drain_spool_def)
  then show ?thesis using turns_then_turn [OF turns_none] by blast
next
  case (Inr paths)
  have first: "worker_turn env (turn_of dr []) (Resting r0) st = (AtEntry paths None, [], st)"
    using Inr by (simp add: begin_drain_def)
  have "undisturbed_turns env dr (AtEntry paths None) st acks (Resting r) st'"
  proof (cases "drain_loop env dr paths None [] st")
    case (fields out all st1)
    with loop_leads [of env dr paths None st "[]"] obtain w' where t: "undisturbed_turns env dr (AtEntry paths None) st all w' st1"
      and w': "case out of Inl e \<Rightarrow> w' = Resting (Inl e) | Inr fq \<Rightarrow> w' = AtEntry [] fq"
      unfolding leads_to_def by (auto split: sum.splits)
    show ?thesis
    proof (cases out)
      case (Inl e)
      then show ?thesis using t w' assms Inr fields by (simp add: drain_spool_def Inr)
    next
      case o: (Inr fq)
      have "worker_turn env (turn_of dr []) (AtEntry [] fq) st1 = (Resting r, [], st')" and "acks = all"
        using assms o by (auto simp: drain_spool_def \<open>pending_paths (dr_io dr) (dl_spool st) = Inr paths\<close> fields end_drain_def
            split: sum.splits prod.splits option.splits)
      then show ?thesis using turns_then_turn [OF t] w' o by simp
    qed
  qed
  then show ?thesis using turns_more [OF first] by fastforce
qed

section \<open>The two tasks\<close>

text \<open>
  The client, the worker, and the cycle's call of \<open>enqueue_if_needed\<close> between its check and
  the lock of the queued digest: the snapshot and whether it was found due. The histories
  are what the server acknowledged, the files that the capacity limit dropped, and the
  snapshots that the cycle offered.
\<close>

record pipeline =
  pl_client :: delivery
  pl_worker :: worker
  pl_offer :: "(inventory_snapshot \<times> bool) option"
  pl_acked :: "(string \<times> string) list"
  pl_dropped :: "string list"
  pl_offered :: "inventory_snapshot list"

definition written_states :: "delivery_env \<Rightarrow> fault_plan \<Rightarrow> nat \<Rightarrow> inventory_snapshot \<Rightarrow> delivery \<Rightarrow> spool list" where
  "written_states env plan mtime s st = snd (spool_write (entry_codec env) plan (process_id env) mtime s (dl_spool st))"

text \<open>The files that are there after the write and gone at the end of the call.\<close>

definition dropped_names :: "delivery_env \<Rightarrow> fault_plan \<Rightarrow> nat \<Rightarrow> inventory_snapshot \<Rightarrow> delivery \<Rightarrow> delivery \<Rightarrow> string list" where
  "dropped_names env plan mtime s st st' =
     filter (\<lambda>name. map_of (spool_dir (dl_spool st')) name = None)
       (map fst (spool_dir (last (written_states env plan mtime s st))))"

definition after_turn :: "worker \<Rightarrow> (string \<times> string) list \<Rightarrow> delivery \<Rightarrow> pipeline \<Rightarrow> pipeline" where
  "after_turn w acks st p = p\<lparr>pl_client := st, pl_worker := w, pl_acked := pl_acked p @ acks\<rparr>"

definition after_check :: "delivery_env \<Rightarrow> u64 \<Rightarrow> inventory_snapshot \<Rightarrow> pipeline \<Rightarrow> pipeline" where
  "after_check env now s p =
     p\<lparr>pl_offer := Some (s, due_for_submission env now (content_digest env s) (last_accepted (pl_client p))),
       pl_offered := pl_offered p @ [s]\<rparr>"

definition after_commit ::
  "delivery_env \<Rightarrow> fault_plan \<Rightarrow> name_faults \<Rightarrow> nat \<Rightarrow> inventory_snapshot \<Rightarrow> bool \<Rightarrow> pipeline \<Rightarrow> pipeline" where
  "after_commit env plan io mtime s due p =
     (case enqueue_commit env plan io mtime due s (pl_client p) of
        (r, st) \<Rightarrow> p\<lparr>pl_offer := None, pl_client := st,
          pl_dropped := pl_dropped p @ (if r = Inr True then dropped_names env plan mtime s (pl_client p) st else [])\<rparr>)"

text \<open>
  A crash at any point: the spool is left as it is, or in any state of a write that was
  under way; the state file may hold anything. The restarted process builds a new client.
\<close>

definition after_crash :: "delivery_env \<Rightarrow> fault_plan \<Rightarrow> name_faults \<Rightarrow> spool \<Rightarrow> u8 list dir \<Rightarrow> pipeline \<Rightarrow> pipeline" where
  "after_crash env plan io sp disk p =
     p\<lparr>pl_client := delivery_new env plan io sp disk, pl_worker := Resting (Inr ()), pl_offer := None\<rparr>"

inductive pipeline_step :: "delivery_env \<Rightarrow> pipeline \<Rightarrow> pipeline \<Rightarrow> bool" for env where
  step_turn: "worker_turn env tn (pl_worker p) (pl_client p) = (w, acks, st) \<Longrightarrow>
         pipeline_step env p (after_turn w acks st p)"
| step_check: "pl_offer p = None \<Longrightarrow> pipeline_step env p (after_check env now s p)"
| step_commit: "pl_offer p = Some (s, due) \<Longrightarrow> pipeline_step env p (after_commit env plan io mtime s due p)"
| step_crash: "pipeline_step env p (after_crash env plan io (dl_spool (pl_client p)) disk p)"
| step_crash_writing: "pl_offer p = Some (s, due) \<Longrightarrow> sp \<in> set (written_states env wplan mtime s (pl_client p)) \<Longrightarrow>
         pipeline_step env p (after_crash env plan io sp disk p)"

inductive pipeline_runs :: "delivery_env \<Rightarrow> pipeline \<Rightarrow> pipeline \<Rightarrow> bool" for env where
  runs_here: "pipeline_runs env p p"
| runs_step: "pipeline_runs env p q \<Longrightarrow> pipeline_step env q r \<Longrightarrow> pipeline_runs env p r"

section \<open>No entry is lost\<close>

text \<open>
  What is known later of a file that was queued for a snapshot id, by what the histories
  have got since; the snapshot whose enqueueing is under way was offered since.
\<close>

definition accounted :: "string \<Rightarrow> string \<Rightarrow> spool_file \<Rightarrow> pipeline \<Rightarrow> pipeline \<Rightarrow> bool" where
  "accounted sid name f p q \<longleftrightarrow> (\<exists>acks drops offers.
     pl_acked q = pl_acked p @ acks \<and> pl_dropped q = pl_dropped p @ drops \<and> pl_offered q = pl_offered p @ offers
     \<and> (kept (dl_spool (pl_client q)) name f \<or> sid \<in> fst ` set acks \<or> name \<in> set drops
        \<or> sid \<in> snapshot_id ` set offers)
     \<and> (\<forall>s due. pl_offer q = Some (s, due) \<longrightarrow> s \<in> set offers))"

lemma accountedI:
  assumes "pl_acked q = pl_acked p @ acks" "pl_dropped q = pl_dropped p @ drops" "pl_offered q = pl_offered p @ offers"
    and "kept (dl_spool (pl_client q)) name f \<or> sid \<in> fst ` set acks \<or> name \<in> set drops \<or> sid \<in> snapshot_id ` set offers"
    and "\<And>s due. pl_offer q = Some (s, due) \<Longrightarrow> s \<in> set offers"
  shows "accounted sid name f p q"
  using assms unfolding accounted_def by blast

lemma kept_readD: "read_pending c io n sp = (r, sp') \<Longrightarrow> kept sp name f \<Longrightarrow> kept sp' name f"
  using kept_read_pending [of sp name f c io n] by simp

lemma worker_keeps:
  assumes "worker_turn env tn w st = (w', acks, st')" and "name \<in> names_of sid" and "kept (dl_spool st) name f"
  shows "kept (dl_spool st') name f \<or> sid \<in> fst ` set acks"
proof (cases "(env, tn, w, st)" rule: worker_turn.cases)
  case (4 _ _ s paths fq)
  obtain p ds res sp where sub: "submit_one (tn_submit tn) (tn_io tn) (snapshot_id s) (dl_spool st) = (p, ds, res, sp)"
    by (metis prod_cases4)
  have k: "kept sp name f" using kept_submit_one [OF assms(3) sub] .
  have "kept (snd (spool_remove (tn_io tn) (snapshot_id s) sp)) name f \<or> sid = snapshot_id s"
    using kept_remove [OF k] names_of_inj [OF assms(2)] by blast
  with 4 assms(1) sub k show ?thesis
    by (cases res) (auto simp: end_submission_def Let_def split: sum.splits prod.splits submit_failure.splits)
qed (use assms in \<open>auto intro: kept_readD simp: begin_drain_def end_drain_def next_entry_def clear_enqueued_if_spool_empty_def
       split: sum.splits prod.splits option.splits if_splits\<close>)

lemma first_pending_keeps:
  "kept sp name f \<Longrightarrow> kept (snd (first_pending_digest env io paths sp)) name f"
proof (induction env io paths sp rule: first_pending_digest.induct)
  case (2 env io path paths sp)
  then show ?case using kept_read_pending [OF 2(3), of "entry_codec env" io path]
    by (auto split: prod.splits sum.splits option.splits)
qed simp

lemma delivery_new_keeps:
  "kept sp name f \<Longrightarrow> kept (dl_spool (delivery_new env plan io sp disk)) name f"
  using first_pending_keeps [of sp name f env io "rev paths" for paths]
  by (auto simp: delivery_new_def newest_pending_digest_def split: prod.splits sum.splits) (metis snd_conv)

lemma write_keeps:
  assumes "sp \<in> set (written_states env plan mtime s st)" and "name \<in> names_of sid" and "is_spool_file name"
    and "kept (dl_spool st) name f"
  shows "kept sp name f \<or> snapshot_id s = sid"
proof -
  let ?n = "entry_name (snapshot_id s)"
  obtain r where w: "spool_write (entry_codec env) plan (process_id env) mtime s (dl_spool st)
      = (r, written_states env plan mtime s st)"
    unfolding written_states_def by (metis prod.collapse)
  have "map_of (spool_dir sp) name = map_of (spool_dir (dl_spool st)) name" if "name \<noteq> ?n"
    using spool_write_shape(3) [OF w assms(1)] that
    by (metis assms(3) map_of_visible insertE singletonD dir_update)
  moreover have "name = ?n \<Longrightarrow> snapshot_id s = sid"
    using names_of_inj [OF assms(2), of "snapshot_id s"] by (simp add: names_of_def)
  ultimately show ?thesis
    using assms(4) spool_write_shape(2) [OF w assms(1)] unfolding kept_def by metis
qed

text \<open>Eviction only removes files.\<close>

definition removes_only :: "spool \<Rightarrow> spool \<Rightarrow> bool" where
  "removes_only sp sp' \<longleftrightarrow> quarantine_dir sp' = quarantine_dir sp
     \<and> (\<forall>name. map_of (spool_dir sp') name \<in> {map_of (spool_dir sp) name, None})"

lemma removes_only_delete: "removes_only sp (sp\<lparr>spool_dir := AList.delete name (spool_dir sp)\<rparr>)"
  by (simp add: removes_only_def)

lemma removes_only_trans: "removes_only a b \<Longrightarrow> removes_only b c \<Longrightarrow> removes_only a c"
  unfolding removes_only_def by (metis insert_iff singletonD)

lemma evict_removes: "removes_only sp (snd (evict_loop io m es n tot ev sp))"
proof (induction io m es n tot ev sp rule: evict_loop.induct)
  case (2 io m e es n tot ev sp)
  note del = removes_only_delete [of sp "pf_name e"]
  show ?case
    using 2 del removes_only_trans [OF del] by (auto simp: removes_only_def [of sp sp] Let_def split: option.splits)
qed (simp add: removes_only_def)

lemma enforce_removes: "removes_only sp (snd (enforce_limit io n sp))"
  using evict_removes by (auto simp: enforce_limit_def split: sum.splits) (simp_all add: removes_only_def)

lemma removes_kept:
  assumes "removes_only a b" and "kept a name f"
  shows "kept b name f \<or> name \<in> set (filter (\<lambda>n. map_of (spool_dir b) n = None) (map fst (spool_dir a)))"
proof (cases "map_of (spool_dir a) name")
  case None
  with assms show ?thesis unfolding removes_only_def kept_def by (metis insert_iff singletonD option.distinct(1))
next
  case (Some g)
  then have "name \<in> set (map fst (spool_dir a))" by (force dest: map_of_SomeD)
  moreover have "g = f" using assms(2) Some by (simp add: kept_def)
  moreover have "map_of (spool_dir b) name \<in> {Some g, None}" using assms(1) Some unfolding removes_only_def by metis
  ultimately show ?thesis unfolding kept_def by auto
qed

lemma commit_keeps:
  assumes "enqueue_commit env plan io mtime due s st = (r, st')" and "name \<in> names_of sid" and "is_spool_file name"
    and "kept (dl_spool st) name f"
  shows "kept (dl_spool st') name f \<or> snapshot_id s = sid \<or> r = Inr True \<and> name \<in> set (dropped_names env plan mtime s st st')"
proof -
  obtain q states where w: "spool_write (entry_codec env) plan (process_id env) mtime s (dl_spool st) = (q, states)" by force
  then have st: "written_states env plan mtime s st = states" by (simp add: written_states_def)
  have "last states \<in> set states" using spool_write_shape(1) [OF w] by simp
  then have k: "kept (last states) name f \<or> snapshot_id s = sid"
    using write_keeps [OF _ assms(2-4), of "last states"] st by blast
  have "kept (dl_spool st') name f \<or> snapshot_id s = sid \<or> name \<in> set (dropped_names env plan mtime s st st')"
    if "dl_spool st' = snd (enforce_limit io (max_spool_entries env) (last states))"
    using k removes_kept [OF enforce_removes, of "last states" name f io "max_spool_entries env"] that
    unfolding dropped_names_def st by auto
  then show ?thesis
    using assms(1,4) k w
    by (auto simp: enqueue_commit_def Let_def split: if_splits sum.splits prod.splits)
qed

lemma step_accounted:
  assumes "pipeline_step env q r" and "name \<in> names_of sid" and "is_spool_file name" and "accounted sid name f p q"
  shows "accounted sid name f p r"
proof -
  obtain acks drops offers where h: "pl_acked q = pl_acked p @ acks" "pl_dropped q = pl_dropped p @ drops"
      "pl_offered q = pl_offered p @ offers"
    and k: "kept (dl_spool (pl_client q)) name f \<or> sid \<in> fst ` set acks \<or> name \<in> set drops
        \<or> sid \<in> snapshot_id ` set offers"
    and o: "\<And>s due. pl_offer q = Some (s, due) \<Longrightarrow> s \<in> set offers"
    using assms(4) unfolding accounted_def by blast
  from assms(1) show ?thesis
  proof cases
    case (step_turn tn w new_acks st)
    show ?thesis
      by (rule accountedI [where acks = "acks @ new_acks" and drops = drops and offers = offers])
         (use step_turn(1) h k o worker_keeps [OF step_turn(2) assms(2), of f] in \<open>auto simp: after_turn_def image_Un\<close>)
  next
    case (step_check now s)
    show ?thesis
      by (rule accountedI [where acks = acks and drops = drops and offers = "offers @ [s]"]) (use step_check h k in \<open>auto simp: after_check_def\<close>)
  next
    case (step_commit s due plan io mtime)
    obtain x st where c: "enqueue_commit env plan io mtime due s (pl_client q) = (x, st)" by force
    show ?thesis
      by (rule accountedI [where acks = acks and offers = offers and
            drops = "drops @ (if x = Inr True then dropped_names env plan mtime s (pl_client q) st else [])"])
         (use step_commit c h k o commit_keeps [OF c assms(2,3), of f] in \<open>auto simp: after_commit_def\<close>)
  next
    case (step_crash plan io disk)
    show ?thesis
      by (rule accountedI [where acks = acks and drops = drops and offers = offers])
         (use step_crash h k delivery_new_keeps in \<open>auto simp: after_crash_def\<close>)
  next
    case (step_crash_writing s due sp wplan mtime plan io disk)
    show ?thesis
      by (rule accountedI [where acks = acks and drops = drops and offers = offers])
         (use step_crash_writing h k o delivery_new_keeps write_keeps [OF step_crash_writing(3) assms(2,3), of f] in
           \<open>auto simp: after_crash_def\<close>)
  qed
qed

lemma runs_accounted:
  assumes "pipeline_runs env p q" and "name \<in> names_of sid" and "is_spool_file name"
    and "pl_offer p = None" and "kept (dl_spool (pl_client p)) name f"
  shows "accounted sid name f p q"
  using assms(1,4,5)
proof (induction rule: pipeline_runs.induct)
  case (runs_here p)
  then show ?case by (intro accountedI [where acks = "[]" and drops = "[]" and offers = "[]"]) simp_all
next
  case (runs_step p q r)
  then show ?case using step_accounted assms(2,3) by blast
qed

section \<open>Property\<close>

text \<open>
  C19. Delivery loses no entry, however the two tasks interleave, whichever file operations
  fail, and wherever the process is killed and restarted: a file that is queued for a snapshot
  id is at any later moment still queued unchanged, or in the quarantine unchanged, or its id
  was acknowledged by the server since, or the capacity limit dropped it in favour of a newer
  snapshot, or the agent itself offered a snapshot under that id again.
\<close>

theorem queued_entry_accounted_for:
  assumes "pipeline_runs env p q" and "pl_offer p = None"
    and "name \<in> names_of sid" and "is_spool_file name" and "map_of (spool_dir (dl_spool (pl_client p))) name = Some f"
  shows "\<exists>acks drops offers. pl_acked q = pl_acked p @ acks \<and> pl_dropped q = pl_dropped p @ drops
     \<and> pl_offered q = pl_offered p @ offers
     \<and> (map_of (spool_dir (dl_spool (pl_client q))) name = Some f
        \<or> map_of (quarantine_dir (dl_spool (pl_client q))) name = Some f
        \<or> sid \<in> fst ` set acks \<or> name \<in> set drops \<or> sid \<in> snapshot_id ` set offers)"
proof -
  have "kept (dl_spool (pl_client p)) name f" using assms(5) by (simp add: kept_def)
  from runs_accounted [OF assms(1,3,4,2) this] show ?thesis unfolding accounted_def kept_def by blast
qed

definition sample_pipeline :: pipeline where
  "sample_pipeline = \<lparr>pl_client = sample_delivery, pl_worker = Resting (Inr ()), pl_offer = None,
     pl_acked = [], pl_dropped = [], pl_offered = []\<rparr>"

definition sample_turns :: "worker \<times> (string \<times> string) list \<times> delivery" where
  "sample_turns = (case worker_turn sample_delivery_env (turn_of sample_drain []) (Resting (Inr ())) sample_delivery of
     (w, _, st) \<Rightarrow> worker_turn sample_delivery_env (turn_of sample_drain []) w st)"

text \<open>The drain begins and takes the only entry; the process is killed while it is sent.\<close>

definition sample_interrupted :: pipeline where
  "sample_interrupted = (case sample_turns of (w, acks, st) \<Rightarrow>
     after_crash sample_delivery_env no_faults (\<lambda>_ _. None) (dl_spool st) [] (after_turn w acks st sample_pipeline))"

lemma sample_turn_results:
  "worker_turn sample_delivery_env (turn_of sample_drain []) (Resting (Inr ())) sample_delivery
     = (AtEntry [''snap-1.json''] None, [], sample_delivery)"
  "worker_turn sample_delivery_env (turn_of sample_drain []) (AtEntry [''snap-1.json''] None) sample_delivery
     = (Sending valid_sample [] None, [], sample_delivery)"
proof -
  have "pending_paths (dr_io sample_drain) (dl_spool sample_delivery) = Inr [''snap-1.json'']"
    by (simp add: pending_paths_def pending_files_def sample_drain_def sample_delivery_def
        is_spool_file_def ends_with_def starts_with_def)
  then show "worker_turn sample_delivery_env (turn_of sample_drain []) (Resting (Inr ())) sample_delivery
     = (AtEntry [''snap-1.json''] None, [], sample_delivery)"
    by (simp add: begin_drain_def)
  have "validate_snapshot valid_sample = Inr ()" by code_simp
  then have "read_entry (entry_codec sample_delivery_env) (dr_io sample_drain) (dl_spool sample_delivery) ''snap-1.json''
      = Inr valid_sample"
    by (simp add: read_entry_def sample_delivery_env_def sample_drain_def sample_delivery_def
        sample_codec_def MAX_SNAPSHOT_BYTES_def ends_with_def starts_with_def is_zstd_magic_def)
  then show "worker_turn sample_delivery_env (turn_of sample_drain []) (AtEntry [''snap-1.json''] None) sample_delivery
     = (Sending valid_sample [] None, [], sample_delivery)"
    by (simp add: next_entry_def read_pending_def)
qed

lemma sample_turns_eq: "sample_turns = (Sending valid_sample [] None, [], sample_delivery)"
  by (simp add: sample_turns_def sample_turn_results del: worker_turn.simps)

lemma sample_interrupted_runs: "pipeline_runs sample_delivery_env sample_pipeline sample_interrupted"
proof -
  let ?p1 = "after_turn (AtEntry [''snap-1.json''] None) [] sample_delivery sample_pipeline"
    and ?p2 = "after_turn (Sending valid_sample [] None) [] sample_delivery sample_pipeline"
  have s1: "pipeline_step sample_delivery_env sample_pipeline ?p1"
    by (rule step_turn) (simp only: sample_pipeline_def pipeline.simps, rule sample_turn_results)
  have "pipeline_step sample_delivery_env ?p1 (after_turn (Sending valid_sample [] None) [] sample_delivery ?p1)"
    by (rule step_turn [where tn = "turn_of sample_drain []"])
       (simp add: after_turn_def sample_turn_results del: worker_turn.simps)
  then have s2: "pipeline_step sample_delivery_env ?p1 ?p2" by (simp add: after_turn_def)
  have "sample_interrupted = after_crash sample_delivery_env no_faults (\<lambda>_ _. None) (dl_spool (pl_client ?p2)) [] ?p2"
    by (simp add: sample_interrupted_def sample_turns_eq after_turn_def)
  then have s3: "pipeline_step sample_delivery_env ?p2 sample_interrupted" by (metis step_crash)
  show ?thesis
    by (rule runs_step [OF runs_step [OF runs_step [OF runs_here s1] s2] s3])
qed

theorem queued_entry_accounted_for_witness:
  "fst sample_turns = Sending valid_sample [] None \<and> pl_acked sample_interrupted = []
   \<and> (map_of (spool_dir (dl_spool (pl_client sample_interrupted))) ''snap-1.json'' = Some \<lparr>sf_content = [7, 8], sf_modified = 5\<rparr>
    \<or> map_of (quarantine_dir (dl_spool (pl_client sample_interrupted))) ''snap-1.json'' = Some \<lparr>sf_content = [7, 8], sf_modified = 5\<rparr>)"
proof -
  have h: "pl_acked sample_interrupted = []" "pl_dropped sample_interrupted = []" "pl_offered sample_interrupted = []"
    by (simp_all add: sample_interrupted_def sample_turns_eq after_crash_def after_turn_def sample_pipeline_def)
  have "map_of (spool_dir (dl_spool (pl_client sample_pipeline))) ''snap-1.json'' = Some \<lparr>sf_content = [7, 8], sf_modified = 5\<rparr>"
    by (simp add: sample_pipeline_def sample_delivery_def)
  from queued_entry_accounted_for [OF sample_interrupted_runs _ _ _ this, of "''snap-1''"] h
  show ?thesis
    by (simp add: sample_pipeline_def names_of_def is_spool_file_def ends_with_def starts_with_def sample_turns_eq)
qed

end
