(* ===== verification/Delivery_Current.thy ===== *)
theory Delivery_Current
  imports Delivery_Tasks
begin

text \<open>
  What delivery is for: the server ends up with the inventory that the agent found last,
  \<open>src/delivery/mod.rs\<close>. The queue is related to the list of its snapshots, oldest first; the
  two tasks of \<open>Delivery_Tasks\<close> keep the invariant that the newest queued content, or when
  nothing is queued the content the server has, is the content that was offered last.
\<close>

section \<open>The queue as a list of snapshots\<close>

text \<open>A snapshot that can be stored and read back, and its file.\<close>

definition sendable :: "delivery_env \<Rightarrow> inventory_snapshot \<Rightarrow> bool" where
  "sendable env s \<longleftrightarrow> codec_reads_back (entry_codec env) s \<and> validate_snapshot s = Inr ()
     \<and> length (to_canonical_json (entry_codec env) s) \<le> MAX_SNAPSHOT_BYTES
     \<and> length (compress (entry_codec env) (to_canonical_json (entry_codec env) s)) \<le> MAX_SNAPSHOT_BYTES"

definition stored :: "delivery_env \<Rightarrow> nat \<times> inventory_snapshot \<Rightarrow> string \<times> spool_file" where
  "stored env ms = (entry_name (snapshot_id (snd ms)),
     \<lparr>sf_content = compress (entry_codec env) (to_canonical_json (entry_codec env) (snd ms)), sf_modified = fst ms\<rparr>)"

definition older :: "string \<times> spool_file \<Rightarrow> string \<times> spool_file \<Rightarrow> ordering" where
  "older a b = by_modified (pending_of a) (pending_of b)"

definition queued_files :: "spool \<Rightarrow> (string \<times> spool_file) list" where
  "queued_files sp = sort_by older (visible is_spool_file (spool_dir sp))"

definition queue_is :: "delivery_env \<Rightarrow> spool \<Rightarrow> (nat \<times> inventory_snapshot) list \<Rightarrow> bool" where
  "queue_is env sp Q \<longleftrightarrow> distinct (map fst (spool_dir sp)) \<and> queued_files sp = map (stored env) Q
     \<and> (\<forall>ms\<in>set Q. sendable env (snd ms))
     \<and> total_size (map (pending_of \<circ> stored env) Q) \<le> unat MAX_SPOOL_BYTES"

abbreviation names_in :: "(nat \<times> inventory_snapshot) list \<Rightarrow> string list" where
  "names_in Q \<equiv> map (\<lambda>ms. entry_name (snapshot_id (snd ms))) Q"

interpretation older_cmp: total_comparison older
  using total_comparison_on_key [OF modified_cmp.total_comparison_axioms, of pending_of]
  by (simp add: older_def [abs_def])

lemma fst_stored [simp]: "fst (stored env ms) = entry_name (snapshot_id (snd ms))"
  by (simp add: stored_def)

lemma sort_by_map: "sort_by c (map f xs) = map f (sort_by (\<lambda>x y. c (f x) (f y)) xs)"
proof -
  have "insort_by c (f x) (map f ys) = map f (insort_by (\<lambda>x y. c (f x) (f y)) x ys)" for x ys
    by (induction ys) auto
  then show ?thesis by (induction xs) simp_all
qed

lemma sort_by_append_greatest:
  "\<forall>y\<in>set xs. c y x \<noteq> Greater \<Longrightarrow> sort_by c (xs @ [x]) = sort_by c xs @ [x]"
proof -
  have "c y x \<noteq> Greater \<Longrightarrow> insort_by c y (zs @ [x]) = insort_by c y zs @ [x]" for y zs
    by (induction zs) auto
  then show "\<forall>y\<in>set xs. c y x \<noteq> Greater \<Longrightarrow> ?thesis" by (induction xs) auto
qed

lemma pending_queued: "fault_free io \<Longrightarrow> pending_files io sp = Inr (map pending_of (queued_files sp))"
  unfolding queued_files_def older_def by (simp add: pending_files_eq sort_by_map)

lemma queue_names_distinct: "queue_is env sp Q \<Longrightarrow> distinct (names_in Q)"
proof -
  assume q: "queue_is env sp Q"
  have "distinct (map fst (visible is_spool_file (spool_dir sp)))"
    using q unfolding queue_is_def visible_def by (simp add: distinct_map_filter)
  moreover have "mset (map fst (queued_files sp)) = mset (map fst (visible is_spool_file (spool_dir sp)))"
    by (simp add: queued_files_def)
  ultimately have "distinct (map fst (queued_files sp))" by (metis mset_eq_imp_distinct_iff)
  with q show ?thesis by (simp add: queue_is_def comp_def)
qed

lemma queue_paths: "fault_free io \<Longrightarrow> queue_is env sp Q \<Longrightarrow> pending_paths io sp = Inr (names_in Q)"
  by (simp add: pending_paths_def pending_queued queue_is_def comp_def)

lemma queue_lookup:
  assumes "queue_is env sp Q" and "is_spool_file name"
  shows "map_of (spool_dir sp) name = map_of (map (stored env) Q) name"
proof -
  have d: "distinct (map fst (visible is_spool_file (spool_dir sp)))"
    using assms(1) unfolding queue_is_def visible_def by (simp add: distinct_map_filter)
  have d': "distinct (map fst (map (stored env) Q))"
    using queue_names_distinct [OF assms(1)] by (simp add: comp_def)
  have "set (map (stored env) Q) = set (visible is_spool_file (spool_dir sp))"
    using assms(1) unfolding queue_is_def queued_files_def by (metis set_sort_by)
  then have "map_of (map (stored env) Q) = map_of (visible is_spool_file (spool_dir sp))"
    using map_of_inject_set [OF d' d] by simp
  then show ?thesis using assms(2) by (simp add: map_of_visible)
qed

lemma queue_member:
  assumes "queue_is env sp Q" and "ms \<in> set Q"
  shows "map_of (spool_dir sp) (entry_name (snapshot_id (snd ms))) = Some (snd (stored env ms))"
proof -
  have "distinct (map fst (map (stored env) Q))" using queue_names_distinct [OF assms(1)] by (simp add: comp_def)
  moreover have "stored env ms \<in> set (map (stored env) Q)" using assms(2) by simp
  ultimately have "map_of (map (stored env) Q) (fst (stored env ms)) = Some (snd (stored env ms))"
    by (metis map_of_is_SomeI prod.collapse)
  then show ?thesis using queue_lookup [OF assms(1), of "entry_name (snapshot_id (snd ms))"] by simp
qed

lemma queue_read:
  assumes "queue_is env sp Q" and "ms \<in> set Q" and "fault_free io"
  shows "read_entry (entry_codec env) io sp (entry_name (snapshot_id (snd ms))) = Inr (snd ms)"
proof -
  have "sendable env (snd ms)" using assms(1,2) by (simp add: queue_is_def)
  then show ?thesis
    using queue_member [OF assms(1,2)] assms(3) unfolding sendable_def stored_def
    by (intro read_written_entry [where now = "fst ms"]) simp_all
qed

lemma queue_read_gone:
  assumes "queue_is env sp Q" and "is_spool_file name" and "name \<notin> set (names_in Q)" and "fault_free io"
  shows "\<exists>e. read_pending (entry_codec env) io name sp = (Inl e, sp)"
proof -
  have "map_of (spool_dir sp) name = None"
    unfolding queue_lookup [OF assms(1,2)] using assms(3) by (simp add: map_of_eq_None_iff image_image)
  with assms(4) show ?thesis by (simp add: read_pending_def read_entry_def quarantine_def)
qed

lemma total_size_filter: "total_size (map f (filter P xs)) \<le> total_size (map f xs)"
  by (induction xs) auto

lemma total_size_drop: "total_size (drop k es) \<le> total_size es"
  unfolding total_size_def by (metis append_take_drop_id le_add2 map_append sum_list_append)

lemma queued_files_without:
  "queued_files (sp\<lparr>spool_dir := without_names ns (spool_dir sp)\<rparr>) = filter (\<lambda>nf. fst nf \<notin> ns) (queued_files sp)"
  by (simp add: queued_files_def visible_without_names older_cmp.filter_sort_by)

lemma distinct_without: "distinct (map fst d) \<Longrightarrow> distinct (map fst (without_names ns d))"
  unfolding without_names_def by (simp add: distinct_map_filter)

lemma queue_without:
  assumes "queue_is env sp Q"
  shows "queue_is env (sp\<lparr>spool_dir := without_names ns (spool_dir sp)\<rparr>)
     (filter (\<lambda>ms. entry_name (snapshot_id (snd ms)) \<notin> ns) Q)" (is "queue_is env ?sp (filter ?P Q)")
proof -
  have "queued_files ?sp = map (stored env) (filter ?P Q)"
    unfolding queued_files_without using assms by (simp add: queue_is_def filter_map comp_def)
  moreover have "distinct (map fst (without_names ns (spool_dir sp)))"
    using assms by (simp add: queue_is_def distinct_without)
  moreover have "total_size (map (pending_of \<circ> stored env) (filter ?P Q)) \<le> unat MAX_SPOOL_BYTES"
    using assms total_size_filter [of "pending_of \<circ> stored env" ?P Q] by (simp add: queue_is_def)
  ultimately show ?thesis using assms by (simp add: queue_is_def)
qed

lemma queue_remove:
  assumes "queue_is env sp Q" and "fault_free io"
  shows "\<exists>sp'. spool_remove io sid sp = (Inr (), sp') \<and> queue_is env sp' (filter (\<lambda>ms. snapshot_id (snd ms) \<noteq> sid) Q)"
proof -
  have "entry_name a \<in> names_of sid \<longleftrightarrow> a = sid" for a
    using names_of_inj [of "entry_name a" a sid] by (auto simp: names_of_def)
  then show ?thesis
    using queue_without [OF assms(1), of "names_of sid"] remove_without_names [OF assms(2), of sid sp] by simp
qed

lemma update_fresh: "map_of d k = None \<Longrightarrow> AList.update k v d = d @ [(k, v)]"
  by (induction d) (auto split: if_splits)

lemma queue_written:
  assumes "queue_is env sp Q" and "sendable env s" and "\<forall>(name, f)\<in>set (spool_dir sp). sf_modified f < m"
    and "map_of (spool_dir sp) (entry_name (snapshot_id s)) = None"
  shows "\<exists>states. spool_write (entry_codec env) no_faults pid m s sp = (Inr (), states)
     \<and> distinct (map fst (spool_dir (last states))) \<and> queued_files (last states) = map (stored env) (Q @ [(m, s)])"
proof -
  let ?n = "entry_name (snapshot_id s)" and ?f = "snd (stored env (m, s))" and ?v = "visible is_spool_file (spool_dir sp)"
  obtain r states where w: "spool_write (entry_codec env) no_faults pid m s sp = (r, states)" by force
  have len: "\<not> MAX_SNAPSHOT_BYTES < length (to_canonical_json (entry_codec env) s)" using assms(2) by (simp add: sendable_def)
  then have r: "r = Inr ()" and d: "distinct (map fst (spool_dir (last states)))"
    using w assms(1) by (auto simp: spool_write_def atomic_replace_def write_temp_def Let_def queue_is_def last_map)
  have "map_of ?v ?n = None" using assms(4) by (simp add: map_of_visible)
  then have "visible is_spool_file (spool_dir (last states)) = ?v @ [(?n, ?f)]"
    using spool_write_shape(4) [OF w r] by (simp add: update_fresh stored_def)
  moreover have "\<forall>y\<in>set ?v. older y (?n, ?f) \<noteq> Greater"
    using assms(3) by (force simp: visible_def older_def by_modified_def pending_of_def stored_def cmp_def)
  ultimately have "queued_files (last states) = queued_files sp @ [(?n, ?f)]"
    by (simp add: queued_files_def sort_by_append_greatest)
  then have "queued_files (last states) = map (stored env) (Q @ [(m, s)])"
    using assms(1) by (simp add: queue_is_def stored_def)
  with w r d show ?thesis by blast
qed

lemma queue_limited:
  assumes "fault_free io" and "distinct (map fst (spool_dir sp))" and "queued_files sp = map (stored env) Q"
    and "\<forall>ms\<in>set Q. sendable env (snd ms)" and "Q \<noteq> []" and "total_size (map (pending_of \<circ> stored env) Q) < 2 ^ 64"
  shows "\<exists>k. k < length Q \<and> queue_is env (snd (enforce_limit io n sp)) (drop k Q)"
proof -
  let ?es = "map (pending_of \<circ> stored env) Q"
  have p: "pending_files io sp = Inr ?es" using assms(1,3) by (simp add: pending_queued)
  from enforce_limit_dir [OF assms(1) p assms(6), of n] assms(5) obtain k where
    k: "snd (enforce_limit io n sp) = sp\<lparr>spool_dir := without_names (pf_name ` set (take k ?es)) (spool_dir sp)\<rparr>"
      "k < length Q" "within_limits n (drop k ?es) \<or> length (drop k ?es) = 1" by auto
  define sp' where "sp' = snd (enforce_limit io n sp)"
  have d: "distinct (map fst (map (stored env) Q))"
    using distinct_pending_names [OF assms(1) p assms(2)] by (simp add: comp_def)
  have "pf_name ` set (take k ?es) = fst ` set (take k (map (stored env) Q))"
    by (simp add: take_map image_image)
  then have files: "queued_files sp' = drop k (map (stored env) Q)"
    using filter_names_drop [OF d, of k] by (simp add: sp'_def k(1) queued_files_without assms(3))
  have "total_size (drop k ?es) \<le> unat MAX_SPOOL_BYTES"
  proof (cases "within_limits n (drop k ?es)")
    case False
    with k(3) have "length (drop k Q) = 1" by simp
    then obtain ms where ms: "drop k Q = [ms]" by (metis One_nat_def length_0_conv length_Suc_conv)
    then have "ms \<in> set Q" by (metis in_set_dropD list.set_intros(1))
    then have "length (sf_content (snd (stored env ms))) \<le> MAX_SNAPSHOT_BYTES"
      using assms(4) by (simp add: sendable_def stored_def)
    then show ?thesis
      using pf_size_le [of "stored env ms"] by (simp add: drop_map ms MAX_SNAPSHOT_BYTES_def MAX_SPOOL_BYTES_def)
  qed (simp add: within_limits_def)
  then have "queue_is env sp' (drop k Q)"
    using files assms(2,4) by (auto simp: queue_is_def drop_map sp'_def k(1) distinct_without dest: in_set_dropD)
  with k(2) show ?thesis by (auto simp: sp'_def)
qed

text \<open>
  Enqueueing without faults: the content is skipped, or it is the newest of the queue, of
  which the capacity limit may have dropped the oldest.
\<close>

lemma queue_commit:
  assumes "queue_is env (dl_spool st) Q" and "fault_free io" and "sendable env s"
    and "\<forall>(name, f)\<in>set (spool_dir (dl_spool st)). sf_modified f < m"
    and "map_of (spool_dir (dl_spool st)) (entry_name (snapshot_id s)) = None"
  obtains (skipped) "enqueue_commit env no_faults io m due s st = (Inr False, st)"
      "last_enqueued_digest st = Some (content_digest env s) \<or> \<not> due \<and> last_enqueued_digest st = None"
    | (queued) k st' where "enqueue_commit env no_faults io m due s st = (Inr True, st')" "k \<le> length Q"
      "queue_is env (dl_spool st') (drop k (Q @ [(m, s)]))"
      "last_enqueued_digest st' = Some (content_digest env s)" "last_accepted st' = last_accepted st"
proof (cases "last_enqueued_digest st = Some (content_digest env s) \<or> \<not> due \<and> last_enqueued_digest st = None")
  case True
  then show ?thesis by (intro skipped) (auto simp: enqueue_commit_def Let_def)
next
  case False
  let ?Q = "Q @ [(m, s)]"
  obtain states where w: "spool_write (entry_codec env) no_faults (process_id env) m s (dl_spool st) = (Inr (), states)"
    and d: "distinct (map fst (spool_dir (last states)))" and f: "queued_files (last states) = map (stored env) ?Q"
    using queue_written [OF assms(1,3-5)] by blast
  have "total_size (map (pending_of \<circ> stored env) ?Q) \<le> unat MAX_SPOOL_BYTES + MAX_SNAPSHOT_BYTES"
    using assms(1,3) pf_size_le [of "stored env (m, s)"]
    by (auto simp: queue_is_def total_size_def sendable_def stored_def)
  then have t: "total_size (map (pending_of \<circ> stored env) ?Q) < 2 ^ 64"
    by (simp add: MAX_SPOOL_BYTES_def MAX_SNAPSHOT_BYTES_def)
  have "\<forall>ms\<in>set ?Q. sendable env (snd ms)" using assms(1,3) by (auto simp: queue_is_def)
  from queue_limited [OF assms(2) d f this _ t, of "max_spool_entries env"] obtain k where
    k: "k < length ?Q" "queue_is env (snd (enforce_limit io (max_spool_entries env) (last states))) (drop k ?Q)" by blast
  show ?thesis
    using False w k by (intro queued [of "st\<lparr>dl_spool := snd (enforce_limit io (max_spool_entries env) (last states)),
        last_enqueued_digest := Some (content_digest env s)\<rparr>" k]) (auto simp: enqueue_commit_def Let_def split: prod.splits)
qed

section \<open>Undisturbed runs\<close>

text \<open>
  Runs without file errors, restarts and rejected entries, in which a check is followed at
  once by its commit; requests may fail or be accepted in any pattern, and the tasks interleave
  freely. A new snapshot has an id of its own and a file that is newer than those in the queue.
\<close>

definition patient :: "submit_env \<Rightarrow> bool" where
  "patient sv \<longleftrightarrow> (\<forall>n t e. sv_post sv n t = Inl e \<longrightarrow> \<not> payload_specific e)"

text \<open>The paths that the worker has listed and not finished, and the snapshot it is sending.\<close>

definition ahead :: "worker \<Rightarrow> string list" where
  "ahead w = (case w of Resting _ \<Rightarrow> [] | AtEntry paths _ \<Rightarrow> paths | Recording _ paths _ \<Rightarrow> paths
     | Sending s paths _ \<Rightarrow> entry_name (snapshot_id s) # paths)"

definition in_flight :: "worker \<Rightarrow> inventory_snapshot option" where
  "in_flight w = (case w of Sending s _ _ \<Rightarrow> Some s | _ \<Rightarrow> None)"

definition new_snapshot :: "delivery_env \<Rightarrow> nat \<Rightarrow> inventory_snapshot \<Rightarrow> pipeline \<Rightarrow> bool" where
  "new_snapshot env mtime s p \<longleftrightarrow> sendable env s
     \<and> (\<forall>(name, f)\<in>set (spool_dir (dl_spool (pl_client p))). sf_modified f < mtime)
     \<and> map_of (spool_dir (dl_spool (pl_client p))) (entry_name (snapshot_id s)) = None
     \<and> entry_name (snapshot_id s) \<notin> set (ahead (pl_worker p))"

inductive calm_runs :: "delivery_env \<Rightarrow> pipeline \<Rightarrow> pipeline \<Rightarrow> bool" for env where
  calm_here: "calm_runs env p p"
| calm_turn: "calm_runs env p q \<Longrightarrow> fault_free (tn_io tn) \<Longrightarrow> patient (tn_submit tn) \<Longrightarrow>
         worker_turn env tn (pl_worker q) (pl_client q) = (w, acks, st) \<Longrightarrow> calm_runs env p (after_turn w acks st q)"
| calm_offer: "calm_runs env p q \<Longrightarrow> fault_free io \<Longrightarrow> new_snapshot env mtime s q \<Longrightarrow>
         pl_offer (after_check env now s q) = Some (s, due) \<Longrightarrow>
         calm_runs env p (after_commit env no_faults io mtime s due (after_check env now s q))"

section \<open>The invariant\<close>

text \<open>What the server has: the content it acknowledged last, at first the content on record.\<close>

definition server_has :: "string option \<Rightarrow> pipeline \<Rightarrow> string option" where
  "server_has d0 p = (if pl_acked p = [] then d0 else Some (snd (last (pl_acked p))))"

definition offered_last :: "delivery_env \<Rightarrow> string option \<Rightarrow> pipeline \<Rightarrow> string option" where
  "offered_last env d0 p = (if pl_offered p = [] then d0 else Some (content_digest env (last (pl_offered p))))"

text \<open>The paths in front of the worker come first in the queue, as far as they are still there.\<close>

definition in_order :: "worker \<Rightarrow> (nat \<times> inventory_snapshot) list \<Rightarrow> bool" where
  "in_order w Q \<longleftrightarrow> (\<exists>later. names_in Q = filter (\<lambda>n. n \<in> set (names_in Q)) (ahead w) @ later)
     \<and> list_all is_spool_file (ahead w)"

definition flight_known :: "worker \<Rightarrow> (nat \<times> inventory_snapshot) list \<Rightarrow> bool" where
  "flight_known w Q \<longleftrightarrow> (\<forall>s. in_flight w = Some s \<longrightarrow> Q \<noteq> []
     \<and> (\<forall>ms\<in>set Q. snapshot_id (snd ms) = snapshot_id s \<longrightarrow> snd ms = s))"

definition newest_is :: "delivery_env \<Rightarrow> string option \<Rightarrow> string option \<Rightarrow> worker \<Rightarrow> delivery
   \<Rightarrow> (nat \<times> inventory_snapshot) list \<Rightarrow> bool" where
  "newest_is env d sv w st Q \<longleftrightarrow>
     (if Q \<noteq> [] then d = Some (content_digest env (snd (last Q))) \<and> last_enqueued_digest st = d
      else sv = d \<and> (case w of
          Recording a _ _ \<Rightarrow> d = Some (digest a) \<and> last_enqueued_digest st = d
        | _ \<Rightarrow> map_option digest (last_accepted st) = d \<and> last_enqueued_digest st \<in> {None, d}))"

definition up_to_date :: "delivery_env \<Rightarrow> string option \<Rightarrow> pipeline \<Rightarrow> bool" where
  "up_to_date env d0 p \<longleftrightarrow> (\<exists>Q. queue_is env (dl_spool (pl_client p)) Q \<and> in_order (pl_worker p) Q
     \<and> flight_known (pl_worker p) Q
     \<and> newest_is env (offered_last env d0 p) (server_has d0 p) (pl_worker p) (pl_client p) Q)"

lemmas worker_views = in_order_def ahead_def flight_known_def in_flight_def newest_is_def

lemma attempt_outcome:
  "attempt_post sv r p tok = (q, r', x) \<Longrightarrow> (\<exists>e. x = Inl (Blocking e)) \<or> (\<exists>n t. x = Inr (sv_post sv n t))"
  by (auto simp: attempt_post_def split: sum.splits api_error.splits if_splits) metis+

lemma patient_loop:
  "submit_loop sv io sid a r p0 ds0 sp = (p, ds, res, sp') \<Longrightarrow> patient sv \<Longrightarrow>
   sp' = sp \<and> (res = Inr () \<or> (\<exists>e. res = Inl (Blocking e)))"
proof (induction sv io sid a r p0 ds0 sp rule: submit_loop.induct)
  case (1 sv io sid a r p0 ds0 sp)
  show ?case
  proof (cases "sv_token sv (a + 1)")
    case (Inl e)
    then show ?thesis using "1.prems" by (subst (asm) submit_loop.simps) auto
  next
    case (Inr tok)
    obtain q r' x where ap: "attempt_post sv r p0 tok = (q, r', x)" by (metis prod_cases3)
    have blocked: "x = Inl m \<Longrightarrow> \<exists>e. m = Blocking e" for m using attempt_outcome [OF ap] by auto
    have classified: "x = Inr (Inl e) \<Longrightarrow> \<not> payload_specific e" for e
      using attempt_outcome [OF ap] "1.prems"(2) by (auto simp: patient_def)
    have more: ?thesis if "submit_loop sv io sid (a + 1) r' q (ds0 @ [delay]) sp = (p, ds, res, sp')"
      "a + 1 < MAX_ATTEMPTS_PER_ENTRY" "x = Inr (Inl error)" "classify (sv_rng sv) error (a + 1) = RetryAfter delay"
      for error delay
      using "1.IH" [OF refl Inr ap [symmetric] refl that(3) refl classified [OF that(3)] that(4,2,1) "1.prems"(2)] .
    show ?thesis
      using "1.prems"(1) Inr ap blocked classified more
      by (subst (asm) submit_loop.simps)
         (auto simp: Let_def split: sum.splits if_splits retry_decision.splits)
  qed
qed

lemma patient_submit:
  assumes "patient sv" and "submit_one sv io sid sp = (p, ds, res, sp')"
  shows "sp' = sp \<and> (res = Inr () \<or> (\<exists>e. res = Inl (Blocking e)))"
  using patient_loop [OF assms(2) [unfolded submit_one_def] assms(1)] .

lemma after_turn_simps [simp]:
  "pl_client (after_turn w acks st p) = st" "pl_worker (after_turn w acks st p) = w"
  "pl_offered (after_turn w acks st p) = pl_offered p" "pl_acked (after_turn w acks st p) = pl_acked p @ acks"
  by (simp_all add: after_turn_def)

lemma entry_name_eq [simp]: "entry_name a = entry_name b \<longleftrightarrow> a = b"
  by (simp add: entry_name_def)

text \<open>The entry that was sent is the oldest of the queue, or it was dropped meanwhile.\<close>

lemma sent_is_oldest:
  assumes "in_order (Sending s paths fq) Q" and "distinct (names_in Q)"
  defines "Q' \<equiv> filter (\<lambda>ms. snapshot_id (snd ms) \<noteq> snapshot_id s) Q"
  shows "(Q' = Q \<or> (\<exists>ms. Q = ms # Q' \<and> snapshot_id (snd ms) = snapshot_id s)) \<and> in_order (Recording a paths fq') Q'"
proof -
  let ?p = "entry_name (snapshot_id s)"
  obtain later where l: "names_in Q = filter (\<lambda>n. n \<in> set (names_in Q)) (?p # paths) @ later"
    and spool: "list_all is_spool_file paths"
    using assms(1) by (auto simp: in_order_def ahead_def)
  have order: "in_order (Recording a paths fq') Q'" if "names_in Q' = filter (\<lambda>n. n \<in> set (names_in Q')) paths @ later"
    using that spool unfolding in_order_def ahead_def worker.case by blast
  show ?thesis
  proof (cases "?p \<in> set (names_in Q)")
    case False
    then have "\<forall>ms\<in>set Q. snapshot_id (snd ms) \<noteq> snapshot_id s" by force
    then have "Q' = Q" by (simp add: Q'_def filter_id_conv)
    moreover have "names_in Q = filter (\<lambda>n. n \<in> set (names_in Q)) paths @ later"
      using l unfolding filter.simps if_not_P [OF False] .
    ultimately show ?thesis using order by (intro conjI disjI1) (simp_all only:)
  next
    case True
    have n: "names_in Q = ?p # filter (\<lambda>n. n \<in> set (names_in Q)) paths @ later"
      using l unfolding filter.simps if_P [OF True] append_Cons .
    then obtain ms T where Q: "Q = ms # T" "entry_name (snapshot_id (snd ms)) = ?p"
      and T: "names_in T = filter (\<lambda>n. n \<in> set (names_in Q)) paths @ later"
      by (cases Q) auto
    have "?p \<notin> set (names_in T)" using assms(2) Q by auto
    then have "\<forall>ms\<in>set T. snapshot_id (snd ms) \<noteq> snapshot_id s" by force
    then have Q': "Q' = T" using Q by (simp add: Q'_def filter_id_conv)
    have "x \<in> set (names_in T)" if "x \<in> set paths" "x \<in> set (names_in Q)" for x
      unfolding T using that by simp
    then have "filter (\<lambda>n. n \<in> set (names_in Q)) paths = filter (\<lambda>n. n \<in> set (names_in T)) paths"
      unfolding Q(1) by (intro filter_cong) auto
    then have "names_in Q' = filter (\<lambda>n. n \<in> set (names_in Q')) paths @ later"
      unfolding Q' by (intro trans [OF T] arg_cong [where f = "\<lambda>xs. xs @ later"])
    from order [OF this] Q Q' show ?thesis by simp
  qed
qed

lemma filter_in_drop: "distinct F \<Longrightarrow> filter (\<lambda>x. x \<in> set (drop k F)) F = drop k F"
proof -
  assume d: "distinct F"
  then have "set (take k F) \<inter> set (drop k F) = {}" by (metis append_take_drop_id distinct_append)
  then have "filter (\<lambda>x. x \<in> set (drop k F)) F = filter (\<lambda>x. id x \<notin> id ` set (take k F)) F"
    by (intro filter_cong) (auto, metis Un_iff append_take_drop_id set_append)
  then show ?thesis using filter_names_drop [of id F k] d by simp
qed

lemma ahead_drop:
  assumes "distinct (names @ [n])" and "names = filter (\<lambda>x. x \<in> set names) A @ later" and "n \<notin> set A"
  shows "\<exists>later'. drop k (names @ [n]) = filter (\<lambda>x. x \<in> set (drop k (names @ [n]))) A @ later'"
proof -
  let ?F = "filter (\<lambda>x. x \<in> set names) A"
  have d: "distinct ?F" "set ?F \<inter> set later = {}"
    using assms(1) by (metis assms(2) distinct_append)+
  have sub: "set later \<subseteq> set names" by (metis assms(2) Un_upper2 set_append)
  have split: "drop k (names @ [n]) = drop k ?F @ drop (k - length ?F) (later @ [n])"
    by (metis append_assoc assms(2) drop_append)
  have "x \<in> set (drop k (names @ [n])) \<longleftrightarrow> x \<in> set names \<and> x \<in> set (drop k ?F)" if "x \<in> set A" for x
    unfolding split using that assms(3) d(2) sub by (auto dest: in_set_dropD)
  then have "filter (\<lambda>x. x \<in> set (drop k (names @ [n]))) A = filter (\<lambda>x. x \<in> set (drop k ?F)) ?F"
    by (simp cong: filter_cong)
  with d(1) split show ?thesis by (metis filter_in_drop)
qed

lemma server_has_turn: "server_has d0 (after_turn w acks st p) = (if acks = [] then server_has d0 p else Some (snd (last acks)))"
  by (simp add: server_has_def)

lemma offered_last_turn [simp]: "offered_last env d0 (after_turn w acks st p) = offered_last env d0 p"
  by (simp add: offered_last_def)

lemma up_to_dateI:
  assumes "queue_is env (dl_spool st) Q" "in_order w Q" "flight_known w Q"
    and "newest_is env (offered_last env d0 q) (if acks = [] then server_has d0 q else Some (snd (last acks))) w st Q"
  shows "up_to_date env d0 (after_turn w acks st q)"
  using assms unfolding up_to_date_def server_has_turn by auto

lemma sending_up_to_date:
  assumes "pl_worker q = Sending s paths fq" and "fault_free (tn_io tn)" and "patient (tn_submit tn)"
    and "worker_turn env tn (pl_worker q) (pl_client q) = (w, acks, st)"
    and "queue_is env (dl_spool (pl_client q)) Q" and "in_order (pl_worker q) Q" and "flight_known (pl_worker q) Q"
    and "newest_is env (offered_last env d0 q) (server_has d0 q) (pl_worker q) (pl_client q) Q"
  shows "up_to_date env d0 (after_turn w acks st q)"
proof -
  let ?st = "pl_client q" and ?sid = "snapshot_id s"
  obtain p ds res sp where sub: "submit_one (tn_submit tn) (tn_io tn) ?sid (dl_spool ?st) = (p, ds, res, sp)"
    by (metis prod_cases4)
  have Q: "Q \<noteq> []" "\<And>ms. ms \<in> set Q \<Longrightarrow> snapshot_id (snd ms) = ?sid \<Longrightarrow> snd ms = s"
    using assms(1,7) by (auto simp: flight_known_def in_flight_def)
  have sp: "sp = dl_spool ?st" using patient_submit [OF assms(3) sub] by simp
  show ?thesis
  proof (cases "res = Inr ()")
    case False
    then obtain e where "res = Inl (Blocking e)" using patient_submit [OF assms(3) sub] by blast
    then have "\<exists>r. w = Resting r" "acks = []" "st = ?st"
      using assms(1,4) sub sp by (auto simp: end_submission_def)
    then show ?thesis using assms(1,5,8) Q(1) by (intro up_to_dateI [where Q = Q]) (auto simp: worker_views split: if_splits)
  next
    case True
    define Q' where "Q' = filter (\<lambda>ms. snapshot_id (snd ms) \<noteq> ?sid) Q"
    obtain sp' where rem: "spool_remove (tn_io tn) ?sid sp = (Inr (), sp')" "queue_is env sp' Q'"
      using queue_remove [OF assms(5,2)] unfolding sp Q'_def by blast
    have t: "\<exists>a. w = Recording a paths fq \<and> digest a = content_digest env s" "acks = [(?sid, content_digest env s)]"
        "dl_spool st = sp'" "last_enqueued_digest st = last_enqueued_digest ?st"
      using assms(1,4) sub True rem by (auto simp: end_submission_def Let_def split: prod.splits)
    have head: "(Q' = Q \<or> (\<exists>ms. Q = ms # Q' \<and> snapshot_id (snd ms) = ?sid)) \<and> in_order (Recording a paths fq) Q'" for a
      using sent_is_oldest [of s paths fq Q, folded Q'_def] assms(1,6) queue_names_distinct [OF assms(5)] by simp
    have order: "in_order w Q'" using head t(1) by blast
    have d: "offered_last env d0 q = Some (content_digest env (snd (last Q)))"
        "last_enqueued_digest ?st = offered_last env d0 q" using assms(8) Q(1) by (simp_all add: newest_is_def)
    have "newest_is env (offered_last env d0 q) (Some (content_digest env s)) w st Q'"
    proof (cases "Q' = []")
      case True
      with conjunct1 [OF head] Q(1) obtain ms where "Q = [ms]" "snapshot_id (snd ms) = ?sid" by auto
      then have "snd (last Q) = s" using Q(2) [of ms] by simp
      with True t d show ?thesis by (auto simp: newest_is_def)
    next
      case False
      with conjunct1 [OF head] have "last Q' = last Q" by auto
      with False t d show ?thesis by (simp add: newest_is_def)
    qed
    then show ?thesis
      using rem(2) t order by (intro up_to_dateI [where Q = Q']) (auto simp: flight_known_def in_flight_def)
  qed
qed

lemma entry_up_to_date:
  assumes "pl_worker q = AtEntry (path # paths) fq" and "fault_free (tn_io tn)"
    and "worker_turn env tn (pl_worker q) (pl_client q) = (w, acks, st)"
    and "queue_is env (dl_spool (pl_client q)) Q" and "in_order (pl_worker q) Q"
    and "newest_is env (offered_last env d0 q) (server_has d0 q) (pl_worker q) (pl_client q) Q"
  shows "up_to_date env d0 (after_turn w acks st q)"
proof (cases "path \<in> set (names_in Q)")
  case True
  then obtain ms where ms: "ms \<in> set Q" "path = entry_name (snapshot_id (snd ms))" by auto
  have "read_pending (entry_codec env) (tn_io tn) path (dl_spool (pl_client q)) = (Inr (Some (snd ms)), dl_spool (pl_client q))"
    using queue_read [OF assms(4) ms(1) assms(2)] ms(2) by (simp add: read_pending_def)
  then have t: "w = Sending (snd ms) paths fq" "acks = []" "st = pl_client q"
    using assms(1,3) by (auto simp: next_entry_def)
  have "snd ms' = snd ms" if "ms' \<in> set Q" "snapshot_id (snd ms') = snapshot_id (snd ms)" for ms'
    using queue_names_distinct [OF assms(4)] inj_onD [of "\<lambda>ms. entry_name (snapshot_id (snd ms))" "set Q" ms' ms] ms(1) that
    by (simp add: distinct_map)
  then show ?thesis
    using assms(1,4-6) ms t by (intro up_to_dateI [where Q = Q]) (auto simp: worker_views split: if_splits)
next
  case False
  then obtain e where "read_pending (entry_codec env) (tn_io tn) path (dl_spool (pl_client q)) = (Inl e, dl_spool (pl_client q))"
    using queue_read_gone [OF assms(4) _ False assms(2)] assms(1,5) by (auto simp: in_order_def ahead_def)
  then have t: "\<exists>r. w = Resting r" "acks = []" "st = pl_client q"
    using assms(1,3) by (auto simp: next_entry_def)
  then show ?thesis
    using assms(1,4,6) by (intro up_to_dateI [where Q = Q]) (auto simp: worker_views split: if_splits)
qed

lemma turn_up_to_date:
  assumes "up_to_date env d0 q" and "fault_free (tn_io tn)" and "patient (tn_submit tn)"
    and "worker_turn env tn (pl_worker q) (pl_client q) = (w, acks, st)"
  shows "up_to_date env d0 (after_turn w acks st q)"
proof -
  obtain Q where Q: "queue_is env (dl_spool (pl_client q)) Q" "in_order (pl_worker q) Q" "flight_known (pl_worker q) Q"
      "newest_is env (offered_last env d0 q) (server_has d0 q) (pl_worker q) (pl_client q) Q"
    using assms(1) unfolding up_to_date_def by blast
  note paths = queue_paths [OF assms(2) Q(1)]
  show ?thesis
  proof (cases "(env, tn, pl_worker q, pl_client q)" rule: worker_turn.cases)
    case (1 _ _ r)
    then have t: "w = AtEntry (names_in Q) None" "acks = []" "st = pl_client q"
      using assms(4) paths by (auto simp: begin_drain_def)
    show ?thesis using 1 t Q by (intro up_to_dateI [where Q = Q]) (auto simp: worker_views list_all_iff filter_id_conv split: if_splits)
  next
    case (2 _ _ fq)
    have t: "(\<exists>r. w = Resting r) \<and> acks = [] \<and> st = (if Q = [] then (pl_client q)\<lparr>last_enqueued_digest := None\<rparr> else pl_client q)"
      using 2 assms(4) paths by (auto simp: end_drain_def clear_enqueued_if_spool_empty_def split: option.splits)
    then show ?thesis using 2 Q by (intro up_to_dateI [where Q = Q]) (auto simp: worker_views split: if_splits)
  next
    case (3 _ _ path paths fq)
    then show ?thesis using entry_up_to_date [OF _ assms(2,4) Q(1,2,4)] by simp
  next
    case (4 _ _ s paths fq)
    then show ?thesis using sending_up_to_date [OF _ assms(2-4) Q] by simp
  next
    case (5 _ _ a paths fq)
    then have t: "w = AtEntry paths fq" "acks = []" "st = (pl_client q)\<lparr>last_accepted := Some a\<rparr>"
      using assms(4) by auto
    then show ?thesis using 5 Q by (intro up_to_dateI [where Q = Q]) (auto simp: worker_views split: if_splits)
  qed
qed

lemma offer_up_to_date:
  assumes "up_to_date env d0 q" and "fault_free io" and "new_snapshot env mtime s q"
    and "pl_offer (after_check env now s q) = Some (s, due)"
  shows "up_to_date env d0 (after_commit env no_faults io mtime s due (after_check env now s q))" (is "up_to_date env d0 ?q")
proof -
  let ?st = "pl_client q" and ?dg = "content_digest env s"
  obtain Q where Q: "queue_is env (dl_spool ?st) Q" "in_order (pl_worker q) Q" "flight_known (pl_worker q) Q"
      "newest_is env (offered_last env d0 q) (server_has d0 q) (pl_worker q) ?st Q"
    using assms(1) unfolding up_to_date_def by blast
  have due: "due = due_for_submission env now ?dg (last_accepted ?st)"
    using assms(4) by (simp add: after_check_def)
  have same: "offered_last env d0 ?q = Some ?dg" "server_has d0 ?q = server_has d0 q" "pl_worker ?q = pl_worker q"
    by (simp_all add: after_commit_def after_check_def offered_last_def server_has_def split: prod.split)
  have new: "sendable env s" "\<forall>(name, f)\<in>set (spool_dir (dl_spool ?st)). sf_modified f < mtime"
      "map_of (spool_dir (dl_spool ?st)) (entry_name (snapshot_id s)) = None"
      "entry_name (snapshot_id s) \<notin> set (ahead (pl_worker q))"
    using assms(3) by (simp_all add: new_snapshot_def)
  show ?thesis
  proof (cases rule: queue_commit [OF Q(1) assms(2) new(1-3), of due])
    case 1
    then have "pl_client ?q = ?st" by (simp add: after_commit_def after_check_def)
    moreover have "offered_last env d0 q = Some ?dg"
      using 1(2) Q(4) due by (auto simp: newest_is_def due_for_submission_def Let_def split: if_splits worker.splits option.splits)
    ultimately show ?thesis using Q same unfolding up_to_date_def by (intro exI [of _ Q]) simp
  next
    case (2 k st')
    let ?Q = "drop k (Q @ [(mtime, s)])"
    have "pl_client ?q = st'" using 2(1) by (simp add: after_commit_def after_check_def)
    moreover have "?Q \<noteq> []" "last ?Q = (mtime, s)" using 2(2) by simp_all
    moreover have "in_order (pl_worker q) ?Q"
    proof -
      have "entry_name (snapshot_id s) \<notin> set (names_in Q)"
        using queue_member [OF Q(1)] new(3) by force
      then have d: "distinct (names_in Q @ [entry_name (snapshot_id s)])" using queue_names_distinct [OF Q(1)] by simp
      have names: "names_in ?Q = drop k (names_in Q @ [entry_name (snapshot_id s)])"
        by (simp only: drop_map [symmetric] map_append list.map snd_conv)
      from Q(2) obtain later where l: "names_in Q = filter (\<lambda>n. n \<in> set (names_in Q)) (ahead (pl_worker q)) @ later"
        and "list_all is_spool_file (ahead (pl_worker q))" unfolding in_order_def by blast
      with ahead_drop [OF d l new(4), of k] show ?thesis unfolding in_order_def names by blast
    qed
    moreover have "flight_known (pl_worker q) ?Q"
      using Q(3) new(4) \<open>?Q \<noteq> []\<close> by (auto simp: flight_known_def in_flight_def ahead_def split: worker.splits dest!: in_set_dropD)
    ultimately show ?thesis
      using 2(3,4) same unfolding up_to_date_def by (intro exI [of _ ?Q]) (simp add: newest_is_def)
  qed
qed

lemma calm_runs_up_to_date:
  "calm_runs env p q \<Longrightarrow> up_to_date env d0 p \<Longrightarrow> up_to_date env d0 q"
proof (induction rule: calm_runs.induct)
  case (calm_turn p q tn w acks st)
  then show ?case using turn_up_to_date by blast
next
  case (calm_offer p q io mtime s now due)
  then show ?case using offer_up_to_date by blast
qed

definition pipeline_start :: "delivery \<Rightarrow> pipeline" where
  "pipeline_start st = \<lparr>pl_client = st, pl_worker = Resting (Inr ()), pl_offer = None,
     pl_acked = [], pl_dropped = [], pl_offered = []\<rparr>"

lemma start_up_to_date:
  assumes "visible is_spool_file (spool_dir (dl_spool st)) = []" and "distinct (map fst (spool_dir (dl_spool st)))"
    and "last_enqueued_digest st = None"
  shows "up_to_date env (map_option digest (last_accepted st)) (pipeline_start st)"
proof -
  have "queue_is env (dl_spool st) []" using assms(1,2) by (simp add: queue_is_def queued_files_def)
  then show ?thesis
    using assms(3) unfolding up_to_date_def
    by (intro exI [of _ "[]"]) (simp add: pipeline_start_def worker_views offered_last_def server_has_def)
qed

text \<open>A drain with a healthy server sends a whole queue.\<close>

lemma queue_drains:
  assumes "queue_is env (dl_spool st) Q" and "fault_free (dr_io dr)"
    and "\<forall>path. \<exists>tok. sv_token (dr_submit dr path) 1 = Inr tok \<and> sv_post (dr_submit dr path) 0 tok = Inr ()"
  shows "\<exists>st'. drain_spool env dr st = (Inr (), map (\<lambda>ms. (snapshot_id (snd ms), content_digest env (snd ms))) Q, st')
     \<and> pending_paths (dr_io dr) (dl_spool st') = Inr []
     \<and> map_option digest (last_accepted st') = (if Q = [] then map_option digest (last_accepted st)
          else Some (content_digest env (snd (last Q))))"
proof (cases "Q = []")
  case True
  then show ?thesis
    using queue_paths [OF assms(2,1)] by (simp add: drain_spool_def clear_enqueued_if_spool_empty_def)
next
  case False
  define snap where "snap p = projr (read_entry (entry_codec env) (dr_io dr) (dl_spool st) p)" for p
  have snap: "snap (entry_name (snapshot_id (snd ms))) = snd ms" if "ms \<in> set Q" for ms
    using queue_read [OF assms(1) that assms(2)] by (simp add: snap_def)
  have eq: "map (\<lambda>p. g (snap p)) (names_in Q) = map (\<lambda>ms. g (snd ms)) Q" for g :: "inventory_snapshot \<Rightarrow> 'a"
    using snap by simp
  have "distinct (map (\<lambda>p. snapshot_id (snap p)) (names_in Q))"
    using queue_names_distinct [OF assms(1)] unfolding eq [of snapshot_id] by (simp add: distinct_map inj_on_def)
  moreover have "\<forall>p\<in>set (names_in Q). read_entry (entry_codec env) (dr_io dr) (dl_spool st) p = Inr (snap p)
      \<and> p \<in> names_of (snapshot_id (snap p))"
    using queue_read [OF assms(1) _ assms(2)] snap by (auto simp: names_of_def)
  ultimately obtain st' where "drain_spool env dr st =
      (Inr (), map (\<lambda>p. (snapshot_id (snap p), content_digest env (snap p))) (names_in Q), st')"
    "pending_paths (dr_io dr) (dl_spool st') = Inr []"
    "last_accepted st' = Some \<lparr>digest = content_digest env (snap (last (names_in Q))),
          accepted_at_unix_secs = dr_now dr (last (names_in Q))\<rparr>"
    using drain_delivers_everything_in_order [OF assms(2) queue_paths [OF assms(2,1)], of env snap] assms(3) False by auto
  moreover have "snap (last (names_in Q)) = snd (last Q)" using snap False by (simp add: last_map)
  ultimately show ?thesis
    using eq [of "\<lambda>s. (snapshot_id s, content_digest env s)"] False by simp
qed

section \<open>Property\<close>


definition idle_client :: delivery where
  "idle_client = sample_delivery\<lparr>dl_spool := \<lparr>spool_dir = [], quarantine_dir = []\<rparr>, last_enqueued_digest := None\<rparr>"

definition sample_offered :: pipeline where
  "sample_offered = after_commit sample_delivery_env no_faults (\<lambda>_ _. None) 5 valid_sample True
     (after_check sample_delivery_env 0 valid_sample (pipeline_start idle_client))"

lemma valid_sample_sendable: "sendable sample_delivery_env valid_sample"
proof -
  have "validate_snapshot valid_sample = Inr ()" by code_simp
  then show ?thesis
    by (simp add: sendable_def codec_reads_back_def sample_delivery_env_def sample_codec_def MAX_SNAPSHOT_BYTES_def)
qed

lemma sample_offered_calm: "calm_runs sample_delivery_env (pipeline_start idle_client) sample_offered"
  unfolding sample_offered_def
proof (rule calm_offer [OF calm_here])
  show "fault_free (\<lambda>_ _. None)" by (simp add: fault_free_def)
  show "new_snapshot sample_delivery_env 5 valid_sample (pipeline_start idle_client)"
    using valid_sample_sendable by (simp add: new_snapshot_def pipeline_start_def idle_client_def ahead_def)
  show "pl_offer (after_check sample_delivery_env 0 valid_sample (pipeline_start idle_client)) = Some (valid_sample, True)"
    by (simp add: after_check_def pipeline_start_def idle_client_def sample_delivery_def due_for_submission_def)
qed


section \<open>A check that is not committed at once\<close>

text \<open>
  Calm runs commit an offer together with its check. The code releases the accepted state
  between the two, and there the worker may finish: the host has returned to the accepted
  content while another one is queued; the check finds the return not due, the worker
  delivers the other content and empties the queue, and the commit skips the return. The
  server keeps the other content and nothing is queued.
\<close>

definition race_env :: delivery_env where
  "race_env = sample_delivery_env\<lparr>payload_json := (\<lambda>c. [of_nat (length (cp_hostname c))]), sha256 := id\<rparr>"

definition returned :: inventory_snapshot where
  "returned = valid_sample\<lparr>hostname := ''h''\<rparr>"

definition race_client :: "spool_file dir \<Rightarrow> u8 list dir \<Rightarrow> string \<Rightarrow> u64 \<Rightarrow> string option \<Rightarrow> delivery" where
  "race_client files disk accepted now queued = \<lparr>dl_spool = \<lparr>spool_dir = files, quarantine_dir = []\<rparr>, dl_disk = disk,
     last_accepted = Some \<lparr>digest = accepted, accepted_at_unix_secs = now\<rparr>, last_enqueued_digest = queued\<rparr>"

definition other_queued :: delivery where
  "other_queued = race_client [(''snap-1.json'', \<lparr>sf_content = [7, 8], sf_modified = 5\<rparr>)] [] ''01'' 0 (Some ''04'')"

lemma race_digests: "content_digest race_env valid_sample = ''04''" "content_digest race_env returned = ''01''"
  by code_simp+

lemma race_turns:
  fixes tn defines "tn \<equiv> turn_of sample_drain []"
  shows "worker_turn race_env tn (Resting (Inr ())) other_queued = (AtEntry [''snap-1.json''] None, [], other_queued)"
    and "worker_turn race_env tn (AtEntry [''snap-1.json''] None) other_queued = (Sending valid_sample [] None, [], other_queued)"
    and "\<exists>disk. worker_turn race_env tn (Sending valid_sample [] None) other_queued
        = (Recording \<lparr>digest = ''04'', accepted_at_unix_secs = 9\<rparr> [] None, [(''snap-1'', ''04'')],
           race_client [] disk ''01'' 0 (Some ''04''))"
    and "worker_turn race_env tn (Recording \<lparr>digest = ''04'', accepted_at_unix_secs = 9\<rparr> [] None)
          (race_client [] disk ''01'' 0 (Some ''04'')) = (AtEntry [] None, [], race_client [] disk ''04'' 9 (Some ''04''))"
    and "worker_turn race_env tn (AtEntry [] None) (race_client [] disk ''04'' 9 (Some ''04''))
        = (Resting (Inr ()), [], race_client [] disk ''04'' 9 None)"
proof -
  have io: "fault_free (dr_io sample_drain)" by (simp add: fault_free_def sample_drain_def)
  have "validate_snapshot valid_sample = Inr ()" by code_simp
  then have r: "read_entry (entry_codec race_env) (dr_io sample_drain) (dl_spool other_queued) ''snap-1.json'' = Inr valid_sample"
    by (simp add: read_entry_def race_env_def sample_delivery_env_def other_queued_def race_client_def sample_drain_def
        sample_codec_def MAX_SNAPSHOT_BYTES_def ends_with_def starts_with_def is_zstd_magic_def)
  have id: "snapshot_id valid_sample = ''snap-1''" by (simp add: valid_sample_def sample_snapshot_def)
  show "worker_turn race_env tn (Resting (Inr ())) other_queued = (AtEntry [''snap-1.json''] None, [], other_queued)"
    by (simp add: tn_def begin_drain_def pending_paths_def pending_files_def sample_drain_def other_queued_def
        race_client_def is_spool_file_def ends_with_def starts_with_def)
  show "worker_turn race_env tn (AtEntry [''snap-1.json''] None) other_queued = (Sending valid_sample [] None, [], other_queued)"
    using r by (simp add: tn_def next_entry_def read_pending_def)
  have "submit_one (dr_submit sample_drain []) (dr_io sample_drain) ''snap-1'' (dl_spool other_queued)
      = (1, [], Inr (), dl_spool other_queued)"
    by (rule submit_one_immediate) (simp_all add: sample_drain_def flaky_server_def)
  then show "\<exists>disk. worker_turn race_env tn (Sending valid_sample [] None) other_queued
        = (Recording \<lparr>digest = ''04'', accepted_at_unix_secs = 9\<rparr> [] None, [(''snap-1'', ''04'')],
           race_client [] disk ''01'' 0 (Some ''04''))"
    using io by (simp add: tn_def end_submission_def id race_digests remove_without_names without_names_def names_of_def
        other_queued_def race_client_def Let_def sample_drain_def split: prod.split)
  show "worker_turn race_env tn (Recording \<lparr>digest = ''04'', accepted_at_unix_secs = 9\<rparr> [] None)
          (race_client [] disk ''01'' 0 (Some ''04'')) = (AtEntry [] None, [], race_client [] disk ''04'' 9 (Some ''04''))"
    by (simp add: race_client_def)
  show "worker_turn race_env tn (AtEntry [] None) (race_client [] disk ''04'' 9 (Some ''04''))
        = (Resting (Inr ()), [], race_client [] disk ''04'' 9 None)"
    by (simp add: tn_def end_drain_def clear_enqueued_if_spool_empty_def pending_paths_def pending_files_def
        sample_drain_def race_client_def)
qed

lemma turn_follows:
  assumes "pipeline_runs env p q" and "worker_turn env tn (pl_worker q) (pl_client q) = (w, acks, st)"
  shows "pipeline_runs env p (after_turn w acks st q)"
  using runs_step [OF assms(1) step_turn [OF assms(2)]] .

lemma late_commit_loses_return:
  "\<exists>q. pipeline_runs race_env (pipeline_start other_queued) q \<and> pl_offer q = None \<and> pl_offered q = [returned]
     \<and> pl_worker q = Resting (Inr ()) \<and> spool_dir (dl_spool (pl_client q)) = []
     \<and> pl_acked q = [(''snap-1'', content_digest race_env valid_sample)]
     \<and> content_digest race_env valid_sample \<noteq> content_digest race_env returned"
proof -
  note turns = race_turns
  let ?tn = "turn_of sample_drain []"
  obtain disk where sent: "worker_turn race_env ?tn (Sending valid_sample [] None) other_queued
        = (Recording \<lparr>digest = ''04'', accepted_at_unix_secs = 9\<rparr> [] None, [(''snap-1'', ''04'')],
           race_client [] disk ''01'' 0 (Some ''04''))" using race_turns(3) by blast
  let ?p = "after_check race_env 0 returned (pipeline_start other_queued)"
  let ?q = "?p\<lparr>pl_client := race_client [] disk ''04'' 9 None, pl_acked := [(''snap-1'', ''04'')]\<rparr>"
  have "full_refresh_interval race_env = 10" by (simp add: race_env_def sample_delivery_env_def)
  then have offer: "pl_offer ?p = Some (returned, False)" "pl_worker ?p = Resting (Inr ())" "pl_client ?p = other_queued"
    by (simp_all add: after_check_def pipeline_start_def due_for_submission_def race_digests other_queued_def
        race_client_def saturating_sub_def Let_def)
  let ?p1 = "after_turn (AtEntry [''snap-1.json''] None) [] other_queued ?p"
  let ?p2 = "after_turn (Sending valid_sample [] None) [] other_queued ?p1"
  let ?p3 = "after_turn (Recording \<lparr>digest = ''04'', accepted_at_unix_secs = 9\<rparr> [] None) [(''snap-1'', ''04'')]
      (race_client [] disk ''01'' 0 (Some ''04'')) ?p2"
  let ?p4 = "after_turn (AtEntry [] None) [] (race_client [] disk ''04'' 9 (Some ''04'')) ?p3"
  note next_turn = turn_follows [where tn = ?tn and env = race_env and p = "pipeline_start other_queued"]
  have "pipeline_runs race_env (pipeline_start other_queued) ?p"
    by (rule runs_step [OF runs_here step_check]) (simp add: pipeline_start_def)
  then have "pipeline_runs race_env (pipeline_start other_queued) ?p1"
    by (rule next_turn) (simp only: offer turns(1))
  then have "pipeline_runs race_env (pipeline_start other_queued) ?p2"
    by (rule next_turn) (simp only: after_turn_simps turns(2))
  then have "pipeline_runs race_env (pipeline_start other_queued) ?p3"
    by (rule next_turn) (simp only: after_turn_simps sent)
  then have "pipeline_runs race_env (pipeline_start other_queued) ?p4"
    by (rule next_turn) (simp only: after_turn_simps turns(4))
  then have "pipeline_runs race_env (pipeline_start other_queued)
      (after_turn (Resting (Inr ())) [] (race_client [] disk ''04'' 9 None) ?p4)"
    by (rule next_turn) (simp only: after_turn_simps turns(5))
  moreover have "after_turn (Resting (Inr ())) [] (race_client [] disk ''04'' 9 None) ?p4 = ?q"
    by (simp add: after_turn_def after_check_def pipeline_start_def)
  ultimately have "pipeline_runs race_env (pipeline_start other_queued) ?q" by (simp only:)
  from runs_step [OF this step_commit [of ?q returned False race_env no_faults "\<lambda>_ _. None" 6]]
  have "pipeline_runs race_env (pipeline_start other_queued) (after_commit race_env no_faults (\<lambda>_ _. None) 6 returned False ?q)"
    using offer(1) by simp
  moreover have "after_commit race_env no_faults (\<lambda>_ _. None) 6 returned False ?q = ?q\<lparr>pl_offer := None\<rparr>"
    by (simp add: after_commit_def enqueue_commit_def race_client_def Let_def)
  ultimately show ?thesis using offer
    by (intro exI [of _ "?q\<lparr>pl_offer := None\<rparr>"]) (simp add: race_client_def race_digests after_check_def pipeline_start_def)
qed

end
