(* ===== verification/Update.thy ===== *)
theory Update
  imports Inventory_Model Snapshot_Validate Json
begin

text \<open>
  The signed-update protocol of \<open>src/update.rs\<close>: the local policy and its validation, hex
  coding, the canonical form of a signed release manifest and its verification, that of the
  package bytes, the staging of a download, and the values of the anti-rollback ledger.
  Ed25519, SHA-256, the text of a JSON value and the order on semantic versions are
  parameters.
\<close>

section \<open>Data\<close>

definition HARD_MAX_DOWNLOAD_BYTES :: u64 where "HARD_MAX_DOWNLOAD_BYTES = 1024 * 1024 * 1024"

datatype package_kind = Deb | Rpm | Msi | Pkg

fun package_kind_as_str :: "package_kind \<Rightarrow> string" where
  "package_kind_as_str Deb = ''deb''"
| "package_kind_as_str Rpm = ''rpm''"
| "package_kind_as_str Msi = ''msi''"
| "package_kind_as_str Pkg = ''pkg''"

text \<open>The operating system that the program was built for.\<close>

datatype target_os = OsLinux | OsWindows | OsMacos | OsOther

fun matches_os :: "target_os \<Rightarrow> package_kind \<Rightarrow> bool" where
  "matches_os os Deb \<longleftrightarrow> os = OsLinux"
| "matches_os os Rpm \<longleftrightarrow> os = OsLinux"
| "matches_os os Msi \<longleftrightarrow> os = OsWindows"
| "matches_os os Pkg \<longleftrightarrow> os = OsMacos"

record trusted_key =
  tk_id :: string
  tk_public_key :: string
  tk_revoked :: bool

record update_config =
  uc_trusted_keys :: "trusted_key list"
  uc_package_kind :: "package_kind option"
  uc_max_download_bytes :: u64
  uc_health_timeout_secs :: u64
  uc_history_limit :: nat
  uc_emergency_version :: "string option"
  uc_windows_signer_thumbprint :: "string option"
  uc_macos_team_id :: "string option"
  uc_allow_self_signed_native :: bool
  uc_macos_signer_sha256 :: "string option"
  uc_native_state_dir :: "string option"

definition default_update_config :: update_config where
  "default_update_config = \<lparr>uc_trusted_keys = [], uc_package_kind = None,
     uc_max_download_bytes = 256 * 1024 * 1024, uc_health_timeout_secs = 180,
     uc_history_limit = 20, uc_emergency_version = None, uc_windows_signer_thumbprint = None,
     uc_macos_team_id = None, uc_allow_self_signed_native = False,
     uc_macos_signer_sha256 = None, uc_native_state_dir = None\<rparr>"

record release_manifest =
  rm_schema :: u32
  rm_key_id :: string
  rm_version :: string
  rm_platform :: string
  rm_package_kind :: package_kind
  rm_size_bytes :: u64
  rm_sha256 :: string
  rm_expires_at :: u64
  rm_sequence :: u64

record signed_manifest =
  sm_manifest :: release_manifest
  sm_signature :: string

text \<open>
  The third-party code: \<open>semver::Version::parse\<close> into a linear order, Ed25519 key decoding
  and strict verification, SHA-256, the compact text of a JSON value with its members in the
  order given, and the build's target triple, operating system and version.
\<close>

record 'v update_env =
  ue_semver :: "string \<Rightarrow> 'v option"
  ue_valid_key :: "u8 list \<Rightarrow> bool"
  ue_verify_strict :: "u8 list \<Rightarrow> u8 list \<Rightarrow> u8 list \<Rightarrow> bool"
  ue_sha256 :: "u8 list \<Rightarrow> u8 list"
  ue_json_bytes :: "json \<Rightarrow> u8 list"
  ue_target_triple :: string
  ue_target_os :: target_os
  ue_pkg_version :: string

definition native_state_dir :: "target_os \<Rightarrow> update_config \<Rightarrow> string" where
  "native_state_dir os uc = unwrap_or (uc_native_state_dir uc)
     (if os = OsWindows then ''C:'' @ [CHR 0x5C] @ ''ProgramData'' @ [CHR 0x5C] @ ''LariskaUpdater''
      else if os = OsMacos then ''/Library/Application Support/LariskaUpdater''
      else ''/var/lib/lariska-updater'')"

section \<open>The canonical form of a manifest\<close>

definition manifest_to_json :: "release_manifest \<Rightarrow> json" where
  "manifest_to_json m = JMap
     [(''schema'', JInt (uint (rm_schema m))),
      (''key_id'', JText (rm_key_id m)),
      (''version'', JText (rm_version m)),
      (''platform'', JText (rm_platform m)),
      (''package_kind'', JText (package_kind_as_str (rm_package_kind m))),
      (''size_bytes'', JInt (uint (rm_size_bytes m))),
      (''sha256'', JText (rm_sha256 m)),
      (''expires_at'', JInt (uint (rm_expires_at m))),
      (''sequence'', JInt (uint (rm_sequence m)))]"

definition canonical_manifest :: "'v update_env \<Rightarrow> release_manifest \<Rightarrow> string + u8 list" where
  "canonical_manifest env m =
     (case manifest_to_json m of
        JMap members \<Rightarrow> Inr (ue_json_bytes env (JMap (btree_collect members)))
      | _ \<Rightarrow> Inl ''release manifest must be an object'')"

section \<open>Hexadecimal and identifiers\<close>

definition encode_hex :: "u8 list \<Rightarrow> string" where
  "encode_hex bytes = hex_lower bytes"

definition hex_value :: "char \<Rightarrow> nat" where
  "hex_value c = (if is_ascii_digit c then scalar c - 48
                  else if is_ascii_lowercase c then scalar c - 87 else scalar c - 55)"

fun hex_pairs :: "string \<Rightarrow> u8 list" where
  "hex_pairs (a # b # s) = of_nat (16 * hex_value a + hex_value b) # hex_pairs s"
| "hex_pairs _ = []"

definition decode_hex :: "nat \<Rightarrow> string \<Rightarrow> string + u8 list" where
  "decode_hex n s =
     (if utf8_len s \<noteq> n * 2 \<or> \<not> list_all is_ascii_hexdigit s
      then Inl (''expected '' @ show_nat (n * 2) @ '' hexadecimal characters'')
      else Inr (hex_pairs s))"

definition validate_nonce :: "string \<Rightarrow> string + unit" where
  "validate_nonce nonce =
     (if utf8_len nonce \<noteq> 32 \<or> \<not> list_all is_lower_hexdigit nonce
      then Inl ''transaction nonce must contain 32 lowercase hex characters'' else Inr ())"

definition safe_id :: "string \<Rightarrow> bool" where
  "safe_id s \<longleftrightarrow> s \<noteq> [] \<and> utf8_len s \<le> 64
     \<and> list_all (\<lambda>c. is_ascii_alphanumeric c \<or> c = CHR ''-'' \<or> c = CHR ''_'') s"

definition parse_version :: "'v update_env \<Rightarrow> string \<Rightarrow> string + 'v" where
  "parse_version env version =
     (if utf8_len version > 128 then Inl ''version is too long''
      else ok_or (ue_semver env version) ''update version must be valid semantic version'')"

section \<open>The local policy\<close>

fun check_keys :: "'v update_env \<Rightarrow> string list \<Rightarrow> trusted_key list \<Rightarrow> string + unit" where
  "check_keys env ids [] = Inr ()"
| "check_keys env ids (key # keys) =
     (if \<not> safe_id (tk_id key) \<or> tk_id key \<in> set ids
      then Inl ''updates key ids must be unique ASCII identifiers''
      else and_then (decode_hex 32 (tk_public_key key)) (\<lambda>bytes.
        if \<not> ue_valid_key env bytes then Inl ''invalid Ed25519 public key''
        else check_keys env (tk_id key # ids) keys))"

definition optionally :: "'a option \<Rightarrow> ('a \<Rightarrow> string + unit) \<Rightarrow> string + unit" where
  "optionally m check = (case m of None \<Rightarrow> Inr () | Some a \<Rightarrow> check a)"

definition validate_update_config :: "'v update_env \<Rightarrow> update_config \<Rightarrow> string + unit" where
  "validate_update_config env uc =
     (if uc_max_download_bytes uc = 0 \<or> uc_max_download_bytes uc > HARD_MAX_DOWNLOAD_BYTES
      then Inl (''updates.max_download_bytes must be between 1 and ''
                @ show_nat (unat HARD_MAX_DOWNLOAD_BYTES))
      else if \<not> (30 \<le> uc_health_timeout_secs uc \<and> uc_health_timeout_secs uc \<le> 3600)
      then Inl ''updates.health_timeout_secs must be between 30 and 3600''
      else if \<not> (1 \<le> uc_history_limit uc \<and> uc_history_limit uc \<le> 100)
      then Inl ''updates.history_limit must be between 1 and 100''
      else if length (uc_trusted_keys uc) > 32
      then Inl ''updates.trusted_keys has more than 32 keys''
      else and_then (check_keys env [] (uc_trusted_keys uc)) (\<lambda>_.
           and_then (optionally (uc_emergency_version uc) (\<lambda>v.
             and_then (parse_version env v) (\<lambda>_. Inr ()))) (\<lambda>_.
           and_then (optionally (uc_native_state_dir uc) (\<lambda>path.
             guard_else (starts_with path ''/'') ''updates.native_state_dir must be absolute'')) (\<lambda>_.
           and_then (optionally (uc_windows_signer_thumbprint uc) (\<lambda>pin.
             guard_else (utf8_len pin = 40 \<and> list_all is_ascii_hexdigit pin)
               ''updates.windows_signer_thumbprint must contain 40 hex characters'')) (\<lambda>_.
           and_then (optionally (uc_macos_team_id uc) (\<lambda>team.
             guard_else (utf8_len team = 10
                 \<and> list_all (\<lambda>c. is_ascii_uppercase c \<or> is_ascii_digit c) team)
               ''updates.macos_team_id must be a 10-character Apple Team ID'')) (\<lambda>_.
           and_then (optionally (uc_macos_signer_sha256 uc) (\<lambda>pin.
             and_then (decode_hex 32 pin) (\<lambda>_. Inr ()))) (\<lambda>_.
           if uc_allow_self_signed_native uc \<and> uc_windows_signer_thumbprint uc = None
              \<and> uc_macos_signer_sha256 uc = None
           then Inl ''self-signed native updates require a locally pinned signing certificate''
           else Inr ())))))))"

section \<open>The ledger\<close>

record pending_update =
  pu_nonce :: string
  pu_version :: string
  pu_sequence :: u64
  pu_started_at :: u64
  pu_deadline :: u64

record history_entry =
  he_nonce :: string
  he_version :: string
  he_sequence :: u64
  he_at :: u64
  he_outcome :: string
  he_reason :: string

record update_ledger =
  floor_version :: string
  floor_sequence :: u64
  ledger_pending :: "pending_update option"
  ledger_history :: "history_entry list"

definition default_ledger :: "'v update_env \<Rightarrow> update_ledger" where
  "default_ledger env = \<lparr>floor_version = ue_pkg_version env, floor_sequence = 0,
     ledger_pending = None, ledger_history = []\<rparr>"

text \<open>What a JSON file on disk is to \<open>read_json\<close>: absent, refused with an error, or a value.\<close>

datatype 'a json_file = Missing | Refused string | Json 'a

fun check_history :: "history_entry list \<Rightarrow> string + unit" where
  "check_history [] = Inr ()"
| "check_history (record' # records) =
     and_then (if he_nonce record' = [] then Inr () else validate_nonce (he_nonce record'))
       (\<lambda>_. check_history records)"

definition read_ledger :: "'v update_env \<Rightarrow> update_ledger json_file \<Rightarrow> string + update_ledger" where
  "read_ledger env file =
     (case file of
        Missing \<Rightarrow> Inr (default_ledger env)
      | Refused e \<Rightarrow> Inl e
      | Json l \<Rightarrow>
          and_then (parse_version env (floor_version l)) (\<lambda>_.
          if length (ledger_history l) > 100 then Inl ''update history exceeds its hard bound''
          else and_then (check_history (ledger_history l)) (\<lambda>_. Inr l)))"

section \<open>Verifying a manifest\<close>

definition find_key :: "update_config \<Rightarrow> string \<Rightarrow> trusted_key option" where
  "find_key uc key_id = find (\<lambda>k. tk_id k = key_id \<and> \<not> tk_revoked k) (uc_trusted_keys uc)"

text \<open>\<open>clock\<close> is the result of \<open>unix_now\<close>.\<close>

definition verify_manifest_inner ::
  "'v update_env \<Rightarrow> update_config \<Rightarrow> string + u64 \<Rightarrow> signed_manifest \<Rightarrow> bool \<Rightarrow> string + unit" where
  "verify_manifest_inner env uc clock sm recovery =
     and_then (validate_update_config env uc) (\<lambda>_.
     let manifest = sm_manifest sm in
     if rm_schema manifest \<noteq> 1 then Inl ''unsupported signed update manifest schema''
     else and_then (parse_version env (rm_version manifest)) (\<lambda>_.
     if rm_platform manifest \<noteq> ue_target_triple env
     then Inl (''foreign-platform manifest: '' @ rm_platform manifest @ '' != '' @ ue_target_triple env)
     else if \<not> matches_os (ue_target_os env) (rm_package_kind manifest)
             \<or> uc_package_kind uc \<noteq> Some (rm_package_kind manifest)
     then Inl ''manifest package kind does not match locally provisioned native installer''
     else if rm_sequence manifest = 0 then Inl ''release sequence must be positive''
     else if rm_size_bytes manifest = 0 \<or> rm_size_bytes manifest > uc_max_download_bytes uc
             \<or> rm_size_bytes manifest > HARD_MAX_DOWNLOAD_BYTES
     then Inl ''signed package size exceeds the local download limit''
     else if utf8_len (rm_sha256 manifest) \<noteq> 64 \<or> \<not> list_all is_lower_hexdigit (rm_sha256 manifest)
     then Inl ''manifest SHA-256 must contain 64 lowercase hex characters''
     else and_then (if recovery then Inr () else and_then clock (\<lambda>now.
            guard_else (\<not> rm_expires_at manifest \<le> now) ''signed update manifest has expired'')) (\<lambda>_.
          and_then (ok_or (find_key uc (rm_key_id manifest))
            ''manifest signing key is unknown or revoked in the local keyring'') (\<lambda>key.
          and_then (decode_hex 32 (tk_public_key key)) (\<lambda>key_bytes.
          if \<not> ue_valid_key env key_bytes then Inl ''invalid Ed25519 public key''
          else and_then (decode_hex 64 (sm_signature sm)) (\<lambda>signature.
          and_then (canonical_manifest env manifest) (\<lambda>bytes.
            guard_else (ue_verify_strict env key_bytes bytes signature)
              ''invalid Ed25519 release manifest signature'')))))))"

definition verify_manifest ::
  "('v::linorder) update_env \<Rightarrow> update_config \<Rightarrow> string + u64 \<Rightarrow> update_ledger json_file
   \<Rightarrow> signed_manifest \<Rightarrow> string + unit" where
  "verify_manifest env uc clock ledger_file sm =
     and_then (verify_manifest_inner env uc clock sm False) (\<lambda>_.
     let manifest = sm_manifest sm in
     and_then (read_ledger env ledger_file) (\<lambda>ledger.
     and_then (parse_version env (floor_version ledger)) (\<lambda>floor_v.
     and_then (parse_version env (rm_version manifest)) (\<lambda>candidate.
     let emergency = (uc_emergency_version uc = Some (rm_version manifest)) in
     if \<not> emergency \<and> (candidate < floor_v \<or> rm_sequence manifest < floor_sequence ledger)
     then Inl (''anti-rollback floor rejects '' @ rm_version manifest @ '' sequence ''
          @ show_nat (unat (rm_sequence manifest)) @ '' (floor '' @ floor_version ledger
          @ '' sequence '' @ show_nat (unat (floor_sequence ledger)) @ '')'')
     else if ledger_pending ledger \<noteq> None then Inl ''an update transaction is already pending''
     else Inr ()))))"

section \<open>Verifying the package\<close>

text \<open>
  What the calls on the path of a package answer: its metadata (whether it is a regular file,
  and its length), whether it opens, and what each read yields, a piece or an error; the file
  may change between them. The pieces end with an empty one or with the list.
\<close>

record artifact_file =
  af_stat :: "string + bool \<times> u64"
  af_open :: "string + unit"
  af_reads :: "(string + u8 list) list"

text \<open>The read loop: the byte count on \<open>u64\<close> and what has been fed to the hash.\<close>

fun hash_loop :: "u64 \<Rightarrow> u64 \<Rightarrow> u8 list \<Rightarrow> (string + u8 list) list \<Rightarrow> string + u64 \<times> u8 list" where
  "hash_loop expected got hashed [] = Inr (got, hashed)"
| "hash_loop expected got hashed (Inl e # pieces) = Inl e"
| "hash_loop expected got hashed (Inr piece # pieces) =
     (if piece = [] then Inr (got, hashed)
      else and_then (ok_or (checked_add got (of_nat (length piece))) ''package length overflow'') (\<lambda>got'.
        if got' > expected then Inl ''package grew beyond signed size while verifying''
        else hash_loop expected got' (hashed @ piece) pieces))"

definition verify_artifact ::
  "'v update_env \<Rightarrow> update_config \<Rightarrow> signed_manifest \<Rightarrow> artifact_file \<Rightarrow> string + unit" where
  "verify_artifact env uc sm artifact =
     (let manifest = sm_manifest sm in
      if rm_size_bytes manifest > uc_max_download_bytes uc \<or> rm_size_bytes manifest > HARD_MAX_DOWNLOAD_BYTES
      then Inl ''package exceeds local size limit''
      else and_then (af_stat artifact) (\<lambda>(is_file, len).
      if \<not> is_file \<or> len \<noteq> rm_size_bytes manifest
      then Inl ''package is not a regular file of the signed size''
      else and_then (af_open artifact) (\<lambda>_.
      and_then (hash_loop (rm_size_bytes manifest) 0 [] (af_reads artifact)) (\<lambda>(got, hashed).
        if got \<noteq> rm_size_bytes manifest \<or> encode_hex (ue_sha256 env hashed) \<noteq> rm_sha256 manifest
        then Inl ''package size or SHA-256 does not match signed manifest''
        else Inr ()))))"

definition read_json :: "'a json_file \<Rightarrow> string + 'a" where
  "read_json file = (case file of Json a \<Rightarrow> Inr a | Refused e \<Rightarrow> Inl e
                     | Missing \<Rightarrow> Inl ''No such file or directory'')"

definition verify_files ::
  "('v::linorder) update_env \<Rightarrow> update_config \<Rightarrow> string + u64 \<Rightarrow> update_ledger json_file
   \<Rightarrow> signed_manifest json_file \<Rightarrow> artifact_file \<Rightarrow> string + release_manifest" where
  "verify_files env uc clock ledger_file manifest_file artifact =
     and_then (read_json manifest_file) (\<lambda>sm.
     and_then (verify_manifest env uc clock ledger_file sm) (\<lambda>_.
     and_then (verify_artifact env uc sm artifact) (\<lambda>_. Inr (sm_manifest sm))))"

definition verify_files_for_recovery ::
  "'v update_env \<Rightarrow> update_config \<Rightarrow> string + u64 \<Rightarrow> signed_manifest json_file \<Rightarrow> artifact_file
   \<Rightarrow> string + release_manifest" where
  "verify_files_for_recovery env uc clock manifest_file artifact =
     and_then (read_json manifest_file) (\<lambda>sm.
     and_then (verify_manifest_inner env uc clock sm True) (\<lambda>_.
     and_then (verify_artifact env uc sm artifact) (\<lambda>_. Inr (sm_manifest sm))))"

section \<open>Staging a download\<close>

datatype stage_op =
    CreateIncoming | ReadIncoming | CreateStaging | SecureStaging | CreateArtifact | WriteArtifact
  | SyncArtifact | WriteManifest | SyncStaging | WriteReady | SyncIncoming
  | RemoveConsumed | RemoveResult

record ready_request =
  rr_nonce :: string
  rr_version :: string
  rr_package_kind :: package_kind
  rr_created_at :: u64

record request_result =
  rq_nonce :: string
  rq_outcome :: string
  rq_at :: u64

text \<open>A directory under \<open>update/incoming\<close>: the package bytes, the manifest, the marker.\<close>

record staged =
  sg_artifact :: "u8 list"
  sg_manifest :: "signed_manifest option"
  sg_ready :: "ready_request option"

type_synonym incoming = "(string \<times> staged) list"

text \<open>
  The agent's side of the shared mailbox: \<open>None\<close> when the directory cannot be opened, and
  what \<open>request-result.json\<close> holds.
\<close>

record mailbox =
  mb_open :: bool
  mb_result :: "request_result json_file"

text \<open>
  The package download: the outcome of sending, whether the final URL kept the server's
  origin, the status, the announced length, and the body pieces.
\<close>

record download =
  dw_sent :: "string + unit"
  dw_same_origin :: bool
  dw_status :: nat
  dw_content_length :: "u64 option"
  dw_chunks :: "(string + u8 list) list"

type_synonym stage_faults = "stage_op \<Rightarrow> string option"

definition stage_or :: "stage_faults \<Rightarrow> stage_op \<Rightarrow> string + unit" where
  "stage_or fault oper = (case fault oper of None \<Rightarrow> Inr () | Some e \<Rightarrow> Inl e)"

definition reap_consumed_request ::
  "stage_faults \<Rightarrow> mailbox \<Rightarrow> incoming \<Rightarrow> (string + unit) \<times> mailbox \<times> incoming" where
  "reap_consumed_request fault mb inc =
     (if \<not> mb_open mb then (Inr (), mb, inc)
      else case mb_result mb of
        Json result \<Rightarrow>
          (case validate_nonce (rq_nonce result) of
             Inl e \<Rightarrow> (Inl e, mb, inc)
           | Inr _ \<Rightarrow>
               if rq_outcome result \<notin> {''accepted'', ''refused''}
               then (Inl ''invalid request consumption result'', mb, inc)
               else case stage_or fault RemoveConsumed of
                 Inl e \<Rightarrow> (Inl e, mb, inc)
               | Inr _ \<Rightarrow>
                   (let inc' = filter (\<lambda>(n, _). n \<noteq> rq_nonce result) inc in
                    case stage_or fault RemoveResult of
                      Inl e \<Rightarrow> (Inl e, mb, inc')
                    | Inr _ \<Rightarrow> (Inr (), mb\<lparr>mb_result := Missing\<rparr>, inc')))
      | _ \<Rightarrow> (Inr (), mb, inc))"

definition bad_update_url :: "string \<Rightarrow> bool" where
  "bad_update_url url \<longleftrightarrow> \<not> starts_with url ''/'' \<or> starts_with url ''//''
     \<or> CHR ''#'' \<in> set url \<or> CHR ''?'' \<in> set url \<or> CHR 0x5C \<in> set url"

fun download_loop ::
  "stage_faults \<Rightarrow> u64 \<Rightarrow> u64 \<Rightarrow> u64 \<Rightarrow> u8 list \<Rightarrow> (string + u8 list) list \<Rightarrow> string + u64 \<times> u8 list" where
  "download_loop fault expected max_bytes got hashed [] = Inr (got, hashed)"
| "download_loop fault expected max_bytes got hashed (Inl e # chunks) =
     Inl (''interrupted package download: '' @ e)"
| "download_loop fault expected max_bytes got hashed (Inr chunk # chunks) =
     and_then (ok_or (checked_add got (of_nat (length chunk))) ''package size overflow'') (\<lambda>got'.
       if got' > expected \<or> got' > max_bytes \<or> got' > HARD_MAX_DOWNLOAD_BYTES
       then Inl ''streamed package exceeds the signed or local size limit''
       else case fault WriteArtifact of
         Some e \<Rightarrow> Inl (''cannot stage package: '' @ e)
       | None \<Rightarrow> download_loop fault expected max_bytes got' (hashed @ chunk) chunks)"

text \<open>The download itself, from the request to the last check on the received bytes.\<close>

definition receive_package ::
  "'v update_env \<Rightarrow> update_config \<Rightarrow> stage_faults \<Rightarrow> download \<Rightarrow> release_manifest \<Rightarrow> string + u8 list" where
  "receive_package env uc fault dw manifest =
     (case dw_sent dw of
        Inl e \<Rightarrow> Inl (''package download failed: '' @ e)
      | Inr _ \<Rightarrow>
        if \<not> dw_same_origin dw
        then Inl ''package download redirected outside the configured server origin''
        else if \<not> (200 \<le> dw_status dw \<and> dw_status dw < 300)
        then Inl (''package download failed: HTTP '' @ show_nat (dw_status dw))
        else if (case dw_content_length dw of Some len \<Rightarrow> len \<noteq> rm_size_bytes manifest | None \<Rightarrow> False)
        then Inl ''HTTP Content-Length does not match signed package size''
        else and_then (download_loop fault (rm_size_bytes manifest) (uc_max_download_bytes uc) 0 []
                 (dw_chunks dw)) (\<lambda>(got, bytes).
          if got \<noteq> rm_size_bytes manifest
          then Inl ''interrupted package download: length differs from signed size''
          else if encode_hex (ue_sha256 env bytes) \<noteq> rm_sha256 manifest
          then Inl ''streamed package SHA-256 differs from signed manifest''
          else Inr bytes))"

text \<open>
  The steps inside the staging directory; an error drops the guard, which removes it.
  \<open>clock'\<close> is the clock when the marker is written.
\<close>

definition stage_release ::
  "'v update_env \<Rightarrow> update_config \<Rightarrow> stage_faults \<Rightarrow> string + u64 \<Rightarrow> download \<Rightarrow> string \<Rightarrow> signed_manifest
   \<Rightarrow> string + staged" where
  "stage_release env uc fault clock' dw nonce sm =
     and_then (stage_or fault SecureStaging) (\<lambda>_.
     and_then (stage_or fault CreateArtifact) (\<lambda>_.
     and_then (receive_package env uc fault dw (sm_manifest sm)) (\<lambda>bytes.
     and_then (case fault SyncArtifact of None \<Rightarrow> Inr () | Some e \<Rightarrow> Inl (''cannot fsync package: '' @ e)) (\<lambda>_.
     and_then (stage_or fault WriteManifest) (\<lambda>_.
     and_then (stage_or fault SyncStaging) (\<lambda>_.
     and_then clock' (\<lambda>now.
     and_then (stage_or fault WriteReady) (\<lambda>_.
     and_then (stage_or fault SyncIncoming) (\<lambda>_.
       Inr \<lparr>sg_artifact = bytes, sg_manifest = Some sm,
            sg_ready = Some \<lparr>rr_nonce = nonce, rr_version = rm_version (sm_manifest sm),
              rr_package_kind = rm_package_kind (sm_manifest sm), rr_created_at = now\<rparr>\<rparr>)))))))))"

text \<open>
  \<open>queue_update\<close>: first the manifest and the URL are checked, then a consumed request is
  reaped, then a new one is staged when none is outstanding. \<open>join_url\<close> is what the \<open>url\<close>
  crate makes of the server's URL: an error, or the function that joins a path to it, which
  answers an error or whether the joined URL has the server's origin. \<open>nonce\<close> is the random
  nonce drawn.
\<close>

definition check_update_url :: "string + (string \<Rightarrow> string + bool) \<Rightarrow> string \<Rightarrow> string + unit" where
  "check_update_url join_url url =
     and_then join_url (\<lambda>base.
     if bad_update_url url
     then Inl ''update download must be an absolute API path without query or fragment''
     else and_then (base url) (\<lambda>same_origin.
       guard_else same_origin ''update URL changed server origin''))"

definition stage_request ::
  "'v update_env \<Rightarrow> update_config \<Rightarrow> stage_faults \<Rightarrow> string + u64 \<Rightarrow> download \<Rightarrow> string \<Rightarrow> signed_manifest
   \<Rightarrow> incoming \<Rightarrow> string + staged" where
  "stage_request env uc fault clock' dw nonce sm inc =
     and_then (stage_or fault CreateIncoming) (\<lambda>_.
     and_then (stage_or fault ReadIncoming) (\<lambda>_.
     and_then (guard_else (inc = []) ''a native update request is already queued'') (\<lambda>_.
     and_then (stage_or fault CreateStaging) (\<lambda>_.
       stage_release env uc fault clock' dw nonce sm))))"

definition queue_update ::
  "('v::linorder) update_env \<Rightarrow> update_config \<Rightarrow> string + u64 \<Rightarrow> string + u64 \<Rightarrow> update_ledger json_file
   \<Rightarrow> string + (string \<Rightarrow> string + bool) \<Rightarrow> stage_faults \<Rightarrow> string \<Rightarrow> download \<Rightarrow> string \<Rightarrow> signed_manifest
   \<Rightarrow> mailbox \<Rightarrow> incoming \<Rightarrow> (string + string) \<times> mailbox \<times> incoming" where
  "queue_update env uc clock clock' ledger_file join_url fault nonce dw url sm mb inc =
     (case and_then (verify_manifest env uc clock ledger_file sm) (\<lambda>_. check_update_url join_url url) of
        Inl e \<Rightarrow> (Inl e, mb, inc)
      | Inr _ \<Rightarrow>
        (case reap_consumed_request fault mb inc of
           (reaped, mb', inc') \<Rightarrow>
             (case and_then reaped (\<lambda>_. stage_request env uc fault clock' dw nonce sm inc') of
                Inl e \<Rightarrow> (Inl e, mb', inc')
              | Inr release \<Rightarrow> (Inr nonce, mb', [(nonce, release)]))))"

section \<open>Operations on the ledger\<close>

definition new_pending :: "update_config \<Rightarrow> string + u64 \<Rightarrow> release_manifest \<Rightarrow> string \<Rightarrow> string + pending_update" where
  "new_pending uc clock manifest nonce =
     and_then clock (\<lambda>now.
     and_then (ok_or (checked_add now (uc_health_timeout_secs uc)) ''deadline overflow'') (\<lambda>deadline.
       Inr \<lparr>pu_nonce = nonce, pu_version = rm_version manifest, pu_sequence = rm_sequence manifest,
            pu_started_at = now, pu_deadline = deadline\<rparr>))"

text \<open>The new ledger of \<open>commit_pending\<close>, \<open>arm_health\<close> and \<open>finish_update\<close>, before it is written.\<close>

definition ledger_commit ::
  "'v update_env \<Rightarrow> update_config \<Rightarrow> string + u64 \<Rightarrow> release_manifest \<Rightarrow> string \<Rightarrow> update_ledger json_file
   \<Rightarrow> string + update_ledger \<times> pending_update" where
  "ledger_commit env uc clock manifest nonce file =
     and_then (validate_nonce nonce) (\<lambda>_.
     and_then (read_ledger env file) (\<lambda>ledger.
     if ledger_pending ledger \<noteq> None then Inl ''update already pending''
     else and_then (new_pending uc clock manifest nonce) (\<lambda>pending.
       Inr (ledger\<lparr>ledger_pending := Some pending\<rparr>, pending))))"

definition ledger_arm ::
  "'v update_env \<Rightarrow> update_config \<Rightarrow> string + u64 \<Rightarrow> string \<Rightarrow> update_ledger json_file
   \<Rightarrow> string + update_ledger \<times> pending_update" where
  "ledger_arm env uc clock nonce file =
     and_then (validate_nonce nonce) (\<lambda>_.
     and_then (read_ledger env file) (\<lambda>ledger.
     and_then (ok_or (ledger_pending ledger) ''no update is pending'') (\<lambda>pending.
     if pu_nonce pending \<noteq> nonce then Inl ''update transaction nonce mismatch''
     else and_then clock (\<lambda>now.
     and_then (ok_or (checked_add now (uc_health_timeout_secs uc)) ''health deadline overflow'') (\<lambda>deadline.
       let pending' = pending\<lparr>pu_started_at := now, pu_deadline := deadline\<rparr>
       in Inr (ledger\<lparr>ledger_pending := Some pending'\<rparr>, pending'))))))"

definition raise_floor :: "('v::linorder) update_env \<Rightarrow> string \<Rightarrow> u64 \<Rightarrow> update_ledger \<Rightarrow> string + update_ledger" where
  "raise_floor env version sequence ledger =
     and_then (parse_version env version) (\<lambda>candidate.
     and_then (parse_version env (floor_version ledger)) (\<lambda>floor_v.
       Inr (ledger\<lparr>floor_version := (if candidate > floor_v then version else floor_version ledger),
                   floor_sequence := max (floor_sequence ledger) sequence\<rparr>)))"

definition finish_record :: "pending_update \<Rightarrow> u64 \<Rightarrow> bool \<Rightarrow> string \<Rightarrow> history_entry" where
  "finish_record pending now healthy reason =
     \<lparr>he_nonce = pu_nonce pending, he_version = pu_version pending,
      he_sequence = pu_sequence pending, he_at = now,
      he_outcome = (if healthy then ''healthy'' else ''rolled_back''), he_reason = take 1024 reason\<rparr>"

definition ledger_finish ::
  "('v::linorder) update_env \<Rightarrow> update_config \<Rightarrow> string + u64 \<Rightarrow> string \<Rightarrow> bool \<Rightarrow> string \<Rightarrow> update_ledger json_file
   \<Rightarrow> string + update_ledger" where
  "ledger_finish env uc clock nonce healthy reason file =
     and_then (validate_nonce nonce) (\<lambda>_.
     and_then (read_ledger env file) (\<lambda>ledger.
     and_then (ok_or (ledger_pending ledger) ''no update is pending'') (\<lambda>pending.
     if pu_nonce pending \<noteq> nonce then Inl ''update transaction nonce mismatch''
     else and_then clock (\<lambda>now.
     and_then (if healthy then raise_floor env (pu_version pending) (pu_sequence pending) ledger
               else Inr ledger) (\<lambda>ledger'.
       let history = ledger_history ledger' @ [finish_record pending now healthy reason];
           excess = length history - uc_history_limit uc
       in Inr (ledger'\<lparr>ledger_pending := None, ledger_history := drop excess history\<rparr>))))))"

section \<open>Health\<close>

record health_ack =
  ha_nonce :: string
  ha_version :: string
  ha_at :: u64

text \<open>\<open>ack_health\<close>: what is published, if anything, from what the mailbox holds.\<close>

definition ack_health ::
  "'v update_env \<Rightarrow> string + u64 \<Rightarrow> bool \<Rightarrow> pending_update json_file \<Rightarrow> string + health_ack option" where
  "ack_health env clock can_open file =
     (if \<not> can_open then Inr None
      else case file of
        Json pending \<Rightarrow>
          and_then (validate_nonce (pu_nonce pending)) (\<lambda>_. and_then clock (\<lambda>now.
            if pu_version pending \<noteq> ue_pkg_version env \<or> now < pu_started_at pending \<or> now > pu_deadline pending
            then Inr None
            else Inr (Some \<lparr>ha_nonce = pu_nonce pending, ha_version = pu_version pending, ha_at = now\<rparr>)))
      | _ \<Rightarrow> Inr None)"

definition health_status_for_pending ::
  "string + u64 \<Rightarrow> bool \<Rightarrow> health_ack json_file \<Rightarrow> pending_update \<Rightarrow> string + bool" where
  "health_status_for_pending clock can_open file pending =
     and_then (validate_nonce (pu_nonce pending)) (\<lambda>_.
     if \<not> can_open then Inr False
     else case file of
       Json ack \<Rightarrow>
         (if ha_nonce ack = pu_nonce pending \<and> ha_version ack = pu_version pending
             \<and> ha_at ack \<ge> pu_started_at pending \<and> ha_at ack \<le> pu_deadline pending
          then and_then clock (\<lambda>now. Inr (ha_at ack \<le> now)) else Inr False)
     | _ \<Rightarrow> Inr False)"

definition health_status ::
  "string + u64 \<Rightarrow> bool \<Rightarrow> pending_update json_file \<Rightarrow> health_ack json_file \<Rightarrow> string \<Rightarrow> string \<Rightarrow> string + bool" where
  "health_status clock can_open pending_file file nonce version =
     and_then (validate_nonce nonce) (\<lambda>_.
     if \<not> can_open then Inr False
     else case pending_file of
       Json pending \<Rightarrow>
         (if pu_nonce pending \<noteq> nonce \<or> pu_version pending \<noteq> version then Inr False
          else health_status_for_pending clock can_open file pending)
     | _ \<Rightarrow> Inr False)"

section \<open>Lemmas\<close>

lemma scalar_hex_digit: "n < 16 \<Longrightarrow> scalar (hex_digit n) = (if n < 10 then 48 + n else 87 + n)"
  by (simp add: hex_digit_def)

lemma hex_value_digit [simp]: "n < 16 \<Longrightarrow> hex_value (hex_digit n) = n"
  by (simp add: hex_value_def is_ascii_digit_def is_ascii_lowercase_def scalar_hex_digit)

lemma unat_u8_less: "unat (b :: u8) < 256"
  using unsigned_less [of b] by simp

lemma hex_pairs_encode [simp]: "hex_pairs (encode_hex bs) = bs"
proof (induction bs)
  case (Cons b bs)
  have n: "unat b div 16 < 16" "unat b mod 16 < 16" using unat_u8_less [of b] by auto
  then have "(of_nat (16 * (unat b div 16) + unat b mod 16) :: u8) = b"
    by (simp only: mult_div_mod_eq) simp
  with Cons n show ?case by (simp add: encode_hex_def hex_lower_def)
qed (simp add: encode_hex_def hex_lower_def)

lemma hex_value_less: "is_ascii_hexdigit c \<Longrightarrow> hex_value c < 16"
  by (auto simp: hex_value_def char_class_defs)

lemma hex_digit_value: "is_ascii_hexdigit c \<Longrightarrow> hex_digit (hex_value c) = ascii_lower c"
  by (rule iffD1 [OF scalar_eq_iff])
     (auto simp: scalar_hex_digit hex_value_less scalar_ascii_lower,
      auto simp: hex_value_def char_class_defs)

lemma encode_hex_pairs:
  "even (length s) \<Longrightarrow> list_all is_ascii_hexdigit s \<Longrightarrow>
   encode_hex (hex_pairs s) = to_ascii_lowercase s \<and> 2 * length (hex_pairs s) = length s"
proof (induction s rule: hex_pairs.induct)
  case (1 a b s)
  then have n: "hex_value a < 16" "hex_value b < 16" by (auto intro: hex_value_less)
  then have "unat (of_nat (16 * hex_value a + hex_value b) :: u8) = 16 * hex_value a + hex_value b"
    by (simp add: unat_of_nat del: of_nat_add of_nat_mult)
  with n have "unat (of_nat (16 * hex_value a + hex_value b) :: u8) div 16 = hex_value a"
    "unat (of_nat (16 * hex_value a + hex_value b) :: u8) mod 16 = hex_value b" by simp_all
  with 1 show ?case
    by (simp add: encode_hex_def hex_lower_def to_ascii_lowercase_def hex_digit_value del: of_nat_add of_nat_mult)
qed (auto simp: encode_hex_def hex_lower_def to_ascii_lowercase_def)

lemma length_encode_hex: "length (encode_hex bs) = 2 * length bs"
  by (simp add: encode_hex_def length_hex_lower)

lemma hexdigits_utf8_len: "list_all is_ascii_hexdigit s \<Longrightarrow> utf8_len s = length s"
  by (rule utf8_len_ascii) (auto simp: list_all_iff hexdigit_ascii)

lemma decode_encode: "decode_hex (length bs) (encode_hex bs) = Inr bs"
proof -
  have "list_all is_ascii_hexdigit (encode_hex bs)" by (simp add: encode_hex_def hex_lower_hex)
  then show ?thesis by (simp add: decode_hex_def hexdigits_utf8_len length_encode_hex)
qed

lemma decode_hex_sound:
  "decode_hex n s = Inr bs \<Longrightarrow> length bs = n \<and> encode_hex bs = to_ascii_lowercase s"
  using encode_hex_pairs [of s]
  by (auto simp: decode_hex_def hexdigits_utf8_len split: if_splits)

text \<open>What the read loop sees: the pieces up to the first empty read.\<close>

fun read_bytes :: "(string + u8 list) list \<Rightarrow> u8 list" where
  "read_bytes (Inr p # ps) = (if p = [] then [] else p @ read_bytes ps)"
| "read_bytes _ = []"

definition artifact_bytes :: "artifact_file \<Rightarrow> u8 list" where
  "artifact_bytes a = read_bytes (af_reads a)"

text \<open>Reads and network chunks fit the buffers they arrive in, far below \<open>2 ^ 64\<close> bytes.\<close>

definition small_pieces :: "(string + u8 list) list \<Rightarrow> bool" where
  "small_pieces ps \<longleftrightarrow> (\<forall>p. Inr p \<in> set ps \<longrightarrow> length p < 2 ^ 64)"

lemma checked_add_length:
  assumes "checked_add c (of_nat (length p)) = Some d" and "unat c = n" and "length p < 2 ^ 64"
  shows "unat d = n + length p"
  using checked_add_Some [OF assms(1)] assms(2,3) by (simp add: unat_of_nat)

lemma encode_hex_lower: "list_all is_lower_hexdigit (encode_hex bs)"
proof (induction bs)
  case (Cons b bs)
  have n: "unat b div 16 < 16" "unat b mod 16 < 16" using unat_u8_less [of b] by auto
  then have "is_lower_hexdigit (hex_digit (unat b div 16)) \<and> is_lower_hexdigit (hex_digit (unat b mod 16))"
    by (auto simp: is_lower_hexdigit_def is_ascii_digit_def scalar_hex_digit)
  with Cons show ?case by (simp add: encode_hex_def hex_lower_def)
qed (simp add: encode_hex_def hex_lower_def)

lemma utf8_len_encode_hex [simp]: "utf8_len (encode_hex bs) = 2 * length bs"
  by (simp add: hexdigits_utf8_len encode_hex_def hex_lower_hex length_hex_lower)

lemma decode_encode_replicate [simp]: "decode_hex n (encode_hex (replicate n b)) = Inr (replicate n b)"
  using decode_encode [of "replicate n b"] by simp

lemma validate_nonce_encoded [simp]: "length bs = 16 \<Longrightarrow> validate_nonce (encode_hex bs) = Inr ()"
  by (simp add: validate_nonce_def encode_hex_lower)

lemma hash_loop_sound:
  assumes "hash_loop n c h ps = Inr (c', h')" and "unat c = length h" and "small_pieces ps"
  shows "h' = h @ read_bytes ps \<and> unat c' = length h'"
  using assms
proof (induction n c h ps rule: hash_loop.induct)
  case (3 n c h p ps)
  show ?case
  proof (cases "p = []")
    case False
    from "3.prems" False obtain d where d: "checked_add c (of_nat (length p)) = Some d" and le: "\<not> d > n"
      and rest: "hash_loop n d (h @ p) ps = Inr (c', h')"
      by (auto simp: and_then_Inr_iff split: if_splits)
    have "unat d = length (h @ p)"
      using checked_add_length [OF d "3.prems"(2)] "3.prems"(3) by (simp add: small_pieces_def)
    with "3.IH" [OF False le rest] "3.prems"(3) False show ?thesis by (simp add: small_pieces_def)
  qed (use "3.prems" in simp)
qed auto

lemma download_loop_sound:
  assumes "download_loop fault n m c h cs = Inr (c', h')" and "unat c = length h"
    and "\<forall>p. Inr p \<in> set cs \<longrightarrow> length p < 2 ^ 64"
  shows "unat c' = length h'"
  using assms
proof (induction fault n m c h cs rule: download_loop.induct)
  case (3 fault n m c h p cs)
  from "3.prems" obtain d where d: "checked_add c (of_nat (length p)) = Some d"
    and ok: "\<not> (d > n \<or> d > m \<or> d > HARD_MAX_DOWNLOAD_BYTES)" "fault WriteArtifact = None"
    and rest: "download_loop fault n m d (h @ p) cs = Inr (c', h')"
    by (auto simp: and_then_Inr_iff split: if_splits option.splits)
  have "unat d = length (h @ p)"
    using checked_add_length [OF d "3.prems"(2)] "3.prems"(3) by simp
  with "3.IH" [OF ok rest] "3.prems"(3) show ?case by simp
qed auto

text \<open>The signed bytes have the members in the order of their names and bind every field.\<close>

lemma canonical_manifest_sorted:
  "canonical_manifest env m = Inr (ue_json_bytes env (JMap
     [(''expires_at'', JInt (uint (rm_expires_at m))),
      (''key_id'', JText (rm_key_id m)),
      (''package_kind'', JText (package_kind_as_str (rm_package_kind m))),
      (''platform'', JText (rm_platform m)),
      (''schema'', JInt (uint (rm_schema m))),
      (''sequence'', JInt (uint (rm_sequence m))),
      (''sha256'', JText (rm_sha256 m)),
      (''size_bytes'', JInt (uint (rm_size_bytes m))),
      (''version'', JText (rm_version m))]))"
  by (simp add: canonical_manifest_def manifest_to_json_def btree_collect_def)

lemma inj_package_kind_as_str: "package_kind_as_str k = package_kind_as_str k' \<longleftrightarrow> k = k'"
  by (cases k; cases k') simp_all

theorem canonical_manifest_binds_every_field:
  assumes "inj (ue_json_bytes env)"
  shows "canonical_manifest env m = canonical_manifest env m' \<longleftrightarrow> m = m'"
  by (cases m; cases m')
    (auto simp: canonical_manifest_sorted inj_eq [OF assms] inj_package_kind_as_str word_uint_eq_iff)

text \<open>Who signed a manifest: an unrevoked key of the local keyring.\<close>

definition authentic :: "'v update_env \<Rightarrow> update_config \<Rightarrow> signed_manifest \<Rightarrow> bool" where
  "authentic env uc sm \<longleftrightarrow> (\<exists>key\<in>set (uc_trusted_keys uc). \<exists>pub bytes sig.
     tk_id key = rm_key_id (sm_manifest sm) \<and> \<not> tk_revoked key
     \<and> decode_hex 32 (tk_public_key key) = Inr pub \<and> decode_hex 64 (sm_signature sm) = Inr sig
     \<and> canonical_manifest env (sm_manifest sm) = Inr bytes \<and> ue_verify_strict env pub bytes sig)"

lemma find_key_Some:
  "find_key uc k = Some key \<Longrightarrow> key \<in> set (uc_trusted_keys uc) \<and> tk_id key = k \<and> \<not> tk_revoked key"
  by (auto simp: find_key_def find_Some_iff)

lemma verify_inner_sound:
  assumes "verify_manifest_inner env uc clock sm recovery = Inr ()"
  shows "authentic env uc sm" and "rm_schema (sm_manifest sm) = 1"
    and "rm_platform (sm_manifest sm) = ue_target_triple env"
    and "uc_package_kind uc = Some (rm_package_kind (sm_manifest sm))"
    and "matches_os (ue_target_os env) (rm_package_kind (sm_manifest sm))"
    and "0 < rm_size_bytes (sm_manifest sm)" "rm_size_bytes (sm_manifest sm) \<le> uc_max_download_bytes uc"
    and "rm_size_bytes (sm_manifest sm) \<le> HARD_MAX_DOWNLOAD_BYTES"
    and "0 < rm_sequence (sm_manifest sm)"
    and "validate_update_config env uc = Inr ()"
    and "\<exists>v. parse_version env (rm_version (sm_manifest sm)) = Inr v"
    and "\<not> recovery \<Longrightarrow> \<exists>now. clock = Inr now \<and> now < rm_expires_at (sm_manifest sm)"
  using assms find_key_Some [of uc "rm_key_id (sm_manifest sm)"]
  by (auto simp: verify_manifest_inner_def Let_def and_then_Inr_iff authentic_def word_neq_0_conv not_le
      split: if_splits)

lemma verify_manifest_sound:
  assumes "verify_manifest env uc clock file sm = Inr ()"
  shows "verify_manifest_inner env uc clock sm False = Inr ()"
    and "\<exists>ledger floor_v candidate. read_ledger env file = Inr ledger
      \<and> parse_version env (floor_version ledger) = Inr floor_v
      \<and> parse_version env (rm_version (sm_manifest sm)) = Inr candidate
      \<and> ledger_pending ledger = None
      \<and> (uc_emergency_version uc = Some (rm_version (sm_manifest sm))
          \<or> floor_v \<le> candidate \<and> floor_sequence ledger \<le> rm_sequence (sm_manifest sm))"
  using assms
  by (auto simp: verify_manifest_def Let_def and_then_Inr_iff not_less split: if_splits)

lemma verify_artifact_sound:
  assumes "verify_artifact env uc sm a = Inr ()" and "small_pieces (af_reads a)"
  shows "encode_hex (ue_sha256 env (artifact_bytes a)) = rm_sha256 (sm_manifest sm)
    \<and> length (artifact_bytes a) = unat (rm_size_bytes (sm_manifest sm)) \<and> af_stat a = Inr (True, rm_size_bytes (sm_manifest sm))"
  using assms hash_loop_sound [of "rm_size_bytes (sm_manifest sm)" 0 "[]" "af_reads a"]
  by (auto simp: verify_artifact_def Let_def and_then_Inr_iff artifact_bytes_def split: if_splits prod.splits)

lemma receive_package_sound:
  assumes "receive_package env uc fault dw m = Inr bytes"
    and "\<forall>p. Inr p \<in> set (dw_chunks dw) \<longrightarrow> length p < 2 ^ 64"
  shows "encode_hex (ue_sha256 env bytes) = rm_sha256 m \<and> length bytes = unat (rm_size_bytes m)"
  using assms download_loop_sound [of fault "rm_size_bytes m" "uc_max_download_bytes uc" 0 "[]" "dw_chunks dw"]
  by (auto simp: receive_package_def and_then_Inr_iff split: if_splits sum.splits option.splits prod.splits)

lemma reap_removes:
  "reap_consumed_request fault mb inc = (r, mb', inc') \<Longrightarrow> set inc' \<subseteq> set inc"
  by (auto simp: reap_consumed_request_def Let_def split: if_splits json_file.splits sum.splits)

text \<open>The two ways \<open>queue_update\<close> can end.\<close>

lemma queue_update_refused:
  assumes "queue_update env uc clock clock' ledger_file join_url fault nonce dw url sm mb inc = (Inl e, mb', inc')"
  shows "set inc' \<subseteq> set inc"
proof (cases "and_then (verify_manifest env uc clock ledger_file sm) (\<lambda>_. check_update_url join_url url)")
  case (Inl e')
  with assms show ?thesis by (simp add: queue_update_def)
next
  case (Inr u)
  obtain reaped mb1 inc1 where reap: "reap_consumed_request fault mb inc = (reaped, mb1, inc1)"
    by (metis prod_cases3)
  with assms Inr reap_removes [OF reap] show ?thesis
    by (auto simp: queue_update_def split: sum.splits)
qed

lemma queue_update_staged:
  assumes "queue_update env uc clock clock' ledger_file join_url fault nonce dw url sm mb inc = (Inr n, mb', inc')"
  shows "n = nonce \<and> verify_manifest env uc clock ledger_file sm = Inr () \<and> check_update_url join_url url = Inr ()
    \<and> (\<exists>st. inc' = [(nonce, st)] \<and> stage_release env uc fault clock' dw nonce sm = Inr st)"
proof (cases "and_then (verify_manifest env uc clock ledger_file sm) (\<lambda>_. check_update_url join_url url)")
  case (Inl e)
  with assms show ?thesis by (simp add: queue_update_def)
next
  case (Inr u)
  obtain reaped mb1 inc1 where "reap_consumed_request fault mb inc = (reaped, mb1, inc1)"
    by (metis prod_cases3)
  with assms Inr show ?thesis
    by (auto simp: queue_update_def and_then_Inr_iff stage_request_def split: sum.splits)
qed

lemma stage_release_sound:
  assumes "stage_release env uc fault clock' dw nonce sm = Inr st"
    and "\<forall>p. Inr p \<in> set (dw_chunks dw) \<longrightarrow> length p < 2 ^ 64"
  shows "sg_manifest st = Some sm \<and> map_option rr_nonce (sg_ready st) = Some nonce
    \<and> encode_hex (ue_sha256 env (sg_artifact st)) = rm_sha256 (sm_manifest sm)
    \<and> length (sg_artifact st) = unat (rm_size_bytes (sm_manifest sm))"
proof -
  from assms(1) obtain bytes now where b: "receive_package env uc fault dw (sm_manifest sm) = Inr bytes"
    "st = \<lparr>sg_artifact = bytes, sg_manifest = Some sm,
            sg_ready = Some \<lparr>rr_nonce = nonce, rr_version = rm_version (sm_manifest sm),
              rr_package_kind = rm_package_kind (sm_manifest sm), rr_created_at = now\<rparr>\<rparr>"
    unfolding stage_release_def and_then_Inr_iff by blast
  with receive_package_sound [OF b(1) assms(2)] show ?thesis by simp
qed

lemma lower_hexdigit_string: "list_all is_lower_hexdigit s \<Longrightarrow> list_all is_ascii_hexdigit s"
  by (auto simp: list_all_iff lower_hexdigit_is_hexdigit)

text \<open>What a ledger on disk must satisfy to be read.\<close>

definition readable_ledger :: "'v update_env \<Rightarrow> update_ledger \<Rightarrow> bool" where
  "readable_ledger env l \<longleftrightarrow> (\<exists>v. parse_version env (floor_version l) = Inr v)
     \<and> length (ledger_history l) \<le> 100
     \<and> (\<forall>r\<in>set (ledger_history l). he_nonce r = [] \<or> validate_nonce (he_nonce r) = Inr ())"

lemma check_history_iff:
  "check_history rs = Inr () \<longleftrightarrow> (\<forall>r\<in>set rs. he_nonce r = [] \<or> validate_nonce (he_nonce r) = Inr ())"
  by (induction rs) (auto simp: and_then_Inr_iff)

lemma read_ledger_Json: "read_ledger env (Json l) = Inr l' \<longleftrightarrow> l' = l \<and> readable_ledger env l"
  by (auto simp: read_ledger_def readable_ledger_def and_then_Inr_iff check_history_iff)

lemma read_ledger_readable:
  assumes "read_ledger env file = Inr l" and "\<exists>v. parse_version env (ue_pkg_version env) = Inr v"
  shows "readable_ledger env l"
  using assms
  by (auto simp: read_ledger_def readable_ledger_def default_ledger_def and_then_Inr_iff check_history_iff
      split: json_file.splits if_splits)

text \<open>The order of floors: the version and the sequence both at least as high.\<close>

definition floor_le :: "('v::linorder) update_env \<Rightarrow> update_ledger \<Rightarrow> update_ledger \<Rightarrow> bool" where
  "floor_le env l l' \<longleftrightarrow> floor_sequence l \<le> floor_sequence l'
     \<and> (\<exists>v v'. parse_version env (floor_version l) = Inr v \<and> parse_version env (floor_version l') = Inr v'
          \<and> v \<le> v')"

lemma raise_floor_le:
  assumes "raise_floor env version sq l = Inr l'"
  shows "floor_le env l l' \<and> ledger_pending l' = ledger_pending l \<and> ledger_history l' = ledger_history l
    \<and> sq \<le> floor_sequence l'
    \<and> (\<exists>v v'. parse_version env version = Inr v \<and> parse_version env (floor_version l') = Inr v' \<and> v \<le> v')"
proof -
  obtain c f where cf: "parse_version env version = Inr c" "parse_version env (floor_version l) = Inr f"
    and l': "l' = l\<lparr>floor_version := (if c > f then version else floor_version l),
        floor_sequence := max (floor_sequence l) sq\<rparr>"
    using assms by (auto simp: raise_floor_def and_then_Inr_iff)
  then show ?thesis by (cases "c > f") (auto simp: floor_le_def)
qed

lemma ledger_finish_sound:
  assumes "ledger_finish env uc clock nonce healthy reason file = Inr l'"
    and "read_ledger env file = Inr l" and "readable_ledger env l"
  obtains p now where "ledger_pending l = Some p" and "pu_nonce p = nonce" and "validate_nonce nonce = Inr ()"
    and "clock = Inr now" and "floor_le env l l'" and "ledger_pending l' = None"
    and "\<not> healthy \<Longrightarrow> floor_version l' = floor_version l \<and> floor_sequence l' = floor_sequence l"
    and "healthy \<Longrightarrow> pu_sequence p \<le> floor_sequence l' \<and> (\<exists>v v'. parse_version env (pu_version p) = Inr v
          \<and> parse_version env (floor_version l') = Inr v' \<and> v \<le> v')"
    and "ledger_history l' = drop (length (ledger_history l) + 1 - uc_history_limit uc)
          (ledger_history l @ [finish_record p now healthy reason])"
proof -
  from assms(1,2) obtain p now l1 where p: "ledger_pending l = Some p" "pu_nonce p = nonce"
      "validate_nonce nonce = Inr ()" "clock = Inr now"
    and l1: "(if healthy then raise_floor env (pu_version p) (pu_sequence p) l else Inr l) = Inr l1"
    and l': "l' = l1\<lparr>ledger_pending := None, ledger_history :=
        drop (length (ledger_history l1) + 1 - uc_history_limit uc)
          (ledger_history l1 @ [finish_record p now healthy reason])\<rparr>"
    unfolding ledger_finish_def by (auto simp: and_then_Inr_iff Let_def split: if_splits)
  have fl: "floor_le env l l1 \<and> ledger_history l1 = ledger_history l"
    using l1 raise_floor_le [of env "pu_version p" "pu_sequence p" l l1] assms(3)
    by (cases healthy) (auto simp: floor_le_def readable_ledger_def)
  show thesis
  proof (rule that [OF p])
    show "floor_le env l l'" using fl by (simp add: l' floor_le_def)
    show "ledger_pending l' = None" by (simp add: l')
    show "\<not> healthy \<Longrightarrow> floor_version l' = floor_version l \<and> floor_sequence l' = floor_sequence l"
      using l1 by (simp add: l')
    show "healthy \<Longrightarrow> pu_sequence p \<le> floor_sequence l' \<and> (\<exists>v v'. parse_version env (pu_version p) = Inr v
          \<and> parse_version env (floor_version l') = Inr v' \<and> v \<le> v')"
      using l1 raise_floor_le [of env "pu_version p" "pu_sequence p" l l1] by (simp add: l')
    show "ledger_history l' = drop (length (ledger_history l) + 1 - uc_history_limit uc)
          (ledger_history l @ [finish_record p now healthy reason])"
      using fl by (simp add: l')
  qed
qed

lemma ledger_finish_readable:
  assumes "ledger_finish env uc clock nonce healthy reason file = Inr l'"
    and "read_ledger env file = Inr l" and "readable_ledger env l" and "uc_history_limit uc \<le> 100"
  shows "readable_ledger env l'"
proof -
  from ledger_finish_sound [OF assms(1-3)] obtain p now where
    p: "pu_nonce p = nonce" "validate_nonce nonce = Inr ()" "floor_le env l l'"
      "ledger_history l' = drop (length (ledger_history l) + 1 - uc_history_limit uc)
          (ledger_history l @ [finish_record p now healthy reason])" by metis
  have "length (ledger_history l') \<le> 100" using p(4) assms(4) by simp
  moreover have "\<forall>x\<in>set (ledger_history l'). he_nonce x = [] \<or> validate_nonce (he_nonce x) = Inr ()"
  proof
    fix x assume "x \<in> set (ledger_history l')"
    then have "x \<in> set (ledger_history l @ [finish_record p now healthy reason])"
      unfolding p(4) by (rule in_set_dropD)
    then show "he_nonce x = [] \<or> validate_nonce (he_nonce x) = Inr ()"
      using assms(3) p(1,2) by (auto simp: readable_ledger_def finish_record_def)
  qed
  ultimately show ?thesis using p(3) by (auto simp: readable_ledger_def floor_le_def)
qed

section \<open>Properties\<close>

text \<open>
  Hexadecimal coding is exact: decoding what was encoded gives the bytes back, and a
  string is decoded only when it has the demanded length, to bytes that encode to the
  string in lower case.
\<close>

theorem hex_round_trip:
  "decode_hex (length bs) (encode_hex bs) = Inr bs
   \<and> (\<forall>n s out. decode_hex n s = Inr out \<longrightarrow> length out = n \<and> encode_hex out = to_ascii_lowercase s)"
  by (auto simp: decode_encode decode_hex_sound)

theorem hex_round_trip_witness:
  "encode_hex [0xAB, 0x0F] = to_ascii_lowercase ''aB0f''"
proof -
  have "decode_hex 2 ''aB0f'' = Inr [0xAB, 0x0F]" by code_simp
  then show ?thesis using hex_round_trip [of "[]"] by blast
qed

text \<open>
  C24. No package is accepted without proof of origin: when the files of a request verify,
  the manifest carries a valid signature of an unrevoked key of the local keyring over its
  canonical bytes, is for this platform and installer, has not expired, does not go below
  the anti-rollback floor unless the administrator authorised exactly this version, and the
  bytes read have the signed length and hash, within the local and the hard size limits.
\<close>

theorem verified_package_is_authentic:
  assumes "verify_files env uc clock ledger_file manifest_file artifact = Inr m"
    and "small_pieces (af_reads artifact)"
  shows "\<exists>sm ledger floor_v candidate now. manifest_file = Json sm \<and> m = sm_manifest sm \<and> authentic env uc sm
    \<and> rm_platform m = ue_target_triple env \<and> uc_package_kind uc = Some (rm_package_kind m)
    \<and> clock = Inr now \<and> now < rm_expires_at m
    \<and> read_ledger env ledger_file = Inr ledger \<and> ledger_pending ledger = None
    \<and> parse_version env (floor_version ledger) = Inr floor_v
    \<and> parse_version env (rm_version m) = Inr candidate
    \<and> (uc_emergency_version uc = Some (rm_version m)
        \<or> floor_v \<le> candidate \<and> floor_sequence ledger \<le> rm_sequence m)
    \<and> encode_hex (ue_sha256 env (artifact_bytes artifact)) = rm_sha256 m
    \<and> length (artifact_bytes artifact) = unat (rm_size_bytes m)
    \<and> rm_size_bytes m \<le> uc_max_download_bytes uc \<and> rm_size_bytes m \<le> HARD_MAX_DOWNLOAD_BYTES"
proof -
  from assms(1) obtain sm where sm: "manifest_file = Json sm" "m = sm_manifest sm"
    and vm: "verify_manifest env uc clock ledger_file sm = Inr ()"
    and va: "verify_artifact env uc sm artifact = Inr ()"
    by (auto simp: verify_files_def read_json_def and_then_Inr_iff split: json_file.splits)
  note inner = verify_manifest_sound(1) [OF vm]
  show ?thesis
    using verify_inner_sound [OF inner] verify_manifest_sound(2) [OF vm]
      verify_artifact_sound [OF va assms(2)] sm by blast
qed

definition sample_update_env :: "nat update_env" where
  "sample_update_env = \<lparr>ue_semver = (\<lambda>s. if s = [] then None else Some (length s)), ue_valid_key = (\<lambda>k. length k = 32),
     ue_verify_strict = (\<lambda>k m s. s = replicate 64 0), ue_sha256 = (\<lambda>_. replicate 32 0),
     ue_json_bytes = (\<lambda>_. []), ue_target_triple = ''t'', ue_target_os = OsLinux,
     ue_pkg_version = ''1''\<rparr>"

definition sample_policy :: update_config where
  "sample_policy = default_update_config\<lparr>uc_package_kind := Some Deb,
     uc_trusted_keys := [\<lparr>tk_id = ''k'', tk_public_key = encode_hex (replicate 32 0), tk_revoked = False\<rparr>]\<rparr>"

definition sample_release :: signed_manifest where
  "sample_release = \<lparr>sm_manifest = \<lparr>rm_schema = 1, rm_key_id = ''k'', rm_version = ''1.1'', rm_platform = ''t'',
     rm_package_kind = Deb, rm_size_bytes = 2, rm_sha256 = encode_hex (replicate 32 0),
     rm_expires_at = 100, rm_sequence = 5\<rparr>, sm_signature = encode_hex (replicate 64 0)\<rparr>"

definition sample_artifact :: artifact_file where
  "sample_artifact = \<lparr>af_stat = Inr (True, 2), af_open = Inr (), af_reads = [Inr [1], Inr [2]]\<rparr>"

lemma utf8_len_Cons: "utf8_len (c # s) = (if scalar c < 128 then 1 else 2) + utf8_len s"
  by (simp add: utf8_len_def)

lemmas sample_verify_defs =
  sample_update_env_def sample_policy_def sample_release_def default_update_config_def
  verify_manifest_def verify_manifest_inner_def validate_update_config_def
  canonical_manifest_def manifest_to_json_def
  read_ledger_def default_ledger_def parse_version_def optionally_def find_key_def safe_id_def
  HARD_MAX_DOWNLOAD_BYTES_def utf8_len_Cons scalar_def is_ascii_alphanumeric_def
  is_ascii_digit_def is_ascii_lowercase_def encode_hex_lower Let_def

lemma sample_verifies:
  "verify_files sample_update_env sample_policy (Inr 7) Missing (Json sample_release) sample_artifact
     = Inr (sm_manifest sample_release)"
  by (simp add: sample_verify_defs verify_files_def sample_artifact_def verify_artifact_def read_json_def
      checked_add_def)

theorem verified_package_is_authentic_witness:
  "authentic sample_update_env sample_policy sample_release
   \<and> encode_hex (ue_sha256 sample_update_env [1, 2]) = rm_sha256 (sm_manifest sample_release)"
proof -
  have "small_pieces (af_reads sample_artifact)" by (simp add: small_pieces_def sample_artifact_def)
  from verified_package_is_authentic [OF sample_verifies this] show ?thesis
    by (auto simp: artifact_bytes_def sample_artifact_def)
qed


definition sample_download :: download where
  "sample_download = \<lparr>dw_sent = Inr (), dw_same_origin = True, dw_status = 200, dw_content_length = Some 2,
     dw_chunks = [Inr [1], Inr [2]]\<rparr>"



definition sample_ledger :: update_ledger where
  "sample_ledger = \<lparr>floor_version = ''1'', floor_sequence = 4, ledger_pending = Some \<lparr>pu_nonce = encode_hex (replicate 16 170),
     pu_version = ''1.1'', pu_sequence = 5, pu_started_at = 7, pu_deadline = 187\<rparr>, ledger_history = []\<rparr>"


end
