(* ===== verification/Native_Update.thy ===== *)
theory Native_Update
  imports Update
begin

text \<open>
  The privileged supervisor of \<open>src/native_update.rs\<close>. Its durable state is the protected
  directory (ledger, journal, package cache) and the mailbox it shares with the endpoint;
  the in-memory journal is the one the code passes as \<open>&mut Journal\<close>. Every durable step can
  fail, can take effect and still report a failure, or can be the last thing the process
  does before it crashes: the plan of those faults is an input, so a statement about all
  plans covers a crash between any two steps. What was handed to the operating system's
  installer is recorded in \<open>nd_installs\<close>.
\<close>

section \<open>State\<close>

definition MAX_JOURNAL_BYTES :: nat where "MAX_JOURNAL_BYTES = 64 * 1024"
definition MAX_REQUESTS :: nat where "MAX_REQUESTS = 200"

record cached_release =
  cr_manifest :: release_manifest
  cr_directory :: string

record native_pending =
  np_release :: cached_release
  np_nonce :: string
  np_started_at :: u64

record consumed_request =
  cq_nonce :: string
  cq_version :: string
  cq_sequence :: u64

record journal =
  jn_active :: "cached_release option"
  jn_pending :: "native_pending option"
  jn_consumed :: "consumed_request list"

definition default_journal :: journal where
  "default_journal = \<lparr>jn_active = None, jn_pending = None, jn_consumed = []\<rparr>"

text \<open>A directory of the cache: what its \<open>manifest.json\<close> and its \<open>artifact\<close> are.\<close>

record cached_dir =
  cd_manifest :: "signed_manifest json_file"
  cd_artifact :: artifact_file

text \<open>
  One run of the operating system's installer: the request's nonce for an update, none for
  a rollback, what was installed, and the ledger and the journal on disk at that moment.
\<close>

record install_event =
  ie_nonce :: "string option"
  ie_manifest :: release_manifest
  ie_package :: cached_dir
  ie_ledger :: "update_ledger json_file"
  ie_journal :: "journal json_file"

record native_disk =
  nd_ledger :: "update_ledger json_file"
  nd_journal :: "journal json_file"
  nd_cache :: "(string \<times> cached_dir) list"
  nd_mailbox_open :: bool
  nd_pending_health :: "pending_update json_file"
  nd_health :: "health_ack json_file"
  nd_result :: "request_result json_file"
  nd_installs :: "install_event list"

record native_world =
  nw_disk :: native_disk
  nw_journal :: journal
  nw_step :: nat
  nw_crashed :: bool

text \<open>What does not change while the supervisor runs, and what one run of it meets.\<close>

record 'v native_env =
  ne_update :: "'v update_env"
  ne_policy :: update_config
  ne_verify_signature :: "release_manifest \<Rightarrow> artifact_file \<Rightarrow> string + unit"
  ne_journal_len :: "journal \<Rightarrow> nat"
  ne_installed_version :: "string + string"

datatype io_fault = Fails string | DoneButFails string | Crashes | CrashesAfter

record native_run =
  nr_fault :: "nat \<Rightarrow> io_fault option"
  nr_clock :: "nat \<Rightarrow> string + u64"
  nr_install :: "nat \<Rightarrow> release_manifest \<Rightarrow> string + unit"
  nr_restart :: "nat \<Rightarrow> string + unit"

section \<open>Sequencing\<close>

type_synonym 'a nio = "native_world \<Rightarrow> (string + 'a) \<times> native_world"

definition return_nio :: "'a \<Rightarrow> 'a nio" where
  "return_nio a w = (Inr a, w)"

definition lift_nio :: "string + 'a \<Rightarrow> 'a nio" where
  "lift_nio r w = (r, w)"

definition bind_nio :: "'a nio \<Rightarrow> ('a \<Rightarrow> 'b nio) \<Rightarrow> 'b nio" where
  "bind_nio m k w = (case m w of (Inl e, w') \<Rightarrow> (Inl e, w') | (Inr a, w') \<Rightarrow> k a w')"

definition read_disk :: "(native_disk \<Rightarrow> 'a) \<Rightarrow> 'a nio" where
  "read_disk f w = (Inr (f (nw_disk w)), w)"

definition get_journal :: "journal nio" where
  "get_journal w = (Inr (nw_journal w), w)"

definition set_journal :: "(journal \<Rightarrow> journal) \<Rightarrow> unit nio" where
  "set_journal f w = (Inr (), w\<lparr>nw_journal := f (nw_journal w)\<rparr>)"

text \<open>A durable step. Once the process has crashed nothing takes effect.\<close>

definition durable :: "native_run \<Rightarrow> (native_disk \<Rightarrow> native_disk) \<Rightarrow> unit nio" where
  "durable run f w =
     (let next = w\<lparr>nw_step := nw_step w + 1\<rparr>; done = next\<lparr>nw_disk := f (nw_disk w)\<rparr> in
      if nw_crashed w then (Inl ''crashed'', w)
      else case nr_fault run (nw_step w) of
        None \<Rightarrow> (Inr (), done)
      | Some (Fails e) \<Rightarrow> (Inl e, next)
      | Some (DoneButFails e) \<Rightarrow> (Inl e, done)
      | Some Crashes \<Rightarrow> (Inl ''crashed'', next\<lparr>nw_crashed := True\<rparr>)
      | Some CrashesAfter \<Rightarrow> (Inl ''crashed'', done\<lparr>nw_crashed := True\<rparr>))"

text \<open>\<open>let _ = m\<close>, and a guard whose \<open>Drop\<close> runs when the body fails.\<close>

definition ignore :: "'a nio \<Rightarrow> unit nio" where
  "ignore m w = (Inr (), snd (m w))"

definition on_error :: "'a nio \<Rightarrow> unit nio \<Rightarrow> 'a nio" where
  "on_error m cleanup w = (case m w of (Inl e, w') \<Rightarrow> (Inl e, snd (cleanup w')) | (Inr a, w') \<Rightarrow> (Inr a, w'))"

text \<open>\<open>unix_now\<close> and \<open>now\<close>, which reads a clock before 1970 as zero.\<close>

definition unix_now :: "native_run \<Rightarrow> native_world \<Rightarrow> string + u64" where
  "unix_now run w = nr_clock run (nw_step w)"

definition now_or_zero :: "native_run \<Rightarrow> u64 nio" where
  "now_or_zero run w = (Inr (case unix_now run w of Inl _ \<Rightarrow> 0 | Inr t \<Rightarrow> t), w)"

section \<open>The ledger and the mailbox\<close>

text \<open>Reading can fail like any other step.\<close>

definition read_ledger_io :: "'v native_env \<Rightarrow> native_run \<Rightarrow> update_ledger nio" where
  "read_ledger_io env run =
     bind_nio (durable run id) (\<lambda>_ w. (read_ledger (ne_update env) (nd_ledger (nw_disk w)), w))"

definition open_mailbox :: "unit nio" where
  "open_mailbox w = (if nd_mailbox_open (nw_disk w) then Inr () else Inl ''shared update directory'', w)"

definition publish_pending_health :: "native_run \<Rightarrow> pending_update \<Rightarrow> unit nio" where
  "publish_pending_health run pending =
     bind_nio open_mailbox (\<lambda>_.
     bind_nio (durable run (\<lambda>d. d\<lparr>nd_health := Missing\<rparr>)) (\<lambda>_.
       durable run (\<lambda>d. d\<lparr>nd_pending_health := Json pending\<rparr>)))"

definition ack_request :: "native_run \<Rightarrow> string \<Rightarrow> string \<Rightarrow> unit nio" where
  "ack_request run nonce outcome =
     bind_nio (lift_nio (validate_nonce nonce)) (\<lambda>_.
     bind_nio (lift_nio (guard_else (outcome \<in> {''accepted'', ''refused''})
       ''invalid native request result'')) (\<lambda>_.
     bind_nio open_mailbox (\<lambda>_.
     bind_nio (\<lambda>w. (unix_now run w, w)) (\<lambda>at.
       durable run (\<lambda>d. d\<lparr>nd_result := Json \<lparr>rq_nonce = nonce, rq_outcome = outcome, rq_at = at\<rparr>\<rparr>)))))"

definition commit_pending :: "'v native_env \<Rightarrow> native_run \<Rightarrow> release_manifest \<Rightarrow> string \<Rightarrow> unit nio" where
  "commit_pending env run manifest nonce =
     bind_nio (durable run id) (\<lambda>_.
     bind_nio (\<lambda>w. (ledger_commit (ne_update env) (ne_policy env) (unix_now run w) manifest nonce
                      (nd_ledger (nw_disk w)), w)) (\<lambda>(ledger, pending).
     bind_nio (durable run (\<lambda>d. d\<lparr>nd_ledger := Json ledger\<rparr>)) (\<lambda>_.
       publish_pending_health run pending)))"

definition arm_health :: "'v native_env \<Rightarrow> native_run \<Rightarrow> string \<Rightarrow> pending_update nio" where
  "arm_health env run nonce =
     bind_nio (durable run id) (\<lambda>_.
     bind_nio (\<lambda>w. (ledger_arm (ne_update env) (ne_policy env) (unix_now run w) nonce
                      (nd_ledger (nw_disk w)), w)) (\<lambda>(ledger, pending).
     bind_nio (durable run (\<lambda>d. d\<lparr>nd_ledger := Json ledger\<rparr>)) (\<lambda>_.
     bind_nio (publish_pending_health run pending) (\<lambda>_. return_nio pending))))"

definition finish_update ::
  "('v::linorder) native_env \<Rightarrow> native_run \<Rightarrow> string \<Rightarrow> bool \<Rightarrow> string \<Rightarrow> unit nio" where
  "finish_update env run nonce healthy reason =
     bind_nio (durable run id) (\<lambda>_.
     bind_nio (\<lambda>w. (ledger_finish (ne_update env) (ne_policy env) (unix_now run w) nonce healthy reason
                      (nd_ledger (nw_disk w)), w)) (\<lambda>ledger.
     bind_nio (durable run (\<lambda>d. d\<lparr>nd_ledger := Json ledger\<rparr>)) (\<lambda>_.
     ignore (bind_nio open_mailbox (\<lambda>_.
       bind_nio (ignore (durable run (\<lambda>d. d\<lparr>nd_pending_health := Missing\<rparr>))) (\<lambda>_.
         durable run (\<lambda>d. d\<lparr>nd_health := Missing\<rparr>)))))))"

section \<open>The journal\<close>

definition valid_nonce :: "string \<Rightarrow> bool" where
  "valid_nonce nonce \<longleftrightarrow> utf8_len nonce = 32 \<and> list_all is_lower_hexdigit nonce"

fun check_consumed :: "'v update_env \<Rightarrow> string list \<Rightarrow> consumed_request list \<Rightarrow> string + unit" where
  "check_consumed env nonces [] = Inr ()"
| "check_consumed env nonces (request # requests) =
     (if \<not> valid_nonce (cq_nonce request) \<or> cq_nonce request \<in> set nonces
         \<or> utf8_len (cq_version request) > 128
      then Inl ''invalid native consumed request identity''
      else and_then (ok_or (ue_semver env (cq_version request)) ''consumed request version: invalid'')
        (\<lambda>_. check_consumed env (cq_nonce request # nonces) requests))"

definition bad_cache_directory :: "string \<Rightarrow> bool" where
  "bad_cache_directory s \<longleftrightarrow> s = [] \<or> \<not> list_all (\<lambda>c. is_ascii_alphanumeric c \<or> c = CHR ''-'') s"

definition cached_releases :: "journal \<Rightarrow> cached_release list" where
  "cached_releases j =
     (case jn_active j of None \<Rightarrow> [] | Some r \<Rightarrow> [r])
     @ (case jn_pending j of None \<Rightarrow> [] | Some p \<Rightarrow> [np_release p])"

definition read_journal :: "'v update_env \<Rightarrow> journal json_file \<Rightarrow> string + journal" where
  "read_journal env file =
     (case file of
        Missing \<Rightarrow> Inr default_journal
      | Refused e \<Rightarrow> Inl e
      | Json j \<Rightarrow>
          if length (jn_consumed j) > MAX_REQUESTS
          then Inl ''native consumed request history exceeds its hard bound''
          else and_then (check_consumed env [] (jn_consumed j)) (\<lambda>_.
            if list_ex (\<lambda>c. bad_cache_directory (cr_directory c)) (cached_releases j)
            then Inl ''invalid cached package directory'' else Inr j))"

definition write_journal :: "'v native_env \<Rightarrow> native_run \<Rightarrow> unit nio" where
  "write_journal env run =
     bind_nio get_journal (\<lambda>j.
       if ne_journal_len env j > MAX_JOURNAL_BYTES then lift_nio (Inl ''native journal exceeds size limit'')
       else durable run (\<lambda>d. d\<lparr>nd_journal := Json j\<rparr>))"

text \<open>The receipts that survive pruning: those that the floor does not reject.\<close>

fun retain_consumed ::
  "('v::linorder) update_env \<Rightarrow> 'v \<Rightarrow> u64 \<Rightarrow> consumed_request list \<Rightarrow> string + consumed_request list" where
  "retain_consumed env floor_v floor_seq [] = Inr []"
| "retain_consumed env floor_v floor_seq (request # requests) =
     and_then (ok_or (ue_semver env (cq_version request)) ''invalid version'') (\<lambda>candidate.
     and_then (retain_consumed env floor_v floor_seq requests) (\<lambda>retained.
       Inr (if candidate \<ge> floor_v \<and> cq_sequence request \<ge> floor_seq
            then request # retained else retained)))"

definition prune_consumed :: "('v::linorder) native_env \<Rightarrow> native_run \<Rightarrow> unit nio" where
  "prune_consumed env run =
     (if uc_emergency_version (ne_policy env) \<noteq> None then return_nio ()
      else bind_nio (read_ledger_io env run) (\<lambda>ledger.
           bind_nio (lift_nio (ok_or (ue_semver (ne_update env) (floor_version ledger)) ''invalid version'')) (\<lambda>floor_v.
           bind_nio get_journal (\<lambda>j.
           bind_nio (lift_nio (retain_consumed (ne_update env) floor_v (floor_sequence ledger) (jn_consumed j)))
             (\<lambda>retained. set_journal (\<lambda>j. j\<lparr>jn_consumed := retained\<rparr>))))))"

definition remember_consumed_nonce ::
  "('v::linorder) native_env \<Rightarrow> native_run \<Rightarrow> string \<Rightarrow> string \<Rightarrow> u64 \<Rightarrow> unit nio" where
  "remember_consumed_nonce env run nonce version sequence =
     (if \<not> valid_nonce nonce \<or> utf8_len version > 128
      then lift_nio (Inl ''invalid native consumed request identity'')
      else bind_nio (lift_nio (ok_or (ue_semver (ne_update env) version) ''consumed request version: invalid'')) (\<lambda>_.
           bind_nio get_journal (\<lambda>j.
           case find (\<lambda>request. cq_nonce request = nonce) (jn_consumed j) of
             Some previous \<Rightarrow>
               lift_nio (guard_else (cq_version previous = version \<and> cq_sequence previous = sequence)
                 ''consumed native request nonce changed its release identity'')
           | None \<Rightarrow>
               bind_nio (prune_consumed env run) (\<lambda>_.
               bind_nio get_journal (\<lambda>j.
               if length (jn_consumed j) \<ge> MAX_REQUESTS
               then lift_nio (Inl ''native consumed request history is full; administrator repair is required before accepting another update'')
               else bind_nio (set_journal (\<lambda>j. j\<lparr>jn_consumed := jn_consumed j @
                      [\<lparr>cq_nonce = nonce, cq_version = version, cq_sequence = sequence\<rparr>]\<rparr>)) (\<lambda>_.
                    write_journal env run))))))"

definition remember_consumed_request ::
  "('v::linorder) native_env \<Rightarrow> native_run \<Rightarrow> string \<Rightarrow> release_manifest \<Rightarrow> unit nio" where
  "remember_consumed_request env run nonce manifest =
     remember_consumed_nonce env run nonce (rm_version manifest) (rm_sequence manifest)"

text \<open>The directories of the cache that belong to neither the active nor the pending release.\<close>

definition prunable :: "journal \<Rightarrow> string \<Rightarrow> bool" where
  "prunable j name \<longleftrightarrow> name \<notin> cr_directory ` set (cached_releases j)
     \<and> (starts_with name ''seed-'' \<or> utf8_len name = 32 \<and> list_all is_ascii_hexdigit name)"

definition remove_dir :: "native_run \<Rightarrow> string \<Rightarrow> unit nio" where
  "remove_dir run name = durable run (\<lambda>d. d\<lparr>nd_cache := filter (\<lambda>(n, _). n \<noteq> name) (nd_cache d)\<rparr>)"

fun remove_dirs :: "native_run \<Rightarrow> string list \<Rightarrow> unit nio" where
  "remove_dirs run [] = return_nio ()"
| "remove_dirs run (name # names) = bind_nio (remove_dir run name) (\<lambda>_. remove_dirs run names)"

definition prune_cache :: "native_run \<Rightarrow> unit nio" where
  "prune_cache run =
     bind_nio (durable run id) (\<lambda>_.
     bind_nio get_journal (\<lambda>j.
     bind_nio (read_disk (\<lambda>d. map fst (nd_cache d))) (\<lambda>names.
       remove_dirs run (filter (prunable j) names))))"

section \<open>Requests\<close>

text \<open>
  What the endpoint's request directory gives to the two bounded copies: an error of opening
  or of a file that is not regular, or the bytes; for the manifest, its length and what it
  reads as.
\<close>

record native_request =
  nq_manifest :: "string + nat \<times> signed_manifest json_file"
  nq_artifact :: "string + u8 list"

definition copy_bounded_len :: "nat \<Rightarrow> nat \<Rightarrow> string + unit" where
  "copy_bounded_len limit written =
     guard_else (written \<le> limit) ''update input exceeds size limit''"

definition copied_artifact :: "u8 list \<Rightarrow> artifact_file" where
  "copied_artifact bytes = \<lparr>af_stat = Inr (True, of_nat (length bytes)), af_open = Inr (), af_reads = [Inr bytes]\<rparr>"

definition empty_dir :: cached_dir where
  "empty_dir = \<lparr>cd_manifest = Missing, cd_artifact =
     \<lparr>af_stat = Inl ''No such file or directory'', af_open = Inl ''No such file or directory'', af_reads = []\<rparr>\<rparr>"

definition set_dir :: "string \<Rightarrow> cached_dir \<Rightarrow> native_disk \<Rightarrow> native_disk" where
  "set_dir name dir d = d\<lparr>nd_cache := (name, dir) # filter (\<lambda>(n, _). n \<noteq> name) (nd_cache d)\<rparr>"

definition copy_request :: "native_run \<Rightarrow> native_request \<Rightarrow> string \<Rightarrow> u64 \<Rightarrow> unit nio" where
  "copy_request run request dest max_bytes =
     bind_nio (read_disk (\<lambda>d. map_of (nd_cache d) dest)) (\<lambda>existing.
     if existing \<noteq> None then lift_nio (Inl ''private staging: File exists'')
     else bind_nio (durable run (set_dir dest empty_dir)) (\<lambda>_.
       on_error
         (bind_nio (lift_nio (nq_manifest request)) (\<lambda>(len, manifest).
          bind_nio (lift_nio (copy_bounded_len MAX_JOURNAL_BYTES len)) (\<lambda>_.
          bind_nio (durable run (set_dir dest (empty_dir\<lparr>cd_manifest := manifest\<rparr>))) (\<lambda>_.
          bind_nio (lift_nio (nq_artifact request)) (\<lambda>bytes.
          bind_nio (lift_nio (copy_bounded_len (unat max_bytes) (length bytes))) (\<lambda>_.
          bind_nio (durable run (set_dir dest \<lparr>cd_manifest = manifest, cd_artifact = copied_artifact bytes\<rparr>)) (\<lambda>_.
            durable run id)))))))
         (remove_dir run dest)))"

definition cached_or_missing :: "string \<Rightarrow> native_disk \<Rightarrow> cached_dir" where
  "cached_or_missing name d =
     (case map_of (nd_cache d) name of None \<Rightarrow> empty_dir | Some dir \<Rightarrow> dir)"

definition verify_cached ::
  "('v::linorder) native_env \<Rightarrow> native_run \<Rightarrow> string \<Rightarrow> (release_manifest \<times> cached_dir) nio" where
  "verify_cached env run name =
     bind_nio (durable run id) (\<lambda>_ w.
       (let dir = cached_or_missing name (nw_disk w) in
        and_then (verify_files (ne_update env) (ne_policy env) (unix_now run w) (nd_ledger (nw_disk w))
          (cd_manifest dir) (cd_artifact dir)) (\<lambda>m. Inr (m, dir)), w))"

definition verify_cached_for_recovery ::
  "('v::linorder) native_env \<Rightarrow> native_run \<Rightarrow> string \<Rightarrow> (release_manifest \<times> cached_dir) nio" where
  "verify_cached_for_recovery env run name =
     bind_nio (durable run id) (\<lambda>_ w.
       (let dir = cached_or_missing name (nw_disk w) in
        and_then (verify_files_for_recovery (ne_update env) (ne_policy env) (unix_now run w)
          (cd_manifest dir) (cd_artifact dir)) (\<lambda>m. Inr (m, dir)), w))"

section \<open>Installing\<close>

definition log_install ::
  "string option \<Rightarrow> release_manifest \<Rightarrow> cached_dir \<Rightarrow> native_disk \<Rightarrow> native_disk" where
  "log_install nonce manifest dir d =
     d\<lparr>nd_installs := nd_installs d @ [\<lparr>ie_nonce = nonce, ie_manifest = manifest, ie_package = dir,
        ie_ledger = nd_ledger d, ie_journal = nd_journal d\<rparr>]\<rparr>"

definition op_install ::
  "native_run \<Rightarrow> string option \<Rightarrow> release_manifest \<Rightarrow> cached_dir \<Rightarrow> unit nio" where
  "op_install run nonce manifest dir =
     bind_nio (durable run (log_install nonce manifest dir)) (\<lambda>_ w.
       (nr_install run (nw_step w) manifest, w))"

definition op_restart :: "native_run \<Rightarrow> unit nio" where
  "op_restart run = bind_nio (durable run id) (\<lambda>_ w. (nr_restart run (nw_step w), w))"

definition rollback_with ::
  "('v::linorder) native_env \<Rightarrow> native_run \<Rightarrow> string \<Rightarrow> unit nio" where
  "rollback_with env run reason =
     bind_nio get_journal (\<lambda>j.
     bind_nio (lift_nio (ok_or (jn_pending j) ''no pending update to roll back'')) (\<lambda>pending.
     bind_nio (lift_nio (ok_or (jn_active j) ''missing previous native package'')) (\<lambda>previous.
     bind_nio (verify_cached_for_recovery env run (cr_directory previous)) (\<lambda>(manifest, dir).
     bind_nio (lift_nio (ne_verify_signature env manifest (cd_artifact dir))) (\<lambda>_.
     bind_nio (op_install run None manifest dir) (\<lambda>_.
     bind_nio (op_restart run) (\<lambda>_.
     bind_nio (finish_update env run (np_nonce pending) False reason) (\<lambda>_.
     bind_nio (set_journal (\<lambda>j. j\<lparr>jn_pending := None\<rparr>)) (\<lambda>_.
     bind_nio (write_journal env run) (\<lambda>_.
       prune_cache run))))))))))"

text \<open>Was this very release rolled back before, after it had been installed?\<close>

definition already_rolled_back :: "update_ledger \<Rightarrow> release_manifest \<Rightarrow> bool" where
  "already_rolled_back ledger manifest \<longleftrightarrow>
     list_ex (\<lambda>r. he_outcome r = ''rolled_back'' \<and> he_reason r \<noteq> ''interrupted_before_install''
       \<and> he_version r = rm_version manifest \<and> he_sequence r = rm_sequence manifest) (ledger_history ledger)"

definition refuse_failed_release ::
  "('v::linorder) native_env \<Rightarrow> native_run \<Rightarrow> release_manifest \<Rightarrow> unit nio" where
  "refuse_failed_release env run manifest =
     (if uc_emergency_version (ne_policy env) = Some (rm_version manifest) then return_nio ()
      else bind_nio (read_ledger_io env run) (\<lambda>ledger.
        lift_nio (guard_else (\<not> already_rolled_back ledger manifest)
          ''the requested release was already rolled back'')))"

text \<open>
  The part of \<open>accept_request_with\<close> during which the cache guard may still remove the copy:
  verification of the private copy, the receipt, the ledger and the journal.
\<close>

definition reserve_request ::
  "('v::linorder) native_env \<Rightarrow> native_run \<Rightarrow> string \<Rightarrow> cached_release \<Rightarrow> (release_manifest \<times> cached_dir) nio" where
  "reserve_request env run nonce previous =
     bind_nio (verify_cached env run nonce) (\<lambda>(manifest, dir).
     bind_nio (lift_nio (guard_else (rm_version manifest \<noteq> rm_version (cr_manifest previous))
       ''the requested version is already installed'')) (\<lambda>_.
     bind_nio (refuse_failed_release env run manifest) (\<lambda>_.
     bind_nio (lift_nio (ne_verify_signature env manifest (cd_artifact dir))) (\<lambda>_.
     bind_nio (remember_consumed_request env run nonce manifest) (\<lambda>_.
     bind_nio (commit_pending env run manifest nonce) (\<lambda>_.
     bind_nio (now_or_zero run) (\<lambda>at.
     bind_nio (set_journal (\<lambda>j. j\<lparr>jn_pending := Some \<lparr>np_release = \<lparr>cr_manifest = manifest, cr_directory = nonce\<rparr>,
       np_nonce = nonce, np_started_at = at\<rparr>\<rparr>)) (\<lambda>_.
     bind_nio (write_journal env run) (\<lambda>_.
       return_nio (manifest, dir))))))))))"

text \<open>The closure that installs, arms the health window and restarts the endpoint.\<close>

definition install_and_restart ::
  "('v::linorder) native_env \<Rightarrow> native_run \<Rightarrow> string \<Rightarrow> release_manifest \<Rightarrow> cached_dir \<Rightarrow> unit nio" where
  "install_and_restart env run nonce manifest dir =
     bind_nio (op_install run (Some nonce) manifest dir) (\<lambda>_.
     bind_nio (arm_health env run nonce) (\<lambda>armed.
     bind_nio (set_journal (\<lambda>j. j\<lparr>jn_pending :=
       map_option (\<lambda>p. p\<lparr>np_started_at := pu_started_at armed\<rparr>) (jn_pending j)\<rparr>)) (\<lambda>_.
     bind_nio (write_journal env run) (\<lambda>_.
       op_restart run))))"

definition install_or_roll_back ::
  "('v::linorder) native_env \<Rightarrow> native_run \<Rightarrow> string \<Rightarrow> release_manifest \<Rightarrow> cached_dir \<Rightarrow> unit nio" where
  "install_or_roll_back env run nonce manifest dir w =
     (case install_and_restart env run nonce manifest dir w of
        (Inr _, w') \<Rightarrow> (Inr (), w')
      | (Inl e, w') \<Rightarrow>
          (case rollback_with env run (''native_install_failed: '' @ e) w' of
             (Inl e', w'') \<Rightarrow> (Inl e', w'')
           | (Inr _, w'') \<Rightarrow> (Inl e, w'')))"

definition accept_request_with ::
  "('v::linorder) native_env \<Rightarrow> native_run \<Rightarrow> string \<Rightarrow> native_request \<Rightarrow> unit nio" where
  "accept_request_with env run nonce request =
     bind_nio (lift_nio (guard_else (valid_nonce nonce) ''invalid request nonce'')) (\<lambda>_.
     bind_nio get_journal (\<lambda>j.
     bind_nio (lift_nio (guard_else (\<not> list_ex (\<lambda>c. cq_nonce c = nonce) (jn_consumed j))
       ''native request nonce was already consumed'')) (\<lambda>_.
     bind_nio (lift_nio (ok_or (jn_active j)
       ''seed the current signed package before enabling native updates'')) (\<lambda>previous.
     bind_nio (verify_cached_for_recovery env run (cr_directory previous)) (\<lambda>_.
     bind_nio (copy_request run request nonce (uc_max_download_bytes (ne_policy env))) (\<lambda>_.
     bind_nio (on_error (reserve_request env run nonce previous) (remove_dir run nonce)) (\<lambda>(manifest, dir).
     bind_nio (ack_request run nonce ''accepted'') (\<lambda>_.
       install_or_roll_back env run nonce manifest dir))))))))"

section \<open>Recovery\<close>

definition recover_completed ::
  "('v::linorder) native_env \<Rightarrow> native_run \<Rightarrow> update_ledger \<Rightarrow> native_pending \<Rightarrow> unit nio" where
  "recover_completed env run ledger pending =
     (let manifest = cr_manifest (np_release pending);
          disagrees = lift_nio (Inl ''native update journal disagrees with protected ledger'')
      in if ledger_history ledger = [] then disagrees
      else let last_record = last (ledger_history ledger) in
        if he_version last_record = rm_version manifest \<and> he_sequence last_record = rm_sequence manifest
        then if he_nonce last_record \<noteq> np_nonce pending
          then lift_nio (Inl ''protected completed transaction nonce is missing or disagrees with the native journal; administrator repair is required'')
          else bind_nio (remember_consumed_request env run (np_nonce pending) manifest) (\<lambda>_.
               bind_nio (set_journal (\<lambda>j. (if he_outcome last_record = ''healthy''
                   then j\<lparr>jn_active := Some (np_release pending)\<rparr> else j)\<lparr>jn_pending := None\<rparr>)) (\<lambda>_.
               bind_nio (write_journal env run) (\<lambda>_. prune_cache run)))
        else disagrees)"

text \<open>The ledger and the journal both name the pending transaction: wait, commit or roll back.\<close>

definition resolve_pending ::
  "('v::linorder) native_env \<Rightarrow> native_run \<Rightarrow> pending_update \<Rightarrow> native_pending \<Rightarrow> unit nio" where
  "resolve_pending env run authoritative pending =
     bind_nio (remember_consumed_request env run (np_nonce pending) (cr_manifest (np_release pending))) (\<lambda>_.
     bind_nio (\<lambda>w. (Inr (health_status_for_pending (unix_now run w)
       (nd_mailbox_open (nw_disk w)) (nd_health (nw_disk w)) authoritative = Inr True), w)) (\<lambda>healthy.
     if healthy
     then bind_nio (finish_update env run (np_nonce pending) True ''healthy_heartbeat'') (\<lambda>_.
          bind_nio (set_journal (\<lambda>j. j\<lparr>jn_active := Some (np_release pending), jn_pending := None\<rparr>)) (\<lambda>_.
          bind_nio (write_journal env run) (\<lambda>_. prune_cache run)))
     else bind_nio (now_or_zero run) (\<lambda>at.
       if at \<ge> pu_deadline authoritative
       then rollback_with env run ''healthy_heartbeat_timeout''
       else return_nio ())))"

definition recover_or_ack_with :: "('v::linorder) native_env \<Rightarrow> native_run \<Rightarrow> unit nio" where
  "recover_or_ack_with env run =
     bind_nio (read_ledger_io env run) (\<lambda>ledger.
     bind_nio get_journal (\<lambda>j.
     case jn_pending j of
       None \<Rightarrow>
         (case ledger_pending ledger of
            None \<Rightarrow> return_nio ()
          | Some interrupted \<Rightarrow>
              bind_nio (remember_consumed_nonce env run (pu_nonce interrupted) (pu_version interrupted)
                (pu_sequence interrupted)) (\<lambda>_.
              finish_update env run (pu_nonce interrupted) False ''interrupted_before_install''))
     | Some pending \<Rightarrow>
         (case ledger_pending ledger of
            None \<Rightarrow> recover_completed env run ledger pending
          | Some authoritative \<Rightarrow>
              if pu_nonce authoritative \<noteq> np_nonce pending
                 \<or> pu_version authoritative \<noteq> rm_version (cr_manifest (np_release pending))
                 \<or> pu_sequence authoritative \<noteq> rm_sequence (cr_manifest (np_release pending))
              then lift_nio (Inl ''protected transaction identities disagree'')
              else resolve_pending env run authoritative pending)))"

section \<open>The supervisor\<close>

text \<open>
  The set of examined requests, of at most \<open>MAX_REQUESTS\<close> names in order. \<open>exists\<close> tells
  which directories are still there.
\<close>

definition note_examined :: "(string \<Rightarrow> bool) \<Rightarrow> string \<Rightarrow> string list \<Rightarrow> string list" where
  "note_examined exists name examined =
     (let kept = filter exists examined;
          room = (if length kept \<ge> MAX_REQUESTS then tl kept else kept)
      in insort name (remove1 name room))"

fun serve_requests ::
  "('v::linorder) native_env \<Rightarrow> native_run \<Rightarrow> (string \<Rightarrow> bool) \<Rightarrow> string list
   \<Rightarrow> (string \<times> native_request) list \<Rightarrow> string list nio" where
  "serve_requests env run exists examined [] = return_nio examined"
| "serve_requests env run exists examined ((nonce, request) # requests) =
     (if nonce \<in> set examined then serve_requests env run exists examined requests
      else (let examined' = note_examined exists nonce examined in
        bind_nio (ignore (on_error (accept_request_with env run nonce request)
          (ignore (ack_request run nonce ''refused'')))) (\<lambda>_.
        bind_nio get_journal (\<lambda>j.
          if jn_pending j \<noteq> None then return_nio examined'
          else serve_requests env run exists examined' requests))))"

text \<open>One turn of the loop of \<open>supervise\<close>, which reads the journal anew.\<close>

definition supervise_turn ::
  "('v::linorder) native_env \<Rightarrow> native_run \<Rightarrow> (string \<Rightarrow> bool) \<Rightarrow> string list
   \<Rightarrow> (string \<times> native_request) list \<Rightarrow> string list nio" where
  "supervise_turn env run exists examined requests =
     bind_nio (\<lambda>w. (read_journal (ne_update env) (nd_journal (nw_disk w)), w)) (\<lambda>j.
     bind_nio (set_journal (\<lambda>_. j)) (\<lambda>_.
     bind_nio (recover_or_ack_with env run) (\<lambda>_.
     bind_nio (prune_cache run) (\<lambda>_.
     bind_nio get_journal (\<lambda>j.
       if jn_pending j = None then serve_requests env run exists examined requests
       else return_nio examined)))))"

definition start_world :: "native_disk \<Rightarrow> native_world" where
  "start_world d = \<lparr>nw_disk = d, nw_journal = default_journal, nw_step = 0, nw_crashed = False\<rparr>"

text \<open>
  Seeding: the administrator installs the cache entry of the version that runs. \<open>tag\<close> is
  the random part of the directory's name.
\<close>

definition seed ::
  "('v::linorder) native_env \<Rightarrow> native_run \<Rightarrow> nat \<Rightarrow> native_request \<Rightarrow> unit nio" where
  "seed env run tag request =
     bind_nio (\<lambda>w. (read_journal (ne_update env) (nd_journal (nw_disk w)), w)) (\<lambda>j.
     bind_nio (set_journal (\<lambda>_. j)) (\<lambda>_.
     bind_nio (lift_nio (guard_else (jn_pending j = None)
       ''cannot replace rollback cache during a pending update'')) (\<lambda>_.
     bind_nio (case jn_active j of
         None \<Rightarrow> return_nio ()
       | Some active \<Rightarrow>
           if valid_nonce (cr_directory active)
           then remember_consumed_request env run (cr_directory active) (cr_manifest active)
           else return_nio ()) (\<lambda>_.
     let directory = ''seed-'' @ show_nat tag in
     bind_nio (copy_request run request directory (uc_max_download_bytes (ne_policy env))) (\<lambda>_.
     bind_nio (on_error
       (bind_nio (verify_cached env run directory) (\<lambda>(verified, dir).
        bind_nio (lift_nio (ne_installed_version env)) (\<lambda>installed.
        bind_nio (lift_nio (guard_else (rm_version verified = installed)
          ''rollback seed must match the installed agent version'')) (\<lambda>_.
        bind_nio (lift_nio (ne_verify_signature env verified (cd_artifact dir))) (\<lambda>_.
        bind_nio (durable run id) (\<lambda>_.
        bind_nio (\<lambda>w. (and_then (read_ledger (ne_update env) (nd_ledger (nw_disk w)))
            (raise_floor (ne_update env) (rm_version verified) (rm_sequence verified)), w)) (\<lambda>ledger.
        bind_nio (durable run (\<lambda>d. d\<lparr>nd_ledger := Json ledger\<rparr>)) (\<lambda>_.
        bind_nio (set_journal (\<lambda>j. j\<lparr>jn_active := Some \<lparr>cr_manifest = verified, cr_directory = directory\<rparr>\<rparr>)) (\<lambda>_.
          write_journal env run)))))))))
       (remove_dir run directory)) (\<lambda>_.
       prune_cache run))))))"

end
