(* ===== verification/Native_Invariant.thy ===== *)
theory Native_Invariant
  imports Native_Update
begin

text \<open>
  What the supervisor guarantees across crashes, failures and restarts: the rules for
  reasoning about its sequenced steps, the invariant of the protected directory, its
  preservation by every operation, and the states that a run of turns can reach.
\<close>

section \<open>Triples\<close>

text \<open>
  \<open>hoare J P m Q\<close>: started where the invariant \<open>J\<close> and \<open>P\<close> hold of the disk and the
  in-memory journal, \<open>m\<close> ends where \<open>J\<close> holds, whatever fails, and with \<open>Q\<close> on success.
\<close>

type_synonym nassert = "native_disk \<Rightarrow> journal \<Rightarrow> bool"

fun post :: "nassert \<Rightarrow> ('a \<Rightarrow> nassert) \<Rightarrow> (string + 'a) \<times> native_world \<Rightarrow> bool" where
  "post J Q (Inl e, w) = J (nw_disk w) (nw_journal w)"
| "post J Q (Inr a, w) = (J (nw_disk w) (nw_journal w) \<and> Q a (nw_disk w) (nw_journal w))"

definition hoare :: "nassert \<Rightarrow> nassert \<Rightarrow> 'a nio \<Rightarrow> ('a \<Rightarrow> nassert) \<Rightarrow> bool" where
  "hoare J P m Q \<longleftrightarrow> (\<forall>w. J (nw_disk w) (nw_journal w) \<longrightarrow> P (nw_disk w) (nw_journal w) \<longrightarrow> post J Q (m w))"

definition top :: "'a \<Rightarrow> nassert" where "top _ _ _ = True"

lemma top_True [simp]: "top a d j" by (simp add: top_def)

lemma post_invariant: "post J Q x \<Longrightarrow> J (nw_disk (snd x)) (nw_journal (snd x))"
  by (cases "(J, Q, x)" rule: post.cases) auto

lemma post_weaken:
  "post J Q x \<Longrightarrow> (\<And>a d j. J d j \<Longrightarrow> Q a d j \<Longrightarrow> Q' a d j) \<Longrightarrow> post J Q' x"
  by (cases "(J, Q, x)" rule: post.cases) auto

lemma hoare_conseq:
  "hoare J P m Q \<Longrightarrow> (\<And>d j. J d j \<Longrightarrow> P' d j \<Longrightarrow> P d j) \<Longrightarrow> (\<And>a d j. J d j \<Longrightarrow> Q a d j \<Longrightarrow> Q' a d j) \<Longrightarrow>
   hoare J P' m Q'"
  unfolding hoare_def by (blast intro: post_weaken)

lemma hoare_pre: "hoare J P m Q \<Longrightarrow> (\<And>d j. J d j \<Longrightarrow> P' d j \<Longrightarrow> P d j) \<Longrightarrow> hoare J P' m Q"
  by (rule hoare_conseq)

lemma hoare_bind:
  assumes "hoare J P m Q" and "\<And>a. hoare J (Q a) (k a) R"
  shows "hoare J P (bind_nio m k) R"
  unfolding hoare_def
proof (intro allI impI)
  fix w :: native_world assume w: "J (nw_disk w) (nw_journal w)" "P (nw_disk w) (nw_journal w)"
  obtain r w1 where m: "m w = (r, w1)" by force
  have p: "post J Q (r, w1)" using assms(1) w m by (metis hoare_def)
  show "post J R (bind_nio m k w)"
  proof (cases r)
    case (Inl e)
    with p m show ?thesis by (simp add: bind_nio_def)
  next
    case (Inr a)
    with p m assms(2) [of a] show ?thesis by (simp add: bind_nio_def hoare_def)
  qed
qed

lemma hoare_return: "hoare J (Q a) (return_nio a) Q"
  by (simp add: hoare_def return_nio_def)

lemma hoare_pure:
  "hoare J (\<lambda>d j. \<forall>w a. nw_disk w = d \<longrightarrow> nw_journal w = j \<longrightarrow> g w = Inr a \<longrightarrow> Q a d j) (\<lambda>w. (g w, w)) Q"
  unfolding hoare_def
proof (intro allI impI)
  fix w :: native_world
  assume "J (nw_disk w) (nw_journal w)"
    and "\<forall>v a. nw_disk v = nw_disk w \<longrightarrow> nw_journal v = nw_journal w \<longrightarrow> g v = Inr a \<longrightarrow> Q a (nw_disk w) (nw_journal w)"
  then show "post J Q (g w, w)" by (cases "g w") auto
qed

lemma hoare_lift: "hoare J (\<lambda>d j. \<forall>a. r = Inr a \<longrightarrow> Q a d j) (lift_nio r) Q"
  by (cases r) (auto simp: hoare_def lift_nio_def)

lemma hoare_read: "hoare J (\<lambda>d j. Q (f d) d j) (read_disk f) Q"
  by (simp add: hoare_def read_disk_def)

lemma hoare_get: "hoare J (\<lambda>d j. Q j d j) get_journal Q"
  by (simp add: hoare_def get_journal_def)

lemma hoare_set: "hoare J (\<lambda>d j. J d (f j) \<and> Q () d (f j)) (set_journal f) Q"
  by (simp add: hoare_def set_journal_def)

lemma hoare_durable: "hoare J (\<lambda>d j. J (f d) j \<and> Q () (f d) j) (durable run f) Q"
  by (auto simp: hoare_def durable_def Let_def split: option.split io_fault.split)

lemma hoare_now: "hoare J (\<lambda>d j. \<forall>a. Q a d j) (now_or_zero run) Q"
  by (simp add: hoare_def now_or_zero_def)

lemma hoare_open: "hoare J (Q ()) open_mailbox Q"
  by (simp add: hoare_def open_mailbox_def)

lemma hoare_ignore:
  "hoare (\<lambda>d j. J d j \<and> R d j) P m top \<Longrightarrow> hoare J (\<lambda>d j. P d j \<and> R d j) (ignore m) (\<lambda>_. R)"
  unfolding hoare_def ignore_def by (auto dest: post_invariant)

lemma hoare_on_error:
  assumes "hoare J P m Q" and "hoare J (\<lambda>_ _. True) c top"
  shows "hoare J P (on_error m c) Q"
  unfolding hoare_def
proof (intro allI impI)
  fix w :: native_world assume w: "J (nw_disk w) (nw_journal w)" "P (nw_disk w) (nw_journal w)"
  obtain r w1 where m: "m w = (r, w1)" by force
  have p: "post J Q (r, w1)" using assms(1) w m by (metis hoare_def)
  show "post J Q (on_error m c w)"
  proof (cases r)
    case (Inl e)
    then have "post J top (c w1)" using p assms(2) by (simp add: hoare_def)
    with Inl m show ?thesis by (auto simp: on_error_def dest: post_invariant)
  next
    case (Inr a)
    with p m show ?thesis by (simp add: on_error_def)
  qed
qed

lemma hoare_fail: "hoare J P (lift_nio (Inl e)) Q"
  by (simp add: hoare_def lift_nio_def)

text \<open>A step that keeps both invariants keeps the conjunction.\<close>

lemma hoare_start:
  "hoare J P m Q \<Longrightarrow> J (nw_disk w) (nw_journal w) \<Longrightarrow> P (nw_disk w) (nw_journal w) \<Longrightarrow>
   J (nw_disk (snd (m w))) (nw_journal (snd (m w)))"
  unfolding hoare_def by (blast dest: post_invariant)

section \<open>The invariant\<close>

definition key_of :: "string \<Rightarrow> release_manifest \<Rightarrow> consumed_request" where
  "key_of nonce m = \<lparr>cq_nonce = nonce, cq_version = rm_version m, cq_sequence = rm_sequence m\<rparr>"

text \<open>The requests that were handed to the installer as updates, in order.\<close>

definition installed_requests :: "install_event list \<Rightarrow> consumed_request list" where
  "installed_requests es =
     concat (map (\<lambda>e. case ie_nonce e of None \<Rightarrow> [] | Some n \<Rightarrow> [key_of n (ie_manifest e)]) es)"

lemma installed_requests_snoc:
  "installed_requests (es @ [e]) = installed_requests es
     @ (case ie_nonce e of None \<Rightarrow> [] | Some n \<Rightarrow> [key_of n (ie_manifest e)])"
  by (simp add: installed_requests_def)

text \<open>A release that the floor of a ledger rejects.\<close>

definition below_floor :: "('v::linorder) update_env \<Rightarrow> update_ledger \<Rightarrow> consumed_request \<Rightarrow> bool" where
  "below_floor U l c \<longleftrightarrow> (\<exists>cand fl. ue_semver U (cq_version c) = Some cand
     \<and> ue_semver U (floor_version l) = Some fl \<and> (cand < fl \<or> cq_sequence c < floor_sequence l))"

text \<open>Every installed request has a receipt, or can no longer pass the floor.\<close>

definition covered ::
  "('v::linorder) native_env \<Rightarrow> update_ledger \<Rightarrow> journal \<Rightarrow> install_event list \<Rightarrow> bool" where
  "covered env l j es \<longleftrightarrow> (\<forall>c\<in>set (installed_requests es). c \<in> set (jn_consumed j)
     \<or> uc_emergency_version (ne_policy env) = None \<and> below_floor (ne_update env) l c)"

text \<open>The identities of a transaction in the ledger, the history and the journal.\<close>

definition pending_ids :: "pending_update \<Rightarrow> string \<times> string \<times> u64" where
  "pending_ids a = (pu_nonce a, pu_version a, pu_sequence a)"

definition record_ids :: "history_entry \<Rightarrow> string \<times> string \<times> u64" where
  "record_ids r = (he_nonce r, he_version r, he_sequence r)"

definition journal_ids :: "native_pending \<Rightarrow> string \<times> string \<times> u64" where
  "journal_ids p = (np_nonce p, rm_version (cr_manifest (np_release p)), rm_sequence (cr_manifest (np_release p)))"

definition agree :: "update_ledger \<Rightarrow> journal \<Rightarrow> bool" where
  "agree l j \<longleftrightarrow> (\<forall>p. jn_pending j = Some p \<longrightarrow>
     (case ledger_pending l of
        Some a \<Rightarrow> pending_ids a = journal_ids p
      | None \<Rightarrow> ledger_history l \<noteq> [] \<and> record_ids (last (ledger_history l)) = journal_ids p))"

definition good_journal :: "'v update_env \<Rightarrow> journal \<Rightarrow> bool" where
  "good_journal U j \<longleftrightarrow> read_journal U (Json j) = Inr j"

text \<open>The package of an installation: signed by a trusted key, with the signed bytes.\<close>

definition authentic_package :: "'v native_env \<Rightarrow> release_manifest \<Rightarrow> cached_dir \<Rightarrow> bool" where
  "authentic_package env m dir \<longleftrightarrow> (\<exists>sm. cd_manifest dir = Json sm \<and> sm_manifest sm = m
     \<and> authentic (ne_update env) (ne_policy env) sm
     \<and> encode_hex (ue_sha256 (ne_update env) (artifact_bytes (cd_artifact dir))) = rm_sha256 m
     \<and> length (artifact_bytes (cd_artifact dir)) = unat (rm_size_bytes m)
     \<and> ne_verify_signature env m (cd_artifact dir) = Inr ())"

text \<open>
  What holds of every installation at the moment it starts: the package is authentic, and
  an update is already written ahead in both the ledger and the journal, with the previous
  release to return to.
\<close>

definition event_ok :: "('v::linorder) native_env \<Rightarrow> install_event \<Rightarrow> bool" where
  "event_ok env e \<longleftrightarrow> authentic_package env (ie_manifest e) (ie_package e)
     \<and> (\<forall>n. ie_nonce e = Some n \<longrightarrow> (\<exists>l a j p. ie_ledger e = Json l \<and> ledger_pending l = Some a
          \<and> ie_journal e = Json j \<and> jn_pending j = Some p \<and> jn_active j \<noteq> None
          \<and> pending_ids a = (n, rm_version (ie_manifest e), rm_sequence (ie_manifest e))
          \<and> journal_ids p = pending_ids a))"

definition small_cache :: "(string \<times> cached_dir) list \<Rightarrow> bool" where
  "small_cache cache \<longleftrightarrow> (\<forall>(_, dir)\<in>set cache. small_pieces (af_reads (cd_artifact dir)))"

definition consistent ::
  "('v::linorder) native_env \<Rightarrow> update_ledger \<Rightarrow> update_ledger \<Rightarrow> journal \<Rightarrow> journal \<Rightarrow> install_event list \<Rightarrow> bool" where
  "consistent env l0 l jd j es \<longleftrightarrow>
     readable_ledger (ne_update env) l \<and> floor_le (ne_update env) l0 l
     \<and> good_journal (ne_update env) jd \<and> good_journal (ne_update env) j
     \<and> covered env l jd es \<and> covered env l j es \<and> distinct (installed_requests es)
     \<and> (\<forall>e\<in>set es. event_ok env e) \<and> agree l jd \<and> agree l j"

definition native_inv :: "('v::linorder) native_env \<Rightarrow> update_ledger \<Rightarrow> nassert" where
  "native_inv env l0 d j \<longleftrightarrow> (\<exists>l jd. read_ledger (ne_update env) (nd_ledger d) = Inr l
     \<and> read_journal (ne_update env) (nd_journal d) = Inr jd
     \<and> consistent env l0 l jd j (nd_installs d)) \<and> small_cache (nd_cache d)"

text \<open>The policy's history limit, as its validation guarantees.\<close>

definition good_policy :: "'v native_env \<Rightarrow> bool" where
  "good_policy env \<longleftrightarrow> 1 \<le> uc_history_limit (ne_policy env) \<and> uc_history_limit (ne_policy env) \<le> 100"

section \<open>Steps of the invariant\<close>

lemma check_consumed_iff:
  "check_consumed U ns cs = Inr () \<longleftrightarrow>
     (\<forall>c\<in>set cs. valid_nonce (cq_nonce c) \<and> utf8_len (cq_version c) \<le> 128 \<and> ue_semver U (cq_version c) \<noteq> None)
     \<and> distinct (map cq_nonce cs) \<and> set (map cq_nonce cs) \<inter> set ns = {}"
  by (induction cs arbitrary: ns) (auto simp: and_then_Inr_iff not_less)

lemma good_journal_iff:
  "good_journal U j \<longleftrightarrow> length (jn_consumed j) \<le> MAX_REQUESTS \<and> check_consumed U [] (jn_consumed j) = Inr ()
     \<and> (\<forall>c\<in>set (cached_releases j). \<not> bad_cache_directory (cr_directory c))"
  by (auto simp: good_journal_def read_journal_def and_then_Inr_iff list_ex_iff)

lemma good_default: "good_journal U default_journal"
  by (simp add: good_journal_iff default_journal_def cached_releases_def)

lemma read_journal_good: "read_journal U file = Inr j \<Longrightarrow> good_journal U j"
  using good_default [of U]
  by (auto simp: read_journal_def good_journal_def split: json_file.splits if_splits)
     (auto simp: and_then_Inr_iff split: if_splits)

lemma valid_nonce_directory: "valid_nonce n \<Longrightarrow> \<not> bad_cache_directory n"
proof -
  assume v: "valid_nonce n"
  then have "n \<noteq> []" by (auto simp: valid_nonce_def)
  moreover have "is_ascii_alphanumeric c" if "is_lower_hexdigit c" for c
    using that by (auto simp: char_class_defs)
  ultimately show ?thesis using v by (auto simp: valid_nonce_def bad_cache_directory_def list_all_iff)
qed

lemma below_floor_mono:
  assumes "below_floor U l c" and "floor_le U l l'"
  shows "below_floor U l' c"
proof -
  obtain cand fl where c: "ue_semver U (cq_version c) = Some cand" "ue_semver U (floor_version l) = Some fl"
    "cand < fl \<or> cq_sequence c < floor_sequence l"
    using assms(1) by (auto simp: below_floor_def)
  obtain fl' where "ue_semver U (floor_version l') = Some fl'" "fl \<le> fl'" "floor_sequence l \<le> floor_sequence l'"
    using assms(2) c(2) by (auto simp: floor_le_def parse_version_def split: if_splits)
  with c show ?thesis by (auto simp: below_floor_def)
qed

lemma covered_mono: "covered env l j es \<Longrightarrow> floor_le (ne_update env) l l' \<Longrightarrow> covered env l' j es"
  unfolding covered_def by (blast intro: below_floor_mono)

lemma floor_le_trans: "floor_le U a b \<Longrightarrow> floor_le U b c \<Longrightarrow> floor_le U a c"
  by (auto simp: floor_le_def)

text \<open>A new ledger with at least the same floor, on which the journals still agree.\<close>

lemma consistent_ledger:
  "consistent env l0 l jd j es \<Longrightarrow> floor_le (ne_update env) l l' \<Longrightarrow> readable_ledger (ne_update env) l' \<Longrightarrow>
   agree l' jd \<Longrightarrow> agree l' j \<Longrightarrow> consistent env l0 l' jd j es"
  by (auto simp: consistent_def intro: covered_mono floor_le_trans)

lemma consistent_write_journal:
  "consistent env l0 l jd j es \<Longrightarrow> consistent env l0 l j j es"
  by (auto simp: consistent_def)

lemma consistent_memory:
  "consistent env l0 l jd j es \<Longrightarrow> good_journal (ne_update env) j' \<Longrightarrow> covered env l j' es \<Longrightarrow> agree l j' \<Longrightarrow>
   consistent env l0 l jd j' es"
  by (auto simp: consistent_def)

lemma agree_no_pending [simp]: "jn_pending j = None \<Longrightarrow> agree l j"
  by (simp add: agree_def)

lemma agree_cong: "jn_pending j = jn_pending j' \<Longrightarrow> agree l j = agree l j'"
  by (simp add: agree_def)

lemma covered_cong: "jn_consumed j = jn_consumed j' \<Longrightarrow> covered env l j es = covered env l j' es"
  by (simp add: covered_def)

lemma agree_same_pending:
  "agree l j \<Longrightarrow> ledger_pending l = Some a \<Longrightarrow> ledger_pending l' = Some a' \<Longrightarrow> pending_ids a' = pending_ids a \<Longrightarrow>
   agree l' j"
  by (auto simp: agree_def)

lemma agree_finished:
  "agree l j \<Longrightarrow> ledger_pending l = Some a \<Longrightarrow> ledger_pending l' = None \<Longrightarrow> ledger_history l' \<noteq> [] \<Longrightarrow>
   record_ids (last (ledger_history l')) = pending_ids a \<Longrightarrow> agree l' j"
  by (auto simp: agree_def)

end
