(* ===== verification/Native_Safety.thy ===== *)
theory Native_Safety
  imports Native_Invariant
begin

text \<open>
  Every operation of the supervisor preserves the invariant of \<open>Native_Invariant\<close>, whatever
  step fails or crashes.
\<close>

section \<open>Steps that touch neither the ledger nor the journal\<close>

text \<open>The parts of the disk that the invariant speaks of, besides the cache, are the same.\<close>

definition same_core :: "native_disk \<Rightarrow> native_disk \<Rightarrow> bool" where
  "same_core d d' \<longleftrightarrow> nd_ledger d' = nd_ledger d \<and> nd_journal d' = nd_journal d \<and> nd_installs d' = nd_installs d
     \<and> (small_cache (nd_cache d) \<longrightarrow> small_cache (nd_cache d'))"

definition keeps_core :: "'a nio \<Rightarrow> bool" where
  "keeps_core m \<longleftrightarrow> (\<forall>w. same_core (nw_disk w) (nw_disk (snd (m w))) \<and> nw_journal (snd (m w)) = nw_journal w)"

named_theorems keeps

lemma same_core_refl [simp]: "same_core d d"
  by (simp add: same_core_def)

lemma same_core_trans: "same_core a b \<Longrightarrow> same_core b c \<Longrightarrow> same_core a c"
  by (auto simp: same_core_def)

lemma keeps_coreD:
  "keeps_core m \<Longrightarrow> m w = (r, w') \<Longrightarrow> same_core (nw_disk w) (nw_disk w') \<and> nw_journal w' = nw_journal w"
  unfolding keeps_core_def by (metis snd_conv)

lemma keeps_coreI:
  "(\<And>w r w'. m w = (r, w') \<Longrightarrow> same_core (nw_disk w) (nw_disk w') \<and> nw_journal w' = nw_journal w) \<Longrightarrow> keeps_core m"
  unfolding keeps_core_def by (metis prod.collapse)

lemma keeps_bind [keeps]:
  assumes "keeps_core m" and "\<And>a. keeps_core (k a)"
  shows "keeps_core (bind_nio m k)"
proof (rule keeps_coreI)
  fix w r w' assume b: "bind_nio m k w = (r, w')"
  obtain x w1 where m: "m w = (x, w1)" by force
  note first = keeps_coreD [OF assms(1) m]
  show "same_core (nw_disk w) (nw_disk w') \<and> nw_journal w' = nw_journal w"
  proof (cases x)
    case (Inl e) with b m first show ?thesis by (simp add: bind_nio_def)
  next
    case (Inr a)
    with b m have "k a w1 = (r, w')" by (simp add: bind_nio_def)
    from keeps_coreD [OF assms(2) this] first show ?thesis by (auto intro: same_core_trans)
  qed
qed

lemma keeps_pure [keeps]: "keeps_core (\<lambda>w. (g w, w))"
  by (simp add: keeps_core_def)

lemma keeps_simple [keeps]:
  "keeps_core (return_nio a)" "keeps_core (lift_nio r)" "keeps_core (read_disk f)" "keeps_core get_journal"
  "keeps_core open_mailbox" "keeps_core (now_or_zero run)"
  by (simp_all add: keeps_core_def return_nio_def lift_nio_def read_disk_def get_journal_def open_mailbox_def
      now_or_zero_def)

lemma keeps_durable: "(\<And>d. same_core d (f d)) \<Longrightarrow> keeps_core (durable run f)"
  by (simp add: keeps_core_def durable_def Let_def split: option.split io_fault.split)

lemma keeps_id [keeps]: "keeps_core (durable run id)"
  by (rule keeps_durable) simp

lemma keeps_ignore [keeps]: "keeps_core m \<Longrightarrow> keeps_core (ignore m)"
  by (simp add: keeps_core_def ignore_def)

lemma keeps_on_error [keeps]:
  assumes "keeps_core m" and "keeps_core c"
  shows "keeps_core (on_error m c)"
proof (rule keeps_coreI)
  fix w r w' assume b: "on_error m c w = (r, w')"
  obtain x w1 where m: "m w = (x, w1)" by force
  obtain y w2 where c: "c w1 = (y, w2)" by force
  show "same_core (nw_disk w) (nw_disk w') \<and> nw_journal w' = nw_journal w"
    using b m c keeps_coreD [OF assms(1) m] keeps_coreD [OF assms(2) c]
    by (cases x) (auto simp: on_error_def intro: same_core_trans)
qed

lemma keeps_if [keeps]: "keeps_core a \<Longrightarrow> keeps_core b \<Longrightarrow> keeps_core (if c then a else b)"
  by simp

lemma small_cache_remove: "small_cache cache \<Longrightarrow> small_cache (filter f cache)"
  by (auto simp: small_cache_def)

lemma small_cache_set_dir:
  "small_cache (nd_cache d) \<Longrightarrow> small_pieces (af_reads (cd_artifact dir)) \<Longrightarrow> small_cache (nd_cache (set_dir name dir d))"
  by (auto simp: small_cache_def set_dir_def)

lemma keeps_remove_dir [keeps]: "keeps_core (remove_dir run name)"
  unfolding remove_dir_def by (rule keeps_durable) (simp add: same_core_def small_cache_remove)

lemma keeps_remove_dirs [keeps]: "keeps_core (remove_dirs run names)"
  by (induction names) (auto intro: keeps)

lemma keeps_prune_cache [keeps]: "keeps_core (prune_cache run)"
  unfolding prune_cache_def by (intro keeps)

lemma keeps_publish [keeps]: "keeps_core (publish_pending_health run p)"
  unfolding publish_pending_health_def by (intro keeps keeps_durable) (simp_all add: same_core_def)

lemma keeps_ack [keeps]: "keeps_core (ack_request run nonce outcome)"
  unfolding ack_request_def by (intro keeps keeps_durable) (simp_all add: same_core_def)

lemma keeps_op_restart [keeps]: "keeps_core (op_restart run)"
  unfolding op_restart_def by (intro keeps)

lemma same_core_set_dir: "small_pieces (af_reads (cd_artifact dir)) \<Longrightarrow> same_core d (set_dir name dir d)"
  using small_cache_set_dir [of d dir name] by (simp add: same_core_def set_dir_def)

lemma keeps_split [keeps]: "(\<And>a b. keeps_core (f a b)) \<Longrightarrow> keeps_core (case p of (a, b) \<Rightarrow> f a b)"
  by (cases p) simp

text \<open>A copy is within the size limit, so its pieces are small.\<close>

lemma keeps_copied:
  "keeps_core (bind_nio (lift_nio (copy_bounded_len (unat (max_bytes :: u64)) (length bytes))) (\<lambda>_.
     bind_nio (durable run (set_dir dest \<lparr>cd_manifest = manifest, cd_artifact = copied_artifact bytes\<rparr>)) (\<lambda>_.
       durable run id)))"
proof (cases "length bytes \<le> unat max_bytes")
  case True
  moreover have "unat max_bytes < 2 ^ LENGTH(64)" by (rule unsigned_less)
  ultimately have "length bytes < 2 ^ 64" by simp
  then show ?thesis
    by (intro keeps keeps_durable same_core_set_dir) (simp add: copied_artifact_def small_pieces_def)
next
  case False
  then show ?thesis by (simp add: copy_bounded_len_def keeps_core_def bind_nio_def lift_nio_def guard_else_def)
qed

lemma keeps_copy [keeps]: "keeps_core (copy_request run request dest max_bytes)"
  unfolding copy_request_def
  by (intro keeps keeps_copied keeps_durable same_core_set_dir) (simp_all add: empty_dir_def small_pieces_def)

text \<open>Such a step keeps every assertion about those parts.\<close>

definition frame :: "nassert \<Rightarrow> bool" where
  "frame P \<longleftrightarrow> (\<forall>d d' j. same_core d d' \<longrightarrow> P d j \<longrightarrow> P d' j)"

lemma native_inv_frame: "native_inv env l0 d j \<Longrightarrow> same_core d d' \<Longrightarrow> native_inv env l0 d' j"
  by (auto simp: native_inv_def same_core_def)

lemma hoare_keeps:
  assumes "keeps_core m" and "frame P"
  shows "hoare (native_inv env l0) P m (\<lambda>_. P)"
  unfolding hoare_def
proof (intro allI impI)
  fix w :: native_world
  assume w: "native_inv env l0 (nw_disk w) (nw_journal w)" "P (nw_disk w) (nw_journal w)"
  obtain r w1 where m: "m w = (r, w1)" by force
  show "post (native_inv env l0) (\<lambda>_. P) (m w)"
    using keeps_coreD [OF assms(1) m] assms(2) w m
    by (cases r) (auto simp: frame_def intro: native_inv_frame)
qed

section \<open>Changes of the ledger, the journal and the installations\<close>

lemma native_invE:
  assumes "native_inv env l0 d j"
  obtains l jd where "read_ledger (ne_update env) (nd_ledger d) = Inr l"
    and "read_journal (ne_update env) (nd_journal d) = Inr jd"
    and "consistent env l0 l jd j (nd_installs d)" and "small_cache (nd_cache d)"
  using assms by (auto simp: native_inv_def)

lemma native_inv_write_journal:
  assumes "native_inv env l0 d j" shows "native_inv env l0 (d\<lparr>nd_journal := Json j\<rparr>) j"
proof -
  from assms obtain l jd where l: "read_ledger (ne_update env) (nd_ledger d) = Inr l"
    "consistent env l0 l jd j (nd_installs d)" "small_cache (nd_cache d)" by (rule native_invE)
  moreover from l(2) have "read_journal (ne_update env) (Json j) = Inr j"
    by (simp add: consistent_def good_journal_def)
  ultimately show ?thesis by (auto simp: native_inv_def intro: consistent_write_journal)
qed

lemma native_inv_set_journal:
  assumes "native_inv env l0 d j" and "good_journal (ne_update env) j \<Longrightarrow> good_journal (ne_update env) j'"
    and "\<And>l. read_ledger (ne_update env) (nd_ledger d) = Inr l \<Longrightarrow> covered env l j (nd_installs d) \<Longrightarrow> agree l j
      \<Longrightarrow> covered env l j' (nd_installs d) \<and> agree l j'"
  shows "native_inv env l0 d j'"
proof -
  from assms(1) obtain l jd where l: "read_ledger (ne_update env) (nd_ledger d) = Inr l"
    "read_journal (ne_update env) (nd_journal d) = Inr jd"
    "consistent env l0 l jd j (nd_installs d)" "small_cache (nd_cache d)" by (rule native_invE)
  then have "consistent env l0 l jd j' (nd_installs d)"
    using assms(2,3) by (intro consistent_memory [OF l(3)]) (auto simp: consistent_def)
  with l show ?thesis by (auto simp: native_inv_def)
qed

lemma native_inv_set_ledger:
  assumes "native_inv env l0 d j" and "read_ledger (ne_update env) (nd_ledger d) = Inr l"
    and "floor_le (ne_update env) l l'" and "readable_ledger (ne_update env) l'"
    and "\<And>jd. read_journal (ne_update env) (nd_journal d) = Inr jd \<or> jd = j \<Longrightarrow> agree l jd \<Longrightarrow> agree l' jd"
  shows "native_inv env l0 (d\<lparr>nd_ledger := Json l'\<rparr>) j"
proof -
  from assms(1,2) obtain jd where l: "read_journal (ne_update env) (nd_journal d) = Inr jd"
    "consistent env l0 l jd j (nd_installs d)" "small_cache (nd_cache d)"
    by (auto simp: native_inv_def)
  from l(1,2) assms(3-5) have "consistent env l0 l' jd j (nd_installs d)"
    by (intro consistent_ledger [OF l(2)]) (auto simp: consistent_def)
  with l assms(4) show ?thesis by (auto simp: native_inv_def read_ledger_Json)
qed

text \<open>The installation of a new request, or of the previous release.\<close>

lemma native_inv_log_install:
  assumes "native_inv env l0 d j" and "authentic_package env m dir"
    and "\<And>n. nonce = Some n \<Longrightarrow> nd_journal d = Json j \<and> key_of n m \<in> set (jn_consumed j)
      \<and> key_of n m \<notin> set (installed_requests (nd_installs d))
      \<and> (\<exists>l a p. nd_ledger d = Json l \<and> ledger_pending l = Some a \<and> jn_pending j = Some p \<and> jn_active j \<noteq> None
          \<and> pending_ids a = (n, rm_version m, rm_sequence m) \<and> journal_ids p = pending_ids a)"
  shows "native_inv env l0 (log_install nonce m dir d) j"
proof -
  let ?e = "\<lparr>ie_nonce = nonce, ie_manifest = m, ie_package = dir, ie_ledger = nd_ledger d, ie_journal = nd_journal d\<rparr>"
  from assms(1) obtain l jd where l: "read_ledger (ne_update env) (nd_ledger d) = Inr l"
    "read_journal (ne_update env) (nd_journal d) = Inr jd"
    "consistent env l0 l jd j (nd_installs d)" "small_cache (nd_cache d)" by (rule native_invE)
  have "event_ok env ?e" using assms(2,3) by (fastforce simp: event_ok_def)
  moreover have "nonce = Some n \<Longrightarrow> jd = j" for n
    using l(2,3) assms(3) by (auto simp: consistent_def good_journal_def)
  then have "covered env l i (nd_installs d @ [?e])" if "i = jd \<or> i = j" for i
    using l(3) assms(3) that by (cases nonce) (auto simp: covered_def consistent_def installed_requests_snoc)
  moreover have "distinct (installed_requests (nd_installs d @ [?e]))"
    using l(3) assms(3) by (cases nonce) (auto simp: consistent_def installed_requests_snoc)
  ultimately have "consistent env l0 l jd j (nd_installs d @ [?e])"
    using l(3) by (auto simp: consistent_def)
  with l show ?thesis by (auto simp: native_inv_def log_install_def)
qed

section \<open>Receipts\<close>

text \<open>Assertions that neither the receipts nor the journal on disk can break.\<close>

definition base :: "nassert \<Rightarrow> bool" where
  "base P \<longleftrightarrow> (\<forall>d d' j j'. nd_ledger d' = nd_ledger d \<longrightarrow> nd_installs d' = nd_installs d \<longrightarrow>
     jn_active j' = jn_active j \<longrightarrow> jn_pending j' = jn_pending j \<longrightarrow> P d j \<longrightarrow> P d' j')"

lemma baseD:
  "base P \<Longrightarrow> P d j \<Longrightarrow> nd_ledger d' = nd_ledger d \<Longrightarrow> nd_installs d' = nd_installs d \<Longrightarrow>
   jn_active j' = jn_active j \<Longrightarrow> jn_pending j' = jn_pending j \<Longrightarrow> P d' j'"
  unfolding base_def by blast

definition unused :: "string \<Rightarrow> journal \<Rightarrow> bool" where
  "unused n j \<longleftrightarrow> n \<notin> cq_nonce ` set (jn_consumed j)"

lemma hoare_bind_lift:
  "(\<And>a. r = Inr a \<Longrightarrow> hoare J P (k a) Q) \<Longrightarrow> hoare J P (bind_nio (lift_nio r) k) Q"
  by (cases r) (simp_all add: hoare_def bind_nio_def lift_nio_def)

lemma hoare_bind_get:
  "(\<And>i. hoare J (\<lambda>d j. P d j \<and> j = i) (k i) Q) \<Longrightarrow> hoare J P (bind_nio get_journal k) Q"
  by (simp add: hoare_def bind_nio_def get_journal_def)

lemma hoare_bind_return: "hoare J P (k a) Q \<Longrightarrow> hoare J P (bind_nio (return_nio a) k) Q"
  by (simp add: hoare_def bind_nio_def return_nio_def)

lemma hoare_skip: "(\<And>d j. J d j \<Longrightarrow> P d j \<Longrightarrow> Q a d j) \<Longrightarrow> hoare J P (return_nio a) Q"
  by (simp add: hoare_def return_nio_def)

lemma hoare_grab: "(\<And>d j. J d j \<Longrightarrow> P d j \<Longrightarrow> A) \<Longrightarrow> (A \<Longrightarrow> hoare J P m Q) \<Longrightarrow> hoare J P m Q"
  unfolding hoare_def by blast

lemma hoare_read_ledger_io:
  "hoare (native_inv env l0) P (read_ledger_io env run)
     (\<lambda>l d j. P d j \<and> read_ledger (ne_update env) (nd_ledger d) = Inr l)"
  unfolding read_ledger_io_def
  by (rule hoare_bind [where Q = "\<lambda>_. P"], rule hoare_pre [OF hoare_durable], simp,
      rule hoare_pre [OF hoare_pure], auto)

lemma hoare_write_journal:
  assumes "\<And>d j. native_inv env l0 d j \<Longrightarrow> P d j \<Longrightarrow> Q () (d\<lparr>nd_journal := Json j\<rparr>) j"
  shows "hoare (native_inv env l0) P (write_journal env run) Q"
  unfolding write_journal_def
proof (rule hoare_bind [where Q = "\<lambda>j d j'. P d j' \<and> j = j'"])
  show "hoare (native_inv env l0) P get_journal (\<lambda>j d j'. P d j' \<and> j = j')"
    by (rule hoare_pre [OF hoare_get]) simp
next
  fix j
  show "hoare (native_inv env l0) (\<lambda>d j'. P d j' \<and> j = j')
     (if ne_journal_len env j > MAX_JOURNAL_BYTES then lift_nio (Inl ''native journal exceeds size limit'')
      else durable run (\<lambda>d. d\<lparr>nd_journal := Json j\<rparr>)) Q"
    using assms by (auto intro!: hoare_fail hoare_pre [OF hoare_durable] intro: native_inv_write_journal)
qed

lemma hoare_set_journal:
  assumes "\<And>d j. native_inv env l0 d j \<Longrightarrow> P d j \<Longrightarrow> native_inv env l0 d (f j) \<and> Q () d (f j)"
  shows "hoare (native_inv env l0) P (set_journal f) Q"
  using assms by (intro hoare_pre [OF hoare_set]) auto

lemma retain_filter:
  "retain_consumed U fv fs cs = Inr rs \<Longrightarrow> set rs \<subseteq> set cs \<and> (distinct (map cq_nonce cs) \<longrightarrow> distinct (map cq_nonce rs))
     \<and> length rs \<le> length cs
     \<and> (\<forall>c\<in>set cs - set rs. \<exists>v. ue_semver U (cq_version c) = Some v \<and> (v < fv \<or> cq_sequence c < fs))"
  by (induction cs arbitrary: rs) (fastforce simp: and_then_Inr_iff not_le split: if_splits)+

lemma good_journal_fewer:
  assumes "good_journal U j" and "set rs \<subseteq> set (jn_consumed j)" and "distinct (map cq_nonce rs)"
    and "length rs \<le> length (jn_consumed j)"
  shows "good_journal U (j\<lparr>jn_consumed := rs\<rparr>)"
  using assms by (auto simp: good_journal_iff check_consumed_iff cached_releases_def)

lemma native_inv_retain:
  assumes "native_inv env l0 d j" and "read_ledger (ne_update env) (nd_ledger d) = Inr l"
    and "ue_semver (ne_update env) (floor_version l) = Some fv" and "uc_emergency_version (ne_policy env) = None"
    and "retain_consumed (ne_update env) fv (floor_sequence l) (jn_consumed j) = Inr rs"
  shows "native_inv env l0 d (j\<lparr>jn_consumed := rs\<rparr>)"
proof (rule native_inv_set_journal [OF assms(1)])
  note r = retain_filter [OF assms(5)]
  show "good_journal (ne_update env) (j\<lparr>jn_consumed := rs\<rparr>)" if "good_journal (ne_update env) j"
    using that r by (intro good_journal_fewer) (auto simp: good_journal_iff check_consumed_iff)
  fix l'
  assume l': "read_ledger (ne_update env) (nd_ledger d) = Inr l'" "covered env l' j (nd_installs d)" "agree l' j"
  have "below_floor (ne_update env) l' c" if "c \<in> set (jn_consumed j) - set rs" for c
    using that r l'(1) assms(2,3) by (fastforce simp: below_floor_def)
  then show "covered env l' (j\<lparr>jn_consumed := rs\<rparr>) (nd_installs d) \<and> agree l' (j\<lparr>jn_consumed := rs\<rparr>)"
    using l'(2,3) assms(4) agree_cong [of "j\<lparr>jn_consumed := rs\<rparr>" j] by (auto simp: covered_def)
qed

lemma hoare_prune_consumed:
  assumes "base P"
  shows "hoare (native_inv env l0) (\<lambda>d j. P d j \<and> unused n j) (prune_consumed env run) (\<lambda>_ d j. P d j \<and> unused n j)"
proof (cases "uc_emergency_version (ne_policy env) = None")
  case False
  then show ?thesis by (auto simp: prune_consumed_def intro!: hoare_skip)
next
  case True
  let ?U = "ne_update env"
  let ?P = "\<lambda>d j. P d j \<and> unused n j"
  have set_part: "hoare (native_inv env l0)
      (\<lambda>d j. (?P d j \<and> read_ledger ?U (nd_ledger d) = Inr l) \<and> j = i)
      (set_journal (\<lambda>j. j\<lparr>jn_consumed := rs\<rparr>)) (\<lambda>_. ?P)"
    if fv: "ue_semver ?U (floor_version l) = Some fv"
      and rs: "retain_consumed ?U fv (floor_sequence l) (jn_consumed i) = Inr rs" for l fv i rs
  proof (rule hoare_set_journal)
    fix d j
    assume a: "native_inv env l0 d j" "(?P d j \<and> read_ledger ?U (nd_ledger d) = Inr l) \<and> j = i"
    with fv rs True have "native_inv env l0 d (j\<lparr>jn_consumed := rs\<rparr>)" by (blast intro: native_inv_retain)
    moreover have "P d (j\<lparr>jn_consumed := rs\<rparr>)" using a by (auto intro: baseD [OF assms])
    moreover have "set rs \<subseteq> set (jn_consumed j)" using a(2) retain_filter [OF rs] by simp
    ultimately show "native_inv env l0 d (j\<lparr>jn_consumed := rs\<rparr>) \<and> ?P d (j\<lparr>jn_consumed := rs\<rparr>)"
      using a by (auto simp: unused_def)
  qed
  show ?thesis
    unfolding prune_consumed_def using True
    by (auto intro!: hoare_bind [OF hoare_read_ledger_io] hoare_bind_lift hoare_bind_get set_part)
qed

text \<open>
  A request that is remembered has its receipt in memory and, when it is a new one, on disk.
\<close>

lemma hoare_remember_nonce:
  assumes "base P"
  shows "hoare (native_inv env l0) (\<lambda>d j. P d j \<and> (fresh \<longrightarrow> unused n j)) (remember_consumed_nonce env run n v s)
    (\<lambda>_ d j. P d j \<and> \<lparr>cq_nonce = n, cq_version = v, cq_sequence = s\<rparr> \<in> set (jn_consumed j)
      \<and> (fresh \<longrightarrow> nd_journal d = Json j))"
    (is "hoare ?J _ _ ?Q")
proof -
  let ?c = "\<lparr>cq_nonce = n, cq_version = v, cq_sequence = s\<rparr>"
  let ?add = "\<lambda>j. j\<lparr>jn_consumed := jn_consumed j @ [?c]\<rparr>"
  have add_inv: "native_inv env l0 d (?add j)"
    if "native_inv env l0 d j" "unused n j" "length (jn_consumed j) < MAX_REQUESTS"
      "valid_nonce n" "utf8_len v \<le> 128" "ue_semver (ne_update env) v = Some x" for d j x
  proof (rule native_inv_set_journal [OF that(1)])
    show "good_journal (ne_update env) (?add j)" if "good_journal (ne_update env) j"
      using that \<open>unused n j\<close> \<open>length (jn_consumed j) < MAX_REQUESTS\<close> \<open>valid_nonce n\<close> \<open>utf8_len v \<le> 128\<close>
        \<open>ue_semver (ne_update env) v = Some x\<close>
      by (auto simp: good_journal_iff check_consumed_iff cached_releases_def unused_def)
    fix l assume "covered env l j (nd_installs d)" "agree l j"
    then show "covered env l (?add j) (nd_installs d) \<and> agree l (?add j)"
      using agree_cong [of "?add j" j] by (auto simp: covered_def)
  qed
  have new: "hoare ?J (\<lambda>d j. P d j \<and> unused n j)
      (bind_nio (prune_consumed env run) (\<lambda>_. bind_nio get_journal (\<lambda>j.
        if length (jn_consumed j) \<ge> MAX_REQUESTS then lift_nio (Inl e)
        else bind_nio (set_journal ?add) (\<lambda>_. write_journal env run)))) ?Q"
    if ok: "valid_nonce n" "utf8_len v \<le> 128" "ue_semver (ne_update env) v = Some x" for x e
  proof (rule hoare_bind [OF hoare_prune_consumed [OF assms]], rule hoare_bind_get)
    fix i
    show "hoare ?J (\<lambda>d j. (P d j \<and> unused n j) \<and> j = i)
        (if length (jn_consumed i) \<ge> MAX_REQUESTS then lift_nio (Inl e)
         else bind_nio (set_journal ?add) (\<lambda>_. write_journal env run)) ?Q"
    proof (cases "length (jn_consumed i) \<ge> MAX_REQUESTS")
      case False
      have "hoare ?J (\<lambda>d j. (P d j \<and> unused n j) \<and> j = i) (bind_nio (set_journal ?add) (\<lambda>_. write_journal env run)) ?Q"
      proof (rule hoare_bind)
        show "hoare ?J (\<lambda>d j. (P d j \<and> unused n j) \<and> j = i) (set_journal ?add)
            (\<lambda>_ d j. P d j \<and> ?c \<in> set (jn_consumed j))"
          using False ok by (intro hoare_set_journal) (auto intro: add_inv baseD [OF assms])
        show "hoare ?J (\<lambda>d j. P d j \<and> ?c \<in> set (jn_consumed j)) (write_journal env run) ?Q"
          by (rule hoare_write_journal) (auto intro: baseD [OF assms])
      qed
      with False show ?thesis by simp
    qed (simp add: hoare_fail)
  qed
  have known: "hoare ?J (\<lambda>d j. (P d j \<and> (fresh \<longrightarrow> unused n j)) \<and> j = i)
      (lift_nio (guard_else (cq_version previous = v \<and> cq_sequence previous = s) e)) ?Q"
    if "find (\<lambda>request. cq_nonce request = n) (jn_consumed i) = Some previous" for i previous e
  proof -
    have "previous \<in> set (jn_consumed i) \<and> cq_nonce previous = n"
      using that by (auto simp: find_Some_iff)
    then have "\<not> unused n i" and "previous = ?c \<Longrightarrow> ?c \<in> set (jn_consumed i)" by (auto simp: unused_def)
    then show ?thesis by (cases previous; intro hoare_pre [OF hoare_lift]) (use \<open>_ \<and> _\<close> in auto)
  qed
  show ?thesis
  proof (cases "\<not> valid_nonce n \<or> utf8_len v > 128")
    case False
    show ?thesis
      unfolding remember_consumed_nonce_def if_not_P [OF False]
    proof (intro hoare_bind_lift hoare_bind_get)
      fix x i
      assume "ok_or (ue_semver (ne_update env) v) ''consumed request version: invalid'' = Inr x"
      then have ok: "ue_semver (ne_update env) v = Some x" by simp
      show "hoare ?J (\<lambda>d j. (P d j \<and> (fresh \<longrightarrow> unused n j)) \<and> j = i)
        (case find (\<lambda>request. cq_nonce request = n) (jn_consumed i) of
          Some previous \<Rightarrow> lift_nio (guard_else (cq_version previous = v \<and> cq_sequence previous = s)
             ''consumed native request nonce changed its release identity'')
        | None \<Rightarrow> bind_nio (prune_consumed env run) (\<lambda>_. bind_nio get_journal (\<lambda>j.
            if length (jn_consumed j) \<ge> MAX_REQUESTS
            then lift_nio (Inl ''native consumed request history is full; administrator repair is required before accepting another update'')
            else bind_nio (set_journal ?add) (\<lambda>_. write_journal env run)))) ?Q"
      proof (cases "find (\<lambda>request. cq_nonce request = n) (jn_consumed i)")
        case None
        then have "unused n i" by (auto simp: find_None_iff unused_def)
        with None False ok show ?thesis by (auto intro: hoare_pre [OF new])
      next
        case (Some previous)
        then show ?thesis using known by simp
      qed
    qed
  qed (simp add: remember_consumed_nonce_def hoare_fail)
qed

lemma hoare_remember_request:
  assumes "base P"
  shows "hoare (native_inv env l0) (\<lambda>d j. P d j \<and> (fresh \<longrightarrow> unused n j)) (remember_consumed_request env run n m)
    (\<lambda>_ d j. P d j \<and> key_of n m \<in> set (jn_consumed j) \<and> (fresh \<longrightarrow> nd_journal d = Json j))"
  unfolding remember_consumed_request_def key_of_def by (rule hoare_remember_nonce [OF assms])

section \<open>The ledger's operations\<close>

text \<open>Assertions that no change of the ledger can break.\<close>

definition off_ledger :: "nassert \<Rightarrow> bool" where
  "off_ledger P \<longleftrightarrow> (\<forall>d d' j. nd_journal d' = nd_journal d \<longrightarrow> nd_installs d' = nd_installs d \<longrightarrow> P d j \<longrightarrow> P d' j)"

lemma off_ledgerD:
  "off_ledger P \<Longrightarrow> P d j \<Longrightarrow> nd_journal d' = nd_journal d \<Longrightarrow> nd_installs d' = nd_installs d \<Longrightarrow> P d' j"
  unfolding off_ledger_def by blast

lemma floor_le_same:
  "readable_ledger U l \<Longrightarrow> floor_version l' = floor_version l \<Longrightarrow> floor_sequence l' = floor_sequence l \<Longrightarrow> floor_le U l l'"
  by (auto simp: floor_le_def readable_ledger_def)

lemma readable_same:
  "readable_ledger U l \<Longrightarrow> floor_version l' = floor_version l \<Longrightarrow> ledger_history l' = ledger_history l \<Longrightarrow> readable_ledger U l'"
  by (auto simp: readable_ledger_def)

lemma native_inv_readable:
  "native_inv env l0 d j \<Longrightarrow> read_ledger (ne_update env) (nd_ledger d) = Inr l \<Longrightarrow> readable_ledger (ne_update env) l"
  by (auto simp: native_inv_def consistent_def)

text \<open>The shape that the three operations share: compute a ledger from the one on disk, write it.\<close>

lemma hoare_ledger_step:
  assumes "off_ledger P"
    and step: "\<And>d j clock x. native_inv env l0 d j \<Longrightarrow> P d j \<Longrightarrow> f clock (nd_ledger d) = Inr x \<Longrightarrow>
      native_inv env l0 (d\<lparr>nd_ledger := Json (wr x)\<rparr>) j \<and> Q x (d\<lparr>nd_ledger := Json (wr x)\<rparr>) j"
    and k: "\<And>x. hoare (native_inv env l0) (Q x) (k x) R"
  shows "hoare (native_inv env l0) P
    (bind_nio (durable run id) (\<lambda>_. bind_nio (\<lambda>w. (f (unix_now run w) (nd_ledger (nw_disk w)), w)) (\<lambda>x.
       bind_nio (durable run (\<lambda>d. d\<lparr>nd_ledger := Json (wr x)\<rparr>)) (\<lambda>_. k x)))) R"
proof (rule hoare_bind [where Q = "\<lambda>_. P"])
  show "hoare (native_inv env l0) P (durable run id) (\<lambda>_. P)" by (rule hoare_pre [OF hoare_durable]) simp
  let ?F = "\<lambda>x d j. P d j \<and> (\<exists>clock. f clock (nd_ledger d) = Inr x)"
  show "hoare (native_inv env l0) P (bind_nio (\<lambda>w. (f (unix_now run w) (nd_ledger (nw_disk w)), w)) (\<lambda>x.
       bind_nio (durable run (\<lambda>d. d\<lparr>nd_ledger := Json (wr x)\<rparr>)) (\<lambda>_. k x))) R"
  proof (rule hoare_bind)
    show "hoare (native_inv env l0) P (\<lambda>w. (f (unix_now run w) (nd_ledger (nw_disk w)), w)) ?F"
      by (rule hoare_pre [OF hoare_pure]) auto
    fix x
    show "hoare (native_inv env l0) (?F x) (bind_nio (durable run (\<lambda>d. d\<lparr>nd_ledger := Json (wr x)\<rparr>)) (\<lambda>_. k x)) R"
    proof (rule hoare_bind [OF _ k])
      show "hoare (native_inv env l0) (?F x) (durable run (\<lambda>d. d\<lparr>nd_ledger := Json (wr x)\<rparr>)) (\<lambda>_. Q x)"
        by (rule hoare_pre [OF hoare_durable]) (use step in fastforce)
    qed
  qed
qed

lemma hoare_commit_pending:
  assumes "off_ledger P" and P: "\<And>d j. P d j \<Longrightarrow> nd_journal d = Json j \<and> jn_pending j = None"
  shows "hoare (native_inv env l0) P (commit_pending env run m nonce) (\<lambda>_ d j. P d j \<and>
    (\<exists>l a. nd_ledger d = Json l \<and> ledger_pending l = Some a \<and> pending_ids a = (nonce, rm_version m, rm_sequence m)))"
    (is "hoare ?J P _ (\<lambda>_. ?Q)")
  unfolding commit_pending_def case_prod_beta
proof (rule hoare_ledger_step [where Q = "\<lambda>_. ?Q"])
  show "off_ledger P" by fact
  fix x :: "update_ledger \<times> pending_update"
  show "hoare ?J ?Q (publish_pending_health run (snd x)) (\<lambda>_. ?Q)"
    by (rule hoare_keeps [OF keeps_publish]) (auto simp: frame_def same_core_def intro: off_ledgerD [OF assms(1)])
  fix d j clock
  assume a: "?J d j" "P d j"
    "ledger_commit (ne_update env) (ne_policy env) clock m nonce (nd_ledger d) = Inr x"
  from a(3) obtain l where l: "read_ledger (ne_update env) (nd_ledger d) = Inr l"
    and x: "fst x = l\<lparr>ledger_pending := Some (snd x)\<rparr>"
      "pending_ids (snd x) = (nonce, rm_version m, rm_sequence m)"
    by (auto simp: ledger_commit_def new_pending_def and_then_Inr_iff pending_ids_def split: if_splits)
  note r = native_inv_readable [OF a(1) l]
  have "?J (d\<lparr>nd_ledger := Json (fst x)\<rparr>) j"
    using P [OF a(2)] by (intro native_inv_set_ledger [OF a(1) l floor_le_same [OF r] readable_same [OF r]])
      (auto simp: x(1) read_journal_def and_then_Inr_iff split: if_splits)
  moreover have "P (d\<lparr>nd_ledger := Json (fst x)\<rparr>) j" using a(2) by (auto intro: off_ledgerD [OF assms(1)])
  ultimately show "?J (d\<lparr>nd_ledger := Json (fst x)\<rparr>) j \<and> ?Q (d\<lparr>nd_ledger := Json (fst x)\<rparr>) j"
    using x by simp
qed

lemma hoare_arm_health:
  assumes "off_ledger P"
  shows "hoare (native_inv env l0) P (arm_health env run nonce) (\<lambda>_. P)" (is "hoare ?J P _ _")
  unfolding arm_health_def case_prod_beta
proof (rule hoare_ledger_step [where Q = "\<lambda>_. P"])
  show "off_ledger P" by fact
  fix x :: "update_ledger \<times> pending_update"
  show "hoare ?J P (bind_nio (publish_pending_health run (snd x)) (\<lambda>_. return_nio (snd x))) (\<lambda>_. P)"
    by (intro hoare_keeps keeps) (auto simp: frame_def same_core_def intro: off_ledgerD [OF assms])
  fix d j clock
  assume a: "?J d j" "P d j" "ledger_arm (ne_update env) (ne_policy env) clock nonce (nd_ledger d) = Inr x"
  from a(3) obtain l p where l: "read_ledger (ne_update env) (nd_ledger d) = Inr l" "ledger_pending l = Some p"
    and x: "fst x = l\<lparr>ledger_pending := Some (snd x)\<rparr>" "pending_ids (snd x) = pending_ids p"
    by (auto simp: ledger_arm_def and_then_Inr_iff pending_ids_def Let_def split: if_splits)
  note r = native_inv_readable [OF a(1) l(1)]
  have "?J (d\<lparr>nd_ledger := Json (fst x)\<rparr>) j"
    by (intro native_inv_set_ledger [OF a(1) l(1) floor_le_same [OF r] readable_same [OF r]])
      (auto simp: x intro: agree_same_pending [OF _ l(2)])
  then show "?J (d\<lparr>nd_ledger := Json (fst x)\<rparr>) j \<and> P (d\<lparr>nd_ledger := Json (fst x)\<rparr>) j"
    using a(2) by (auto intro: off_ledgerD [OF assms])
qed

lemma hoare_finish_update:
  assumes "off_ledger P" and "good_policy env"
  shows "hoare (native_inv env l0) P (finish_update env run nonce healthy reason) (\<lambda>_. P)" (is "hoare ?J P _ _")
  unfolding finish_update_def
proof (rule hoare_ledger_step [where Q = "\<lambda>_. P" and wr = "\<lambda>x. x"])
  show "off_ledger P" by fact
  show "hoare ?J P (ignore (bind_nio open_mailbox (\<lambda>_.
       bind_nio (ignore (durable run (\<lambda>d. d\<lparr>nd_pending_health := Missing\<rparr>))) (\<lambda>_.
         durable run (\<lambda>d. d\<lparr>nd_health := Missing\<rparr>))))) (\<lambda>_. P)"
    by (intro hoare_keeps keeps keeps_durable)
      (auto simp: frame_def same_core_def intro: off_ledgerD [OF assms(1)])
  fix d j clock l'
  assume a: "?J d j" "P d j"
    "ledger_finish (ne_update env) (ne_policy env) clock nonce healthy reason (nd_ledger d) = Inr l'"
  from a(3) obtain l where l: "read_ledger (ne_update env) (nd_ledger d) = Inr l"
    by (auto simp: ledger_finish_def and_then_Inr_iff)
  note r = native_inv_readable [OF a(1) l]
  from assms(2) have h: "1 \<le> uc_history_limit (ne_policy env)" "uc_history_limit (ne_policy env) \<le> 100"
    by (auto simp: good_policy_def)
  from ledger_finish_sound [OF a(3) l r] obtain p now where
    p: "ledger_pending l = Some p" "floor_le (ne_update env) l l'" "ledger_pending l' = None"
      "ledger_history l' = drop (length (ledger_history l) + 1 - uc_history_limit (ne_policy env))
          (ledger_history l @ [finish_record p now healthy reason])" by metis
  have "ledger_history l' \<noteq> []" "last (ledger_history l') = finish_record p now healthy reason"
    using h(1) by (simp_all add: p(4))
  then have "agree l i \<Longrightarrow> agree l' i" for i
    by (auto intro: agree_finished [OF _ p(1,3)] simp: record_ids_def pending_ids_def finish_record_def)
  then have "?J (d\<lparr>nd_ledger := Json l'\<rparr>) j"
    by (intro native_inv_set_ledger [OF a(1) l p(2) ledger_finish_readable [OF a(3) l r h(2)]])
  then show "?J (d\<lparr>nd_ledger := Json l'\<rparr>) j \<and> P (d\<lparr>nd_ledger := Json l'\<rparr>) j"
    using a(2) by (auto intro: off_ledgerD [OF assms(1)])
qed

section \<open>Verified packages\<close>

definition signed_package :: "'v native_env \<Rightarrow> release_manifest \<Rightarrow> cached_dir \<Rightarrow> bool" where
  "signed_package env m dir \<longleftrightarrow> (\<exists>sm. cd_manifest dir = Json sm \<and> sm_manifest sm = m
     \<and> authentic (ne_update env) (ne_policy env) sm
     \<and> encode_hex (ue_sha256 (ne_update env) (artifact_bytes (cd_artifact dir))) = rm_sha256 m
     \<and> length (artifact_bytes (cd_artifact dir)) = unat (rm_size_bytes m))"

lemma authentic_package_iff:
  "authentic_package env m dir \<longleftrightarrow> signed_package env m dir \<and> ne_verify_signature env m (cd_artifact dir) = Inr ()"
  by (auto simp: authentic_package_def signed_package_def)

definition new_request :: "string \<Rightarrow> release_manifest \<Rightarrow> native_disk \<Rightarrow> bool" where
  "new_request nonce m d \<longleftrightarrow> key_of nonce m \<notin> set (installed_requests (nd_installs d))"

lemma cached_small:
  assumes "small_cache (nd_cache d)"
  shows "small_pieces (af_reads (cd_artifact (cached_or_missing name d)))"
proof (cases "map_of (nd_cache d) name")
  case None
  then show ?thesis by (simp add: cached_or_missing_def empty_dir_def small_pieces_def)
next
  case (Some dir)
  with map_of_SomeD [OF Some] assms show ?thesis by (auto simp: cached_or_missing_def small_cache_def)
qed

lemma recovery_signed:
  assumes "verify_files_for_recovery (ne_update env) (ne_policy env) clock (cd_manifest dir) (cd_artifact dir) = Inr m"
    and "small_pieces (af_reads (cd_artifact dir))"
  shows "signed_package env m dir"
proof -
  from assms(1) obtain sm where sm: "cd_manifest dir = Json sm" "m = sm_manifest sm"
    and v: "verify_manifest_inner (ne_update env) (ne_policy env) clock sm True = Inr ()"
      "verify_artifact (ne_update env) (ne_policy env) sm (cd_artifact dir) = Inr ()"
    by (auto simp: verify_files_for_recovery_def read_json_def and_then_Inr_iff split: json_file.splits)
  from sm verify_inner_sound(1) [OF v(1)] verify_artifact_sound [OF v(2) assms(2)] show ?thesis
    by (auto simp: signed_package_def)
qed

lemma files_signed:
  assumes "verify_files (ne_update env) (ne_policy env) clock file (cd_manifest dir) (cd_artifact dir) = Inr m"
    and "small_pieces (af_reads (cd_artifact dir))"
  shows "signed_package env m dir"
    and "read_ledger (ne_update env) file = Inr l \<Longrightarrow> uc_emergency_version (ne_policy env) = None \<Longrightarrow>
      \<not> below_floor (ne_update env) l (key_of n m)"
proof -
  from assms(1) obtain sm where sm: "cd_manifest dir = Json sm" "m = sm_manifest sm"
    and v: "verify_manifest (ne_update env) (ne_policy env) clock file sm = Inr ()"
      "verify_artifact (ne_update env) (ne_policy env) sm (cd_artifact dir) = Inr ()"
    by (auto simp: verify_files_def read_json_def and_then_Inr_iff split: json_file.splits)
  from sm verify_inner_sound(1) [OF verify_manifest_sound(1) [OF v(1)]] verify_artifact_sound [OF v(2) assms(2)]
  show "signed_package env m dir" by (auto simp: signed_package_def)
  show "\<not> below_floor (ne_update env) l (key_of n m)"
    if "read_ledger (ne_update env) file = Inr l" "uc_emergency_version (ne_policy env) = None"
    using that verify_manifest_sound(2) [OF v(1)] sm
    by (auto simp: below_floor_def key_of_def parse_version_def split: if_splits)
qed

text \<open>
  A request whose nonce has no receipt and whose release passes the floor was never
  installed before.
\<close>

lemma verified_is_new:
  fixes dir :: cached_dir
  assumes "native_inv env l0 d j" and "unused nonce j"
    and "verify_files (ne_update env) (ne_policy env) clock (nd_ledger d) (cd_manifest dir) (cd_artifact dir) = Inr m"
    and "small_pieces (af_reads (cd_artifact dir))"
  shows "new_request nonce m d"
proof -
  from assms(1) obtain l jd where l: "read_ledger (ne_update env) (nd_ledger d) = Inr l"
    "consistent env l0 l jd j (nd_installs d)" by (rule native_invE)
  have "key_of nonce m \<notin> set (jn_consumed j)"
    using assms(2) by (force simp: unused_def key_of_def)
  then show ?thesis
    using l(2) files_signed(2) [OF assms(3,4) l(1)] by (auto simp: consistent_def covered_def new_request_def)
qed

lemma hoare_verify_cached:
  assumes "frame P" and "\<And>d j. P d j \<Longrightarrow> unused nonce j"
  shows "hoare (native_inv env l0) P (verify_cached env run name)
    (\<lambda>x d j. P d j \<and> signed_package env (fst x) (snd x) \<and> new_request nonce (fst x) d)"
  unfolding verify_cached_def
proof (rule hoare_bind [where Q = "\<lambda>_. P"])
  show "hoare (native_inv env l0) P (durable run id) (\<lambda>_. P)" by (rule hoare_pre [OF hoare_durable]) simp
  show "hoare (native_inv env l0) P (\<lambda>w. (let dir = cached_or_missing name (nw_disk w) in
        and_then (verify_files (ne_update env) (ne_policy env) (unix_now run w) (nd_ledger (nw_disk w))
          (cd_manifest dir) (cd_artifact dir)) (\<lambda>m. Inr (m, dir)), w))
    (\<lambda>x d j. P d j \<and> signed_package env (fst x) (snd x) \<and> new_request nonce (fst x) d)"
    by (rule hoare_pre [OF hoare_pure])
      (auto simp: Let_def and_then_Inr_iff native_inv_def intro: files_signed(1) cached_small
        verified_is_new [unfolded native_inv_def] assms(2))
qed

lemma hoare_verify_recovery:
  assumes "frame P"
  shows "hoare (native_inv env l0) P (verify_cached_for_recovery env run name)
    (\<lambda>x d j. P d j \<and> signed_package env (fst x) (snd x))"
  unfolding verify_cached_for_recovery_def
proof (rule hoare_bind [where Q = "\<lambda>_. P"])
  show "hoare (native_inv env l0) P (durable run id) (\<lambda>_. P)" by (rule hoare_pre [OF hoare_durable]) simp
  show "hoare (native_inv env l0) P (\<lambda>w. (let dir = cached_or_missing name (nw_disk w) in
        and_then (verify_files_for_recovery (ne_update env) (ne_policy env) (unix_now run w)
          (cd_manifest dir) (cd_artifact dir)) (\<lambda>m. Inr (m, dir)), w))
    (\<lambda>x d j. P d j \<and> signed_package env (fst x) (snd x))"
    by (rule hoare_pre [OF hoare_pure])
      (auto simp: Let_def and_then_Inr_iff native_inv_def intro: recovery_signed cached_small)
qed

section \<open>Installing and rolling back\<close>

lemma native_inv_slots:
  assumes "native_inv env l0 d j" and "jn_consumed j' = jn_consumed j"
    and "\<And>c. c \<in> set (cached_releases j') \<Longrightarrow> c \<in> set (cached_releases j) \<or> \<not> bad_cache_directory (cr_directory c)"
    and "\<And>l. read_ledger (ne_update env) (nd_ledger d) = Inr l \<Longrightarrow> agree l j \<Longrightarrow> agree l j'"
  shows "native_inv env l0 d j'"
proof (rule native_inv_set_journal [OF assms(1)])
  show "good_journal (ne_update env) j'" if "good_journal (ne_update env) j"
    using that assms(2,3) by (auto simp: good_journal_iff)
  show "covered env l j' (nd_installs d) \<and> agree l j'"
    if "read_ledger (ne_update env) (nd_ledger d) = Inr l" "covered env l j (nd_installs d)" "agree l j" for l
    using that assms(2,4) covered_cong by blast
qed

lemma native_inv_clear: "native_inv env l0 d j \<Longrightarrow> native_inv env l0 d (j\<lparr>jn_pending := None\<rparr>)"
  by (rule native_inv_slots) (auto simp: cached_releases_def)

lemma native_inv_activate:
  "native_inv env l0 d j \<Longrightarrow> jn_pending j = Some p \<Longrightarrow>
   native_inv env l0 d (j\<lparr>jn_active := Some (np_release p), jn_pending := None\<rparr>)"
  by (rule native_inv_slots) (auto simp: cached_releases_def)

lemma native_inv_retime:
  "native_inv env l0 d j \<Longrightarrow>
   native_inv env l0 d (j\<lparr>jn_pending := map_option (\<lambda>p. p\<lparr>np_started_at := t\<rparr>) (jn_pending j)\<rparr>)"
  by (rule native_inv_slots) (auto simp: cached_releases_def agree_def journal_ids_def split: option.splits)

lemma hoare_op_install:
  assumes "\<And>d j. native_inv env l0 d j \<Longrightarrow> P d j \<Longrightarrow>
    native_inv env l0 (log_install nonce m dir d) j \<and> Q (log_install nonce m dir d) j"
  shows "hoare (native_inv env l0) P (op_install run nonce m dir) (\<lambda>_. Q)"
  unfolding op_install_def
proof (rule hoare_bind [where Q = "\<lambda>_. Q"])
  show "hoare (native_inv env l0) P (durable run (log_install nonce m dir)) (\<lambda>_. Q)"
    by (rule hoare_pre [OF hoare_durable]) (use assms in blast)
  show "hoare (native_inv env l0) Q (\<lambda>w. (nr_install run (nw_step w) m, w)) (\<lambda>_. Q)"
    by (rule hoare_pre [OF hoare_pure]) auto
qed

lemma frame_trivial [simp]: "frame (\<lambda>d j. P j)"
  by (simp add: frame_def)

lemma hoare_keeps_any: "keeps_core m \<Longrightarrow> hoare (native_inv env l0) P m (\<lambda>_ _ _. True)"
  by (rule hoare_pre [OF hoare_keeps]) auto

abbreviation any :: nassert where "any \<equiv> \<lambda>_ _. True"

text \<open>The tail that several operations share: clear or activate, write the journal, prune.\<close>

lemma hoare_settle:
  assumes "\<And>d j. native_inv env l0 d j \<Longrightarrow> P d j \<Longrightarrow> native_inv env l0 d (f j)"
  shows "hoare (native_inv env l0) P (bind_nio (set_journal f) (\<lambda>_. bind_nio (write_journal env run) (\<lambda>_. prune_cache run)))
    (\<lambda>_. any)"
proof (rule hoare_bind [where Q = "\<lambda>_. any"])
  show "hoare (native_inv env l0) P (set_journal f) (\<lambda>_. any)" by (rule hoare_set_journal) (simp add: assms)
  show "hoare (native_inv env l0) any (bind_nio (write_journal env run) (\<lambda>_. prune_cache run)) (\<lambda>_. any)"
    by (rule hoare_bind [OF hoare_write_journal [where Q = "\<lambda>_. any"] hoare_keeps_any]) (auto intro: keeps)
qed

lemma hoare_rollback:
  assumes "good_policy env"
  shows "hoare (native_inv env l0) P (rollback_with env run reason) (\<lambda>_. any)"
proof -
  have finish: "hoare (native_inv env l0) any
    (bind_nio (op_restart run) (\<lambda>_. bind_nio (finish_update env run n False reason) (\<lambda>_.
       bind_nio (set_journal (\<lambda>j. j\<lparr>jn_pending := None\<rparr>)) (\<lambda>_. bind_nio (write_journal env run) (\<lambda>_. prune_cache run)))))
    (\<lambda>_. any)" for n
    by (rule hoare_bind [OF hoare_keeps_any hoare_bind [OF hoare_finish_update hoare_settle]])
      (auto intro: keeps native_inv_clear assms simp: off_ledger_def)
  have install: "hoare (native_inv env l0) (\<lambda>d j. True \<and> signed_package env m dir)
      (bind_nio (lift_nio (ne_verify_signature env m (cd_artifact dir))) (\<lambda>_. bind_nio (op_install run None m dir) (\<lambda>_. k)))
      (\<lambda>_. any)"
    if "hoare (native_inv env l0) any k (\<lambda>_. any)" for m dir and k :: "unit nio"
    by (rule hoare_bind_lift, rule hoare_bind [OF hoare_op_install that])
      (auto intro: native_inv_log_install simp: authentic_package_iff)
  have "hoare (native_inv env l0) any (rollback_with env run reason) (\<lambda>_. any)"
    unfolding rollback_with_def case_prod_beta
    by (rule hoare_bind_get, rule hoare_bind_lift, rule hoare_bind_lift,
        rule hoare_bind [OF hoare_pre [OF hoare_verify_recovery [where P = any]] install [OF finish]]) simp_all
  then show ?thesis by (rule hoare_pre) simp
qed

text \<open>
  What holds when a request's transaction is written: the package is authentic, the
  request is new and has its receipt, the journal in memory is the one on disk, and both
  the ledger and the journal name it as pending, with an active release to return to.
\<close>

definition reserved :: "('v::linorder) native_env \<Rightarrow> string \<Rightarrow> release_manifest \<Rightarrow> cached_dir \<Rightarrow> nassert" where
  "reserved env nonce m dir d j \<longleftrightarrow> authentic_package env m dir \<and> new_request nonce m d
     \<and> key_of nonce m \<in> set (jn_consumed j) \<and> nd_journal d = Json j
     \<and> (\<exists>l a p. nd_ledger d = Json l \<and> ledger_pending l = Some a \<and> jn_pending j = Some p \<and> jn_active j \<noteq> None
          \<and> pending_ids a = (nonce, rm_version m, rm_sequence m) \<and> journal_ids p = pending_ids a)"

lemma frame_reserved: "frame (reserved env nonce m dir)"
  by (simp add: frame_def reserved_def same_core_def new_request_def)

lemma hoare_install_and_restart:
  "hoare (native_inv env l0) (reserved env nonce m dir) (install_and_restart env run nonce m dir) (\<lambda>_. any)"
proof -
  have "hoare (native_inv env l0) any (bind_nio (set_journal (\<lambda>j. j\<lparr>jn_pending :=
       map_option (\<lambda>p. p\<lparr>np_started_at := t\<rparr>) (jn_pending j)\<rparr>)) (\<lambda>_. bind_nio (write_journal env run) (\<lambda>_. op_restart run)))
     (\<lambda>_. any)" for t
    by (rule hoare_bind [OF hoare_set_journal [where Q = "\<lambda>_. any"]
        hoare_bind [OF hoare_write_journal [where Q = "\<lambda>_. any"] hoare_keeps_any]])
      (auto intro: native_inv_retime keeps)
  then show ?thesis
    unfolding install_and_restart_def
    by (intro hoare_bind [OF hoare_op_install [where Q = any] hoare_bind [OF hoare_arm_health]])
      (auto intro: native_inv_log_install simp: off_ledger_def reserved_def new_request_def)
qed

lemma hoare_install_or_roll_back:
  assumes "good_policy env"
  shows "hoare (native_inv env l0) (reserved env nonce m dir) (install_or_roll_back env run nonce m dir) (\<lambda>_. any)"
  unfolding hoare_def
proof (intro allI impI)
  fix w :: native_world
  assume w: "native_inv env l0 (nw_disk w) (nw_journal w)" "reserved env nonce m dir (nw_disk w) (nw_journal w)"
  obtain r w1 where i: "install_and_restart env run nonce m dir w = (r, w1)" by force
  note inv = hoare_start [OF hoare_install_and_restart w, of run, unfolded i, simplified]
  obtain r2 w2 where b: "rollback_with env run (''native_install_failed: '' @ projl r) w1 = (r2, w2)" by force
  note inv2 = hoare_start [OF hoare_rollback [OF assms] inv TrueI, of run "''native_install_failed: '' @ projl r", unfolded b, simplified]
  show "post (native_inv env l0) (\<lambda>_. any) (install_or_roll_back env run nonce m dir w)"
    using i b inv inv2 by (cases r; cases r2) (auto simp: install_or_roll_back_def)
qed

section \<open>Accepting a request\<close>

lemma keeps_refuse_failed [keeps]: "keeps_core (refuse_failed_release env run m)"
  unfolding refuse_failed_release_def read_ledger_io_def by (auto intro!: keeps)

lemma native_inv_new_pending:
  assumes "native_inv env l0 d j" and "valid_nonce nonce"
    and "nd_ledger d = Json l" and "ledger_pending l = Some a"
    and "pending_ids a = (nonce, rm_version m, rm_sequence m)"
  shows "native_inv env l0 d (j\<lparr>jn_pending := Some \<lparr>np_release = \<lparr>cr_manifest = m, cr_directory = nonce\<rparr>,
       np_nonce = nonce, np_started_at = t\<rparr>\<rparr>)"
  by (rule native_inv_slots [OF assms(1)])
    (use assms(2-5) in \<open>auto simp: cached_releases_def valid_nonce_directory agree_def journal_ids_def read_ledger_Json\<close>)

lemma hoare_reserve:
  assumes "valid_nonce nonce"
  shows "hoare (native_inv env l0) (\<lambda>d j. jn_pending j = None \<and> jn_active j \<noteq> None \<and> unused nonce j)
    (reserve_request env run nonce previous) (\<lambda>x. reserved env nonce (fst x) (snd x))"
    (is "hoare ?J ?P _ _")
proof -
  let ?A = "\<lambda>m d j. jn_pending j = None \<and> jn_active j \<noteq> None \<and> new_request nonce m d"
  let ?R = "\<lambda>m d j. (?A m d j \<and> key_of nonce m \<in> set (jn_consumed j)) \<and> nd_journal d = Json j"
  let ?C = "\<lambda>m d j. ?R m d j \<and> (\<exists>l a. nd_ledger d = Json l \<and> ledger_pending l = Some a
       \<and> pending_ids a = (nonce, rm_version m, rm_sequence m))"
  have written: "hoare ?J (?C m) (bind_nio (now_or_zero run) (\<lambda>at.
     bind_nio (set_journal (\<lambda>j. j\<lparr>jn_pending := Some \<lparr>np_release = \<lparr>cr_manifest = m, cr_directory = nonce\<rparr>,
       np_nonce = nonce, np_started_at = at\<rparr>\<rparr>)) (\<lambda>_. bind_nio (write_journal env run) (\<lambda>_. return_nio (m, dir)))))
     (\<lambda>x. reserved env nonce (fst x) (snd x))" if auth: "authentic_package env m dir" for m dir
  proof (rule hoare_bind [OF hoare_keeps])
    show "keeps_core (now_or_zero run)" by (rule keeps)
    show "frame (?C m)" by (auto simp: frame_def same_core_def new_request_def)
    fix at
    let ?p = "\<lparr>np_release = \<lparr>cr_manifest = m, cr_directory = nonce\<rparr>, np_nonce = nonce, np_started_at = at\<rparr>"
    let ?W = "\<lambda>d j. jn_pending j = Some ?p \<and> jn_active j \<noteq> None \<and> new_request nonce m d
       \<and> key_of nonce m \<in> set (jn_consumed j) \<and> (\<exists>l a. nd_ledger d = Json l \<and> ledger_pending l = Some a
       \<and> pending_ids a = (nonce, rm_version m, rm_sequence m))"
    show "hoare ?J (?C m) (bind_nio (set_journal (\<lambda>j. j\<lparr>jn_pending := Some ?p\<rparr>))
        (\<lambda>_. bind_nio (write_journal env run) (\<lambda>_. return_nio (m, dir)))) (\<lambda>x. reserved env nonce (fst x) (snd x))"
    proof (rule hoare_bind [where Q = "\<lambda>_. ?W"])
      show "hoare ?J (?C m) (set_journal (\<lambda>j. j\<lparr>jn_pending := Some ?p\<rparr>)) (\<lambda>_. ?W)"
        by (rule hoare_set_journal) (auto intro: native_inv_new_pending assms)
      show "hoare ?J ?W (bind_nio (write_journal env run) (\<lambda>_. return_nio (m, dir))) (\<lambda>x. reserved env nonce (fst x) (snd x))"
        by (rule hoare_bind [OF hoare_write_journal hoare_return])
          (auto simp: reserved_def new_request_def journal_ids_def auth)
    qed
  qed
  have remember: "hoare ?J (\<lambda>d j. ?A m d j \<and> unused nonce j) (bind_nio (remember_consumed_request env run nonce m) (\<lambda>_.
      bind_nio (commit_pending env run m nonce) (\<lambda>_. k))) S" if "hoare ?J (?C m) k S" for m k S
  proof (rule hoare_bind [OF hoare_pre [OF hoare_remember_request [where P = "?A m" and fresh = True]]])
    show "hoare ?J (\<lambda>d j. ?A m d j \<and> key_of nonce m \<in> set (jn_consumed j)
        \<and> (True \<longrightarrow> nd_journal d = Json j)) (bind_nio (commit_pending env run m nonce) (\<lambda>_. k)) S"
      by (rule hoare_bind [OF hoare_pre [OF hoare_commit_pending [where P = "?R m"]] that])
        (auto simp: off_ledger_def new_request_def)
  qed (auto simp: base_def new_request_def)
  show ?thesis
    unfolding reserve_request_def case_prod_beta
  proof (rule hoare_bind [OF hoare_verify_cached [where P = ?P and nonce = nonce]], goal_cases)
    case (3 x)
    let ?S = "\<lambda>d j. ?A (fst x) d j \<and> unused nonce j"
    show ?case
    proof (rule hoare_bind_lift, rule hoare_grab [where A = "signed_package env (fst x) (snd x)"], blast,
        rule hoare_pre [where P = ?S], rule hoare_bind [OF hoare_keeps [OF keeps_refuse_failed]])
      show "frame ?S" by (simp add: frame_def same_core_def new_request_def)
      assume s: "signed_package env (fst x) (snd x)"
      show "hoare ?J ?S (bind_nio (lift_nio (ne_verify_signature env (fst x) (cd_artifact (snd x)))) (\<lambda>_.
         bind_nio (remember_consumed_request env run nonce (fst x)) (\<lambda>_. bind_nio (commit_pending env run (fst x) nonce) (\<lambda>_.
         bind_nio (now_or_zero run) (\<lambda>at. bind_nio (set_journal (\<lambda>j. j\<lparr>jn_pending := Some \<lparr>np_release =
           \<lparr>cr_manifest = fst x, cr_directory = nonce\<rparr>, np_nonce = nonce, np_started_at = at\<rparr>\<rparr>)) (\<lambda>_.
         bind_nio (write_journal env run) (\<lambda>_. return_nio (fst x, snd x)))))))) (\<lambda>x. reserved env nonce (fst x) (snd x))"
        using s by (intro hoare_bind_lift remember written) (simp add: authentic_package_iff)
    qed auto
  qed (simp_all add: frame_def)
qed

lemma keeps_verify_recovery [keeps]: "keeps_core (verify_cached_for_recovery env run name)"
  unfolding verify_cached_for_recovery_def by (intro keeps)

lemma hoare_accept:
  assumes "good_policy env"
  shows "hoare (native_inv env l0) (\<lambda>d j. jn_pending j = None) (accept_request_with env run nonce request) (\<lambda>_. any)"
  unfolding accept_request_with_def case_prod_beta
proof (rule hoare_bind_lift, rule hoare_bind_get, rule hoare_bind_lift, rule hoare_bind_lift)
  fix i :: journal and u u' previous
  assume nonce: "guard_else (valid_nonce nonce) ''invalid request nonce'' = Inr u"
    and new: "guard_else (\<not> list_ex (\<lambda>c. cq_nonce c = nonce) (jn_consumed i)) ''native request nonce was already consumed'' = Inr u'"
    and act: "ok_or (jn_active i) ''seed the current signed package before enabling native updates'' = Inr previous"
  let ?P = "\<lambda>d j. jn_pending j = None \<and> jn_active j \<noteq> None \<and> unused nonce j"
  have v: "valid_nonce nonce" using nonce by simp
  have reserve: "hoare (native_inv env l0) ?P (on_error (reserve_request env run nonce previous) (remove_dir run nonce))
      (\<lambda>x. reserved env nonce (fst x) (snd x))"
    by (rule hoare_on_error [OF hoare_reserve [OF v]]) (rule hoare_conseq [OF hoare_keeps_any [OF keeps_remove_dir]], auto)
  show "hoare (native_inv env l0) (\<lambda>d j. jn_pending j = None \<and> j = i)
     (bind_nio (verify_cached_for_recovery env run (cr_directory previous)) (\<lambda>_.
     bind_nio (copy_request run request nonce (uc_max_download_bytes (ne_policy env))) (\<lambda>_.
     bind_nio (on_error (reserve_request env run nonce previous) (remove_dir run nonce)) (\<lambda>x.
     bind_nio (ack_request run nonce ''accepted'') (\<lambda>_. install_or_roll_back env run nonce (fst x) (snd x))))))
     (\<lambda>_. any)"
    by (rule hoare_pre [OF hoare_bind [OF hoare_keeps [OF keeps_verify_recovery] hoare_bind [OF hoare_keeps [OF keeps_copy]
          hoare_bind [OF reserve hoare_bind [OF hoare_keeps [OF keeps_ack frame_reserved]
          hoare_install_or_roll_back [OF assms]]]]]])
      (use new act in \<open>auto simp: unused_def list_ex_iff\<close>)
qed

section \<open>Recovery, turns and seeding\<close>

lemma hoare_recover_completed:
  "hoare (native_inv env l0) (\<lambda>d j. jn_pending j = Some p) (recover_completed env run l p) (\<lambda>_. any)"
proof -
  let ?P = "\<lambda>d j. jn_pending j = Some p"
  have "hoare (native_inv env l0) ?P (bind_nio (remember_consumed_request env run (np_nonce p) (cr_manifest (np_release p))) (\<lambda>_.
      bind_nio (set_journal (\<lambda>j. (if b then j\<lparr>jn_active := Some (np_release p)\<rparr> else j)\<lparr>jn_pending := None\<rparr>))
        (\<lambda>_. bind_nio (write_journal env run) (\<lambda>_. prune_cache run)))) (\<lambda>_. any)" for b
    by (rule hoare_bind [OF hoare_pre [OF hoare_remember_request [where P = ?P and fresh = False]] hoare_settle])
      (auto simp: base_def intro: native_inv_activate native_inv_clear)
  then show ?thesis unfolding recover_completed_def Let_def by (auto intro: hoare_fail)
qed

lemma hoare_resolve_pending:
  assumes "good_policy env"
  shows "hoare (native_inv env l0) (\<lambda>d j. jn_pending j = Some p) (resolve_pending env run a p) (\<lambda>_. any)"
    (is "hoare ?J ?P _ _")
proof -
  have healthy: "hoare ?J ?P (bind_nio (finish_update env run (np_nonce p) True ''healthy_heartbeat'') (\<lambda>_.
        bind_nio (set_journal (\<lambda>j. j\<lparr>jn_active := Some (np_release p), jn_pending := None\<rparr>)) (\<lambda>_.
        bind_nio (write_journal env run) (\<lambda>_. prune_cache run)))) (\<lambda>_. any)"
    by (rule hoare_bind [OF hoare_finish_update [OF _ assms] hoare_settle])
      (auto simp: off_ledger_def intro: native_inv_activate)
  have late: "hoare ?J ?P (bind_nio (now_or_zero run) (\<lambda>at.
     if at \<ge> pu_deadline a then rollback_with env run ''healthy_heartbeat_timeout'' else return_nio ())) (\<lambda>_. any)"
    by (rule hoare_bind [OF hoare_keeps_any]) (auto intro: keeps hoare_rollback [OF assms] hoare_skip)
  show ?thesis
    unfolding resolve_pending_def
    by (rule hoare_bind [OF hoare_pre [OF hoare_remember_request [where P = ?P and fresh = False]]
          hoare_bind [OF hoare_keeps [OF keeps_pure]]])
      (use healthy late in \<open>auto simp: base_def frame_def intro: hoare_pre\<close>)
qed

lemma hoare_recover:
  assumes "good_policy env"
  shows "hoare (native_inv env l0) any (recover_or_ack_with env run) (\<lambda>_. any)"
proof -
  have interrupted: "hoare (native_inv env l0) P (bind_nio (remember_consumed_nonce env run n v s)
      (\<lambda>_. finish_update env run n False reason)) (\<lambda>_. any)" for P n v s reason
    by (rule hoare_pre [OF hoare_bind [OF hoare_remember_nonce [where P = any and fresh = False]
          hoare_pre [OF hoare_finish_update [OF _ assms, where P = any]]]])
      (auto simp: base_def off_ledger_def)
  show ?thesis
    unfolding recover_or_ack_with_def
    by (rule hoare_bind [OF hoare_read_ledger_io], rule hoare_bind_get)
      (auto split: option.split intro: hoare_skip interrupted hoare_fail
          hoare_pre [OF hoare_resolve_pending [OF assms]] hoare_pre [OF hoare_recover_completed])
qed

lemma hoare_serve:
  assumes "good_policy env"
  shows "hoare (native_inv env l0) (\<lambda>d j. jn_pending j = None) (serve_requests env run exists examined requests) (\<lambda>_. any)"
proof (induction requests arbitrary: examined)
  case Nil
  show ?case by (auto intro: hoare_skip)
next
  case (Cons r requests)
  let ?J = "native_inv env l0"
  obtain nonce request where r: "r = (nonce, request)" by force
  let ?examined = "note_examined exists nonce examined"
  have serve: "hoare ?J (\<lambda>d j. jn_pending j = None) (on_error (accept_request_with env run nonce request)
        (ignore (ack_request run nonce ''refused''))) top"
    by (rule hoare_conseq [OF hoare_on_error [OF hoare_accept [OF assms]]])
      (auto intro: hoare_conseq [OF hoare_keeps_any [OF keeps_ignore [OF keeps_ack]]])
  have "hoare ?J (\<lambda>d j. jn_pending j = None) (bind_nio (ignore (on_error (accept_request_with env run nonce request)
        (ignore (ack_request run nonce ''refused'')))) (\<lambda>_. bind_nio get_journal (\<lambda>j.
          if jn_pending j \<noteq> None then return_nio ?examined else serve_requests env run exists ?examined requests))) (\<lambda>_. any)"
    by (rule hoare_bind [OF hoare_pre [OF hoare_ignore [where R = any and P = "\<lambda>d j. jn_pending j = None"]] hoare_bind_get])
      (use serve in \<open>auto intro: hoare_skip hoare_pre [OF Cons.IH]\<close>)
  with Cons.IH show ?case by (simp add: r Let_def)
qed

text \<open>Between two runs only the disk is left.\<close>

definition disk_inv :: "('v::linorder) native_env \<Rightarrow> update_ledger \<Rightarrow> native_disk \<Rightarrow> bool" where
  "disk_inv env l0 d \<longleftrightarrow> (\<exists>j. read_journal (ne_update env) (nd_journal d) = Inr j \<and> native_inv env l0 d j)"

lemma native_inv_disk: "native_inv env l0 d j \<Longrightarrow> disk_inv env l0 d"
  by (auto simp: disk_inv_def native_inv_def consistent_def)

lemma disk_inv_run:
  assumes "disk_inv env l0 (nw_disk w)" and "\<And>i. hoare (native_inv env l0) (\<lambda>d j. j = i) (m i) (\<lambda>_. any)"
  shows "disk_inv env l0 (nw_disk (snd (bind_nio (\<lambda>w. (read_journal (ne_update env) (nd_journal (nw_disk w)), w))
    (\<lambda>j. bind_nio (set_journal (\<lambda>_. j)) (\<lambda>_. m j)) w)))"
proof -
  from assms(1) obtain j where j: "read_journal (ne_update env) (nd_journal (nw_disk w)) = Inr j"
    "native_inv env l0 (nw_disk w) j" by (auto simp: disk_inv_def)
  have "disk_inv env l0 (nw_disk (snd (m j (w\<lparr>nw_journal := j\<rparr>))))"
    by (rule native_inv_disk, rule hoare_start [OF assms(2)]) (simp_all add: j(2))
  then show ?thesis by (simp add: bind_nio_def set_journal_def j(1))
qed

lemma disk_inv_turn:
  assumes "good_policy env" and "disk_inv env l0 (nw_disk w)"
  shows "disk_inv env l0 (nw_disk (snd (supervise_turn env run exists examined requests w)))"
  unfolding supervise_turn_def
proof (rule disk_inv_run [OF assms(2)], rule hoare_pre [where P = any])
  show "hoare (native_inv env l0) any (bind_nio (recover_or_ack_with env run) (\<lambda>_. bind_nio (prune_cache run) (\<lambda>_.
     bind_nio get_journal (\<lambda>j. if jn_pending j = None then serve_requests env run exists examined requests
       else return_nio examined)))) (\<lambda>_. any)"
    by (rule hoare_bind [OF hoare_recover [OF assms(1)] hoare_bind [OF hoare_keeps_any [OF keeps_prune_cache] hoare_bind_get]])
      (auto intro: hoare_skip hoare_pre [OF hoare_serve [OF assms(1)]])
qed simp

lemma seed_directory: "\<not> bad_cache_directory (''seed-'' @ show_nat tag)"
  using show_nat_digits [of tag]
  by (auto simp: bad_cache_directory_def list_all_iff is_ascii_alphanumeric_def is_ascii_lowercase_def
      is_ascii_uppercase_def is_ascii_digit_def scalar_def)

lemma keeps_verify_cached [keeps]: "keeps_core (verify_cached env run name)"
  unfolding verify_cached_def by (intro keeps)

lemma agree_same_ledger:
  "ledger_pending l' = ledger_pending l \<Longrightarrow> ledger_history l' = ledger_history l \<Longrightarrow> agree l' j = agree l j"
  by (cases "ledger_pending l") (simp_all add: agree_def)

lemma native_inv_raise_floor:
  assumes "native_inv env l0 d j" and "read_ledger (ne_update env) (nd_ledger d) = Inr l"
    and "raise_floor (ne_update env) v s l = Inr l'"
  shows "native_inv env l0 (d\<lparr>nd_ledger := Json l'\<rparr>) j"
proof -
  note r = raise_floor_le [OF assms(3)] and l = native_inv_readable [OF assms(1,2)]
  have "readable_ledger (ne_update env) l'" using r l by (auto simp: readable_ledger_def floor_le_def)
  then show ?thesis
    using r agree_same_ledger [of l' l] by (intro native_inv_set_ledger [OF assms(1,2)]) auto
qed

lemma native_inv_set_active:
  assumes "native_inv env l0 d j" and "\<not> bad_cache_directory name"
  shows "native_inv env l0 d (j\<lparr>jn_active := Some \<lparr>cr_manifest = m, cr_directory = name\<rparr>\<rparr>)"
proof (rule native_inv_slots [OF assms(1)])
  let ?j = "j\<lparr>jn_active := Some \<lparr>cr_manifest = m, cr_directory = name\<rparr>\<rparr>"
  show "c \<in> set (cached_releases ?j) \<Longrightarrow> c \<in> set (cached_releases j) \<or> \<not> bad_cache_directory (cr_directory c)" for c
    using assms(2) by (auto simp: cached_releases_def)
  show "agree l j \<Longrightarrow> agree l ?j" for l by (simp add: agree_cong [of ?j j])
qed simp

lemma disk_inv_seed:
  assumes "disk_inv env l0 (nw_disk w)"
  shows "disk_inv env l0 (nw_disk (snd (seed env run tag request w)))"
  unfolding seed_def case_prod_beta
proof (rule disk_inv_run [OF assms])
  fix i :: journal
  let ?J = "native_inv env l0" and ?P = "\<lambda>d j. jn_pending j = None" and ?dir = "''seed-'' @ show_nat tag"
  have frame: "frame ?P" and off: "off_ledger ?P" and base: "base ?P"
    by (simp_all add: frame_def off_ledger_def base_def)
  have remember: "hoare ?J ?P (case jn_active i of None \<Rightarrow> return_nio () | Some active \<Rightarrow>
      if valid_nonce (cr_directory active) then remember_consumed_request env run (cr_directory active) (cr_manifest active)
      else return_nio ()) (\<lambda>_. ?P)"
  proof (cases "jn_active i")
    case (Some active)
    have "hoare ?J ?P (remember_consumed_request env run (cr_directory active) (cr_manifest active)) (\<lambda>_. ?P)"
      by (rule hoare_conseq [OF hoare_remember_request [OF base, where fresh = False]]) simp_all
    with Some show ?thesis by (auto intro: hoare_skip)
  qed (auto intro: hoare_skip)
  have raise: "hoare ?J ?P (bind_nio (durable run id) (\<lambda>_.
       bind_nio (\<lambda>w. (and_then (read_ledger (ne_update env) (nd_ledger (nw_disk w))) (raise_floor (ne_update env) v s), w)) (\<lambda>ledger.
       bind_nio (durable run (\<lambda>d. d\<lparr>nd_ledger := Json ledger\<rparr>)) (\<lambda>_.
       bind_nio (set_journal (\<lambda>j. j\<lparr>jn_active := Some \<lparr>cr_manifest = m, cr_directory = ?dir\<rparr>\<rparr>)) (\<lambda>_. write_journal env run))))) (\<lambda>_. any)"
    for v s m
  proof (rule hoare_ledger_step [OF off, where Q = "\<lambda>_. ?P"])
    show "hoare ?J ?P (bind_nio (set_journal (\<lambda>j. j\<lparr>jn_active := Some \<lparr>cr_manifest = m, cr_directory = ?dir\<rparr>\<rparr>))
        (\<lambda>_. write_journal env run)) (\<lambda>_. any)"
      by (rule hoare_bind [OF hoare_set_journal [where Q = "\<lambda>_. any"] hoare_write_journal])
        (simp_all only: native_inv_set_active [OF _ seed_directory] simp_thms)
  qed (auto simp: and_then_Inr_iff intro: native_inv_raise_floor)
  show "hoare ?J (\<lambda>d j. j = i) (bind_nio (lift_nio (guard_else (jn_pending i = None)
       ''cannot replace rollback cache during a pending update'')) (\<lambda>_.
     bind_nio (case jn_active i of None \<Rightarrow> return_nio () | Some active \<Rightarrow>
           if valid_nonce (cr_directory active)
           then remember_consumed_request env run (cr_directory active) (cr_manifest active)
           else return_nio ()) (\<lambda>_.
     let directory = ?dir in
     bind_nio (copy_request run request directory (uc_max_download_bytes (ne_policy env))) (\<lambda>_.
     bind_nio (on_error
       (bind_nio (verify_cached env run directory) (\<lambda>x.
        bind_nio (lift_nio (ne_installed_version env)) (\<lambda>installed.
        bind_nio (lift_nio (guard_else (rm_version (fst x) = installed)
          ''rollback seed must match the installed agent version'')) (\<lambda>_.
        bind_nio (lift_nio (ne_verify_signature env (fst x) (cd_artifact (snd x)))) (\<lambda>_.
        bind_nio (durable run id) (\<lambda>_.
        bind_nio (\<lambda>w. (and_then (read_ledger (ne_update env) (nd_ledger (nw_disk w)))
            (raise_floor (ne_update env) (rm_version (fst x)) (rm_sequence (fst x))), w)) (\<lambda>ledger.
        bind_nio (durable run (\<lambda>d. d\<lparr>nd_ledger := Json ledger\<rparr>)) (\<lambda>_.
        bind_nio (set_journal (\<lambda>j. j\<lparr>jn_active := Some \<lparr>cr_manifest = fst x, cr_directory = directory\<rparr>\<rparr>)) (\<lambda>_.
          write_journal env run)))))))))
       (remove_dir run directory)) (\<lambda>_. prune_cache run))))) (\<lambda>_. any)"
    unfolding Let_def
  proof (rule hoare_bind_lift, rule hoare_pre [where P = ?P],
      rule hoare_bind [OF remember hoare_bind [OF hoare_keeps [OF keeps_copy frame] hoare_bind [where Q = "\<lambda>_. any", OF _ hoare_keeps_any [OF keeps_prune_cache]]]],
      rule hoare_on_error, goal_cases)
    case 1
    show ?case
      by (rule hoare_bind [OF hoare_keeps [OF keeps_verify_cached frame]], intro hoare_bind_lift, rule raise)
  next
    case 2
    show ?case by (rule hoare_conseq [OF hoare_keeps_any [OF keeps_remove_dir]]) simp_all
  qed simp
qed

end
