(* ===== verification/Native_Reach.thy ===== *)
theory Native_Reach
  imports Native_Safety
begin

text \<open>
  The states that turns of the supervisor, seedings and the endpoint reach from an initial
  one, with any faults and crashes; the safety properties of those states; and what a turn
  without faults does with a pending transaction.
\<close>

section \<open>Reachable states\<close>

text \<open>
  A machine's first state: whatever is readable, with no disagreement and nothing installed
  yet. A missing ledger and a missing journal are such a state.
\<close>

definition initial_disk :: "('v::linorder) native_env \<Rightarrow> native_disk \<Rightarrow> bool" where
  "initial_disk env d \<longleftrightarrow> nd_installs d = [] \<and> small_cache (nd_cache d)
     \<and> (\<exists>l j. read_ledger (ne_update env) (nd_ledger d) = Inr l \<and> readable_ledger (ne_update env) l
          \<and> read_journal (ne_update env) (nd_journal d) = Inr j \<and> agree l j)"

text \<open>
  What can happen, in any order: a turn of the supervisor with any requests, a seeding, both
  with any plan of faults, crashes, clock readings and installer results; and changes of the
  mailbox by the endpoint.
\<close>

inductive reaches :: "('v::linorder) native_env \<Rightarrow> native_disk \<Rightarrow> native_disk \<Rightarrow> bool" for env where
  start: "reaches env d d"
| turn: "reaches env d d1 \<Longrightarrow>
    reaches env d (nw_disk (snd (supervise_turn env run exists examined requests (start_world d1))))"
| seeding: "reaches env d d1 \<Longrightarrow> reaches env d (nw_disk (snd (seed env run tag request (start_world d1))))"
| endpoint: "reaches env d d1 \<Longrightarrow>
    reaches env d (d1\<lparr>nd_mailbox_open := opened, nd_pending_health := p, nd_health := h, nd_result := r\<rparr>)"

lemma disk_inv_initial:
  assumes "initial_disk env d"
  obtains l where "read_ledger (ne_update env) (nd_ledger d) = Inr l" and "disk_inv env l d"
proof -
  from assms obtain l j where l: "read_ledger (ne_update env) (nd_ledger d) = Inr l"
    "readable_ledger (ne_update env) l" "read_journal (ne_update env) (nd_journal d) = Inr j" "agree l j"
    and d: "nd_installs d = []" "small_cache (nd_cache d)" by (auto simp: initial_disk_def)
  have "consistent env l l j j []"
    using l floor_le_same [OF l(2)] read_journal_good [OF l(3)]
    by (simp add: consistent_def covered_def installed_requests_def)
  with l d show thesis by (intro that [OF l(1)]) (auto simp: disk_inv_def native_inv_def)
qed

lemma disk_inv_reaches:
  "reaches env d d' \<Longrightarrow> good_policy env \<Longrightarrow> disk_inv env l0 d \<Longrightarrow> disk_inv env l0 d'"
proof (induction rule: reaches.induct)
  case (turn d d1 run exists examined requests)
  then show ?case by (intro disk_inv_turn) (simp_all add: start_world_def)
next
  case (seeding d d1 run tag request)
  then show ?case by (intro disk_inv_seed) (simp_all add: start_world_def)
next
  case (endpoint d d1 opened p h r)
  then show ?case by (auto simp: disk_inv_def native_inv_def)
qed

lemma disk_inv_rebase:
  assumes "disk_inv env l0 d" and "read_ledger (ne_update env) (nd_ledger d) = Inr l"
  shows "disk_inv env l d"
proof -
  from assms have "readable_ledger (ne_update env) l" by (auto simp: disk_inv_def native_inv_readable)
  with assms floor_le_same [of "ne_update env" l l] show ?thesis
    by (auto simp: disk_inv_def native_inv_def consistent_def)
qed

lemma disk_invE:
  assumes "disk_inv env l0 d"
  obtains l j where "read_ledger (ne_update env) (nd_ledger d) = Inr l"
    and "read_journal (ne_update env) (nd_journal d) = Inr j" and "consistent env l0 l j j (nd_installs d)"
  using assms by (auto simp: disk_inv_def native_inv_def)

lemma disk_inv_reachable:
  assumes "good_policy env" and "initial_disk env d0" and "reaches env d0 d"
  obtains l0 where "disk_inv env l0 d"
  using disk_inv_initial [OF assms(2)] disk_inv_reaches [OF assms(3,1)] by metis

section \<open>A sample run\<close>

definition sample_native_env :: "nat native_env" where
  "sample_native_env = \<lparr>ne_update = sample_update_env, ne_policy = sample_policy, ne_verify_signature = (\<lambda>_ _. Inr ()),
     ne_journal_len = (\<lambda>_. 0), ne_installed_version = Inr ''1''\<rparr>"

definition calm_run :: "u64 \<Rightarrow> native_run" where
  "calm_run t = \<lparr>nr_fault = (\<lambda>_. None), nr_clock = (\<lambda>_. Inr t), nr_install = (\<lambda>_ _. Inr ()), nr_restart = (\<lambda>_. Inr ())\<rparr>"

definition sample_manifest :: "string \<Rightarrow> u64 \<Rightarrow> signed_manifest" where
  "sample_manifest version sequence = sample_release\<lparr>sm_manifest :=
     (sm_manifest sample_release)\<lparr>rm_version := version, rm_sequence := sequence\<rparr>\<rparr>"

definition sample_request :: "string \<Rightarrow> u64 \<Rightarrow> native_request" where
  "sample_request version sequence = \<lparr>nq_manifest = Inr (9, Json (sample_manifest version sequence)), nq_artifact = Inr [1, 2]\<rparr>"

definition fresh_disk :: native_disk where
  "fresh_disk = \<lparr>nd_ledger = Missing, nd_journal = Missing, nd_cache = [], nd_mailbox_open = True,
     nd_pending_health = Missing, nd_health = Missing, nd_result = Missing, nd_installs = []\<rparr>"

definition seeded_disk :: native_disk where
  "seeded_disk = nw_disk (snd (seed sample_native_env (calm_run 7) 3 (sample_request ''1'' 4) (start_world fresh_disk)))"

definition sample_nonce :: string where "sample_nonce = encode_hex (replicate 16 170)"

definition served_disk :: native_disk where
  "served_disk = nw_disk (snd (supervise_turn sample_native_env (calm_run 7) (\<lambda>_. True) []
     [(sample_nonce, sample_request ''1.1'' 5)] (start_world seeded_disk)))"

definition sample_cached :: "string \<Rightarrow> u64 \<Rightarrow> cached_dir" where
  "sample_cached version sequence = \<lparr>cd_manifest = Json (sample_manifest version sequence), cd_artifact = copied_artifact [1, 2]\<rparr>"

definition sample_active :: cached_release where
  "sample_active = \<lparr>cr_manifest = sm_manifest (sample_manifest ''1'' 4), cr_directory = ''seed-3''\<rparr>"

lemmas nio_defs = bind_nio_def lift_nio_def return_nio_def set_journal_def get_journal_def read_disk_def durable_def
  ignore_def on_error_def open_mailbox_def now_or_zero_def unix_now_def start_world_def

lemmas cache_defs = copy_request_def verify_cached_def copied_artifact_def cached_or_missing_def set_dir_def
  empty_dir_def prune_cache_def prunable_def cached_releases_def remove_dir_def copy_bounded_len_def

lemmas sample_run_defs = sample_native_env_def calm_run_def sample_manifest_def sample_request_def fresh_disk_def
  sample_cached_def sample_active_def read_journal_def default_journal_def write_journal_def
  MAX_JOURNAL_BYTES_def verify_files_def verify_artifact_def read_json_def checked_add_def

lemma seeded_disk_eq:
  "seeded_disk = fresh_disk\<lparr>nd_ledger := Json \<lparr>floor_version = ''1'', floor_sequence = 4, ledger_pending = None, ledger_history = []\<rparr>,
     nd_journal := Json \<lparr>jn_active = Some sample_active, jn_pending = None, jn_consumed = []\<rparr>,
     nd_cache := [(''seed-3'', sample_cached ''1'' 4)]\<rparr>"
proof -
  have "show_nat 3 = ''3''" by code_simp
  then show ?thesis
    by (simp add: seeded_disk_def seed_def raise_floor_def nio_defs cache_defs sample_run_defs sample_verify_defs)
qed

lemma sample_nonce_props:
  "valid_nonce sample_nonce" "validate_nonce sample_nonce = Inr ()" "utf8_len sample_nonce = 32"
  "list_all is_ascii_hexdigit sample_nonce" "sample_nonce \<noteq> ''seed-3''" "sample_nonce \<noteq> []"
proof -
  show "valid_nonce sample_nonce" "validate_nonce sample_nonce = Inr ()" "utf8_len sample_nonce = 32"
    by (simp_all add: sample_nonce_def valid_nonce_def encode_hex_lower)
  then show "list_all is_ascii_hexdigit sample_nonce" "sample_nonce \<noteq> []"
    by (auto simp: valid_nonce_def lower_hexdigit_string)
  have "utf8_len sample_nonce \<noteq> utf8_len ''seed-3''"
    using \<open>utf8_len sample_nonce = 32\<close> by (simp add: utf8_len_Cons scalar_def)
  then show "sample_nonce \<noteq> ''seed-3''" by metis
qed

lemmas supervisor_defs = supervise_turn_def recover_or_ack_with_def read_ledger_io_def accept_request_with_def
  note_examined_def reserve_request_def verify_cached_for_recovery_def verify_files_for_recovery_def
  refuse_failed_release_def already_rolled_back_def remember_consumed_request_def remember_consumed_nonce_def
  prune_consumed_def commit_pending_def ledger_commit_def new_pending_def publish_pending_health_def ack_request_def
  install_or_roll_back_def install_and_restart_def op_install_def log_install_def arm_health_def ledger_arm_def
  op_restart_def MAX_REQUESTS_def

definition served_release :: release_manifest where
  "served_release = sm_manifest (sample_manifest ''1.1'' 5)"

definition served_pending :: pending_update where
  "served_pending = \<lparr>pu_nonce = sample_nonce, pu_version = ''1.1'', pu_sequence = 5, pu_started_at = 7, pu_deadline = 187\<rparr>"

definition served_slot :: native_pending where
  "served_slot = \<lparr>np_release = \<lparr>cr_manifest = served_release, cr_directory = sample_nonce\<rparr>,
     np_nonce = sample_nonce, np_started_at = 7\<rparr>"

definition served_ledger :: update_ledger where
  "served_ledger = \<lparr>floor_version = ''1'', floor_sequence = 4, ledger_pending = Some served_pending, ledger_history = []\<rparr>"

definition served_journal :: journal where
  "served_journal = \<lparr>jn_active = Some sample_active, jn_pending = Some served_slot,
     jn_consumed = [key_of sample_nonce served_release]\<rparr>"

definition served_event :: install_event where
  "served_event = \<lparr>ie_nonce = Some sample_nonce, ie_manifest = served_release, ie_package = sample_cached ''1.1'' 5,
     ie_ledger = Json served_ledger, ie_journal = Json served_journal\<rparr>"

lemma served_disk_eq:
  "served_disk = \<lparr>nd_ledger = Json served_ledger, nd_journal = Json served_journal,
     nd_cache = [(sample_nonce, sample_cached ''1.1'' 5), (''seed-3'', sample_cached ''1'' 4)],
     nd_mailbox_open = True, nd_pending_health = Json served_pending, nd_health = Missing,
     nd_result = Json \<lparr>rq_nonce = sample_nonce, rq_outcome = ''accepted'', rq_at = 7\<rparr>,
     nd_installs = [served_event]\<rparr>"
proof -
  have "\<not> bad_cache_directory ''seed-3''" by code_simp
  with sample_nonce_props show ?thesis
    by (simp add: served_disk_def seeded_disk_eq served_event_def served_ledger_def served_journal_def served_slot_def
        served_pending_def served_release_def key_of_def
        supervisor_defs nio_defs cache_defs sample_run_defs sample_verify_defs)
qed

lemma fresh_initial: "initial_disk sample_native_env fresh_disk"
  by (simp add: initial_disk_def small_cache_def readable_ledger_def sample_run_defs sample_verify_defs)

lemma served_reachable: "reaches sample_native_env fresh_disk seeded_disk" "reaches sample_native_env seeded_disk served_disk"
  "reaches sample_native_env fresh_disk served_disk"
  unfolding seeded_disk_def served_disk_def by (intro reaches.intros)+

lemma sample_good_policy: "good_policy sample_native_env"
  by (simp add: good_policy_def sample_native_env_def sample_policy_def default_update_config_def)

section \<open>Runs without faults\<close>

text \<open>Every step takes effect, the clock stands at \<open>t\<close>, the installer and the restart succeed.\<close>

definition calm :: "native_run \<Rightarrow> u64 \<Rightarrow> bool" where
  "calm run t \<longleftrightarrow> nr_fault run = (\<lambda>_. None) \<and> nr_clock run = (\<lambda>_. Inr t)
     \<and> nr_install run = (\<lambda>_ _. Inr ()) \<and> nr_restart run = (\<lambda>_. Inr ())"

text \<open>A step that succeeds and leaves the ledger, the journals and the installations alone.\<close>

definition quiet :: "native_world \<Rightarrow> native_world \<Rightarrow> bool" where
  "quiet w w' \<longleftrightarrow> same_core (nw_disk w) (nw_disk w') \<and> nw_journal w' = nw_journal w \<and> nw_crashed w' = nw_crashed w"

lemma calm_durable:
  "calm run t \<Longrightarrow> \<not> nw_crashed w \<Longrightarrow>
   durable run f w = (Inr (), w\<lparr>nw_step := nw_step w + 1, nw_disk := f (nw_disk w)\<rparr>)"
  by (simp add: calm_def durable_def)

lemma calm_clock: "calm run t \<Longrightarrow> unix_now run w = Inr t"
  by (simp add: calm_def unix_now_def)

lemma calm_install:
  "calm run t \<Longrightarrow> \<not> nw_crashed w \<Longrightarrow> op_install run nonce m dir w =
     (Inr (), w\<lparr>nw_step := nw_step w + 1, nw_disk := log_install nonce m dir (nw_disk w)\<rparr>)"
  by (simp add: op_install_def bind_nio_def calm_durable) (simp add: calm_def)

lemma calm_restart:
  "calm run t \<Longrightarrow> \<not> nw_crashed w \<Longrightarrow> op_restart run w = (Inr (), w\<lparr>nw_step := nw_step w + 1\<rparr>)"
  by (simp add: op_restart_def bind_nio_def calm_durable) (simp add: calm_def)

lemma calm_verify_recovery:
  assumes "calm run t" and "\<not> nw_crashed w"
    and "verify_files_for_recovery (ne_update env) (ne_policy env) (Inr t) (cd_manifest (cached_or_missing name (nw_disk w)))
      (cd_artifact (cached_or_missing name (nw_disk w))) = Inr m"
  shows "verify_cached_for_recovery env run name w =
     (Inr (m, cached_or_missing name (nw_disk w)), w\<lparr>nw_step := nw_step w + 1\<rparr>)"
  using assms by (simp add: verify_cached_for_recovery_def bind_nio_def calm_durable calm_clock)

lemma bind_step: "m w = (Inr a, w') \<Longrightarrow> bind_nio m k w = k a w'"
  by (simp add: bind_nio_def)

lemma calm_remove_dirs:
  assumes "calm run t" and "\<not> nw_crashed w"
  shows "\<exists>w'. remove_dirs run names w = (Inr (), w') \<and> quiet w w'"
  using assms(2)
proof (induction names arbitrary: w)
  case Nil
  then show ?case by (auto simp: return_nio_def quiet_def)
next
  case (Cons name names)
  let ?w = "w\<lparr>nw_step := nw_step w + 1, nw_disk := (nw_disk w)\<lparr>nd_cache := filter (\<lambda>(n, _). n \<noteq> name) (nd_cache (nw_disk w))\<rparr>\<rparr>"
  from Cons.prems Cons.IH [of ?w] obtain w' where "remove_dirs run names ?w = (Inr (), w')" "quiet ?w w'" by auto
  then show ?case
    using calm_durable [OF assms(1) Cons.prems]
    by (auto simp: bind_nio_def remove_dir_def quiet_def same_core_def small_cache_remove)
qed

lemma calm_prune_cache:
  assumes "calm run t" and "\<not> nw_crashed w"
  shows "\<exists>w'. prune_cache run w = (Inr (), w') \<and> quiet w w'"
proof -
  let ?w = "w\<lparr>nw_step := nw_step w + 1\<rparr>"
  let ?names = "filter (prunable (nw_journal w)) (map fst (nd_cache (nw_disk w)))"
  from calm_remove_dirs [OF assms(1), of ?w ?names] assms(2)
  obtain w' where "remove_dirs run ?names ?w = (Inr (), w')" "quiet ?w w'" by auto
  then show ?thesis
    using assms
    by (auto simp: prune_cache_def bind_nio_def calm_durable get_journal_def read_disk_def quiet_def same_core_def)
qed

lemma calm_finish_update:
  assumes "calm run t" and "\<not> nw_crashed w"
    and "ledger_finish (ne_update env) (ne_policy env) (Inr t) nonce healthy reason (nd_ledger (nw_disk w)) = Inr l"
  shows "\<exists>w'. finish_update env run nonce healthy reason w = (Inr (), w') \<and> nd_ledger (nw_disk w') = Json l
    \<and> nd_journal (nw_disk w') = nd_journal (nw_disk w) \<and> nd_installs (nw_disk w') = nd_installs (nw_disk w)
    \<and> nw_journal w' = nw_journal w \<and> \<not> nw_crashed w'"
  using assms
  by (simp add: finish_update_def bind_nio_def calm_durable calm_clock ignore_def open_mailbox_def)

text \<open>The end of a resolution: the journal is written and the cache is pruned.\<close>

lemma calm_settle:
  assumes "calm run t" and "\<not> nw_crashed w" and "ne_journal_len env (f (nw_journal w)) \<le> MAX_JOURNAL_BYTES"
  shows "\<exists>w'. bind_nio (set_journal f) (\<lambda>_. bind_nio (write_journal env run) (\<lambda>_. prune_cache run)) w = (Inr (), w')
    \<and> nd_ledger (nw_disk w') = nd_ledger (nw_disk w) \<and> nd_installs (nw_disk w') = nd_installs (nw_disk w)
    \<and> nw_journal w' = f (nw_journal w) \<and> nd_journal (nw_disk w') = Json (f (nw_journal w)) \<and> \<not> nw_crashed w'"
proof -
  let ?w = "w\<lparr>nw_journal := f (nw_journal w), nw_step := nw_step w + 1,
    nw_disk := (nw_disk w)\<lparr>nd_journal := Json (f (nw_journal w))\<rparr>\<rparr>"
  from calm_prune_cache [OF assms(1), of ?w] assms(2) obtain w' where "prune_cache run ?w = (Inr (), w')" "quiet ?w w'"
    by auto
  then show ?thesis
    using assms
    by (auto simp: bind_nio_def set_journal_def write_journal_def get_journal_def calm_durable quiet_def same_core_def)
qed

lemma known_receipt:
  assumes "good_journal (ne_update env) (nw_journal w)" and "key_of n m \<in> set (jn_consumed (nw_journal w))"
  shows "remember_consumed_request env run n m w = (Inr (), w)"
proof -
  let ?cs = "jn_consumed (nw_journal w)"
  from assms have c: "check_consumed (ne_update env) [] ?cs = Inr ()" by (simp add: good_journal_iff)
  then have d: "distinct (map cq_nonce ?cs)" by (simp add: check_consumed_iff)
  have "find (\<lambda>request. cq_nonce request = n) ?cs \<noteq> None"
    using assms(2) by (auto simp: find_None_iff key_of_def)
  then obtain previous where f: "find (\<lambda>request. cq_nonce request = n) ?cs = Some previous" by auto
  then have "previous \<in> set ?cs" "cq_nonce previous = n" by (auto simp: find_Some_iff)
  with d assms(2) have "previous = key_of n m"
    by (metis distinct_map inj_onD key_of_def consumed_request.select_convs(1))
  moreover obtain v where "ue_semver (ne_update env) (rm_version m) = Some v" "valid_nonce n" "utf8_len (rm_version m) \<le> 128"
    using c assms(2) by (force simp: check_consumed_iff key_of_def)
  ultimately show ?thesis
    using f by (simp add: remember_consumed_request_def remember_consumed_nonce_def bind_nio_def lift_nio_def
        get_journal_def key_of_def)
qed

text \<open>
  A transaction that the ledger and the journal both hold, with its receipt; every journal
  fits its file.
\<close>

definition awaiting :: "('v::linorder) native_env \<Rightarrow> native_world \<Rightarrow> update_ledger \<Rightarrow> pending_update \<Rightarrow> native_pending \<Rightarrow> bool" where
  "awaiting env w l a p \<longleftrightarrow> \<not> nw_crashed w \<and> read_ledger (ne_update env) (nd_ledger (nw_disk w)) = Inr l
     \<and> readable_ledger (ne_update env) l
     \<and> ledger_pending l = Some a \<and> jn_pending (nw_journal w) = Some p \<and> pending_ids a = journal_ids p
     \<and> good_journal (ne_update env) (nw_journal w)
     \<and> key_of (np_nonce p) (cr_manifest (np_release p)) \<in> set (jn_consumed (nw_journal w))
     \<and> (\<forall>j. ne_journal_len env j \<le> MAX_JOURNAL_BYTES)"

lemma valid_nonce_validate: "valid_nonce n \<Longrightarrow> validate_nonce n = Inr ()"
  by (simp add: valid_nonce_def validate_nonce_def)

lemma awaiting_nonce: "awaiting env w l a p \<Longrightarrow> validate_nonce (np_nonce p) = Inr ()"
  by (rule valid_nonce_validate) (force simp: awaiting_def good_journal_iff check_consumed_iff key_of_def)

lemma awaiting_recover:
  assumes "awaiting env w l a p" and "calm run t"
  shows "recover_or_ack_with env run w = resolve_pending env run a p (w\<lparr>nw_step := nw_step w + 1\<rparr>)"
  using assms
  by (simp add: recover_or_ack_with_def read_ledger_io_def bind_nio_def calm_durable get_journal_def awaiting_def
      pending_ids_def journal_ids_def)

lemma awaiting_step: "awaiting env w l a p \<Longrightarrow> awaiting env (w\<lparr>nw_step := n\<rparr>) l a p"
  by (simp add: awaiting_def)

lemma awaiting_resolve:
  assumes "awaiting env w l a p" and "calm run t"
  shows "resolve_pending env run a p w =
    (if health_status_for_pending (Inr t) (nd_mailbox_open (nw_disk w)) (nd_health (nw_disk w)) a = Inr True
     then bind_nio (finish_update env run (np_nonce p) True ''healthy_heartbeat'') (\<lambda>_.
          bind_nio (set_journal (\<lambda>j. j\<lparr>jn_active := Some (np_release p), jn_pending := None\<rparr>)) (\<lambda>_.
          bind_nio (write_journal env run) (\<lambda>_. prune_cache run))) w
     else if t \<ge> pu_deadline a then rollback_with env run ''healthy_heartbeat_timeout'' w else (Inr (), w))"
  using assms known_receipt [of env w "np_nonce p" "cr_manifest (np_release p)"]
  by (simp add: resolve_pending_def bind_nio_def calm_clock now_or_zero_def return_nio_def awaiting_def)

lemma awaiting_finish:
  assumes "awaiting env w l a p" and "healthy \<Longrightarrow> is_ok (raise_floor (ne_update env) (pu_version a) (pu_sequence a) l)"
  shows "\<exists>l'. ledger_finish (ne_update env) (ne_policy env) (Inr t) (np_nonce p) healthy reason (nd_ledger (nw_disk w)) = Inr l'"
proof -
  from assms(1) have a: "read_ledger (ne_update env) (nd_ledger (nw_disk w)) = Inr l" "ledger_pending l = Some a"
    "pu_nonce a = np_nonce p" by (auto simp: awaiting_def pending_ids_def journal_ids_def)
  show ?thesis
    using a awaiting_nonce [OF assms(1)] assms(2) by (cases healthy) (auto simp: ledger_finish_def is_ok_iff Let_def)
qed

lemma finish_last_record:
  assumes "ledger_finish U uc (Inr t) nonce healthy reason file = Inr l'" and "read_ledger U file = Inr l"
    and "readable_ledger U l" and "ledger_pending l = Some a" and "1 \<le> uc_history_limit uc"
  shows "last (ledger_history l') = finish_record a t healthy reason"
proof -
  from ledger_finish_sound [OF assms(1-3)] obtain q now where
    "ledger_pending l = Some q" "(Inr t :: string + u64) = Inr now"
    "ledger_history l' = drop (length (ledger_history l) + 1 - uc_history_limit uc)
          (ledger_history l @ [finish_record q now healthy reason])" by metis
  with assms(4,5) show ?thesis by simp
qed

text \<open>The served state is awaiting its health acknowledgement.\<close>

definition served_world :: native_world where
  "served_world = \<lparr>nw_disk = served_disk, nw_journal = served_journal, nw_step = 0, nw_crashed = False\<rparr>"

definition healthy_world :: native_world where
  "healthy_world = served_world\<lparr>nw_disk := served_disk\<lparr>nd_health :=
     Json \<lparr>ha_nonce = sample_nonce, ha_version = ''1.1'', ha_at = 9\<rparr>\<rparr>\<rparr>"

lemma calm_calm_run: "calm (calm_run t) t"
  by (simp add: calm_def calm_run_def)

lemma served_journal_good: "good_journal sample_update_env served_journal"
proof -
  have "\<not> bad_cache_directory ''seed-3''" by code_simp
  then show ?thesis
    using sample_nonce_props
    by (simp add: good_journal_iff check_consumed_iff served_journal_def cached_releases_def sample_active_def served_slot_def
        key_of_def served_release_def sample_manifest_def sample_verify_defs MAX_REQUESTS_def valid_nonce_directory)
qed

lemma served_awaiting: "awaiting sample_native_env served_world served_ledger served_pending served_slot"
  "awaiting sample_native_env healthy_world served_ledger served_pending served_slot"
  using served_journal_good
  by (simp_all add: awaiting_def healthy_world_def served_world_def served_disk_eq served_ledger_def served_journal_def
      readable_ledger_def pending_ids_def journal_ids_def served_pending_def served_slot_def key_of_def
      served_release_def sample_manifest_def sample_run_defs sample_verify_defs)

section \<open>Properties\<close>



text \<open>
  C28. No request is installed twice: over all reachable states the updates handed to the
  operating system's installer are pairwise different in nonce, version and sequence
  together, whatever crashes between the installation and the records of it.
\<close>

theorem no_request_installed_twice:
  assumes "good_policy env" and "initial_disk env d0" and "reaches env d0 d"
  shows "distinct (installed_requests (nd_installs d))"
  using disk_inv_reachable [OF assms] by (metis consistent_def disk_invE)

theorem no_request_installed_twice_witness:
  "distinct (installed_requests (nd_installs served_disk)) \<and> installed_requests (nd_installs served_disk) \<noteq> []"
  using no_request_installed_twice [OF sample_good_policy fresh_initial served_reachable(3)]
  by (simp add: served_disk_eq served_event_def installed_requests_def)

text \<open>
  C29. Everything that was ever installed is authentic and written ahead: the package's
  manifest was signed by an unrevoked key of the local keyring, its bytes have the signed
  hash and length and the platform's signature check accepted them; and at the moment an
  update started, the ledger and the journal on disk both named its nonce, version and
  sequence as pending, with a previous release to return to.
\<close>

theorem installations_authentic_and_written_ahead:
  assumes "good_policy env" and "initial_disk env d0" and "reaches env d0 d" and "e \<in> set (nd_installs d)"
  shows "event_ok env e"
  using disk_inv_reachable [OF assms(1-3)] assms(4) by (metis consistent_def disk_invE)

theorem installations_authentic_and_written_ahead_witness:
  "event_ok sample_native_env served_event \<and> ie_nonce served_event = Some sample_nonce"
  using installations_authentic_and_written_ahead [OF sample_good_policy fresh_initial served_reachable(3)]
  by (simp add: served_disk_eq served_event_def)



text \<open>A rollback without faults: the previous release is verified, installed and recorded.\<close>

lemma calm_rollback:
  assumes "calm run t" and "\<not> nw_crashed w" and "jn_pending (nw_journal w) = Some p" and "jn_active (nw_journal w) = Some previous"
    and "verify_files_for_recovery (ne_update env) (ne_policy env) (Inr t)
      (cd_manifest (cached_or_missing (cr_directory previous) (nw_disk w)))
      (cd_artifact (cached_or_missing (cr_directory previous) (nw_disk w))) = Inr m"
    and "ne_verify_signature env m (cd_artifact (cached_or_missing (cr_directory previous) (nw_disk w))) = Inr ()"
    and "ledger_finish (ne_update env) (ne_policy env) (Inr t) (np_nonce p) False reason (nd_ledger (nw_disk w)) = Inr l'"
    and "\<And>j. ne_journal_len env j \<le> MAX_JOURNAL_BYTES"
  shows "\<exists>w' e. rollback_with env run reason w = (Inr (), w') \<and> nd_ledger (nw_disk w') = Json l'
    \<and> nd_installs (nw_disk w') = nd_installs (nw_disk w) @ [e] \<and> ie_nonce e = None \<and> ie_manifest e = m
    \<and> nw_journal w' = (nw_journal w)\<lparr>jn_pending := None\<rparr> \<and> nd_journal (nw_disk w') = Json (nw_journal w')"
proof -
  let ?dir = "cached_or_missing (cr_directory previous) (nw_disk w)"
  define w0 where "w0 = w\<lparr>nw_step := nw_step w + 1\<rparr>"
  define w1 where "w1 = w0\<lparr>nw_disk := log_install None m ?dir (nw_disk w0), nw_step := nw_step w0 + 1 + 1\<rparr>"
  have w1: "\<not> nw_crashed w1" "nd_ledger (nw_disk w1) = nd_ledger (nw_disk w)" "nw_journal w1 = nw_journal w"
    by (simp_all add: w0_def w1_def assms(2) log_install_def)
  obtain w2 where fin: "finish_update env run (np_nonce p) False reason w1 = (Inr (), w2)"
    and w2: "nd_ledger (nw_disk w2) = Json l'" "nd_installs (nw_disk w2) = nd_installs (nw_disk w1)"
      "nw_journal w2 = nw_journal w" "\<not> nw_crashed w2"
    using calm_finish_update [OF assms(1) w1(1) assms(7) [folded w1(2)]] w1(3) by auto
  obtain w3 where settle: "bind_nio (set_journal (\<lambda>j. j\<lparr>jn_pending := None\<rparr>)) (\<lambda>_. bind_nio (write_journal env run)
      (\<lambda>_. prune_cache run)) w2 = (Inr (), w3)"
    and w3: "nd_ledger (nw_disk w3) = Json l'" "nd_installs (nw_disk w3) = nd_installs (nw_disk w1)"
      "nw_journal w3 = (nw_journal w)\<lparr>jn_pending := None\<rparr>" "nd_journal (nw_disk w3) = Json (nw_journal w3)"
    using calm_settle [where f = "\<lambda>j. j\<lparr>jn_pending := None\<rparr>", OF assms(1) w2(4) assms(8)]
    unfolding w2(1-3) by metis
  have verify: "verify_cached_for_recovery env run (cr_directory previous) w = (Inr (m, ?dir), w0)"
    using calm_verify_recovery [OF assms(1,2), of env "cr_directory previous" m] assms(5) by (simp add: w0_def)
  have install: "bind_nio (op_install run None m ?dir) (\<lambda>_. bind_nio (op_restart run) (\<lambda>_. k)) w0 = k w1" for k :: "unit nio"
    using assms(1,2) by (simp add: bind_nio_def calm_install calm_restart w0_def w1_def)
  have "rollback_with env run reason w = (Inr (), w3)"
    using assms(3,4,6)
    by (simp add: rollback_with_def install settle
        bind_step [of "verify_cached_for_recovery env run (cr_directory previous)" w, OF verify]
        bind_step [of "finish_update env run (np_nonce p) False reason" w1, OF fin]
        bind_step [of get_journal] get_journal_def bind_step [of "lift_nio _"] lift_nio_def)
  then show ?thesis using w3 by (simp add: w0_def w1_def log_install_def)
qed





end
