(* ===== verification/Collection.thy ===== *)
theory Collection
  imports Snapshot_Validate
begin

text \<open>
  The collectors' common parts, \<open>src/inventory/mod.rs\<close>, and the Linux package managers,
  \<open>src/inventory/linux.rs\<close>: the result of a collector and its operations, the bounded
  runner of external commands on trusted paths, and the parsing of their output. Inputs
  are what a started process does, which database paths exist, and per source the time at
  which its state is recorded; SHA-256 and the lossy UTF-8 decoding are parameters.
\<close>

section \<open>Results of collectors\<close>

record collector_result =
  cr_entries :: "software_entry list"
  cr_warnings :: "string list"
  cr_complete :: bool
  cr_sources :: "collection_source list"

definition default_result :: collector_result where
  "default_result = \<lparr>cr_entries = [], cr_warnings = [], cr_complete = True, cr_sources = []\<rparr>"

text \<open>The time when a source's state is recorded, and the version of the package.\<close>

record collect_env =
  ce_now :: "software_source \<Rightarrow> string"
  ce_version :: string
  ce_sha :: "u8 list \<Rightarrow> u8 list"
  ce_utf8_lossy :: "u8 list \<Rightarrow> string"

definition new_source ::
  "collect_env \<Rightarrow> software_source \<Rightarrow> collection_status \<Rightarrow> string option \<Rightarrow> collection_source" where
  "new_source env source status code = collection_source_new (ce_now env source) (ce_version env) source status code"

definition code_warning :: "string \<Rightarrow> bool" where
  "code_warning w \<longleftrightarrow> utf8_len w \<le> 64
     \<and> list_all (\<lambda>c. is_ascii_lowercase c \<or> is_ascii_digit c \<or> c = CHR ''_'') w"

definition with_source :: "collect_env \<Rightarrow> software_source \<Rightarrow> collector_result \<Rightarrow> collector_result" where
  "with_source env source r =
     (let status = (if cr_complete r then Complete else if cr_entries r = [] then Failed else Partial);
          code = (if cr_complete r then None
                  else Some (unwrap_or (find code_warning (rev (cr_warnings r))) ''collection_failed''))
      in r\<lparr>cr_sources := cr_sources r @ [new_source env source status code]\<rparr>)"

definition not_applicable :: "collect_env \<Rightarrow> software_source \<Rightarrow> collector_result" where
  "not_applicable env source = default_result\<lparr>cr_sources := [new_source env source NotApplicable None]\<rparr>"

definition failed_result :: "collect_env \<Rightarrow> software_source \<Rightarrow> string \<Rightarrow> collector_result" where
  "failed_result env source code = default_result\<lparr>cr_complete := False,
     cr_warnings := [source_as_str source @ '' collector failed: '' @ code],
     cr_sources := [new_source env source Failed (Some code)]\<rparr>"

definition mark_failed :: "string \<Rightarrow> collector_result \<Rightarrow> collector_result" where
  "mark_failed code r = r\<lparr>cr_complete := False, cr_warnings := cr_warnings r @ [code]\<rparr>"

definition merge :: "collector_result \<Rightarrow> collector_result \<Rightarrow> collector_result" where
  "merge r s = \<lparr>cr_entries = cr_entries r @ cr_entries s, cr_warnings = cr_warnings r @ cr_warnings s,
     cr_complete = (cr_complete r \<and> cr_complete s), cr_sources = cr_sources r @ cr_sources s\<rparr>"

section \<open>Text and files\<close>

text \<open>\<open>str::lines\<close>, \<open>str::splitn\<close>, \<open>str::contains\<close>.\<close>

definition strip_cr :: "string \<Rightarrow> string" where
  "strip_cr s = (if s \<noteq> [] \<and> last s = CHR 0x0D then butlast s else s)"

definition str_lines :: "string \<Rightarrow> string list" where
  "str_lines s = (let parts = split_on (CHR 0x0A) s in
     map strip_cr (butlast parts) @ (if last parts = [] then [] else [last parts]))"

fun splitn :: "nat \<Rightarrow> char \<Rightarrow> string \<Rightarrow> string list" where
  "splitn 0 d s = []"
| "splitn (Suc 0) d s = [s]"
| "splitn (Suc (Suc n)) d s =
     (case split_once d s of None \<Rightarrow> [s] | Some (a, b) \<Rightarrow> a # splitn (Suc n) d b)"

fun str_contains :: "string \<Rightarrow> string \<Rightarrow> bool" where
  "str_contains [] t \<longleftrightarrow> t = []"
| "str_contains (c # s) t \<longleftrightarrow> starts_with (c # s) t \<or> str_contains s t"

definition field_at :: "string list \<Rightarrow> nat \<Rightarrow> string option" where
  "field_at parts k = (if k < length parts then Some (parts ! k) else None)"

definition non_empty :: "string \<Rightarrow> string option" where
  "non_empty value = (let trimmed = trim value in if trimmed = [] then None else Some trimmed)"

definition MAX_OUTPUT_BYTES :: nat where "MAX_OUTPUT_BYTES = 16 * 1024 * 1024"
definition MAX_METADATA_FILE_BYTES :: nat where "MAX_METADATA_FILE_BYTES = 512 * 1024"

text \<open>The content that opening and reading gives, if both succeed.\<close>

definition read_text_file_limited :: "(u8 list \<Rightarrow> string) \<Rightarrow> u8 list option \<Rightarrow> string option" where
  "read_text_file_limited lossy content =
     (case content of
        None \<Rightarrow> None
      | Some file \<Rightarrow>
          (let bytes = take (MAX_METADATA_FILE_BYTES + 1) file in
           if length bytes > MAX_METADATA_FILE_BYTES then None else Some (lossy bytes)))"

section \<open>External commands\<close>

definition TRUSTED_SYSTEM_DIRS :: "string list" where
  "TRUSTED_SYSTEM_DIRS = [''/usr/bin'', ''/bin'', ''/usr/sbin'', ''/sbin'', ''/usr/local/bin'']"

text \<open>A path's components, as \<open>Path::starts_with\<close> compares them; those named \<open>.\<close> do not count.\<close>

definition components :: "string \<Rightarrow> string list" where
  "components p = filter (\<lambda>c. c \<noteq> [] \<and> c \<noteq> ''.'') (split_on (CHR ''/'') p)"

definition is_absolute :: "string \<Rightarrow> bool" where
  "is_absolute p = starts_with p ''/''"

definition path_starts_with :: "string \<Rightarrow> string \<Rightarrow> bool" where
  "path_starts_with p d \<longleftrightarrow> is_absolute p = is_absolute d
     \<and> take (length (components d)) (components p) = components d"

definition path_join :: "string \<Rightarrow> string \<Rightarrow> string" where
  "path_join p q = (if is_absolute q then q else if p = [] \<or> last p = CHR ''/'' then p @ q else p @ ''/'' @ q)"

definition find_trusted_binary :: "(string \<Rightarrow> bool) \<Rightarrow> string \<Rightarrow> string option" where
  "find_trusted_binary is_file name =
     (if str_contains name ''/'' \<or> str_contains name [CHR 0x5C] \<or> str_contains name ''..'' then
        (if is_absolute name \<and> list_ex (path_starts_with name) TRUSTED_SYSTEM_DIRS \<and> is_file name
         then Some name else None)
      else find is_file (map (\<lambda>d. path_join d name) TRUSTED_SYSTEM_DIRS))"

datatype command_error = NotFound | OtherError string

text \<open>
  What the process does: whether it starts, whether its output and exit come before the
  timeout, its standard output, and how it ends.
\<close>

datatype spawn_result = SpawnNotFound | SpawnError string | Spawned

record process_io =
  pr_spawn :: spawn_result
  pr_timed_out :: bool
  pr_has_stdout :: bool
  pr_stdout :: "string + u8 list"
  pr_wait :: "string + (bool \<times> string)"

definition run_command ::
  "collect_env \<Rightarrow> (string \<Rightarrow> bool) \<Rightarrow> string \<Rightarrow> process_io \<Rightarrow> string \<Rightarrow> command_error + string" where
  "run_command env is_file timeout io program =
     (case find_trusted_binary is_file program of
        None \<Rightarrow> Inl NotFound
      | Some executable \<Rightarrow>
          (case pr_spawn io of
             SpawnNotFound \<Rightarrow> Inl NotFound
           | SpawnError e \<Rightarrow> Inl (OtherError (''failed to start '' @ executable @ '': '' @ e))
           | Spawned \<Rightarrow>
               if pr_timed_out io then Inl (OtherError (program @ '' timed out after '' @ timeout))
               else if \<not> pr_has_stdout io
               then Inl (OtherError (''failed to capture '' @ program @ '' stdout''))
               else case pr_stdout io of
                 Inl e \<Rightarrow> Inl (OtherError (''failed to read '' @ program @ '' output: '' @ e))
               | Inr output \<Rightarrow>
                   (let bytes = take (MAX_OUTPUT_BYTES + 1) output in
                    if length bytes > MAX_OUTPUT_BYTES
                    then Inl (OtherError (program @ '' output exceeded '' @ show_nat MAX_OUTPUT_BYTES @ '' bytes''))
                    else case pr_wait io of
                      Inl e \<Rightarrow> Inl (OtherError (''failed to wait for '' @ program @ '': '' @ e))
                    | Inr (success, status) \<Rightarrow>
                        if \<not> success then Inl (OtherError (program @ '' exited with status '' @ status))
                        else Inr (ce_utf8_lossy env bytes))))"

text \<open>
  \<open>find_trusted_binary\<close> compares components without resolving the parent directory, so a
  path that leaves a trusted directory again is accepted.
\<close>

lemma trusted_path_may_leave_its_directory:
  "find_trusted_binary (\<lambda>p. p = ''/usr/bin/../../tmp/tool'') ''/usr/bin/../../tmp/tool''
     = Some ''/usr/bin/../../tmp/tool''"
  by code_simp

section \<open>Linux package managers\<close>

definition blank_entry :: software_entry where
  "blank_entry = \<lparr>se_name = [], se_version = None, se_publisher = None, se_architecture = None,
     se_source = Other, se_install_location = None, se_product_identity = None,
     se_installation_identity = None, se_package_id = None, se_scope = None, se_install_instance_id = None\<rparr>"

definition pacman_line :: "collect_env \<Rightarrow> string \<Rightarrow> software_entry option" where
  "pacman_line env line =
     (let parts = splitn 2 (CHR '' '') line in
      case field_at parts 0 of
        None \<Rightarrow> None
      | Some name \<Rightarrow>
          if trim name = [] then None
          else Some (with_instance (ce_sha env)
            (blank_entry\<lparr>se_name := name, se_version := Option.bind (field_at parts 1) non_empty,
                         se_source := Pacman\<rparr>)
            (Some name) SystemScope (''pacman:'' @ name)))"

definition tab_line :: "collect_env \<Rightarrow> software_source \<Rightarrow> string \<Rightarrow> software_entry option" where
  "tab_line env source line =
     (let parts = splitn 4 (CHR 0x09) line in
      case field_at parts 0 of
        None \<Rightarrow> None
      | Some name \<Rightarrow>
          (let version = field_at parts 1; architecture = field_at parts 2; publisher = field_at parts 3 in
           if trim name = [] then None
           else Some (with_instance (ce_sha env)
             (blank_entry\<lparr>se_name := name, se_version := Option.bind version non_empty,
                          se_publisher := Option.bind publisher non_empty,
                          se_architecture := Option.bind architecture non_empty, se_source := source\<rparr>)
             (Some name) SystemScope
             (source_as_str source @ '':'' @ name @ '':'' @ unwrap_or architecture [] @ '':''
              @ (if source = Rpm then unwrap_or version [] else [])))))"

definition parse_tab_separated :: "collect_env \<Rightarrow> string \<Rightarrow> software_source \<Rightarrow> software_entry list" where
  "parse_tab_separated env output source = List.map_filter (tab_line env source) (str_lines output)"

definition collector_failure :: "string \<Rightarrow> string \<Rightarrow> collector_result" where
  "collector_failure collector message = default_result\<lparr>cr_complete := False,
     cr_warnings := [collector @ '' collector failed: '' @ message]\<rparr>"

text \<open>\<open>run program\<close> is the outcome of \<open>run_command\<close> on it.\<close>

definition collect_dpkg ::
  "collect_env \<Rightarrow> (string \<Rightarrow> command_error + string) \<Rightarrow> collector_result option" where
  "collect_dpkg env run =
     (case run ''dpkg-query'' of
        Inl NotFound \<Rightarrow> None
      | Inl (OtherError message) \<Rightarrow> Some (collector_failure ''dpkg-query'' message)
      | Inr output \<Rightarrow> Some (default_result\<lparr>cr_entries := parse_tab_separated env output Dpkg\<rparr>))"

definition collect_rpm ::
  "collect_env \<Rightarrow> (string \<Rightarrow> command_error + string) \<Rightarrow> collector_result option" where
  "collect_rpm env run =
     (case run ''rpm'' of
        Inl NotFound \<Rightarrow> None
      | Inl (OtherError message) \<Rightarrow> Some (collector_failure ''rpm'' message)
      | Inr output \<Rightarrow> Some (default_result\<lparr>cr_entries := parse_tab_separated env output Rpm\<rparr>))"

definition collect_pacman ::
  "collect_env \<Rightarrow> (string \<Rightarrow> command_error + string) \<Rightarrow> collector_result option" where
  "collect_pacman env run =
     (case run ''pacman'' of
        Inl NotFound \<Rightarrow> None
      | Inl (OtherError message) \<Rightarrow> Some (collector_failure ''pacman'' message)
      | Inr output \<Rightarrow>
          Some (default_result\<lparr>cr_entries := List.map_filter (pacman_line env) (str_lines output)\<rparr>))"

definition DPKG_DATABASES :: "string list" where "DPKG_DATABASES = [''/var/lib/dpkg/status'']"
definition RPM_DATABASES :: "string list" where "RPM_DATABASES = [''/usr/lib/sysimage/rpm'', ''/var/lib/rpm'']"
definition PACMAN_DATABASES :: "string list" where "PACMAN_DATABASES = [''/var/lib/pacman/local'']"

definition database_present :: "(string \<Rightarrow> bool) \<Rightarrow> string list \<Rightarrow> bool" where
  "database_present exists paths = list_ex exists paths"

definition should_probe_manager :: "bool \<Rightarrow> bool \<Rightarrow> bool" where
  "should_probe_manager its_database any_database \<longleftrightarrow> its_database \<or> \<not> any_database"

text \<open>One probe: the result so far, with whether any manager was present.\<close>

definition probe_manager ::
  "collect_env \<Rightarrow> bool \<Rightarrow> software_source \<Rightarrow> collector_result option \<Rightarrow> collector_result \<times> bool
   \<Rightarrow> collector_result \<times> bool" where
  "probe_manager env probed source found acc =
     (case acc of (r, present) \<Rightarrow>
        if probed then (case found of
            None \<Rightarrow> (r, present)
          | Some s \<Rightarrow> (merge r (with_source env source s), True))
        else (r, present))"

text \<open>A source that nothing reported yet: failed when its database is there, else not applicable.\<close>

definition report_missing ::
  "collect_env \<Rightarrow> (software_source \<Rightarrow> bool) \<Rightarrow> software_source \<Rightarrow> collector_result \<Rightarrow> collector_result" where
  "report_missing env database_expected source r =
     (if list_ex (\<lambda>state. cs_source state = source) (cr_sources r) then r
      else merge r (if database_expected source then failed_result env source ''collector_missing''
                    else not_applicable env source))"

definition linux_collect ::
  "collect_env \<Rightarrow> (string \<Rightarrow> bool) \<Rightarrow> (string \<Rightarrow> command_error + string) \<Rightarrow> collector_result" where
  "linux_collect env exists run =
     (let dpkg = database_present exists DPKG_DATABASES;
          rpm = database_present exists RPM_DATABASES;
          pacman = database_present exists PACMAN_DATABASES;
          any = dpkg \<or> rpm \<or> pacman;
          (r1, p1) = probe_manager env (should_probe_manager dpkg any) Dpkg (collect_dpkg env run)
                       (default_result, False);
          (r2, p2) = probe_manager env (should_probe_manager rpm any) Rpm (collect_rpm env run) (r1, p1);
          (r3, p3) = probe_manager env (should_probe_manager pacman any) Pacman (collect_pacman env run) (r2, p2);
          expected = (\<lambda>source. case source of Dpkg \<Rightarrow> dpkg | Rpm \<Rightarrow> rpm | Pacman \<Rightarrow> pacman | _ \<Rightarrow> False);
          r = fold (report_missing env expected) [Dpkg, Rpm, Pacman] r3
      in if p3 then r
         else r\<lparr>cr_complete := False, cr_warnings := cr_warnings r
                @ [''no supported Linux package manager (dpkg-query/rpm/pacman) was found'']\<rparr>)"

section \<open>What a collector reports\<close>

text \<open>
  The contract of a collector for a list of sources: every source is reported exactly once
  and validly, entries are fresh and of these sources, a complete result has no failed or
  partial source, and a failed or inapplicable source has no entries.
\<close>

definition reported :: "software_source list \<Rightarrow> collector_result \<Rightarrow> bool" where
  "reported srcs r \<longleftrightarrow> mset (map cs_source (cr_sources r)) = mset srcs
     \<and> (\<forall>c\<in>set (cr_sources r). valid_source c)
     \<and> (\<forall>e\<in>set (cr_entries r). se_installation_identity e = None \<and> se_source e \<in> set srcs)
     \<and> (\<forall>c\<in>set (cr_sources r). (cr_complete r \<longrightarrow> cs_status c \<in> {Complete, NotApplicable})
          \<and> (cs_status c \<in> {Failed, NotApplicable} \<longrightarrow> (\<forall>e\<in>set (cr_entries r). se_source e \<noteq> cs_source c)))"

definition usable_env :: "collect_env \<Rightarrow> bool" where
  "usable_env env \<longleftrightarrow> (\<forall>s. trim (ce_now env s) \<noteq> []) \<and> trim (ce_version env) \<noteq> []"

text \<open>A collector's own entries, before its source is recorded.\<close>

definition fresh_entries :: "software_source \<Rightarrow> collector_result \<Rightarrow> bool" where
  "fresh_entries source r \<longleftrightarrow> (\<forall>e\<in>set (cr_entries r). se_installation_identity e = None \<and> se_source e = source)"

lemma reported_sources: "reported srcs r \<Longrightarrow> cs_source ` set (cr_sources r) = set srcs"
  unfolding reported_def by (metis set_map set_mset_mset)

lemma reported_mset: "mset A = mset B \<Longrightarrow> reported A r \<longleftrightarrow> reported B r"
  using mset_eq_setD [of A B] by (auto simp: reported_def)

lemma reported_incomplete: "reported A r \<Longrightarrow> reported A (r\<lparr>cr_complete := False, cr_warnings := ws\<rparr>)"
  by (simp add: reported_def)

lemma reported_default: "reported [] default_result"
  by (simp add: reported_def default_result_def)

lemma reported_merge:
  assumes r: "reported A r" and s: "reported B s" and disjoint: "set A \<inter> set B = {}"
  shows "reported (A @ B) (merge r s)"
proof -
  note r' = r [unfolded reported_def] and s' = s [unfolded reported_def]
  have A: "cs_source c \<in> set A" if "c \<in> set (cr_sources r)" for c
    using reported_sources [OF r] that by blast
  have B: "cs_source c \<in> set B" if "c \<in> set (cr_sources s)" for c
    using reported_sources [OF s] that by blast
  have EA: "se_source e \<in> set A" if "e \<in> set (cr_entries r)" for e using r' that by simp
  have EB: "se_source e \<in> set B" if "e \<in> set (cr_entries s)" for e using s' that by simp
  have other: "se_source e \<noteq> cs_source c"
    if "e \<in> set (cr_entries r) \<and> c \<in> set (cr_sources s) \<or> e \<in> set (cr_entries s) \<and> c \<in> set (cr_sources r)" for e c
    using that EA [of e] EB [of e] A [of c] B [of c] disjoint by auto
  show ?thesis
    unfolding reported_def
  proof (intro conjI ballI impI)
    show "mset (map cs_source (cr_sources (merge r s))) = mset (A @ B)"
      using r' s' by (simp add: merge_def)
  next
    fix c assume "c \<in> set (cr_sources (merge r s))"
    then have c: "c \<in> set (cr_sources r) \<or> c \<in> set (cr_sources s)" by (simp add: merge_def)
    then show "valid_source c" using r' s' by auto
    show "cs_status c \<in> {Complete, NotApplicable}" if "cr_complete (merge r s)"
      using that c r' s' by (auto simp: merge_def)
    fix e assume "cs_status c \<in> {Failed, NotApplicable}" and "e \<in> set (cr_entries (merge r s))"
    then show "se_source e \<noteq> cs_source c" using c r' s' other by (auto simp: merge_def)
  qed (use r' s' in \<open>auto simp: merge_def\<close>)
qed

lemma new_source_valid:
  assumes "usable_env env" and "\<And>c. code = Some c \<Longrightarrow> utf8_len c \<le> 64 \<and> list_all diagnostic_char c"
  shows "valid_source (new_source env source status code)"
  using assms by (auto simp: valid_source_def new_source_def collection_source_new_def usable_env_def)

lemma new_source_fields [simp]:
  "cs_source (new_source env source status code) = source"
  "cs_status (new_source env source status code) = status"
  by (simp_all add: new_source_def collection_source_new_def)

lemma code_warning_diagnostic: "code_warning w \<Longrightarrow> utf8_len w \<le> 64 \<and> list_all diagnostic_char w"
  by (auto simp: code_warning_def diagnostic_char_def list_all_iff)

lemma code_constants: "code_warning ''collection_failed''" "code_warning ''collector_missing''"
  "code_warning ''collector_panicked''" "code_warning ''fingerprint_failed''"
  by (simp_all add: code_warning_def utf8_len_def char_class_defs scalar_def)

lemma find_satisfies: "find P xs = Some x \<Longrightarrow> P x"
  by (auto simp: find_Some_iff)

lemma reported_with_source:
  assumes "usable_env env" and "fresh_entries source r" and "cr_sources r = []"
  shows "reported [source] (with_source env source r)"
proof -
  have "code_warning (unwrap_or (find code_warning (rev (cr_warnings r))) ''collection_failed'')"
    using code_constants(1) find_satisfies [of code_warning "rev (cr_warnings r)"]
    by (cases "find code_warning (rev (cr_warnings r))") auto
  with assms show ?thesis
    by (auto simp: reported_def with_source_def Let_def fresh_entries_def
        intro!: new_source_valid dest!: code_warning_diagnostic)
qed

lemma reported_not_applicable: "usable_env env \<Longrightarrow> reported [source] (not_applicable env source)"
  by (auto simp: reported_def not_applicable_def default_result_def intro!: new_source_valid)

lemma reported_failed:
  "usable_env env \<Longrightarrow> code_warning code \<Longrightarrow> reported [source] (failed_result env source code)"
  by (auto simp: reported_def failed_result_def default_result_def intro!: new_source_valid
      dest: code_warning_diagnostic)

text \<open>The contract as an interface: what the cache relies on of a collector.\<close>

locale reporting_collector =
  fixes collect :: "'e \<Rightarrow> collector_result"
    and usable :: "'e \<Rightarrow> bool"
    and covers :: "software_source list"
  assumes reports: "usable e \<Longrightarrow> reported covers (collect e)"
begin

lemma reports_each_source: "usable e \<Longrightarrow> cs_source ` set (cr_sources (collect e)) = set covers"
  by (rule reported_sources) (rule reports)

end

text \<open>
  A weaker contract, which says nothing of the overall completeness: each source is reported
  once and validly, and one that failed or does not apply has no entries.
\<close>

definition reported_once :: "software_source list \<Rightarrow> collector_result \<Rightarrow> bool" where
  "reported_once srcs r \<longleftrightarrow> mset (map cs_source (cr_sources r)) = mset srcs
     \<and> (\<forall>c\<in>set (cr_sources r). valid_source c)
     \<and> (\<forall>e\<in>set (cr_entries r). se_installation_identity e = None \<and> se_source e \<in> set srcs)
     \<and> (\<forall>c\<in>set (cr_sources r). cs_status c \<in> {Failed, NotApplicable}
          \<longrightarrow> (\<forall>e\<in>set (cr_entries r). se_source e \<noteq> cs_source c))"

locale source_collector =
  fixes collect :: "'e \<Rightarrow> collector_result"
    and usable :: "'e \<Rightarrow> bool"
    and covers :: "software_source list"
  assumes reports_once: "usable e \<Longrightarrow> reported_once covers (collect e)"
begin

lemma entries_have_their_source:
  "usable e \<Longrightarrow> x \<in> set (cr_entries (collect e)) \<Longrightarrow>
   \<exists>c\<in>set (cr_sources (collect e)). cs_source c = se_source x \<and> cs_status c \<in> {Complete, Partial}"
proof -
  assume u: "usable e" and x: "x \<in> set (cr_entries (collect e))"
  note r = reports_once [OF u, unfolded reported_once_def]
  have "se_source x \<in> set (map cs_source (cr_sources (collect e)))"
    using r x mset_eq_setD by blast
  then obtain c where c: "c \<in> set (cr_sources (collect e))" "cs_source c = se_source x" by auto
  moreover have "cs_status c \<notin> {Failed, NotApplicable}" using r c x by metis
  ultimately show ?thesis by (cases "cs_status c") auto
qed

end

sublocale reporting_collector \<subseteq> source_collector collect usable covers
  by unfold_locales (use reports in \<open>auto simp: reported_def reported_once_def\<close>)

section \<open>The Linux collectors keep the contract\<close>

lemma map_filter_fresh:
  assumes "\<And>l e. f l = Some e \<Longrightarrow> se_installation_identity e = None \<and> se_source e = source"
  shows "fresh_entries source (default_result\<lparr>cr_entries := List.map_filter f ls\<rparr>)"
  using assms by (fastforce simp: fresh_entries_def List.map_filter_def)

lemma tab_line_fresh: "tab_line env source l = Some e \<Longrightarrow> se_installation_identity e = None \<and> se_source e = source"
  by (auto simp: tab_line_def with_instance_def blank_entry_def Let_def split: option.splits if_splits)

lemma pacman_line_fresh: "pacman_line env l = Some e \<Longrightarrow> se_installation_identity e = None \<and> se_source e = Pacman"
  by (auto simp: pacman_line_def with_instance_def blank_entry_def Let_def split: option.splits if_splits)

lemma collector_failure_fresh:
  "fresh_entries source (collector_failure c m)" "cr_sources (collector_failure c m) = []"
  by (simp_all add: fresh_entries_def collector_failure_def default_result_def)

lemma default_sources [simp]: "cr_sources default_result = []"
  by (simp add: default_result_def)

lemma managers_fresh:
  "collect_dpkg env run = Some r \<Longrightarrow> fresh_entries Dpkg r \<and> cr_sources r = []"
  "collect_rpm env run = Some r \<Longrightarrow> fresh_entries Rpm r \<and> cr_sources r = []"
  "collect_pacman env run = Some r \<Longrightarrow> fresh_entries Pacman r \<and> cr_sources r = []"
  by (auto simp: collect_dpkg_def collect_rpm_def collect_pacman_def parse_tab_separated_def
      intro!: map_filter_fresh collector_failure_fresh dest: tab_line_fresh pacman_line_fresh
      simp: collector_failure_fresh split: sum.splits command_error.splits)

text \<open>The result reports some distinct sources among those given.\<close>

definition reports_some :: "software_source set \<Rightarrow> collector_result \<Rightarrow> bool" where
  "reports_some S r \<longleftrightarrow> (\<exists>A. distinct A \<and> set A \<subseteq> S \<and> reported A r)"

lemma probe_manager_reports:
  assumes "probe_manager env probed source found (r, p) = (r', p')" and "usable_env env"
    and "\<And>s. found = Some s \<Longrightarrow> fresh_entries source s \<and> cr_sources s = []"
    and "reports_some S r" and "source \<notin> S"
  shows "reports_some (insert source S) r'"
proof -
  obtain A where A: "distinct A" "set A \<subseteq> S" "reported A r" using assms(4) by (auto simp: reports_some_def)
  show ?thesis
  proof (cases "r' = r")
    case True
    with A show ?thesis by (auto simp: reports_some_def)
  next
    case False
    with assms(1) obtain s where s: "found = Some s" "r' = merge r (with_source env source s)"
      by (auto simp: probe_manager_def split: if_splits option.splits)
    with assms(2,3) have "reported [source] (with_source env source s)"
      by (intro reported_with_source) auto
    then have "reported (A @ [source]) r'"
      unfolding s(2) using A assms(5) by (intro reported_merge) auto
    with A assms(5) show ?thesis unfolding reports_some_def by (intro exI [of _ "A @ [source]"]) auto
  qed
qed

lemma report_missing_reports:
  assumes "usable_env env" and "reported A r" and "distinct A"
  shows "\<exists>B. distinct B \<and> set B = insert source (set A) \<and> reported B (report_missing env expected source r)"
proof (cases "source \<in> set A")
  case True
  then have "\<exists>c\<in>set (cr_sources r). cs_source c = source" using reported_sources [OF assms(2)] by force
  then have "report_missing env expected source r = r" by (auto simp: report_missing_def list_ex_iff)
  with True assms show ?thesis by auto
next
  case False
  then have "\<not> (\<exists>c\<in>set (cr_sources r). cs_source c = source)" using reported_sources [OF assms(2)] by force
  then have m: "report_missing env expected source r = merge r (if expected source
      then failed_result env source ''collector_missing'' else not_applicable env source)"
    by (auto simp: report_missing_def list_ex_iff)
  have "reported [source] (if expected source
      then failed_result env source ''collector_missing'' else not_applicable env source)"
    using reported_failed [OF assms(1) code_constants(2)] reported_not_applicable [OF assms(1)] by simp
  then have "reported (A @ [source]) (report_missing env expected source r)"
    unfolding m using False assms(2) by (intro reported_merge) auto
  with False assms(3) show ?thesis by (intro exI [of _ "A @ [source]"]) auto
qed

lemma linux_collect_reported:
  assumes "usable_env env"
  shows "reported [Dpkg, Rpm, Pacman] (linux_collect env exists run)"
proof -
  define dpkg where "dpkg = database_present exists DPKG_DATABASES"
  define rpm where "rpm = database_present exists RPM_DATABASES"
  define pacman where "pacman = database_present exists PACMAN_DATABASES"
  define expected where "expected = (\<lambda>source. case source of Dpkg \<Rightarrow> dpkg | Rpm \<Rightarrow> rpm | Pacman \<Rightarrow> pacman | _ \<Rightarrow> False)"
  let ?any = "dpkg \<or> rpm \<or> pacman"
  obtain r1 p1 where 1: "probe_manager env (should_probe_manager dpkg ?any) Dpkg (collect_dpkg env run)
      (default_result, False) = (r1, p1)" by force
  obtain r2 p2 where 2: "probe_manager env (should_probe_manager rpm ?any) Rpm (collect_rpm env run) (r1, p1) = (r2, p2)"
    by force
  obtain r3 p3 where 3: "probe_manager env (should_probe_manager pacman ?any) Pacman (collect_pacman env run) (r2, p2) = (r3, p3)"
    by force
  have "reports_some {} default_result" by (simp add: reports_some_def reported_default)
  from probe_manager_reports [OF 1 assms managers_fresh(1) this]
  have "reports_some {Dpkg} r1" by simp
  from probe_manager_reports [OF 2 assms managers_fresh(2) this]
  have "reports_some {Rpm, Dpkg} r2" by simp
  from probe_manager_reports [OF 3 assms managers_fresh(3) this]
  have "reports_some {Pacman, Rpm, Dpkg} r3" by simp
  then obtain A where A: "distinct A" "set A \<subseteq> {Pacman, Rpm, Dpkg}" "reported A r3"
    by (auto simp: reports_some_def)
  from report_missing_reports [OF assms A(3,1)] obtain B where
    B: "distinct B" "set B = insert Dpkg (set A)" "reported B (report_missing env expected Dpkg r3)" by blast
  from report_missing_reports [OF assms B(3,1)] obtain C where
    C: "distinct C" "set C = insert Rpm (set B)" "reported C (report_missing env expected Rpm (report_missing env expected Dpkg r3))"
    by blast
  from report_missing_reports [OF assms C(3,1)] obtain D where
    D: "distinct D" "set D = insert Pacman (set C)"
      "reported D (fold (report_missing env expected) [Dpkg, Rpm, Pacman] r3)" by (simp only: fold_simps) blast
  have "set D = set [Dpkg, Rpm, Pacman]" using A(2) B(2) C(2) D(2) by auto
  with D(1) have "mset D = mset [Dpkg, Rpm, Pacman]" by (intro iffD1 [OF set_eq_iff_mset_eq_distinct]) auto
  with D(3) have r: "reported [Dpkg, Rpm, Pacman] (fold (report_missing env expected) [Dpkg, Rpm, Pacman] r3)"
    using reported_mset by blast
  have "linux_collect env exists run = (let r = fold (report_missing env expected) [Dpkg, Rpm, Pacman] r3
      in if p3 then r else r\<lparr>cr_complete := False, cr_warnings := cr_warnings r
          @ [''no supported Linux package manager (dpkg-query/rpm/pacman) was found'']\<rparr>)"
    using 1 2 3 by (simp add: linux_collect_def Let_def dpkg_def rpm_def pacman_def expected_def)
  with r reported_incomplete [OF r] show ?thesis by (simp only: Let_def split: if_split) blast
qed

interpretation linux: reporting_collector
  "\<lambda>(env, exists, run). linux_collect env exists run" "\<lambda>(env, _). usable_env env" "[Dpkg, Rpm, Pacman]"
  by unfold_locales (auto simp: linux_collect_reported)

end
