(* ===== verification/Runtime_Collectors.thy ===== *)
theory Runtime_Collectors
  imports Collection
begin

text \<open>
  The collectors of \<open>src/inventory/runtimes\<close>: Python distributions, Node.js packages and
  Java runtimes, found by walking fixed directories and parsing small metadata files. The
  file system is a record of what its operations return; the JSON parser is a parameter.
  The candidate directories are those of the Linux build. Paths are compared by their
  components, which here are names and never the parent directory.
\<close>

section \<open>The file system\<close>

datatype fs_error = FsNotFound | FsError string

record file_system =
  fs_read_dir :: "string \<Rightarrow> fs_error + (string + string) list"
  fs_is_dir :: "string \<Rightarrow> fs_error + bool"
  fs_exists :: "string \<Rightarrow> bool"
  fs_read :: "string \<Rightarrow> u8 list option"
  fs_canonical :: "string \<Rightarrow> string option"

definition compare_paths :: "string \<Rightarrow> string \<Rightarrow> ordering" where
  "compare_paths p q = cmp (components p) (components q)"

text \<open>\<open>Vec::dedup\<close> on paths.\<close>

fun dedup_paths :: "string list \<Rightarrow> string list" where
  "dedup_paths (p # q # ps) =
     (if components p = components q then dedup_paths (p # ps) else p # dedup_paths (q # ps))"
| "dedup_paths ps = ps"

definition file_name :: "string \<Rightarrow> string option" where
  "file_name p = (if components p = [] then None else Some (last (components p)))"

definition path_extension :: "string \<Rightarrow> string option" where
  "path_extension p =
     (case file_name p of
        None \<Rightarrow> None
      | Some n \<Rightarrow>
          (let after = takeWhile (\<lambda>c. c \<noteq> CHR ''.'') (rev n) in
           if length after + 1 \<ge> length n then None else Some (rev after)))"

definition with_path_instance ::
  "collect_env \<Rightarrow> file_system \<Rightarrow> software_entry \<Rightarrow> string option \<Rightarrow> installation_scope \<Rightarrow> string
   \<Rightarrow> software_entry" where
  "with_path_instance env fs e package_id scope path =
     with_instance (ce_sha env) e package_id scope (unwrap_or (fs_canonical fs path) path)"

fun child_loop ::
  "file_system \<Rightarrow> string \<Rightarrow> string list \<Rightarrow> (string + string) list \<Rightarrow> collector_result
   \<Rightarrow> string list \<times> collector_result" where
  "child_loop fs path dirs [] r = (dirs, r)"
| "child_loop fs path dirs (item # items) r =
     (if length dirs \<ge> 100000 then (dirs, mark_failed ''collection_limit_exceeded'' r)
      else case item of
        Inl _ \<Rightarrow> child_loop fs path dirs items (mark_failed ''directory_unreadable'' r)
      | Inr name \<Rightarrow>
          (let child = path_join path name in
           case fs_is_dir fs child of
             Inr is_dir \<Rightarrow> child_loop fs path (if is_dir then dirs @ [child] else dirs) items r
           | Inl FsNotFound \<Rightarrow> child_loop fs path dirs items r
           | Inl _ \<Rightarrow> child_loop fs path dirs items (mark_failed ''directory_unreadable'' r)))"

definition child_dirs :: "file_system \<Rightarrow> string \<Rightarrow> collector_result \<Rightarrow> string list \<times> collector_result" where
  "child_dirs fs path r =
     (case fs_read_dir fs path of
        Inl FsNotFound \<Rightarrow> ([], r)
      | Inl _ \<Rightarrow> ([], mark_failed ''directory_unreadable'' r)
      | Inr items \<Rightarrow>
          (case child_loop fs path [] items r of (dirs, r') \<Rightarrow> (sort_by compare_paths dirs, r')))"

text \<open>An entry that was parsed is added, one that was not marks the result.\<close>

definition add_entry :: "software_entry option \<Rightarrow> collector_result \<Rightarrow> collector_result" where
  "add_entry found r =
     (case found of
        Some e \<Rightarrow> r\<lparr>cr_entries := cr_entries r @ [e]\<rparr>
      | None \<Rightarrow> mark_failed ''metadata_unreadable'' r)"

definition read_metadata :: "collect_env \<Rightarrow> file_system \<Rightarrow> string \<Rightarrow> string option" where
  "read_metadata env fs path = read_text_file_limited (ce_utf8_lossy env) (fs_read fs path)"

section \<open>Python\<close>

record python_header =
  py_name :: "string option"
  py_version :: "string option"
  py_author :: "string option"

definition python_line :: "string \<Rightarrow> python_header \<Rightarrow> python_header" where
  "python_line line h =
     (case split_once (CHR '':'') line of
        None \<Rightarrow> h
      | Some (key, raw_value) \<Rightarrow>
          (let value = trim raw_value in
           if eq_ignore_ascii_case key ''name''
           then (if value \<noteq> [] then h\<lparr>py_name := Some value\<rparr> else h)
           else if eq_ignore_ascii_case key ''version''
           then (if value \<noteq> [] then h\<lparr>py_version := Some value\<rparr> else h)
           else if eq_ignore_ascii_case key ''author'' \<and> value \<noteq> []
                   \<and> \<not> eq_ignore_ascii_case value ''unknown''
           then h\<lparr>py_author := Some value\<rparr> else h))"

definition parse_python_metadata ::
  "collect_env \<Rightarrow> file_system \<Rightarrow> string \<Rightarrow> string \<Rightarrow> software_entry option" where
  "parse_python_metadata env fs content install_dir =
     (let h = fold python_line (takeWhile (\<lambda>line. trim line \<noteq> []) (str_lines content))
                \<lparr>py_name = None, py_version = None, py_author = None\<rparr>
      in case py_name h of
           None \<Rightarrow> None
         | Some name \<Rightarrow>
             if name = [] then None
             else Some (with_path_instance env fs
               (blank_entry\<lparr>se_name := name, se_version := py_version h, se_publisher := py_author h,
                            se_source := Pip, se_install_location := Some install_dir\<rparr>)
               (Some name) RuntimeScope install_dir))"

definition python_package :: "collect_env \<Rightarrow> file_system \<Rightarrow> string \<Rightarrow> collector_result \<Rightarrow> collector_result" where
  "python_package env fs path r =
     (if path_extension path \<noteq> Some ''dist-info'' then r
      else add_entry (Option.bind (read_metadata env fs (path_join path ''METADATA''))
                       (\<lambda>content. parse_python_metadata env fs content path)) r)"

definition python_dir :: "collect_env \<Rightarrow> file_system \<Rightarrow> string \<Rightarrow> collector_result \<Rightarrow> collector_result" where
  "python_dir env fs dir r =
     (case child_dirs fs dir r of (paths, r') \<Rightarrow> fold (python_package env fs) paths r')"

definition collect_python_dirs :: "collect_env \<Rightarrow> file_system \<Rightarrow> string list \<Rightarrow> collector_result" where
  "collect_python_dirs env fs dirs =
     (let r = fold (python_dir env fs) dirs default_result in
      if dirs = [] \<and> cr_complete r then not_applicable env Pip else with_source env Pip r)"

text \<open>The directories found so far, with the discovery's own result.\<close>

definition glob_child ::
  "file_system \<Rightarrow> string \<Rightarrow> string \<Rightarrow> string \<Rightarrow> string list \<times> collector_result \<Rightarrow> string list \<times> collector_result" where
  "glob_child fs prefix sub path acc =
     (case acc of (out, r) \<Rightarrow>
        if (case file_name path of None \<Rightarrow> False | Some name \<Rightarrow> starts_with name prefix)
        then (let target = path_join path sub in
              case fs_is_dir fs target of
                Inr is_dir \<Rightarrow> (if is_dir then out @ [target] else out, r)
              | Inl FsNotFound \<Rightarrow> (out, r)
              | Inl _ \<Rightarrow> (out, mark_failed ''directory_unreadable'' r))
        else (out, r))"

definition add_glob_dirs ::
  "file_system \<Rightarrow> string \<Rightarrow> string \<Rightarrow> string \<Rightarrow> string list \<times> collector_result \<Rightarrow> string list \<times> collector_result" where
  "add_glob_dirs fs parent pattern_prefix sub acc =
     (let prefix = rev (dropWhile (\<lambda>c. c = CHR ''*'') (rev pattern_prefix)) in
      case acc of (out, r) \<Rightarrow> (case child_dirs fs parent r of (paths, r') \<Rightarrow>
        fold (glob_child fs prefix sub) paths (out, r')))"

definition candidate_python_dirs_with_status :: "file_system \<Rightarrow> string list \<times> collector_result" where
  "candidate_python_dirs_with_status fs =
     (case fold (\<lambda>(parent, sub). add_glob_dirs fs parent ''python*'' sub)
             [(''/usr/lib'', ''site-packages''), (''/usr/lib'', ''dist-packages''),
              (''/usr/local/lib'', ''site-packages''), (''/usr/local/lib'', ''dist-packages'')]
             ([], default_result) of
        (dirs, r) \<Rightarrow> (dedup_paths (sort_by compare_paths dirs), r))"

definition collect_python_packages :: "collect_env \<Rightarrow> file_system \<Rightarrow> collector_result" where
  "collect_python_packages env fs =
     (case candidate_python_dirs_with_status fs of (dirs, discovery) \<Rightarrow>
        (let r = collect_python_dirs env fs dirs;
             r = r\<lparr>cr_warnings := cr_warnings r @ cr_warnings discovery\<rparr>
         in if \<not> cr_complete discovery
            then with_source env Pip (r\<lparr>cr_complete := False, cr_sources := []\<rparr>)
            else r))"

section \<open>Node.js\<close>

datatype json_value = JString string | JObject "(string \<times> json_value) list" | JOther

record package_json =
  pj_name :: "string option"
  pj_version :: "string option"
  pj_author :: "json_value option"

definition package_author_name :: "json_value \<Rightarrow> string option" where
  "package_author_name author =
     Option.bind (case author of
         JString value \<Rightarrow> Some value
       | JObject values \<Rightarrow> (case map_of values ''name'' of Some (JString s) \<Rightarrow> Some s | _ \<Rightarrow> None)
       | JOther \<Rightarrow> None)
     (\<lambda>raw. let value = trim raw in if value \<noteq> [] then Some value else None)"

definition parse_package_json ::
  "collect_env \<Rightarrow> file_system \<Rightarrow> (string \<Rightarrow> package_json option) \<Rightarrow> string \<Rightarrow> string
   \<Rightarrow> software_entry option" where
  "parse_package_json env fs json content install_dir =
     Option.bind (json content) (\<lambda>parsed. Option.bind (pj_name parsed) (\<lambda>raw.
       let name = trim raw in
       if name = [] then None
       else Some (with_path_instance env fs
         (blank_entry\<lparr>se_name := name,
            se_version := option_filter (\<lambda>v. v \<noteq> []) (map_option trim (pj_version parsed)),
            se_publisher := Option.bind (pj_author parsed) package_author_name,
            se_source := Npm, se_install_location := Some install_dir\<rparr>)
         (Some name) RuntimeScope install_dir)))"

definition node_package ::
  "collect_env \<Rightarrow> file_system \<Rightarrow> (string \<Rightarrow> package_json option) \<Rightarrow> string \<Rightarrow> collector_result
   \<Rightarrow> collector_result" where
  "node_package env fs json package r =
     add_entry (Option.bind (read_metadata env fs (path_join package ''package.json''))
                 (\<lambda>content. parse_package_json env fs json content package)) r"

definition node_path ::
  "collect_env \<Rightarrow> file_system \<Rightarrow> (string \<Rightarrow> package_json option) \<Rightarrow> string \<Rightarrow> collector_result
   \<Rightarrow> collector_result" where
  "node_path env fs json path r =
     (case (if (case file_name path of None \<Rightarrow> False | Some name \<Rightarrow> starts_with name ''@'')
            then child_dirs fs path r else ([path], r)) of
        (packages, r') \<Rightarrow> fold (node_package env fs json) packages r')"

definition node_dir ::
  "collect_env \<Rightarrow> file_system \<Rightarrow> (string \<Rightarrow> package_json option) \<Rightarrow> string \<Rightarrow> collector_result
   \<Rightarrow> collector_result" where
  "node_dir env fs json dir r =
     (case child_dirs fs dir r of (paths, r') \<Rightarrow> fold (node_path env fs json) paths r')"

definition collect_nodejs_dirs ::
  "collect_env \<Rightarrow> file_system \<Rightarrow> (string \<Rightarrow> package_json option) \<Rightarrow> string list \<Rightarrow> collector_result" where
  "collect_nodejs_dirs env fs json dirs =
     (let r = fold (node_dir env fs json) dirs default_result in
      if \<not> list_ex (fs_exists fs) dirs \<and> cr_complete r then not_applicable env Npm
      else with_source env Npm r)"

definition candidate_node_modules_dirs :: "string list" where
  "candidate_node_modules_dirs =
     dedup_paths (sort_by compare_paths [''/usr/lib/node_modules'', ''/usr/local/lib/node_modules''])"

definition collect_nodejs_packages ::
  "collect_env \<Rightarrow> file_system \<Rightarrow> (string \<Rightarrow> package_json option) \<Rightarrow> collector_result" where
  "collect_nodejs_packages env fs json = collect_nodejs_dirs env fs json candidate_node_modules_dirs"

section \<open>Java\<close>

definition non_empty_release_value :: "string \<Rightarrow> string option" where
  "non_empty_release_value value =
     (let quote = (\<lambda>c. c = CHR 0x22);
          v = trim (rev (dropWhile quote (rev (dropWhile quote value))))
      in if v \<noteq> [] then Some v else None)"

record java_release =
  jr_version :: "string option"
  jr_implementor :: "string option"
  jr_arch :: "string option"

definition java_line :: "string \<Rightarrow> java_release \<Rightarrow> java_release" where
  "java_line line h =
     (let trimmed = trim line in
      case strip_prefix trimmed ''JAVA_VERSION='' of
        Some v \<Rightarrow> h\<lparr>jr_version := non_empty_release_value v\<rparr>
      | None \<Rightarrow>
          (case strip_prefix trimmed ''IMPLEMENTOR='' of
             Some v \<Rightarrow> h\<lparr>jr_implementor := non_empty_release_value v\<rparr>
           | None \<Rightarrow>
               (case strip_prefix trimmed ''OS_ARCH='' of
                  Some v \<Rightarrow> h\<lparr>jr_arch := non_empty_release_value v\<rparr>
                | None \<Rightarrow> h)))"

definition parse_java_release ::
  "collect_env \<Rightarrow> file_system \<Rightarrow> string \<Rightarrow> string \<Rightarrow> software_entry option" where
  "parse_java_release env fs content install_dir =
     (let h = fold java_line (str_lines content) \<lparr>jr_version = None, jr_implementor = None, jr_arch = None\<rparr> in
      case jr_version h of
        None \<Rightarrow> None
      | Some version_str \<Rightarrow>
          (let name = (case jr_implementor h of Some imp \<Rightarrow> imp @ '' OpenJDK''
                       | None \<Rightarrow> ''Java SE Runtime Environment'')
           in Some (with_path_instance env fs
             (blank_entry\<lparr>se_name := name, se_version := Some version_str,
                se_publisher := jr_implementor h, se_architecture := jr_arch h, se_source := Java,
                se_install_location := Some install_dir\<rparr>)
             (Some ''java-runtime'') RuntimeScope install_dir)))"

definition java_path :: "collect_env \<Rightarrow> file_system \<Rightarrow> string \<Rightarrow> collector_result \<Rightarrow> collector_result" where
  "java_path env fs path r =
     (let bundle_release = path_join path ''Contents/Home/release'';
          release_file = (if fs_exists fs bundle_release then bundle_release else path_join path ''release'')
      in if \<not> fs_exists fs release_file \<and> \<not> fs_exists fs (path_join path ''bin/java'')
            \<and> \<not> fs_exists fs (path_join path ''bin/java.exe'')
         then r
         else add_entry (Option.bind (read_metadata env fs release_file)
                          (\<lambda>content. parse_java_release env fs content path)) r)"

definition java_dir :: "collect_env \<Rightarrow> file_system \<Rightarrow> string \<Rightarrow> collector_result \<Rightarrow> collector_result" where
  "java_dir env fs parent r =
     (case child_dirs fs parent r of (paths, r') \<Rightarrow> fold (java_path env fs) paths r')"

definition collect_java_dirs :: "collect_env \<Rightarrow> file_system \<Rightarrow> string list \<Rightarrow> collector_result" where
  "collect_java_dirs env fs dirs =
     (let r = fold (java_dir env fs) dirs default_result in
      if \<not> list_ex (fs_exists fs) dirs \<and> cr_complete r then not_applicable env Java
      else with_source env Java r)"

definition candidate_jvm_dirs :: "string list" where
  "candidate_jvm_dirs = dedup_paths (sort_by compare_paths [''/usr/lib/jvm''])"

definition collect_java_runtimes :: "collect_env \<Rightarrow> file_system \<Rightarrow> collector_result" where
  "collect_java_runtimes env fs = collect_java_dirs env fs candidate_jvm_dirs"

definition collect_all_runtimes ::
  "collect_env \<Rightarrow> file_system \<Rightarrow> (string \<Rightarrow> package_json option) \<Rightarrow> collector_result" where
  "collect_all_runtimes env fs json =
     fold (\<lambda>s r. merge r s)
       [collect_python_packages env fs, collect_nodejs_packages env fs json, collect_java_runtimes env fs]
       default_result"

section \<open>The collectors keep the contract\<close>

text \<open>A walk only adds fresh entries of its source and never reports a source itself.\<close>

definition walks :: "software_source \<Rightarrow> (collector_result \<Rightarrow> collector_result) \<Rightarrow> bool" where
  "walks source f \<longleftrightarrow> (\<forall>r. fresh_entries source r \<longrightarrow> cr_sources r = [] \<longrightarrow>
     fresh_entries source (f r) \<and> cr_sources (f r) = [])"

lemma walks_fold: "(\<And>x. walks source (f x)) \<Longrightarrow> walks source (fold f xs)"
  unfolding walks_def by (induction xs) auto

lemma mark_failed_fields [simp]:
  "cr_entries (mark_failed code r) = cr_entries r" "cr_sources (mark_failed code r) = cr_sources r"
  by (simp_all add: mark_failed_def)

lemma child_loop_keeps:
  "child_loop fs path dirs items r = (dirs', r') \<Longrightarrow> cr_entries r' = cr_entries r \<and> cr_sources r' = cr_sources r"
  by (induction fs path dirs items r rule: child_loop.induct)
     (auto simp: Let_def split: sum.splits fs_error.splits if_splits)

lemma child_dirs_keeps:
  "child_dirs fs path r = (dirs', r') \<Longrightarrow> cr_entries r' = cr_entries r \<and> cr_sources r' = cr_sources r"
  by (auto simp: child_dirs_def dest!: child_loop_keeps split: sum.splits fs_error.splits prod.splits)

lemma walks_children:
  assumes "\<And>path. walks source (f path)"
  shows "walks source (\<lambda>r. case child_dirs fs dir r of (paths, r') \<Rightarrow> fold f paths r')"
  unfolding walks_def
proof (intro allI impI)
  fix r assume r: "fresh_entries source r" "cr_sources r = []"
  obtain paths r' where c: "child_dirs fs dir r = (paths, r')" by force
  with r child_dirs_keeps [OF c] have "fresh_entries source r'" "cr_sources r' = []"
    by (simp_all add: fresh_entries_def)
  then show "fresh_entries source (case child_dirs fs dir r of (paths, r') \<Rightarrow> fold f paths r')
      \<and> cr_sources (case child_dirs fs dir r of (paths, r') \<Rightarrow> fold f paths r') = []"
    using walks_fold [of source f paths, OF assms] by (simp add: c walks_def)
qed

lemma walks_add_entry:
  "(\<And>e. found = Some e \<Longrightarrow> se_installation_identity e = None \<and> se_source e = source) \<Longrightarrow>
   walks source (add_entry found)"
  by (auto simp: walks_def fresh_entries_def add_entry_def split: option.splits)

lemmas entry_defs = with_path_instance_def with_instance_def blank_entry_def

lemma parsed_fresh:
  "parse_python_metadata env fs content dir = Some e \<Longrightarrow> se_installation_identity e = None \<and> se_source e = Pip"
  "parse_package_json env fs json content dir = Some e \<Longrightarrow> se_installation_identity e = None \<and> se_source e = Npm"
  "parse_java_release env fs content dir = Some e \<Longrightarrow> se_installation_identity e = None \<and> se_source e = Java"
  by (auto simp: parse_python_metadata_def parse_package_json_def parse_java_release_def entry_defs Let_def
      bind_eq_Some_conv split: option.splits if_splits)

lemma bound_fresh:
  assumes "\<And>c e. f c = Some e \<Longrightarrow> se_installation_identity e = None \<and> se_source e = source"
  shows "walks source (add_entry (Option.bind m f))"
  by (rule walks_add_entry) (auto simp: bind_eq_Some_conv dest: assms)

lemma walks_parsed:
  "walks Pip (add_entry (Option.bind m (\<lambda>content. parse_python_metadata env fs content dir)))"
  "walks Npm (add_entry (Option.bind m (\<lambda>content. parse_package_json env fs json content dir)))"
  "walks Java (add_entry (Option.bind m (\<lambda>content. parse_java_release env fs content dir)))"
  by (rule bound_fresh, erule parsed_fresh)+

lemma walks_unless: "walks source f \<Longrightarrow> walks source (\<lambda>r. if c then r else f r)"
  by (cases c) (simp_all add: walks_def)

lemma python_dir_walks: "walks Pip (python_dir env fs dir)"
  unfolding python_dir_def [abs_def]
  by (rule walks_children) (unfold python_package_def [abs_def], intro walks_unless walks_parsed)

lemma node_package_walks: "walks Npm (node_package env fs json package)"
  unfolding node_package_def [abs_def] by (rule walks_parsed)

lemma node_path_walks: "walks Npm (node_path env fs json path)"
proof (cases "case file_name path of None \<Rightarrow> False | Some name \<Rightarrow> starts_with name ''@''")
  case True
  with walks_children [of Npm "node_package env fs json" fs path, OF node_package_walks] show ?thesis
    by (simp add: node_path_def [abs_def])
next
  case False
  with node_package_walks show ?thesis by (simp add: node_path_def [abs_def])
qed

lemma node_dir_walks: "walks Npm (node_dir env fs json dir)"
  unfolding node_dir_def [abs_def] by (rule walks_children) (rule node_path_walks)

lemma java_dir_walks: "walks Java (java_dir env fs dir)"
  unfolding java_dir_def [abs_def]
  by (rule walks_children) (unfold java_path_def [abs_def] Let_def, intro walks_unless walks_parsed)

lemma fresh_default: "fresh_entries source default_result"
  by (simp add: fresh_entries_def default_result_def)

lemma walked_reported:
  assumes "\<And>dir. walks source (f dir)" and "usable_env env"
  shows "reported [source] (with_source env source (fold f dirs default_result))"
  using walks_fold [of source f, OF assms(1), of dirs]
  using fresh_default [of source] by (intro reported_with_source [OF assms(2)]) (simp_all add: walks_def)

lemma collect_python_dirs_reported:
  "usable_env env \<Longrightarrow> reported [Pip] (collect_python_dirs env fs dirs)"
  using walked_reported [where f = "python_dir env fs", OF python_dir_walks]
  by (simp add: collect_python_dirs_def Let_def reported_not_applicable)

lemma collect_nodejs_packages_reported:
  "usable_env env \<Longrightarrow> reported [Npm] (collect_nodejs_packages env fs json)"
  using walked_reported [where f = "node_dir env fs json", OF node_dir_walks]
  by (simp add: collect_nodejs_packages_def collect_nodejs_dirs_def Let_def reported_not_applicable)

lemma collect_java_runtimes_reported:
  "usable_env env \<Longrightarrow> reported [Java] (collect_java_runtimes env fs)"
  using walked_reported [where f = "java_dir env fs", OF java_dir_walks]
  by (simp add: collect_java_runtimes_def collect_java_dirs_def Let_def reported_not_applicable)

lemma reported_warnings: "reported srcs r \<Longrightarrow> reported srcs (r\<lparr>cr_warnings := ws\<rparr>)"
  unfolding reported_def by simp

lemma reported_fresh: "reported [source] r \<Longrightarrow> fresh_entries source r"
  by (auto simp: reported_def fresh_entries_def)

lemma collect_python_packages_reported:
  assumes "usable_env env"
  shows "reported [Pip] (collect_python_packages env fs)"
proof -
  obtain dirs discovery where d: "candidate_python_dirs_with_status fs = (dirs, discovery)" by force
  define r where "r = collect_python_dirs env fs dirs"
  have r: "reported [Pip] r" unfolding r_def by (rule collect_python_dirs_reported [OF assms])
  have "reported [Pip] (r\<lparr>cr_warnings := ws\<rparr>)" for ws using reported_warnings [OF r] .
  moreover have "reported [Pip] (with_source env Pip (r\<lparr>cr_warnings := ws, cr_complete := False, cr_sources := []\<rparr>))" for ws
    using reported_fresh [OF r] by (intro reported_with_source [OF assms]) (simp_all add: fresh_entries_def)
  ultimately show ?thesis
    by (simp add: collect_python_packages_def d r_def Let_def)
qed

interpretation python: reporting_collector
  "\<lambda>(env, fs). collect_python_packages env fs" "\<lambda>(env, _). usable_env env" "[Pip]"
  by unfold_locales (auto simp: collect_python_packages_reported)

interpretation nodejs: reporting_collector
  "\<lambda>(env, fs, json). collect_nodejs_packages env fs json" "\<lambda>(env, _). usable_env env" "[Npm]"
  by unfold_locales (auto simp: collect_nodejs_packages_reported)

interpretation java: reporting_collector
  "\<lambda>(env, fs). collect_java_runtimes env fs" "\<lambda>(env, _). usable_env env" "[Java]"
  by unfold_locales (auto simp: collect_java_runtimes_reported)

end
