(* ===== verification/Fingerprint.thy ===== *)
theory Fingerprint
  imports Runtime_Collectors
begin

text \<open>
  The fingerprints of \<open>src/inventory/cache.rs\<close> (\<open>FingerprintBuilder\<close> and the functions that
  fill it): for every watched path its name, kind, length and modification time are hashed.
  The file system adds to the one of the collectors what \<open>symlink_metadata\<close> returns. The
  bytes hashed are shown to be an injective encoding of what was observed.
\<close>

section \<open>Observations\<close>

datatype file_kind = DirectoryKind | FileKind | SymlinkKind | OtherKind

text \<open>A modification time: seconds and nanoseconds since the epoch, before it, or unknown.\<close>

datatype modified = ModifiedAt u64 u32 | BeforeEpoch | ModifiedUnknown

record stat_record =
  st_kind :: file_kind
  st_len :: u64
  st_modified :: modified

record watched_system = file_system +
  ws_stat :: "string \<Rightarrow> fs_error + stat_record"
  ws_is_file :: "string \<Rightarrow> bool"

definition MAX_FINGERPRINT_ITEMS :: nat where "MAX_FINGERPRINT_ITEMS = 100000"

definition to_le_bytes :: "nat \<Rightarrow> nat \<Rightarrow> u8 list" where
  "to_le_bytes bytes n = map (\<lambda>i. of_nat (n div 256 ^ i mod 256)) [0..<bytes]"

definition hash_system_time :: "modified \<Rightarrow> u8 list" where
  "hash_system_time m =
     (case m of
        ModifiedAt secs nanos \<Rightarrow> to_le_bytes 8 (unat secs) @ to_le_bytes 4 (unat nanos)
      | _ \<Rightarrow> replicate 12 0)"

fun kind_byte :: "file_kind \<Rightarrow> u8" where
  "kind_byte DirectoryKind = 1"
| "kind_byte FileKind = 2"
| "kind_byte SymlinkKind = 3"
| "kind_byte OtherKind = 4"

section \<open>The builder\<close>

text \<open>The hasher is the bytes it was given.\<close>

record fingerprint_builder =
  fb_bytes :: "u8 list"
  fb_items :: nat

definition new_builder :: fingerprint_builder where
  "new_builder = \<lparr>fb_bytes = [], fb_items = 0\<rparr>"

definition feed :: "u8 list \<Rightarrow> fingerprint_builder \<Rightarrow> fingerprint_builder" where
  "feed bytes b = b\<lparr>fb_bytes := fb_bytes b @ bytes\<rparr>"

definition add_path ::
  "watched_system \<Rightarrow> string \<Rightarrow> fingerprint_builder \<Rightarrow> string + (bool \<times> fingerprint_builder)" where
  "add_path fs path b =
     (let b = b\<lparr>fb_items := fb_items b + 1\<rparr> in
      if fb_items b > MAX_FINGERPRINT_ITEMS
      then Inl (''fingerprint exceeded '' @ show_nat MAX_FINGERPRINT_ITEMS @ '' filesystem entries'')
      else let b = feed (utf8 path) (feed (to_le_bytes 8 (utf8_len path)) b) in
        case ws_stat fs path of
          Inl FsNotFound \<Rightarrow> Inr (False, feed [0] b)
        | Inl (FsError e) \<Rightarrow> Inl (''failed to stat '' @ path @ '': '' @ e)
        | Inr s \<Rightarrow> Inr (st_kind s = DirectoryKind,
            feed (hash_system_time (st_modified s))
              (feed (to_le_bytes 8 (unat (st_len s))) (feed [kind_byte (st_kind s)] b))))"

fun collect_children :: "string \<Rightarrow> (string + string) list \<Rightarrow> string + string list" where
  "collect_children path [] = Inr []"
| "collect_children path (Inl e # items) = Inl (''failed to enumerate '' @ path @ '': '' @ e)"
| "collect_children path (Inr name # items) =
     and_then (collect_children path items) (\<lambda>rest. Inr (path_join path name # rest))"

fun fs_error_display :: "fs_error \<Rightarrow> string" where
  "fs_error_display FsNotFound = ''No such file or directory (os error 2)''"
| "fs_error_display (FsError e) = e"

text \<open>\<open>Path::is_dir\<close>: follows links, false on any error.\<close>

definition is_directory :: "watched_system \<Rightarrow> string \<Rightarrow> bool" where
  "is_directory fs path \<longleftrightarrow> fs_is_dir fs path = Inr True"

definition sorted_children :: "watched_system \<Rightarrow> string \<Rightarrow> string + string list" where
  "sorted_children fs path =
     (if \<not> is_directory fs path then Inr []
      else case fs_read_dir fs path of
        Inl e \<Rightarrow> Inl (''failed to read '' @ path @ '': '' @ fs_error_display e)
      | Inr items \<Rightarrow> and_then (collect_children path items) (\<lambda>cs. Inr (sort_by compare_paths cs)))"

fun try_fold :: "('a \<Rightarrow> 's \<Rightarrow> 'e + 's) \<Rightarrow> 'a list \<Rightarrow> 's \<Rightarrow> 'e + 's" where
  "try_fold f [] s = Inr s"
| "try_fold f (x # xs) s = and_then (f x s) (try_fold f xs)"

fun add_tree :: "watched_system \<Rightarrow> nat \<Rightarrow> string \<Rightarrow> fingerprint_builder \<Rightarrow> string + fingerprint_builder" where
  "add_tree fs 0 path b = and_then (add_path fs path b) (\<lambda>(_, b). Inr b)"
| "add_tree fs (Suc depth) path b =
     and_then (add_path fs path b) (\<lambda>(is_dir, b).
       if \<not> is_dir then Inr b
       else and_then (sorted_children fs path) (\<lambda>cs. try_fold (add_tree fs depth) cs b))"

definition finish :: "(u8 list \<Rightarrow> u8 list) \<Rightarrow> fingerprint_builder \<Rightarrow> string" where
  "finish sha b = hex_lower (sha (fb_bytes b))"

section \<open>What is watched\<close>

text \<open>The package databases, with the depth to which they are walked.\<close>

definition platform_roots :: "(string \<times> nat) list" where
  "platform_roots = [(''/var/lib/dpkg/status'', 0), (''/usr/lib/sysimage/rpm'', 2),
     (''/var/lib/rpm'', 2), (''/var/lib/pacman/local'', 2)]"

definition platform_fingerprint :: "(u8 list \<Rightarrow> u8 list) \<Rightarrow> watched_system \<Rightarrow> string + string option" where
  "platform_fingerprint sha fs =
     and_then (try_fold (\<lambda>(root, depth). add_tree fs depth root) platform_roots new_builder)
       (\<lambda>b. Inr (Some (finish sha b)))"

text \<open>A path is added for its hash only.\<close>

definition watch :: "watched_system \<Rightarrow> string \<Rightarrow> fingerprint_builder \<Rightarrow> string + fingerprint_builder" where
  "watch fs path b = and_then (add_path fs path b) (\<lambda>(_, b). Inr b)"

definition watch_all :: "watched_system \<Rightarrow> string list \<Rightarrow> fingerprint_builder \<Rightarrow> string + fingerprint_builder" where
  "watch_all fs paths = try_fold (watch fs) paths"

definition python_child :: "watched_system \<Rightarrow> string \<Rightarrow> fingerprint_builder \<Rightarrow> string + fingerprint_builder" where
  "python_child fs path b =
     (if is_directory fs path \<and> path_extension path = Some ''dist-info''
      then watch_all fs [path, path_join path ''METADATA''] b else Inr b)"

definition watch_children ::
  "(watched_system \<Rightarrow> string \<Rightarrow> fingerprint_builder \<Rightarrow> string + fingerprint_builder)
   \<Rightarrow> watched_system \<Rightarrow> string \<Rightarrow> fingerprint_builder \<Rightarrow> string + fingerprint_builder" where
  "watch_children child fs dir b =
     and_then (watch fs dir b) (\<lambda>b.
     and_then (sorted_children fs dir) (\<lambda>cs. try_fold (child fs) cs b))"

definition python_fingerprint :: "(u8 list \<Rightarrow> u8 list) \<Rightarrow> watched_system \<Rightarrow> string + string" where
  "python_fingerprint sha fs =
     and_then (try_fold (watch_children python_child fs)
                 (fst (candidate_python_dirs_with_status (file_system.truncate fs))) new_builder)
       (\<lambda>b. Inr (finish sha b))"

definition node_scoped :: "watched_system \<Rightarrow> string \<Rightarrow> fingerprint_builder \<Rightarrow> string + fingerprint_builder" where
  "node_scoped fs package b =
     (if is_directory fs package then watch_all fs [package, path_join package ''package.json''] b else Inr b)"

definition node_child :: "watched_system \<Rightarrow> string \<Rightarrow> fingerprint_builder \<Rightarrow> string + fingerprint_builder" where
  "node_child fs path b =
     (if \<not> is_directory fs path then Inr b
      else if (case file_name path of None \<Rightarrow> False | Some name \<Rightarrow> starts_with name ''@'')
      then watch_children node_scoped fs path b
      else watch_all fs [path, path_join path ''package.json''] b)"

definition nodejs_fingerprint :: "(u8 list \<Rightarrow> u8 list) \<Rightarrow> watched_system \<Rightarrow> string + string" where
  "nodejs_fingerprint sha fs =
     and_then (try_fold (watch_children node_child fs) candidate_node_modules_dirs new_builder)
       (\<lambda>b. Inr (finish sha b))"

definition java_child :: "watched_system \<Rightarrow> string \<Rightarrow> fingerprint_builder \<Rightarrow> string + fingerprint_builder" where
  "java_child fs runtime b =
     (if \<not> is_directory fs runtime then Inr b
      else let bundle_release = path_join runtime ''Contents/Home/release'' in
        watch_all fs [runtime, if ws_is_file fs bundle_release then bundle_release
                               else path_join runtime ''release''] b)"

definition java_fingerprint :: "(u8 list \<Rightarrow> u8 list) \<Rightarrow> watched_system \<Rightarrow> string + string" where
  "java_fingerprint sha fs =
     and_then (try_fold (watch_children java_child fs) candidate_jvm_dirs new_builder)
       (\<lambda>b. Inr (finish sha b))"

section \<open>What was observed\<close>

text \<open>
  What is recorded of a path: that it is missing, or its kind, length and time. Times before
  the epoch and unknown ones are recorded as the epoch itself.
\<close>

type_synonym seen = "(file_kind \<times> u64 \<times> u64 \<times> u32) option"

definition recorded_time :: "modified \<Rightarrow> u64 \<times> u32" where
  "recorded_time m = (case m of ModifiedAt secs nanos \<Rightarrow> (secs, nanos) | _ \<Rightarrow> (0, 0))"

definition seen :: "watched_system \<Rightarrow> string \<Rightarrow> seen" where
  "seen fs path = (case ws_stat fs path of
      Inl _ \<Rightarrow> None
    | Inr s \<Rightarrow> Some (st_kind s, st_len s, recorded_time (st_modified s)))"

definition encode_seen :: "seen \<Rightarrow> u8 list" where
  "encode_seen ob = (case ob of
      None \<Rightarrow> [0]
    | Some (kind, len, secs, nanos) \<Rightarrow>
        kind_byte kind # to_le_bytes 8 (unat len) @ to_le_bytes 8 (unat secs) @ to_le_bytes 4 (unat nanos))"

definition encode_observation :: "string \<times> seen \<Rightarrow> u8 list" where
  "encode_observation ob = to_le_bytes 8 (utf8_len (fst ob)) @ utf8 (fst ob) @ encode_seen (snd ob)"

definition encode_observations :: "(string \<times> seen) list \<Rightarrow> u8 list" where
  "encode_observations obs = concat (map encode_observation obs)"

definition observe :: "watched_system \<Rightarrow> string list \<Rightarrow> (string \<times> seen) list" where
  "observe fs paths = map (\<lambda>p. (p, seen fs p)) paths"

text \<open>The paths that a tree walk looks at.\<close>

definition children_of :: "watched_system \<Rightarrow> string \<Rightarrow> string list" where
  "children_of fs path = (case sorted_children fs path of Inl _ \<Rightarrow> [] | Inr cs \<Rightarrow> cs)"

fun tree_paths :: "watched_system \<Rightarrow> nat \<Rightarrow> string \<Rightarrow> string list" where
  "tree_paths fs 0 path = [path]"
| "tree_paths fs (Suc depth) path =
     path # (if map_option fst (seen fs path) = Some DirectoryKind
             then concat (map (tree_paths fs depth) (children_of fs path)) else [])"

definition platform_paths :: "watched_system \<Rightarrow> string list" where
  "platform_paths fs = concat (map (\<lambda>(root, depth). tree_paths fs depth root) platform_roots)"

section \<open>The encoding is injective\<close>

lemma length_to_le_bytes [simp]: "length (to_le_bytes k n) = k"
  by (simp add: to_le_bytes_def)

lemma to_le_bytes_inject:
  assumes "to_le_bytes k m = to_le_bytes k n" and "m < 256 ^ k" and "n < 256 ^ k"
  shows "m = n"
proof -
  have "\<forall>i<k. m div 256 ^ i mod 256 = n div 256 ^ i mod 256"
    using assms(1) by (auto simp: to_le_bytes_def of_nat_u8_eq)
  then have "m mod 256 ^ k = n mod 256 ^ k" by (rule base256_digits_eq)
  with assms(2,3) show ?thesis by simp
qed

lemma unat_u32: "unat (w :: u32) < 256 ^ 4"
  using unsigned_less [of w] by simp

lemma unat_u64_256: "unat (w :: u64) < 256 ^ 8"
  using unsigned_less [of w] by simp

lemma le_bytes_word_inject:
  "to_le_bytes 8 (unat (a :: u64)) = to_le_bytes 8 (unat b) \<longleftrightarrow> a = b"
  "to_le_bytes 4 (unat (c :: u32)) = to_le_bytes 4 (unat d) \<longleftrightarrow> c = d"
  using to_le_bytes_inject [OF _ unat_u64_256 unat_u64_256] to_le_bytes_inject [OF _ unat_u32 unat_u32]
  by (auto simp: word_unat_eq_iff)

lemma kind_byte_inject: "kind_byte a = kind_byte b \<longleftrightarrow> a = b"
  by (cases a; cases b) simp_all

lemma kind_byte_nonzero: "kind_byte k \<noteq> 0"
  by (cases k) simp_all

lemma encode_seen_prefix: "encode_seen a @ x = encode_seen b @ y \<Longrightarrow> a = b \<and> x = y"
  by (cases a; cases b)
     (auto simp: encode_seen_def kind_byte_inject kind_byte_nonzero kind_byte_nonzero [symmetric] le_bytes_word_inject)

lemma encode_observation_prefix:
  assumes "encode_observation a @ x = encode_observation b @ y"
    and "utf8_len (fst a) < 2 ^ 64" and "utf8_len (fst b) < 2 ^ 64"
  shows "a = b \<and> x = y"
proof -
  have l: "to_le_bytes 8 (utf8_len (fst a)) = to_le_bytes 8 (utf8_len (fst b))"
    and r: "utf8 (fst a) @ encode_seen (snd a) @ x = utf8 (fst b) @ encode_seen (snd b) @ y"
    using assms(1) by (simp_all add: encode_observation_def)
  have "utf8_len (fst a) = utf8_len (fst b)" using to_le_bytes_inject [OF l] assms(2,3) by simp
  with r have "utf8 (fst a) = utf8 (fst b)" and "encode_seen (snd a) @ x = encode_seen (snd b) @ y"
    by (simp_all add: length_utf8)
  then show ?thesis using utf8_inject encode_seen_prefix by (metis prod.collapse)
qed

lemma encode_observations_inject:
  "encode_observations as = encode_observations bs \<Longrightarrow>
   \<forall>ob\<in>set as \<union> set bs. utf8_len (fst ob) < 2 ^ 64 \<Longrightarrow> as = bs"
proof (induction as arbitrary: bs)
  case Nil
  then show ?case by (cases bs) (auto simp: encode_observations_def encode_observation_def to_le_bytes_def)
next
  case (Cons a as)
  then obtain b bs' where bs: "bs = b # bs'"
    by (cases bs) (auto simp: encode_observations_def encode_observation_def to_le_bytes_def)
  have "encode_observation a @ encode_observations as = encode_observation b @ encode_observations bs'"
    using Cons.prems(1) bs by (simp add: encode_observations_def)
  with encode_observation_prefix [OF this] Cons bs show ?case by auto
qed

lemma hex_digit_inject: "m < 16 \<Longrightarrow> n < 16 \<Longrightarrow> hex_digit m = hex_digit n \<longleftrightarrow> m = n"
  by (auto simp: hex_digit_def simp flip: scalar_eq_iff split: if_splits)

lemma hex_lower_inject: "hex_lower a = hex_lower b \<Longrightarrow> a = b"
proof (induction a arbitrary: b)
  case Nil
  then show ?case by (cases b) (simp_all add: hex_lower_def)
next
  case (Cons x a)
  then obtain y b' where b: "b = y # b'" by (cases b) (simp_all add: hex_lower_def)
  have u: "unat (w :: u8) < 256" for w using unsigned_less [of w] by simp
  have d: "unat (w :: u8) div 16 < 16" for w using u [of w] by simp
  have "unat x div 16 = unat y div 16" "unat x mod 16 = unat y mod 16"
    using Cons.prems b d [of x] d [of y] by (simp_all add: hex_lower_def hex_digit_inject)
  then have "unat x = unat y" by (metis div_mult_mod_eq)
  with Cons b show ?case by (simp add: hex_lower_def word_unat_eq_iff)
qed

section \<open>The builder hashes the observations\<close>

text \<open>A successful step adds the encoding of some observations.\<close>

definition records :: "watched_system \<Rightarrow> string list \<Rightarrow> fingerprint_builder \<Rightarrow> fingerprint_builder \<Rightarrow> bool" where
  "records fs paths b b' \<longleftrightarrow> fb_bytes b' = fb_bytes b @ encode_observations (observe fs paths)"

lemma records_refl: "records fs [] b b"
  by (simp add: records_def observe_def encode_observations_def)

lemma records_trans: "records fs ps a b \<Longrightarrow> records fs qs b c \<Longrightarrow> records fs (ps @ qs) a c"
  by (simp add: records_def observe_def encode_observations_def)

lemma to_le_bytes_0: "to_le_bytes k 0 = replicate k 0"
  by (simp add: to_le_bytes_def map_replicate_const)

lemma hash_system_time_recorded:
  "hash_system_time m = to_le_bytes 8 (unat (fst (recorded_time m))) @ to_le_bytes 4 (unat (snd (recorded_time m)))"
  by (cases m) (simp_all add: hash_system_time_def recorded_time_def to_le_bytes_0 replicate_add [symmetric])

lemma add_path_records:
  "add_path fs path b = Inr (is_dir, b') \<Longrightarrow>
   records fs [path] b b' \<and> is_dir = (map_option fst (seen fs path) = Some DirectoryKind)"
  by (auto simp: add_path_def Let_def records_def observe_def encode_observations_def encode_observation_def
      encode_seen_def seen_def feed_def hash_system_time_recorded split: if_splits sum.splits fs_error.splits prod.splits)

lemma try_fold_records:
  assumes "try_fold f xs b = Inr b'" and "\<And>x b b'. x \<in> set xs \<Longrightarrow> f x b = Inr b' \<Longrightarrow> records fs (g x) b b'"
  shows "records fs (concat (map g xs)) b b'"
  using assms
proof (induction xs arbitrary: b)
  case Nil
  then show ?case by (simp add: records_refl)
next
  case (Cons x xs)
  then obtain c where c: "f x b = Inr c" "try_fold f xs c = Inr b'" by (auto simp: and_then_Inr_iff)
  have "records fs (g x) b c" by (rule Cons.prems(2) [OF _ c(1)]) simp
  moreover have "records fs (concat (map g xs)) c b'" by (rule Cons.IH [OF c(2)]) (rule Cons.prems(2), simp)
  ultimately show ?case by (simp add: records_trans)
qed

lemma add_tree_records: "add_tree fs depth path b = Inr b' \<Longrightarrow> records fs (tree_paths fs depth path) b b'"
proof (induction depth arbitrary: path b b')
  case 0
  then show ?case by (auto simp: and_then_Inr_iff dest: add_path_records)
next
  case (Suc depth)
  then obtain is_dir c where c: "add_path fs path b = Inr (is_dir, c)"
    and rest: "(if \<not> is_dir then Inr c
       else and_then (sorted_children fs path) (\<lambda>cs. try_fold (add_tree fs depth) cs c)) = Inr b'"
    by (auto simp: and_then_Inr_iff)
  note p = add_path_records [OF c]
  show ?case
  proof (cases is_dir)
    case True
    with rest obtain cs where cs: "sorted_children fs path = Inr cs" "try_fold (add_tree fs depth) cs c = Inr b'"
      by (auto simp: and_then_Inr_iff)
    have "records fs (concat (map (tree_paths fs depth) cs)) c b'" by (rule try_fold_records [OF cs(2)]) (rule Suc.IH)
    from records_trans [OF conjunct1 [OF p] this] show ?thesis using True p cs(1) by (simp add: children_of_def)
  qed (use rest p in simp)
qed

lemma platform_fingerprint_records:
  assumes "platform_fingerprint sha fs = Inr (Some f)"
  shows "f = hex_lower (sha (encode_observations (observe fs (platform_paths fs))))"
proof -
  obtain b where b: "try_fold (\<lambda>(root, depth). add_tree fs depth root) platform_roots new_builder = Inr b"
    and f: "f = finish sha b" using assms by (auto simp: platform_fingerprint_def and_then_Inr_iff)
  have "records fs (platform_paths fs) new_builder b"
    unfolding platform_paths_def by (rule try_fold_records [OF b]) (auto intro: add_tree_records)
  with f show ?thesis by (simp add: records_def new_builder_def finish_def)
qed

section \<open>The runtimes' fingerprints\<close>

definition python_child_paths :: "watched_system \<Rightarrow> string \<Rightarrow> string list" where
  "python_child_paths fs path =
     (if is_directory fs path \<and> path_extension path = Some ''dist-info''
      then [path, path_join path ''METADATA''] else [])"

definition watched_children :: "(watched_system \<Rightarrow> string \<Rightarrow> string list) \<Rightarrow> watched_system \<Rightarrow> string \<Rightarrow> string list" where
  "watched_children child fs dir = dir # concat (map (child fs) (children_of fs dir))"

definition python_paths :: "watched_system \<Rightarrow> string list" where
  "python_paths fs = concat (map (watched_children python_child_paths fs)
     (fst (candidate_python_dirs_with_status (file_system.truncate fs))))"

definition node_scoped_paths :: "watched_system \<Rightarrow> string \<Rightarrow> string list" where
  "node_scoped_paths fs package =
     (if is_directory fs package then [package, path_join package ''package.json''] else [])"

definition node_child_paths :: "watched_system \<Rightarrow> string \<Rightarrow> string list" where
  "node_child_paths fs path =
     (if \<not> is_directory fs path then []
      else if (case file_name path of None \<Rightarrow> False | Some name \<Rightarrow> starts_with name ''@'')
      then watched_children node_scoped_paths fs path
      else [path, path_join path ''package.json''])"

definition nodejs_paths :: "watched_system \<Rightarrow> string list" where
  "nodejs_paths fs = concat (map (watched_children node_child_paths fs) candidate_node_modules_dirs)"

definition java_child_paths :: "watched_system \<Rightarrow> string \<Rightarrow> string list" where
  "java_child_paths fs runtime =
     (if \<not> is_directory fs runtime then []
      else [runtime, if ws_is_file fs (path_join runtime ''Contents/Home/release'')
                     then path_join runtime ''Contents/Home/release'' else path_join runtime ''release''])"

definition java_paths :: "watched_system \<Rightarrow> string list" where
  "java_paths fs = concat (map (watched_children java_child_paths fs) candidate_jvm_dirs)"

lemma watch_records: "watch fs path b = Inr b' \<Longrightarrow> records fs [path] b b'"
  by (auto simp: watch_def and_then_Inr_iff dest: add_path_records)

lemma watch_all_records: "watch_all fs paths b = Inr b' \<Longrightarrow> records fs paths b b'"
  using try_fold_records [of "watch fs" paths b b' fs "\<lambda>p. [p]"] watch_records by (simp add: watch_all_def)

lemma watch_children_records:
  assumes "watch_children child fs dir b = Inr b'"
    and "\<And>x b b'. child fs x b = Inr b' \<Longrightarrow> records fs (paths fs x) b b'"
  shows "records fs (watched_children paths fs dir) b b'"
proof -
  obtain c cs where c: "watch fs dir b = Inr c" "sorted_children fs dir = Inr cs" "try_fold (child fs) cs c = Inr b'"
    using assms(1) by (auto simp: watch_children_def and_then_Inr_iff)
  have "records fs (concat (map (paths fs) cs)) c b'" by (rule try_fold_records [OF c(3)]) (rule assms(2))
  from records_trans [OF watch_records [OF c(1)] this] show ?thesis
    by (simp add: watched_children_def children_of_def c(2))
qed

lemma python_child_records: "python_child fs x b = Inr b' \<Longrightarrow> records fs (python_child_paths fs x) b b'"
  by (auto simp: python_child_def python_child_paths_def records_refl dest: watch_all_records split: if_splits)

lemma node_scoped_records: "node_scoped fs x b = Inr b' \<Longrightarrow> records fs (node_scoped_paths fs x) b b'"
  by (auto simp: node_scoped_def node_scoped_paths_def records_refl dest: watch_all_records split: if_splits)

lemma node_child_records: "node_child fs x b = Inr b' \<Longrightarrow> records fs (node_child_paths fs x) b b'"
  by (auto simp: node_child_def node_child_paths_def records_refl
      dest: watch_all_records watch_children_records [OF _ node_scoped_records] split: if_splits)

lemma java_child_records: "java_child fs x b = Inr b' \<Longrightarrow> records fs (java_child_paths fs x) b b'"
  by (auto simp: java_child_def java_child_paths_def records_refl Let_def dest: watch_all_records split: if_splits)

text \<open>A fingerprint is the digest of the observations of some paths.\<close>

definition digest_of :: "(u8 list \<Rightarrow> u8 list) \<Rightarrow> watched_system \<Rightarrow> string list \<Rightarrow> string" where
  "digest_of sha fs paths = hex_lower (sha (encode_observations (observe fs paths)))"

lemma finish_records: "records fs paths new_builder b \<Longrightarrow> finish sha b = digest_of sha fs paths"
  by (simp add: records_def new_builder_def finish_def digest_of_def)

lemma runtime_fingerprints:
  "python_fingerprint sha fs = Inr f \<Longrightarrow> f = digest_of sha fs (python_paths fs)"
  "nodejs_fingerprint sha fs = Inr f \<Longrightarrow> f = digest_of sha fs (nodejs_paths fs)"
  "java_fingerprint sha fs = Inr f \<Longrightarrow> f = digest_of sha fs (java_paths fs)"
proof -
  note defs = python_fingerprint_def nodejs_fingerprint_def java_fingerprint_def and_then_Inr_iff
  { assume "python_fingerprint sha fs = Inr f"
    then obtain b where b: "try_fold (watch_children python_child fs)
        (fst (candidate_python_dirs_with_status (file_system.truncate fs))) new_builder = Inr b" and f: "f = finish sha b"
      by (auto simp: defs)
    have "records fs (python_paths fs) new_builder b"
      unfolding python_paths_def by (rule try_fold_records [OF b]) (erule watch_children_records, rule python_child_records)
    with f show "f = digest_of sha fs (python_paths fs)" by (simp add: finish_records) }
  { assume "nodejs_fingerprint sha fs = Inr f"
    then obtain b where b: "try_fold (watch_children node_child fs) candidate_node_modules_dirs new_builder = Inr b"
      and f: "f = finish sha b" by (auto simp: defs)
    have "records fs (nodejs_paths fs) new_builder b"
      unfolding nodejs_paths_def by (rule try_fold_records [OF b]) (erule watch_children_records, rule node_child_records)
    with f show "f = digest_of sha fs (nodejs_paths fs)" by (simp add: finish_records) }
  { assume "java_fingerprint sha fs = Inr f"
    then obtain b where b: "try_fold (watch_children java_child fs) candidate_jvm_dirs new_builder = Inr b"
      and f: "f = finish sha b" by (auto simp: defs)
    have "records fs (java_paths fs) new_builder b"
      unfolding java_paths_def by (rule try_fold_records [OF b]) (erule watch_children_records, rule java_child_records)
    with f show "f = digest_of sha fs (java_paths fs)" by (simp add: finish_records) }
qed

lemma digest_of_inject:
  assumes "digest_of sha fs ps = digest_of sha gs qs"
    and "sha (encode_observations (observe fs ps)) = sha (encode_observations (observe gs qs)) \<Longrightarrow>
         encode_observations (observe fs ps) = encode_observations (observe gs qs)"
    and "\<forall>p\<in>set ps \<union> set qs. utf8_len p < 2 ^ 64"
  shows "observe fs ps = observe gs qs"
proof -
  have "encode_observations (observe fs ps) = encode_observations (observe gs qs)"
    using assms(1,2) by (auto simp: digest_of_def dest: hex_lower_inject)
  then show ?thesis by (rule encode_observations_inject) (use assms(3) in \<open>auto simp: observe_def\<close>)
qed

end
