(* ===== verification/Inventory_Cache.thy ===== *)
theory Inventory_Cache
  imports Fingerprint Delivery_State
begin

text \<open>
  The inventory cache, \<open>src/inventory/cache.rs\<close>: one file per kind of collector, which
  holds a complete result with the fingerprint of what it was collected from; the cached
  collection of everything the agent inventories; and the history of when each source was
  last complete. The JSON codecs, the clocks and the failures of the file operations are
  inputs. The platform collectors are those of the Linux build.
\<close>

section \<open>The cache's files\<close>

datatype cache_kind = PlatformCache | PythonCache | NodejsCache | JavaCache

fun cache_file_name :: "cache_kind \<Rightarrow> string" where
  "cache_file_name PlatformCache = ''platform.json''"
| "cache_file_name PythonCache = ''python.json''"
| "cache_file_name NodejsCache = ''nodejs.json''"
| "cache_file_name JavaCache = ''java.json''"

fun cache_label :: "cache_kind \<Rightarrow> string" where
  "cache_label PlatformCache = ''platform''"
| "cache_label PythonCache = ''python''"
| "cache_label NodejsCache = ''nodejs''"
| "cache_label JavaCache = ''java''"

definition CACHE_FORMAT_VERSION :: u16 where "CACHE_FORMAT_VERSION = 2"
definition MAX_CACHE_BYTES :: nat where "MAX_CACHE_BYTES = 16 * 1024 * 1024"

record cached_collector =
  cc_format_version :: u16
  cc_agent_version :: string
  cc_fingerprint :: string
  cc_stored_at :: u64
  cc_result :: collector_result

record cache_env =
  ie_decode :: "u8 list \<Rightarrow> string + cached_collector"
  ie_encode :: "cached_collector \<Rightarrow> u8 list"
  ie_version :: string
  ie_max_age :: u64
  ie_pid :: nat
  ie_load_plan :: "cache_kind \<Rightarrow> fault_plan"
  ie_store_plan :: "cache_kind \<Rightarrow> fault_plan"
  ie_load_now :: "cache_kind \<Rightarrow> u64"
  ie_store_now :: "cache_kind \<Rightarrow> u64"

definition cache_expired :: "u64 \<Rightarrow> u64 \<Rightarrow> u64 \<Rightarrow> bool" where
  "cache_expired now stored_at max_age \<longleftrightarrow> stored_at > now \<or> saturating_sub now stored_at \<ge> max_age"

definition cache_load ::
  "cache_env \<Rightarrow> cache_kind \<Rightarrow> string \<Rightarrow> u8 list dir \<Rightarrow> string + collector_result option" where
  "cache_load ie kind fingerprint d =
     (let plan = ie_load_plan ie kind; label = cache_label kind in
      and_then (io_or plan OpenFile (''failed to open '' @ label @ '' inventory cache: '')) (\<lambda>_.
      case map_of d (cache_file_name kind) of
        None \<Rightarrow> Inr None
      | Some content \<Rightarrow>
          and_then (io_or plan ReadFile (''failed to read '' @ label @ '' inventory cache: '')) (\<lambda>_.
          let bytes = take (MAX_CACHE_BYTES + 1) content in
          if length bytes > MAX_CACHE_BYTES
          then Inl (label @ '' inventory cache exceeds '' @ show_nat MAX_CACHE_BYTES @ '' bytes'')
          else case ie_decode ie bytes of
            Inl e \<Rightarrow> Inl (''failed to parse '' @ label @ '' inventory cache: '' @ e)
          | Inr cached \<Rightarrow>
              if cc_format_version cached \<noteq> CACHE_FORMAT_VERSION \<or> cc_agent_version cached \<noteq> ie_version ie
                 \<or> cc_fingerprint cached \<noteq> fingerprint \<or> \<not> cr_complete (cc_result cached)
                 \<or> cache_expired (ie_load_now ie kind) (cc_stored_at cached) (ie_max_age ie)
              then Inr None else Inr (Some (cc_result cached)))))"

definition load_or_miss ::
  "cache_env \<Rightarrow> cache_kind \<Rightarrow> string \<Rightarrow> u8 list dir \<Rightarrow> collector_result option \<times> u8 list dir" where
  "load_or_miss ie kind fingerprint d =
     (case cache_load ie kind fingerprint d of
        Inr hit \<Rightarrow> (hit, d)
      | Inl _ \<Rightarrow> (None, if fault (ie_load_plan ie kind) RemoveFile = None
                       then AList.delete (cache_file_name kind) d else d))"

definition cache_temp_name :: "cache_kind \<Rightarrow> nat \<Rightarrow> string" where
  "cache_temp_name kind pid = cache_label kind @ ''.tmp-'' @ show_nat pid"

definition cache_io_message :: "cache_kind \<Rightarrow> file_op \<times> string \<Rightarrow> string" where
  "cache_io_message kind oe =
     (case fst oe of
        CreateTemp \<Rightarrow> ''failed to create '' @ cache_label kind @ '' inventory cache: '' @ snd oe
      | WriteTemp \<Rightarrow> ''failed to write '' @ cache_label kind @ '' inventory cache: '' @ snd oe
      | Publish \<Rightarrow> ''failed to publish '' @ cache_label kind @ '' inventory cache ''
                   @ cache_file_name kind @ '': '' @ snd oe
      | _ \<Rightarrow> ''failed to sync '' @ cache_label kind @ '' inventory cache directory: '' @ snd oe)"

text \<open>The result, with every state of the directory that a crash could leave.\<close>

definition cache_store ::
  "cache_env \<Rightarrow> cache_kind \<Rightarrow> string \<Rightarrow> collector_result \<Rightarrow> u8 list dir
   \<Rightarrow> (string + unit) \<times> u8 list dir list" where
  "cache_store ie kind fingerprint r d =
     (if \<not> cr_complete r then (Inr (), [d])
      else let bytes = ie_encode ie \<lparr>cc_format_version = CACHE_FORMAT_VERSION, cc_agent_version = ie_version ie,
                 cc_fingerprint = fingerprint, cc_stored_at = ie_store_now ie kind, cc_result = r\<rparr> in
        if length bytes > MAX_CACHE_BYTES
        then (Inl (cache_label kind @ '' inventory cache is '' @ show_nat (length bytes) @ '' bytes, exceeding the ''
                   @ show_nat MAX_CACHE_BYTES @ '' byte limit''), [d])
        else case atomic_replace (ie_store_plan ie kind) id (cache_temp_name kind (ie_pid ie))
                    (cache_file_name kind) bytes d of
          (outcome, states) \<Rightarrow> (map_sum (cache_io_message kind) id outcome, states))"

section \<open>Cached collection\<close>

text \<open>\<open>cached\<close> says whether the cache directory could be opened.\<close>

definition fingerprint_failure :: "collector_result \<Rightarrow> collector_result" where
  "fingerprint_failure r =
     (let r = r\<lparr>cr_complete := False, cr_warnings := cr_warnings r @ [''fingerprint_failed'']\<rparr> in
      r\<lparr>cr_sources := map (\<lambda>source. source\<lparr>
          cs_status := (if cr_entries r = [] then Failed else Partial),
          cs_last_complete_at := None, cs_diagnostic_code := Some ''fingerprint_failed''\<rparr>) (cr_sources r)\<rparr>)"

definition collect_runtime_cached ::
  "cache_env \<Rightarrow> bool \<Rightarrow> cache_kind \<Rightarrow> string + string \<Rightarrow> collector_result \<Rightarrow> u8 list dir
   \<Rightarrow> collector_result \<times> u8 list dir" where
  "collect_runtime_cached ie cached kind fingerprint collected d =
     (case fingerprint of
        Inl _ \<Rightarrow> (fingerprint_failure collected, d)
      | Inr f \<Rightarrow>
          if \<not> cached then (collected, d)
          else (case load_or_miss ie kind f d of
            (Some r, d') \<Rightarrow> (r, d')
          | (None, d') \<Rightarrow> (collected, last (snd (cache_store ie kind f collected d')))))"

text \<open>
  The platform's lookup: \<open>None\<close> when there is no cache or no fingerprint, or when the
  blocking task did not return.
\<close>

definition platform_lookup ::
  "cache_env \<Rightarrow> bool \<Rightarrow> bool \<Rightarrow> string + string option \<Rightarrow> u8 list dir
   \<Rightarrow> (string \<times> collector_result option) option \<times> u8 list dir" where
  "platform_lookup ie cached joined fingerprint d =
     (if \<not> cached \<or> \<not> joined then (None, d)
      else case fingerprint of
        Inr (Some f) \<Rightarrow> (case load_or_miss ie PlatformCache f d of (hit, d') \<Rightarrow> (Some (f, hit), d'))
      | _ \<Rightarrow> (None, d))"

definition collect_platform_cached ::
  "cache_env \<Rightarrow> bool \<Rightarrow> bool \<Rightarrow> string + string option \<Rightarrow> collector_result \<Rightarrow> u8 list dir
   \<Rightarrow> collector_result \<times> u8 list dir" where
  "collect_platform_cached ie cached joined fingerprint collected d =
     (case platform_lookup ie cached joined fingerprint d of
        (Some (f, Some r), d') \<Rightarrow> (r, d')
      | (Some (f, None), d') \<Rightarrow> (collected, last (snd (cache_store ie PlatformCache f collected d')))
      | (None, d') \<Rightarrow> (collected, d'))"

text \<open>What one collection meets: the host, the commands, and which tasks end by a panic.\<close>

record host =
  ho_env :: collect_env
  ho_files :: watched_system
  ho_json :: "string \<Rightarrow> package_json option"
  ho_run :: "string \<Rightarrow> command_error + string"
  ho_cache_opens :: bool
  ho_lookup_joins :: bool
  ho_panic :: "(cache_kind \<times> bool) option"

text \<open>
  The runtimes in their order. A panic of one of them, in its fingerprint or, after the
  lookup, in its collector (the flag), ends the task: there is no result, and the files of
  the runtimes before it were written.
\<close>

definition collect_runtime :: "host \<Rightarrow> cache_kind \<Rightarrow> (string + string) \<times> collector_result" where
  "collect_runtime h kind =
     (let fs = file_system.truncate (ho_files h); sha = ce_sha (ho_env h) in
      case kind of
        PythonCache \<Rightarrow> (python_fingerprint sha (ho_files h), collect_python_packages (ho_env h) fs)
      | NodejsCache \<Rightarrow> (nodejs_fingerprint sha (ho_files h), collect_nodejs_packages (ho_env h) fs (ho_json h))
      | _ \<Rightarrow> (java_fingerprint sha (ho_files h), collect_java_runtimes (ho_env h) fs))"

fun collect_runtimes_loop ::
  "cache_env \<Rightarrow> host \<Rightarrow> cache_kind list \<Rightarrow> collector_result \<Rightarrow> u8 list dir
   \<Rightarrow> collector_result option \<times> u8 list dir" where
  "collect_runtimes_loop ie h [] r d = (Some r, d)"
| "collect_runtimes_loop ie h (kind # kinds) r d =
     (if ho_panic h = Some (kind, False) then (None, d)
      else if ho_panic h = Some (kind, True)
      then (None, case fst (collect_runtime h kind) of
                    Inr f \<Rightarrow> if ho_cache_opens h then snd (load_or_miss ie kind f d) else d
                  | Inl _ \<Rightarrow> d)
      else case collect_runtime h kind of (fingerprint, collected) \<Rightarrow>
        (case collect_runtime_cached ie (ho_cache_opens h) kind fingerprint collected d of
           (s, d') \<Rightarrow> collect_runtimes_loop ie h kinds (merge r s) d'))"

definition collect_runtimes_cached ::
  "cache_env \<Rightarrow> host \<Rightarrow> u8 list dir \<Rightarrow> collector_result option \<times> u8 list dir" where
  "collect_runtimes_cached ie h d =
     collect_runtimes_loop ie h [PythonCache, NodejsCache, JavaCache] default_result d"

section \<open>The history of complete collections\<close>

type_synonym source_history = "(software_source, string) btree"

record history_env =
  hi_decode :: "u8 list \<Rightarrow> source_history option"
  hi_encode :: "source_history \<Rightarrow> u8 list"
  hi_plan :: fault_plan

definition HISTORY_FILE :: string where "HISTORY_FILE = ''inventory-source-history-v2.json''"

definition history_temp_name :: "nat \<Rightarrow> string" where
  "history_temp_name pid = ''inventory-source-history-v2.tmp-'' @ show_nat pid"

definition read_history :: "history_env \<Rightarrow> u8 list dir \<Rightarrow> source_history" where
  "read_history hi d =
     (if fault (hi_plan hi) OpenFile \<noteq> None \<or> fault (hi_plan hi) ReadFile \<noteq> None then []
      else case map_of d HISTORY_FILE of
        None \<Rightarrow> []
      | Some content \<Rightarrow>
          (let bytes = take (64 * 1024 + 1) content in
           if length bytes > 64 * 1024 then [] else unwrap_or (hi_decode hi bytes) []))"

fun reconcile_loop ::
  "collection_source list \<Rightarrow> source_history \<Rightarrow> collection_source list \<times> source_history" where
  "reconcile_loop [] history = ([], history)"
| "reconcile_loop (source # rest) history =
     (if cs_status source = Complete
      then (case reconcile_loop rest (case cs_last_complete_at source of
                None \<Rightarrow> history | Some at \<Rightarrow> btree_insert (cs_source source) at history) of
              (rest', history') \<Rightarrow> (source # rest', history'))
      else (case reconcile_loop rest history of
              (rest', history') \<Rightarrow>
                (source\<lparr>cs_last_complete_at := btree_get history (cs_source source)\<rparr> # rest', history')))"

definition store_history :: "history_env \<Rightarrow> nat \<Rightarrow> source_history \<Rightarrow> u8 list dir \<Rightarrow> u8 list dir" where
  "store_history hi pid history d =
     (case atomic_replace (hi_plan hi) id (history_temp_name pid) HISTORY_FILE (hi_encode hi history) d of
        (Inr _, states) \<Rightarrow> last states
      | (Inl _, states) \<Rightarrow> if fault (hi_plan hi) RemoveTemp = None
                           then AList.delete (history_temp_name pid) (last states) else last states)"

definition reconcile_last_complete ::
  "history_env \<Rightarrow> nat \<Rightarrow> collection_source list \<Rightarrow> u8 list dir \<Rightarrow> collection_source list \<times> u8 list dir" where
  "reconcile_last_complete hi pid srcs d =
     (case reconcile_loop srcs (read_history hi d) of
        (srcs', history) \<Rightarrow> (srcs', store_history hi pid history d))"

text \<open>The state directory: the cache's own directory and the history beside it.\<close>

record inventory_disk =
  id_cache :: "u8 list dir"
  id_state :: "u8 list dir"

definition collect_all_cached ::
  "cache_env \<Rightarrow> history_env \<Rightarrow> host \<Rightarrow> inventory_disk \<Rightarrow> collector_result \<times> inventory_disk" where
  "collect_all_cached ie hi h disk =
     (case collect_platform_cached ie (ho_cache_opens h) (ho_lookup_joins h)
             (platform_fingerprint (ce_sha (ho_env h)) (ho_files h))
             (linux_collect (ho_env h) (fs_exists (file_system.truncate (ho_files h))) (ho_run h)) (id_cache disk) of
        (platform, d1) \<Rightarrow>
          (case collect_runtimes_cached ie h d1 of (runtimes, d2) \<Rightarrow>
             (let r = (case runtimes of
                    Some s \<Rightarrow> merge platform s
                  | None \<Rightarrow> fold (\<lambda>source r. merge r (failed_result (ho_env h) source ''collector_panicked''))
                              [Pip, Npm, Java] platform)
              in case reconcile_last_complete hi (ie_pid ie) (cr_sources r) (id_state disk) of
                (srcs, state) \<Rightarrow> (r\<lparr>cr_sources := srcs\<rparr>, \<lparr>id_cache = d2, id_state = state\<rparr>))))"

section \<open>Storing and loading\<close>

text \<open>What a result needs in order to load again: the codec reads it back within the limit.\<close>

definition cached_document :: "cache_env \<Rightarrow> cache_kind \<Rightarrow> string \<Rightarrow> collector_result \<Rightarrow> cached_collector" where
  "cached_document ie kind fingerprint r = \<lparr>cc_format_version = CACHE_FORMAT_VERSION, cc_agent_version = ie_version ie,
     cc_fingerprint = fingerprint, cc_stored_at = ie_store_now ie kind, cc_result = r\<rparr>"

definition codec_keeps :: "cache_env \<Rightarrow> cached_collector \<Rightarrow> bool" where
  "codec_keeps ie c \<longleftrightarrow> ie_decode ie (ie_encode ie c) = Inr c"

definition hit_conditions :: "cache_env \<Rightarrow> cache_kind \<Rightarrow> string \<Rightarrow> cached_collector \<Rightarrow> bool" where
  "hit_conditions ie kind fingerprint c \<longleftrightarrow> cc_format_version c = CACHE_FORMAT_VERSION
     \<and> cc_agent_version c = ie_version ie \<and> cc_fingerprint c = fingerprint \<and> cr_complete (cc_result c)
     \<and> cc_stored_at c \<le> ie_load_now ie kind
     \<and> unat (ie_load_now ie kind) < unat (cc_stored_at c) + unat (ie_max_age ie)"

lemma not_expired_iff:
  "\<not> cache_expired now stored max_age \<longleftrightarrow> stored \<le> now \<and> unat now < unat stored + unat max_age"
proof (cases "stored \<le> now")
  case True
  then have "unat (saturating_sub now stored) = unat now - unat stored" by (simp add: unat_saturating_sub)
  then have "saturating_sub now stored \<ge> max_age \<longleftrightarrow> unat max_age \<le> unat now - unat stored"
    by (simp add: word_le_nat_alt)
  with True show ?thesis by (auto simp: cache_expired_def word_le_nat_alt word_less_nat_alt not_le)
qed (simp add: cache_expired_def not_le)

lemma cache_load_cong:
  "map_of d (cache_file_name kind) = map_of e (cache_file_name kind) \<Longrightarrow> cache_load ie kind f d = cache_load ie kind f e"
  by (simp add: cache_load_def)

lemma cache_load_hit:
  "cache_load ie kind f d = Inr (Some r) \<Longrightarrow>
   \<exists>bytes c. map_of d (cache_file_name kind) = Some bytes \<and> length bytes \<le> MAX_CACHE_BYTES
     \<and> ie_decode ie bytes = Inr c \<and> hit_conditions ie kind f c \<and> r = cc_result c"
  by (auto simp: cache_load_def Let_def and_then_Inr_iff hit_conditions_def not_expired_iff
      split: option.splits if_splits sum.splits)

lemma cache_load_stored:
  assumes "fault (ie_load_plan ie kind) = (\<lambda>_. None)" and "map_of d (cache_file_name kind) = Some bytes"
    and "length bytes \<le> MAX_CACHE_BYTES" and "ie_decode ie bytes = Inr c"
  shows "cache_load ie kind f d = Inr (if hit_conditions ie kind f c then Some (cc_result c) else None)"
  using assms
  by (auto simp: cache_load_def Let_def io_or_def hit_conditions_def not_expired_iff)

lemma cache_temp_other: "cache_temp_name k pid \<noteq> cache_file_name kind"
proof -
  have "CHR ''t'' \<in> set (take 3 (drop (length (cache_label k) + 1) (cache_temp_name k pid)))" by (cases k) (simp_all add: cache_temp_name_def)
  then show ?thesis by (cases k; cases kind) (auto simp: cache_temp_name_def)
qed

lemma cache_file_name_inject: "cache_file_name a = cache_file_name b \<longleftrightarrow> a = b"
  by (cases a; cases b) simp_all

section \<open>The cache only holds reports\<close>

fun kind_sources :: "cache_kind \<Rightarrow> software_source list" where
  "kind_sources PlatformCache = [Dpkg, Rpm, Pacman]"
| "kind_sources PythonCache = [Pip]"
| "kind_sources NodejsCache = [Npm]"
| "kind_sources JavaCache = [Java]"

text \<open>Every cached complete result that decodes is one that its collector could have reported.\<close>

definition cache_sound :: "cache_env \<Rightarrow> u8 list dir \<Rightarrow> bool" where
  "cache_sound ie d \<longleftrightarrow> (\<forall>kind bytes c. map_of d (cache_file_name kind) = Some bytes \<longrightarrow>
     ie_decode ie bytes = Inr c \<longrightarrow> cr_complete (cc_result c) \<longrightarrow> reported (kind_sources kind) (cc_result c))"

text \<open>What the parser reads of a document that was written is that document.\<close>

definition codec_ok :: "cache_env \<Rightarrow> bool" where
  "codec_ok ie \<longleftrightarrow> (\<forall>c c'. ie_decode ie (ie_encode ie c) = Inr c' \<longrightarrow> c' = c)"

lemma cache_sound_empty: "cache_sound ie []"
  by (simp add: cache_sound_def)

lemma cache_sound_hit:
  "cache_sound ie d \<Longrightarrow> cache_load ie kind f d = Inr (Some r) \<Longrightarrow> reported (kind_sources kind) r"
  by (auto simp: cache_sound_def hit_conditions_def dest!: cache_load_hit)

lemma load_or_miss_sound:
  assumes "load_or_miss ie kind f d = (hit, d')" and "cache_sound ie d"
  shows "cache_sound ie d' \<and> (\<forall>r. hit = Some r \<longrightarrow> reported (kind_sources kind) r)"
  using assms cache_sound_hit [OF assms(2)]
  by (auto simp: load_or_miss_def cache_sound_def split: sum.splits if_splits)

lemma cache_store_states:
  assumes "cache_store ie kind f r d = (outcome, states)"
  shows "states \<noteq> []"
    and "e \<in> set states \<Longrightarrow> map_of e (cache_file_name k) = map_of d (cache_file_name k)
      \<or> k = kind \<and> cr_complete r \<and> length (ie_encode ie (cached_document ie kind f r)) \<le> MAX_CACHE_BYTES
        \<and> map_of e (cache_file_name k) = Some (ie_encode ie (cached_document ie kind f r))"
    and "outcome = Inr () \<Longrightarrow> cr_complete r \<Longrightarrow>
      map_of (last states) (cache_file_name kind) = Some (ie_encode ie (cached_document ie kind f r))
      \<and> length (ie_encode ie (cached_document ie kind f r)) \<le> MAX_CACHE_BYTES"
proof -
  define bytes where "bytes = ie_encode ie (cached_document ie kind f r)"
  obtain w ts where a: "atomic_replace (ie_store_plan ie kind) id (cache_temp_name kind (ie_pid ie))
      (cache_file_name kind) bytes d = (w, ts)" by force
  have cases: "states = [d] \<and> (cr_complete r \<longrightarrow> outcome \<noteq> Inr ())
      \<or> cr_complete r \<and> length bytes \<le> MAX_CACHE_BYTES \<and> states = ts \<and> outcome = map_sum (cache_io_message kind) id w"
    using assms a by (auto simp: cache_store_def Let_def bytes_def cached_document_def split: if_splits)
  note look = atomic_replace_lookup [OF a cache_temp_other]
  note views = atomic_replace_views [OF a, of "\<lambda>n. n = cache_file_name kind \<or> n = cache_file_name k"]
  show "states \<noteq> []" using cases look(1) by auto
  show "e \<in> set states \<Longrightarrow> map_of e (cache_file_name k) = map_of d (cache_file_name k)
      \<or> k = kind \<and> cr_complete r \<and> length (ie_encode ie (cached_document ie kind f r)) \<le> MAX_CACHE_BYTES
        \<and> map_of e (cache_file_name k) = Some (ie_encode ie (cached_document ie kind f r))"
  proof (cases "k = kind")
    case True
    then show "e \<in> set states \<Longrightarrow> ?thesis" using cases look(2) by (auto simp: bytes_def)
  next
    case False
    assume e: "e \<in> set states"
    let ?P = "\<lambda>n. n = cache_file_name kind \<or> n = cache_file_name k"
    have keep: "map_of e (cache_file_name k) = map_of d (cache_file_name k)" if "e \<in> set ts"
    proof -
      have "visible ?P e \<in> {visible ?P d, AList.update (cache_file_name kind) bytes (visible ?P d)}"
        using views(2) that cache_temp_other by simp
      then have "map_of (visible ?P e) (cache_file_name k) = map_of (visible ?P d) (cache_file_name k)"
        using False by (auto simp: cache_file_name_inject)
      then show ?thesis by (simp add: map_of_visible)
    qed
    with cases e show ?thesis by auto
  qed
  show "outcome = Inr () \<Longrightarrow> cr_complete r \<Longrightarrow>
      map_of (last states) (cache_file_name kind) = Some (ie_encode ie (cached_document ie kind f r))
      \<and> length (ie_encode ie (cached_document ie kind f r)) \<le> MAX_CACHE_BYTES"
    using cases look(3) by (cases w) (auto simp: bytes_def)
qed

lemma cache_store_sound:
  assumes "codec_ok ie" and "cache_sound ie d" and "reported (kind_sources kind) r"
    and "cache_store ie kind f r d = (outcome, states)" and "e \<in> set states"
  shows "cache_sound ie e"
  unfolding cache_sound_def
proof (intro allI impI)
  fix k bytes c
  assume b: "map_of e (cache_file_name k) = Some bytes" and c: "ie_decode ie bytes = Inr c" "cr_complete (cc_result c)"
  from cache_store_states(2) [OF assms(4,5), of k]
  show "reported (kind_sources k) (cc_result c)"
  proof (elim disjE conjE)
    assume "map_of e (cache_file_name k) = map_of d (cache_file_name k)"
    with b c assms(2) show ?thesis by (auto simp: cache_sound_def)
  next
    assume "k = kind" "map_of e (cache_file_name k) = Some (ie_encode ie (cached_document ie kind f r))"
    with b c assms(1) have "c = cached_document ie kind f r" unfolding codec_ok_def by (metis option.inject)
    with \<open>k = kind\<close> assms(3) show ?thesis by (simp add: cached_document_def)
  qed
qed

lemma cache_store_last_sound:
  assumes "codec_ok ie" and "cache_sound ie d" and "reported (kind_sources kind) r"
  shows "cache_sound ie (last (snd (cache_store ie kind f r d)))"
proof -
  obtain outcome states where s: "cache_store ie kind f r d = (outcome, states)" by force
  have "last states \<in> set states" using cache_store_states(1) [OF s] by simp
  with s cache_store_sound [OF assms s] show ?thesis by simp
qed

lemma fingerprint_failure_reported: "reported srcs r \<Longrightarrow> reported srcs (fingerprint_failure r)"
  using code_warning_diagnostic [OF code_constants(4)]
  by (auto simp: reported_def fingerprint_failure_def Let_def valid_source_def image_mset.compositionality comp_def)

context reporting_collector
begin

text \<open>A cached collector of a contract-keeping collector keeps the contract and the cache sound.\<close>

lemma runtime_cached:
  assumes "collect_runtime_cached ie cached kind fp (collect e) d = (r, d')"
    and "usable e" and "kind_sources kind = covers" and "codec_ok ie" and "cache_sound ie d"
  shows "reported covers r \<and> cache_sound ie d'"
proof -
  note c = reports [OF assms(2)]
  show ?thesis
  proof (cases fp)
    case (Inl a)
    with assms c fingerprint_failure_reported show ?thesis by (auto simp: collect_runtime_cached_def)
  next
    case (Inr f)
    obtain hit d1 where l: "load_or_miss ie kind f d = (hit, d1)" by force
    note s = load_or_miss_sound [OF l assms(5)]
    have "cache_sound ie (last (snd (cache_store ie kind f (collect e) d1)))"
      using cache_store_last_sound [OF assms(4)] s c assms(3) by simp
    with assms c s l Inr show ?thesis
      by (auto simp: collect_runtime_cached_def split: if_splits option.splits)
  qed
qed

lemma platform_cached:
  assumes "collect_platform_cached ie cached joined fp (collect e) d = (r, d')"
    and "usable e" and "kind_sources PlatformCache = covers" and "codec_ok ie" and "cache_sound ie d"
  shows "reported covers r \<and> cache_sound ie d'"
proof -
  note c = reports [OF assms(2)]
  obtain l d1 where l: "platform_lookup ie cached joined fp d = (l, d1)" by force
  then have s: "cache_sound ie d1 \<and> (\<forall>f r. l = Some (f, Some r) \<longrightarrow> reported covers r)"
    using assms(5) load_or_miss_sound [of ie PlatformCache, OF _ assms(5), unfolded assms(3)]
    by (fastforce simp: platform_lookup_def split: if_splits sum.splits option.splits prod.splits)
  have "cache_sound ie (last (snd (cache_store ie PlatformCache f (collect e) d1)))" for f
    using cache_store_last_sound [OF assms(4)] s c assms(3) by simp
  with assms(1) c s l show ?thesis
    by (auto simp: collect_platform_cached_def split: option.splits)
qed

end

section \<open>The whole collection keeps the contract\<close>

lemma runtime_step:
  assumes "collect_runtime h kind = (fp, collected)" and "kind \<noteq> PlatformCache"
    and "collect_runtime_cached ie cached kind fp collected d = (s, d')"
    and "usable_env (ho_env h)" and "codec_ok ie" and "cache_sound ie d"
  shows "reported (kind_sources kind) s \<and> cache_sound ie d'"
  using assms(1,2,3)
    python.runtime_cached [of ie cached kind fp "(ho_env h, file_system.truncate (ho_files h))" d s d', OF _ _ _ assms(5,6)]
    nodejs.runtime_cached [of ie cached kind fp "(ho_env h, file_system.truncate (ho_files h), ho_json h)" d s d', OF _ _ _ assms(5,6)]
    java.runtime_cached [of ie cached kind fp "(ho_env h, file_system.truncate (ho_files h))" d s d', OF _ _ _ assms(5,6)]
    assms(4)
  by (cases kind) (auto simp: collect_runtime_def Let_def)

lemma lookup_sound: "cache_sound ie d \<Longrightarrow> cache_sound ie (snd (load_or_miss ie kind f d))"
  using load_or_miss_sound [of ie kind f d] by (cases "load_or_miss ie kind f d") auto

lemma runtimes_loop:
  assumes "collect_runtimes_loop ie h kinds r d = (res, d')" and "usable_env (ho_env h)" and "codec_ok ie"
    and "cache_sound ie d" and "reported A r" and "PlatformCache \<notin> set kinds"
    and "distinct (A @ concat (map kind_sources kinds))"
  shows "cache_sound ie d' \<and> (\<forall>s. res = Some s \<longrightarrow> reported (A @ concat (map kind_sources kinds)) s)"
  using assms(1,4-)
proof (induction kinds arbitrary: r d A)
  case (Cons kind kinds)
  obtain fp collected where c: "collect_runtime h kind = (fp, collected)" by force
  obtain s d1 where s: "collect_runtime_cached ie (ho_cache_opens h) kind fp collected d = (s, d1)" by force
  have step: "reported (kind_sources kind) s" "cache_sound ie d1"
    using runtime_step [OF c _ s assms(2,3) Cons.prems(2)] Cons.prems(4) by auto
  show ?case
  proof (cases "ho_panic h = Some (kind, False) \<or> ho_panic h = Some (kind, True)")
    case True
    with Cons.prems(1,2) lookup_sound [OF Cons.prems(2)] show ?thesis by (auto split: sum.splits if_splits)
  next
    case False
    then have rest: "collect_runtimes_loop ie h kinds (merge r s) d1 = (res, d')" using Cons.prems(1) c s by auto
    have "reported (A @ kind_sources kind) (merge r s)"
      using Cons.prems(5) by (intro reported_merge [OF Cons.prems(3) step(1)]) auto
    from Cons.IH [OF rest step(2) this] Cons.prems(4,5) show ?thesis by simp
  qed
qed auto

lemma reconcile_loop_keeps:
  "reconcile_loop srcs history = (srcs', history') \<Longrightarrow>
   map cs_source srcs' = map cs_source srcs \<and> (\<forall>c'\<in>set srcs'. \<exists>c\<in>set srcs. cs_source c' = cs_source c
     \<and> cs_status c' = cs_status c \<and> (valid_source c \<longrightarrow> valid_source c'))"
proof (induction srcs arbitrary: history srcs' history')
  case (Cons c srcs)
  obtain rest history1 where r: "reconcile_loop srcs (if cs_status c = Complete then (case cs_last_complete_at c of
      None \<Rightarrow> history | Some at \<Rightarrow> btree_insert (cs_source c) at history) else history) = (rest, history1)" by force
  with Cons.prems have s: "srcs' = (if cs_status c = Complete then c
      else c\<lparr>cs_last_complete_at := btree_get history (cs_source c)\<rparr>) # rest"
    by (auto split: prod.splits if_splits)
  have "valid_source c \<Longrightarrow> cs_status c \<noteq> Complete \<Longrightarrow> valid_source (c\<lparr>cs_last_complete_at := l\<rparr>)" for l
    by (simp add: valid_source_def)
  with Cons.IH [OF r] s show ?case by auto
qed simp

lemma reported_sources_replaced:
  assumes "reported A r" and "map cs_source srcs = map cs_source (cr_sources r)"
    and "\<forall>c'\<in>set srcs. \<exists>c\<in>set (cr_sources r). cs_source c' = cs_source c
      \<and> cs_status c' = cs_status c \<and> (valid_source c \<longrightarrow> valid_source c')"
  shows "reported A (r\<lparr>cr_sources := srcs\<rparr>)"
proof -
  note r = assms(1) [unfolded reported_def]
  have "mset (map cs_source srcs) = mset A" using r assms(2) by simp
  moreover have "valid_source c \<and> (cr_complete r \<longrightarrow> cs_status c \<in> {Complete, NotApplicable})
      \<and> (cs_status c \<in> {Failed, NotApplicable} \<longrightarrow> (\<forall>e\<in>set (cr_entries r). se_source e \<noteq> cs_source c))"
    if "c \<in> set srcs" for c
  proof -
    from assms(3) that obtain b where "b \<in> set (cr_sources r)" "cs_source c = cs_source b" "cs_status c = cs_status b"
      "valid_source b \<longrightarrow> valid_source c" by blast
    with r show ?thesis by auto
  qed
  ultimately show ?thesis using r by (simp add: reported_def)
qed

definition all_sources :: "software_source list" where
  "all_sources = [Dpkg, Rpm, Pacman, Pip, Npm, Java]"

lemma collect_all_cached_reports:
  assumes "collect_all_cached ie hi h disk = (r, disk')" and "usable_env (ho_env h)" and "codec_ok ie"
    and "cache_sound ie (id_cache disk)"
  shows "reported all_sources r \<and> cache_sound ie (id_cache disk')"
proof -
  let ?fs = "file_system.truncate (ho_files h)"
  obtain p d1 where p: "collect_platform_cached ie (ho_cache_opens h) (ho_lookup_joins h)
      (platform_fingerprint (ce_sha (ho_env h)) (ho_files h))
      (linux_collect (ho_env h) (fs_exists ?fs) (ho_run h)) (id_cache disk) = (p, d1)" by force
  have P: "reported [Dpkg, Rpm, Pacman] p \<and> cache_sound ie d1"
    using linux.platform_cached [of ie "ho_cache_opens h" "ho_lookup_joins h" _ "(ho_env h, fs_exists ?fs, ho_run h)",
        OF _ _ _ assms(3,4)] p assms(2) by simp
  obtain rt d2 where rt: "collect_runtimes_cached ie h d1 = (rt, d2)" by force
  have R: "cache_sound ie d2 \<and> (\<forall>s. rt = Some s \<longrightarrow> reported [Pip, Npm, Java] s)"
    using runtimes_loop [OF rt [unfolded collect_runtimes_cached_def] assms(2,3) conjunct2 [OF P] reported_default]
    by simp
  define q where "q = (case rt of Some s \<Rightarrow> merge p s
    | None \<Rightarrow> fold (\<lambda>source r. merge r (failed_result (ho_env h) source ''collector_panicked'')) [Pip, Npm, Java] p)"
  note f = reported_failed [OF assms(2) code_constants(3)]
  have "reported ([Dpkg, Rpm, Pacman] @ [Pip] @ [Npm] @ [Java]) (fold (\<lambda>source r. merge r
      (failed_result (ho_env h) source ''collector_panicked'')) [Pip, Npm, Java] p)"
    using reported_merge [OF reported_merge [OF reported_merge [OF conjunct1 [OF P] f [of Pip]] f [of Npm]] f [of Java]]
    by simp
  moreover have "reported ([Dpkg, Rpm, Pacman] @ [Pip, Npm, Java]) (merge p s)" if "rt = Some s" for s
    using reported_merge [OF conjunct1 [OF P]] R that by simp
  ultimately have q: "reported all_sources q" by (simp add: q_def all_sources_def split: option.split)
  obtain srcs history where l: "reconcile_loop (cr_sources q) (read_history hi (id_state disk)) = (srcs, history)" by force
  have "r = q\<lparr>cr_sources := srcs\<rparr>" "id_cache disk' = d2"
    using assms(1) p rt l by (auto simp: collect_all_cached_def reconcile_last_complete_def q_def Let_def)
  with R reported_sources_replaced [OF q] reconcile_loop_keeps [OF l] show ?thesis by simp
qed

section \<open>A cache file is a durable document\<close>

definition storable :: "cache_env \<Rightarrow> cache_kind \<Rightarrow> string \<Rightarrow> collector_result \<Rightarrow> bool" where
  "storable ie kind f r \<longleftrightarrow> hit_conditions ie kind f (cached_document ie kind f r)
     \<and> codec_keeps ie (cached_document ie kind f r)"

lemma stored_loads:
  assumes "fault (ie_load_plan ie kind) = (\<lambda>_. None)" and "codec_keeps ie (cached_document ie kind f r)"
    and "map_of d (cache_file_name kind) = Some (ie_encode ie (cached_document ie kind f r))"
    and "length (ie_encode ie (cached_document ie kind f r)) \<le> MAX_CACHE_BYTES"
  shows "cache_load ie kind g d =
    Inr (if hit_conditions ie kind g (cached_document ie kind f r) then Some r else None)"
  using cache_load_stored [OF assms(1,3,4), of "cached_document ie kind f r" g] assms(2)
  by (simp add: codec_keeps_def cached_document_def)

definition faultless :: "cache_env \<Rightarrow> cache_env" where
  "faultless ie = ie\<lparr>ie_load_plan := (\<lambda>_. no_faults)\<rparr>"

lemma faultless_fields [simp]:
  "fault (ie_load_plan (faultless ie) kind) = (\<lambda>_. None)"
  "ie_encode (faultless ie) = ie_encode ie" "ie_decode (faultless ie) = ie_decode ie"
  "ie_version (faultless ie) = ie_version ie" "ie_max_age (faultless ie) = ie_max_age ie"
  "ie_pid (faultless ie) = ie_pid ie" "ie_store_plan (faultless ie) = ie_store_plan ie"
  "ie_load_now (faultless ie) = ie_load_now ie" "ie_store_now (faultless ie) = ie_store_now ie"
  by (simp_all add: faultless_def no_faults_def)

lemma faultless_simps [simp]:
  "cache_store (faultless ie) kind f r d = cache_store ie kind f r d"
  "cached_document (faultless ie) kind f r = cached_document ie kind f r"
  by (simp_all add: cache_store_def cached_document_def Let_def cong: if_cong)

interpretation cache_file: durable_store
  "cache_load (faultless ie) kind f" "\<lambda>r d. cache_store ie kind f r d" "storable (faultless ie) kind f" id
  for ie kind f
proof
  fix r d e
  obtain outcome states where s: "cache_store ie kind f r d = (outcome, states)" by force
  note st = cache_store_states [OF s]
  from st(1) s show "snd (cache_store ie kind f r d) \<noteq> []" by simp
  assume ok: "storable (faultless ie) kind f r"
  then have c: "cr_complete r" "codec_keeps (faultless ie) (cached_document (faultless ie) kind f r)"
    "hit_conditions (faultless ie) kind f (cached_document (faultless ie) kind f r)"
    by (simp_all add: storable_def hit_conditions_def cached_document_def)
  have new: "map_of d' (cache_file_name kind) = Some (ie_encode ie (cached_document ie kind f r)) \<Longrightarrow>
      length (ie_encode ie (cached_document ie kind f r)) \<le> MAX_CACHE_BYTES \<Longrightarrow>
      cache_load (faultless ie) kind f d' = Inr (Some (id r))" for d'
    using stored_loads [OF _ c(2)] c(3) by simp
  { assume "fst (cache_store ie kind f r d) = Inr ()"
    then show "cache_load (faultless ie) kind f (last (snd (cache_store ie kind f r d))) = Inr (Some (id r))"
      using new st(3) [OF _ c(1)] s by simp }
  { assume "e \<in> set (snd (cache_store ie kind f r d))"
    then show "cache_load (faultless ie) kind f e = cache_load (faultless ie) kind f d
        \<or> cache_load (faultless ie) kind f e = Inr (Some (id r))"
      using st(2) [of e kind] s new cache_load_cong [of e kind d] by auto }
qed

section \<open>Properties\<close>


definition sample_collected :: collector_result where
  "sample_collected = default_result"

definition sample_cache_env :: "cached_collector \<Rightarrow> u64 \<Rightarrow> cache_env" where
  "sample_cache_env document now = \<lparr>ie_decode = (\<lambda>_. Inr document), ie_encode = (\<lambda>_. [7]), ie_version = ''0.5.0'',
     ie_max_age = 3600, ie_pid = 1, ie_load_plan = (\<lambda>_. no_faults), ie_store_plan = (\<lambda>_. no_faults),
     ie_load_now = (\<lambda>_. now), ie_store_now = (\<lambda>_. 1000)\<rparr>"

definition sample_document :: cached_collector where
  "sample_document = \<lparr>cc_format_version = 2, cc_agent_version = ''0.5.0'', cc_fingerprint = ''ab'',
     cc_stored_at = 1000, cc_result = sample_collected\<rparr>"


text \<open>What the fingerprint of a kind watches.\<close>

fun kind_fingerprint :: "(u8 list \<Rightarrow> u8 list) \<Rightarrow> cache_kind \<Rightarrow> watched_system \<Rightarrow> string option" where
  "kind_fingerprint sha PlatformCache fs = (case platform_fingerprint sha fs of Inr f \<Rightarrow> f | Inl _ \<Rightarrow> None)"
| "kind_fingerprint sha PythonCache fs = (case python_fingerprint sha fs of Inr f \<Rightarrow> Some f | Inl _ \<Rightarrow> None)"
| "kind_fingerprint sha NodejsCache fs = (case nodejs_fingerprint sha fs of Inr f \<Rightarrow> Some f | Inl _ \<Rightarrow> None)"
| "kind_fingerprint sha JavaCache fs = (case java_fingerprint sha fs of Inr f \<Rightarrow> Some f | Inl _ \<Rightarrow> None)"

fun watched_paths :: "cache_kind \<Rightarrow> watched_system \<Rightarrow> string list" where
  "watched_paths PlatformCache fs = platform_paths fs"
| "watched_paths PythonCache fs = python_paths fs"
| "watched_paths NodejsCache fs = nodejs_paths fs"
| "watched_paths JavaCache fs = java_paths fs"

lemma kind_fingerprint_digest:
  "kind_fingerprint sha kind fs = Some f \<Longrightarrow> f = digest_of sha fs (watched_paths kind fs)"
  by (cases kind) (auto dest: runtime_fingerprints platform_fingerprint_records simp: digest_of_def split: sum.splits)

lemma observe_inject:
  assumes "observe fs ps = observe gs qs"
  shows "ps = qs \<and> (\<forall>p\<in>set ps. seen fs p = seen gs p)"
proof -
  have "ps = qs" using arg_cong [OF assms, of "map fst"] by (simp add: observe_def comp_def)
  with assms show ?thesis by (simp add: observe_def)
qed


definition empty_system :: "modified \<Rightarrow> watched_system" where
  "empty_system home = \<lparr>fs_read_dir = (\<lambda>_. Inl FsNotFound), fs_is_dir = (\<lambda>_. Inl FsNotFound), fs_exists = (\<lambda>_. False),
     fs_read = (\<lambda>_. None), fs_canonical = (\<lambda>_. None), ws_stat = (\<lambda>p. if p = ''/home''
       then Inr \<lparr>st_kind = DirectoryKind, st_len = 0, st_modified = home\<rparr> else Inl FsNotFound), ws_is_file = (\<lambda>_. False)\<rparr>"

lemma empty_system_java:
  "kind_fingerprint sha JavaCache (empty_system home) = Some (digest_of sha (empty_system home) [''/usr/lib/jvm''])"
  "watched_paths JavaCache (empty_system home) = [''/usr/lib/jvm'']"
proof -
  have c: "candidate_jvm_dirs = [''/usr/lib/jvm'']" by (simp add: candidate_jvm_dirs_def)
  have w: "watch_children java_child (empty_system home) ''/usr/lib/jvm'' new_builder
      = Inr (feed [0] (feed (utf8 ''/usr/lib/jvm'') (feed (to_le_bytes 8 (utf8_len ''/usr/lib/jvm''))
          \<lparr>fb_bytes = [], fb_items = 1\<rparr>)))"
    by (simp add: watch_children_def watch_def add_path_def sorted_children_def is_directory_def empty_system_def
        new_builder_def MAX_FINGERPRINT_ITEMS_def Let_def)
  show p: "watched_paths JavaCache (empty_system home) = [''/usr/lib/jvm'']"
    by (simp add: java_paths_def c watched_children_def children_of_def sorted_children_def is_directory_def empty_system_def)
  have "java_fingerprint sha (empty_system home) = Inr (digest_of sha (empty_system home) (java_paths (empty_system home)))"
    using runtime_fingerprints(3) [of sha "empty_system home"] by (simp add: java_fingerprint_def c w)
  with p show "kind_fingerprint sha JavaCache (empty_system home) = Some (digest_of sha (empty_system home) [''/usr/lib/jvm''])"
    by simp
qed


end
