(* ===== verification/Identity.thy ===== *)
theory Identity
  imports Snapshot_Validate Delivery_State
begin

text \<open>
  The agent's identity, \<open>src/identity.rs\<close>: the random id that is created once in the state
  directory and loaded afterwards, the snapshot ids, and the hashed platform identifier.
  Randomness, the file operations' failures and the machine's id are inputs. Unlike the
  other stores, the temporary file must not exist when it is created and is never removed.
\<close>

section \<open>Ids\<close>

datatype identity_error = IdentityIo string | IdentityCorrupt string

fun identity_error_display :: "identity_error \<Rightarrow> string" where
  "identity_error_display (IdentityIo message) = message"
| "identity_error_display (IdentityCorrupt message) = message"

definition IDENTITY_FILE :: string where "IDENTITY_FILE = ''agent_id''"

definition fill_random :: "string + u8 list \<Rightarrow> identity_error + u8 list" where
  "fill_random rng = (case rng of
      Inl e \<Rightarrow> Inl (IdentityIo (''failed to obtain OS randomness: '' @ e))
    | Inr bytes \<Rightarrow> Inr bytes)"

definition random_hex_id :: "string \<Rightarrow> string + u8 list \<Rightarrow> identity_error + string" where
  "random_hex_id prefix rng = and_then (fill_random rng) (\<lambda>bytes. Inr (prefix @ ''_'' @ hex_lower bytes))"

definition generate_agent_id :: "string + u8 list \<Rightarrow> identity_error + string" where
  "generate_agent_id rng = random_hex_id ''agent'' rng"

definition generate_snapshot_id :: "string + u8 list \<Rightarrow> identity_error + string" where
  "generate_snapshot_id rng = random_hex_id ''snap'' rng"

definition is_valid_agent_id :: "string \<Rightarrow> bool" where
  "is_valid_agent_id aid = (case strip_prefix aid ''agent_'' of
      None \<Rightarrow> False
    | Some rest \<Rightarrow> utf8_len rest = 32 \<and> list_all is_ascii_hexdigit rest)"

section \<open>Loading and creating\<close>

text \<open>\<open>read_utf8\<close> decodes what the file holds, as \<open>read_to_string\<close> does.\<close>

definition identity_load ::
  "(u8 list \<Rightarrow> string + string) \<Rightarrow> fault_plan \<Rightarrow> u8 list dir \<Rightarrow> identity_error + string" where
  "identity_load read_utf8 plan d =
     and_then (case fault plan ReadFile of
        Some e \<Rightarrow> Inl (IdentityIo (''failed to read identity: '' @ e))
      | None \<Rightarrow>
          (case map_of d IDENTITY_FILE of
             None \<Rightarrow> Inl (IdentityIo ''failed to read identity: No such file or directory (os error 2)'')
           | Some bytes \<Rightarrow>
               (case read_utf8 bytes of
                  Inl e \<Rightarrow> Inl (IdentityIo (''failed to read identity: '' @ e))
                | Inr content \<Rightarrow> Inr (trim content)))) (\<lambda>aid.
     if \<not> is_valid_agent_id aid
     then Inl (IdentityCorrupt ''identity file does not contain a valid agent id'')
     else Inr aid)"

definition temp_identity_name :: "nat \<Rightarrow> string" where
  "temp_identity_name pid = IDENTITY_FILE @ ''.tmp-'' @ show_nat pid"

definition persist_atomically ::
  "fault_plan \<Rightarrow> nat \<Rightarrow> string \<Rightarrow> u8 list dir \<Rightarrow> (identity_error + unit) \<times> u8 list dir list" where
  "persist_atomically plan pid aid d =
     (let temp = temp_identity_name pid in
      if fault plan CreateTemp = None \<and> map_of d temp \<noteq> None
      then (Inl (IdentityIo ''failed to create identity temp file: File exists (os error 17)''), [d])
      else case write_temp plan id temp (utf8 (aid @ [CHR 0x0A])) d of
        (Inl (CreateTemp, e), states) \<Rightarrow> (Inl (IdentityIo (''failed to create identity temp file: '' @ e)), states)
      | (Inl (_, e), states) \<Rightarrow> (Inl (IdentityIo (''failed to write identity: '' @ e)), states)
      | (Inr _, states) \<Rightarrow>
          (case fault plan Publish of
             Some e \<Rightarrow> (Inl (IdentityIo (''failed to persist identity: '' @ e)), states)
           | None \<Rightarrow>
               (let d' = AList.update IDENTITY_FILE (utf8 (aid @ [CHR 0x0A])) (AList.delete temp (last states)) in
                case fault plan SyncDir of
                  Some e \<Rightarrow> (Inl (IdentityIo (''failed to sync identity directory: '' @ e)), states @ [d'])
                | None \<Rightarrow> (Inr (), states @ [d']))))"

text \<open>\<open>created\<close> is the outcome of creating the state directory.\<close>

definition load_or_create ::
  "(u8 list \<Rightarrow> string + string) \<Rightarrow> fault_plan \<Rightarrow> nat \<Rightarrow> string + unit \<Rightarrow> string + u8 list \<Rightarrow> u8 list dir
   \<Rightarrow> (identity_error + string) \<times> u8 list dir list" where
  "load_or_create read_utf8 plan pid created rng d =
     (case created of
        Inl e \<Rightarrow> (Inl (IdentityIo (''failed to create state directory: '' @ e)), [d])
      | Inr _ \<Rightarrow>
          if map_of d IDENTITY_FILE \<noteq> None then (identity_load read_utf8 plan d, [d])
          else case generate_agent_id rng of
            Inl e \<Rightarrow> (Inl e, [d])
          | Inr aid \<Rightarrow>
              (case persist_atomically plan pid aid d of
                 (Inl e, states) \<Rightarrow> (Inl e, states)
               | (Inr _, states) \<Rightarrow> (Inr aid, states)))"

section \<open>Platform identifiers\<close>

definition hash_identifier :: "(u8 list \<Rightarrow> u8 list) \<Rightarrow> string \<Rightarrow> string" where
  "hash_identifier sha raw = hex_lower (sha (utf8 (to_lowercase (trim raw))))"

text \<open>The Linux build reads \<open>/etc/machine-id\<close>.\<close>

definition platform_uuid_raw :: "string option \<Rightarrow> string option" where
  "platform_uuid_raw machine_id = option_filter (\<lambda>v. v \<noteq> []) (map_option trim machine_id)"

definition platform_identifiers :: "(u8 list \<Rightarrow> u8 list) \<Rightarrow> string option \<Rightarrow> endpoint_identifier list" where
  "platform_identifiers sha machine_id =
     (case platform_uuid_raw machine_id of
        None \<Rightarrow> []
      | Some raw \<Rightarrow> [\<lparr>identifier_type = BiosUuidHash, value_hash = hash_identifier sha raw\<rparr>])"

section \<open>Lemmas\<close>

lemma hex_lower_lowercase_digits: "list_all is_ascii_hexdigit (hex_lower bs)" "utf8_len (hex_lower bs) = 2 * length bs"
  using hex_lower_hex [of bs] utf8_len_ascii [of "hex_lower bs"] length_hex_lower [of bs]
  by (auto simp: list_all_iff hexdigit_ascii)

lemma hexdigit_not_space: "is_ascii_hexdigit c \<Longrightarrow> \<not> is_whitespace c"
  by (auto simp: char_class_defs)

lemma generated_agent_id:
  assumes "generate_agent_id (Inr bytes) = Inr aid" and "length bytes = 16"
  shows "is_valid_agent_id aid"
proof -
  have "aid = ''agent_'' @ hex_lower bytes"
    using assms(1) by (simp add: generate_agent_id_def random_hex_id_def fill_random_def)
  then show ?thesis
    using hex_lower_lowercase_digits [of bytes] assms(2)
    by (simp add: is_valid_agent_id_def strip_prefix_def starts_with_def)
qed

lemma strip_prefix_Some: "strip_prefix s p = Some t \<longleftrightarrow> s = p @ t"
  unfolding strip_prefix_def starts_with_def
  by (auto, metis append_take_drop_id)

lemma valid_agent_id_shape:
  assumes "is_valid_agent_id aid"
  obtains hex where "aid = ''agent_'' @ hex" and "length hex = 32" and "list_all is_ascii_hexdigit hex"
proof -
  obtain hex where h: "strip_prefix aid ''agent_'' = Some hex" "utf8_len hex = 32" "list_all is_ascii_hexdigit hex"
    using assms by (auto simp: is_valid_agent_id_def split: option.splits)
  have "aid = ''agent_'' @ hex" using h(1) by (simp only: strip_prefix_Some)
  moreover have "length hex = 32" using h utf8_len_ascii [of hex] by (auto simp: list_all_iff hexdigit_ascii)
  ultimately show thesis using h(3) that by blast
qed

lemma valid_agent_id_no_space: "is_valid_agent_id aid \<Longrightarrow> list_all (\<lambda>c. \<not> is_whitespace c) aid \<and> aid \<noteq> []"
proof (elim valid_agent_id_shape)
  fix hex assume "aid = ''agent_'' @ hex" and "list_all is_ascii_hexdigit hex"
  moreover have "list_all (\<lambda>c. \<not> is_whitespace c) ''agent_''" by (simp add: is_whitespace_def scalar_def)
  ultimately show ?thesis by (simp add: list_all_iff hexdigit_not_space)
qed

lemma trim_no_space:
  assumes "list_all (\<lambda>c. \<not> is_whitespace c) s"
  shows "trim s = s" and "trim (s @ [CHR 0x0A]) = s"
proof -
  have n: "is_whitespace (CHR 0x0A)" by (simp add: is_whitespace_def scalar_def)
  have d: "dropWhile is_whitespace t = t" if "list_all (\<lambda>c. \<not> is_whitespace c) t" for t
    using that by (cases t) auto
  have r: "list_all (\<lambda>c. \<not> is_whitespace c) (rev s)" using assms by simp
  show "trim s = s" by (simp add: trim_def trim_start_def trim_end_def d [OF assms] d [OF r])
  show "trim (s @ [CHR 0x0A]) = s"
    using assms n by (cases s) (simp_all add: trim_def trim_start_def trim_end_def d [OF r] d)
qed

lemma identity_temp_other: "temp_identity_name pid \<noteq> IDENTITY_FILE"
  by (simp add: temp_identity_name_def)

lemma identity_loaded_valid: "identity_load read_utf8 plan d = Inr aid \<Longrightarrow> is_valid_agent_id aid"
  by (auto simp: identity_load_def and_then_Inr_iff split: if_splits)

lemma identity_load_stored:
  assumes "is_valid_agent_id aid" and "map_of d IDENTITY_FILE = Some (utf8 (aid @ [CHR 0x0A]))"
    and "read_utf8 (utf8 (aid @ [CHR 0x0A])) = Inr (aid @ [CHR 0x0A])"
  shows "identity_load read_utf8 no_faults d = Inr aid"
  using assms trim_no_space(2) valid_agent_id_no_space [OF assms(1)] by (simp add: identity_load_def)

text \<open>At every instant the file is absent or complete, and success means that it is there.\<close>

lemma persist_atomically_states:
  assumes "persist_atomically plan pid aid d = (r, states)"
  shows "states \<noteq> []"
    and "e \<in> set states \<Longrightarrow> map_of e IDENTITY_FILE \<in> {map_of d IDENTITY_FILE, Some (utf8 (aid @ [CHR 0x0A]))}"
    and "r = Inr () \<Longrightarrow> map_of (last states) IDENTITY_FILE = Some (utf8 (aid @ [CHR 0x0A]))"
proof -
  let ?bytes = "utf8 (aid @ [CHR 0x0A])" and ?temp = "temp_identity_name pid"
  obtain w ts where w: "write_temp plan id ?temp ?bytes d = (w, ts)" by force
  note wt = write_temp_states [OF w]
  have old: "map_of e IDENTITY_FILE = map_of d IDENTITY_FILE" if "e \<in> set ts" for e
    using wt that identity_temp_other [of pid] by (metis dir_update)
  have cases: "(\<exists>e. r = Inl e) \<and> (states = [d] \<or> states = ts)
      \<or> states = ts @ [AList.update IDENTITY_FILE ?bytes (AList.delete ?temp (last ts))]"
    using assms w by (auto simp: persist_atomically_def Let_def split: if_splits sum.splits file_op.splits option.splits)
  show "states \<noteq> []" using cases wt by auto
  show "e \<in> set states \<Longrightarrow> map_of e IDENTITY_FILE \<in> {map_of d IDENTITY_FILE, Some ?bytes}"
    using cases old by auto
  show "r = Inr () \<Longrightarrow> map_of (last states) IDENTITY_FILE = Some ?bytes" using cases by auto
qed

text \<open>The identity is kept: once created, every later start loads the same id.\<close>

lemma identity_survives_restart:
  assumes "load_or_create read_utf8 plan pid created (Inr bytes) d = (Inr aid, states)" and "length bytes = 16"
    and "\<And>a. is_valid_agent_id a \<Longrightarrow> read_utf8 (utf8 (a @ [CHR 0x0A])) = Inr (a @ [CHR 0x0A])"
    and "map_of d IDENTITY_FILE = None"
  shows "is_valid_agent_id aid
    \<and> load_or_create read_utf8 no_faults pid' (Inr ()) rng (last states) = (Inr aid, [last states])"
proof -
  obtain ps where p: "persist_atomically plan pid aid d = (Inr (), ps)" "states = ps" "generate_agent_id (Inr bytes) = Inr aid"
    using assms(1,4) by (auto simp: load_or_create_def split: sum.splits prod.splits)
  have v: "is_valid_agent_id aid" by (rule generated_agent_id [OF p(3) assms(2)])
  have "map_of (last states) IDENTITY_FILE = Some (utf8 (aid @ [CHR 0x0A]))"
    using persist_atomically_states(3) [OF p(1)] p(2) by simp
  moreover from this have "identity_load read_utf8 no_faults (last states) = Inr aid"
    by (rule identity_load_stored [OF v]) (rule assms(3) [OF v])
  ultimately show ?thesis using v by (simp add: load_or_create_def)
qed

lemma load_or_create_valid:
  assumes "load_or_create read_utf8 plan pid created (Inr bytes) d = (Inr aid, states)" and "length bytes = 16"
  shows "is_valid_agent_id aid"
  using assms(1) generated_agent_id [OF _ assms(2)]
  by (auto simp: load_or_create_def dest: identity_loaded_valid split: sum.splits if_splits prod.splits)

text \<open>
  A start that was cut short after the temporary file was created leaves it behind, and no
  later start with the same process id can create the identity.
\<close>

lemma leftover_temp_blocks_creation:
  assumes "generate_agent_id (Inr bytes) = Inr aid" and "map_of d IDENTITY_FILE = None"
  shows "\<exists>e\<in>set (snd (load_or_create read_utf8 no_faults pid (Inr ()) (Inr bytes) d)).
    map_of d (temp_identity_name pid) = None \<longrightarrow>
    load_or_create read_utf8 no_faults pid (Inr ()) (Inr bytes') e
      = (Inl (IdentityIo ''failed to create identity temp file: File exists (os error 17)''), [e])"
proof (cases "map_of d (temp_identity_name pid)")
  case None
  define e where "e = AList.update (temp_identity_name pid) [] d"
  have "e \<in> set (snd (load_or_create read_utf8 no_faults pid (Inr ()) (Inr bytes) d))"
    using assms None
    by (auto simp: load_or_create_def persist_atomically_def write_temp_def temp_states_def Let_def e_def
        intro!: image_eqI [of _ _ 0])
  moreover have "map_of e IDENTITY_FILE = None" "map_of e (temp_identity_name pid) \<noteq> None"
    using assms(2) identity_temp_other [of pid] by (simp_all add: e_def)
  ultimately show ?thesis
    by (intro bexI [of _ e])
       (auto simp: load_or_create_def persist_atomically_def generate_agent_id_def random_hex_id_def fill_random_def)
next
  case (Some a)
  have "snd (load_or_create read_utf8 no_faults pid (Inr ()) (Inr bytes) d) \<noteq> []"
    using assms Some by (simp add: load_or_create_def persist_atomically_def)
  then show ?thesis using Some by (auto simp: neq_Nil_conv)
qed

lemma platform_identifiers_long:
  assumes "\<And>x. length (sha x) = 32" and "i \<in> set (platform_identifiers sha machine_id)"
  shows "utf8_len (trim (value_hash i)) = 64"
proof -
  have "list_all (\<lambda>c. \<not> is_whitespace c) (hex_lower (sha x))" for x
    using hex_lower_hex [of "sha x"] by (auto simp: list_all_iff hexdigit_not_space)
  then show ?thesis
    using assms hex_lower_lowercase_digits(2)
    by (auto simp: platform_identifiers_def hash_identifier_def trim_no_space split: option.splits)
qed

end
