(* ===== verification/Environment.thy ===== *)
theory Environment
  imports Runtime_Collectors
begin

text \<open>
  What the agent reports of its host: the environment labels and the release of the
  operating system, \<open>src/inventory/environment.rs\<close>, and the power source and efficiency
  cores, \<open>src/qos.rs\<close>, in the Linux build. File contents, directory listings and
  environment variables are inputs.
\<close>

section \<open>The environment\<close>

record environment_info =
  ei_env_type :: string
  ei_container_engine :: "string option"
  ei_hypervisor :: "string option"
  ei_cloud_provider :: "string option"

definition insert_some :: "string \<Rightarrow> string option \<Rightarrow> (string, string) btree \<Rightarrow> (string, string) btree" where
  "insert_some key v m = (case v of None \<Rightarrow> m | Some x \<Rightarrow> btree_insert key x m)"

definition to_labels :: "environment_info \<Rightarrow> (string, string) btree" where
  "to_labels info =
     insert_some ''env.cloud_provider'' (ei_cloud_provider info)
     (insert_some ''env.hypervisor'' (ei_hypervisor info)
     (insert_some ''env.container_engine'' (ei_container_engine info)
     (btree_insert ''env.type'' (ei_env_type info) [])))"

text \<open>\<open>vars\<close> are the environment's variables, \<open>exists\<close> the paths, \<open>text_of\<close> the readable files.\<close>

definition detect_container ::
  "(string \<Rightarrow> string option) \<Rightarrow> (string \<Rightarrow> bool) \<Rightarrow> (string \<Rightarrow> string option) \<Rightarrow> string option" where
  "detect_container vars exists text_of =
     (if vars ''KUBERNETES_SERVICE_HOST'' \<noteq> None then Some ''kubernetes''
      else if exists ''/run/.containerenv'' then Some ''podman''
      else if exists ''/.dockerenv'' then Some ''docker''
      else case text_of ''/proc/1/cgroup'' of
        None \<Rightarrow> None
      | Some cgroup \<Rightarrow>
          if str_contains cgroup ''docker'' then Some ''docker''
          else if str_contains cgroup ''kubepods'' then Some ''kubernetes''
          else if str_contains cgroup ''containerd'' then Some ''containerd''
          else None)"

definition classify_dmi :: "string \<Rightarrow> string \<Rightarrow> string option \<times> string option" where
  "classify_dmi vendor product =
     (let v = to_lowercase vendor; p = to_lowercase product in
      if str_contains v ''qemu'' \<or> str_contains p ''qemu'' \<or> str_contains p ''kvm'' then (Some ''kvm_qemu'', None)
      else if str_contains v ''vmware'' \<or> str_contains p ''vmware'' then (Some ''vmware'', None)
      else if str_contains v ''innotek'' \<or> str_contains p ''virtualbox'' then (Some ''virtualbox'', None)
      else if str_contains v ''microsoft'' \<and> str_contains p ''virtual'' then (Some ''hyperv'', None)
      else if str_contains v ''amazon ec2'' \<or> str_contains p ''amazon ec2'' then (Some ''nitro_kvm'', Some ''aws'')
      else if str_contains v ''google'' \<or> str_contains p ''google'' then (Some ''kvm'', Some ''gcp'')
      else (None, None))"

definition detect_hypervisor :: "(string \<Rightarrow> string option) \<Rightarrow> string option \<times> string option" where
  "detect_hypervisor text_of =
     classify_dmi (unwrap_or (text_of ''/sys/class/dmi/id/sys_vendor'') [])
                  (unwrap_or (text_of ''/sys/class/dmi/id/product_name'') [])"

definition detect_environment ::
  "(string \<Rightarrow> string option) \<Rightarrow> (string \<Rightarrow> bool) \<Rightarrow> (string \<Rightarrow> string option) \<Rightarrow> environment_info" where
  "detect_environment vars exists text_of =
     (case detect_container vars exists text_of of
        Some engine \<Rightarrow> \<lparr>ei_env_type = ''container'', ei_container_engine = Some engine,
                       ei_hypervisor = None, ei_cloud_provider = None\<rparr>
      | None \<Rightarrow>
          (case detect_hypervisor text_of of (hypervisor, cloud) \<Rightarrow>
             if hypervisor \<noteq> None \<or> cloud \<noteq> None
             then \<lparr>ei_env_type = ''virtual'', ei_container_engine = None, ei_hypervisor = hypervisor,
                   ei_cloud_provider = cloud\<rparr>
             else \<lparr>ei_env_type = ''physical'', ei_container_engine = None, ei_hypervisor = None,
                   ei_cloud_provider = None\<rparr>))"

section \<open>The operating system's release\<close>

record os_release =
  or_name :: "string option"
  or_version :: "string option"

definition default_os_release :: os_release where
  "default_os_release = \<lparr>or_name = None, or_version = None\<rparr>"

fun unescape :: "string \<Rightarrow> string" where
  "unescape [] = []"
| "unescape (c # s) =
     (if c = CHR 0x5C then (case s of [] \<Rightarrow> [c] | e # rest \<Rightarrow> e # unescape rest)
      else c # unescape s)"

definition decode_os_release_value :: "string \<Rightarrow> string" where
  "decode_os_release_value raw =
     (let value = trim raw;
          quoted = (\<lambda>q. utf8_len value \<ge> 2 \<and> starts_with value [q] \<and> ends_with value [q])
      in if quoted (CHR 0x22) then unescape (butlast (tl value))
         else if quoted (CHR 0x27) then butlast (tl value)
         else unescape value)"

definition non_blank :: "string \<Rightarrow> string option" where
  "non_blank value = (let v = trim value in if v \<noteq> [] then Some v else None)"

text \<open>The first assignment of a key counts.\<close>

definition os_release_line :: "string \<Rightarrow> (string, string) btree \<Rightarrow> (string, string) btree" where
  "os_release_line raw_line values =
     (let line = trim raw_line in
      if line = [] \<or> starts_with line ''#'' then values
      else case split_once (CHR ''='') line of
        None \<Rightarrow> values
      | Some (raw_key, raw_value) \<Rightarrow>
          (let key = trim raw_key in
           if key = [] then values
           else if btree_get values key \<noteq> None then values
           else btree_insert key (decode_os_release_value raw_value) values))"

definition parse_linux_os_release :: "string \<Rightarrow> os_release" where
  "parse_linux_os_release content =
     (let values = fold os_release_line (str_lines content) [] in
      \<lparr>or_name = Option.bind (option_or (btree_get values ''PRETTY_NAME'') (btree_get values ''NAME'')) non_blank,
       or_version = Option.bind (option_or (option_or (btree_get values ''VERSION_ID'')
          (btree_get values ''VERSION_CODENAME'')) (btree_get values ''UBUNTU_CODENAME'')) non_blank\<rparr>)"

fun first_os_release :: "(string \<Rightarrow> string option) \<Rightarrow> string list \<Rightarrow> os_release" where
  "first_os_release metadata [] = default_os_release"
| "first_os_release metadata (path # paths) =
     (case metadata path of
        None \<Rightarrow> first_os_release metadata paths
      | Some content \<Rightarrow>
          (let release = parse_linux_os_release content in
           if or_name release \<noteq> None \<or> or_version release \<noteq> None then release
           else first_os_release metadata paths))"

text \<open>\<open>metadata\<close> is the bounded reader on the files.\<close>

definition linux_os_release :: "(string \<Rightarrow> string option) \<Rightarrow> os_release" where
  "linux_os_release metadata = first_os_release metadata [''/etc/os-release'', ''/usr/lib/os-release'']"

section \<open>Power and cores\<close>

text \<open>One supply of \<open>/sys/class/power_supply\<close>: its name, and its status and online files.\<close>

record power_supply =
  ps_name :: string
  ps_status :: "string option"
  ps_online :: "string option"

definition supply_discharging :: "power_supply \<Rightarrow> bool" where
  "supply_discharging s =
     (if starts_with (ps_name s) ''BAT''
      then (case ps_status s of None \<Rightarrow> False | Some status \<Rightarrow> eq_ignore_ascii_case (trim status) ''Discharging'')
      else if starts_with (ps_name s) ''AC'' \<or> starts_with (ps_name s) ''ADP''
      then (case ps_online s of None \<Rightarrow> False | Some online \<Rightarrow> trim online = ''0'')
      else False)"

text \<open>The readable entries of the directory, if it can be read.\<close>

definition check_linux_battery :: "power_supply list option \<Rightarrow> bool" where
  "check_linux_battery entries = (case entries of None \<Rightarrow> False | Some es \<Rightarrow> list_ex supply_discharging es)"

definition cpulist_part :: "string \<Rightarrow> nat list" where
  "cpulist_part raw =
     (let part = trim raw in
      case split_once (CHR ''-'') part of
        Some (lo, hi) \<Rightarrow>
          (case (parse_unsigned 64 lo, parse_unsigned 64 hi) of
             (Some s, Some e) \<Rightarrow> [s..<Suc e]
           | _ \<Rightarrow> [])
      | None \<Rightarrow> (case parse_unsigned 64 part of Some cpu \<Rightarrow> [cpu] | None \<Rightarrow> []))"

definition parse_cpulist :: "string \<Rightarrow> nat list" where
  "parse_cpulist cpus = concat (map cpulist_part (split_on (CHR '','') cpus))"

text \<open>One entry of \<open>/sys/devices/system/cpu\<close> with the files that are read of it.\<close>

record cpu_entry =
  cu_name :: string
  cu_capacity :: "string option"
  cu_highest_perf :: "string option"
  cu_max_freq :: "string option"

definition cpu_id :: "cpu_entry \<Rightarrow> nat option" where
  "cpu_id c = Option.bind (strip_prefix (cu_name c) ''cpu'') (parse_unsigned 64)"

definition parsed_number :: "string option \<Rightarrow> nat option" where
  "parsed_number content = Option.bind content (\<lambda>s. parse_unsigned 64 (trim s))"

definition cpu_value :: "(cpu_entry \<Rightarrow> nat option) \<Rightarrow> cpu_entry \<Rightarrow> (nat \<times> nat) option" where
  "cpu_value f c = (case (cpu_id c, f c) of (Some i, Some v) \<Rightarrow> Some (i, v) | _ \<Rightarrow> None)"

text \<open>The cores below the largest value, if the values differ and there is such a core.\<close>

definition slower_cores :: "bool \<Rightarrow> (nat \<times> nat) list \<Rightarrow> nat list option" where
  "slower_cores positive cores =
     (if cores = [] then None
      else let hi = Max (set (map snd cores)); lo = Min (set (map snd cores));
               e_cores = map fst (filter (\<lambda>(_, v). v < hi) cores)
           in if hi > lo \<and> (positive \<longrightarrow> lo > 0) \<and> e_cores \<noteq> [] then Some e_cores else None)"

definition detect_linux_efficiency_cores :: "string option \<Rightarrow> cpu_entry list option \<Rightarrow> nat list option" where
  "detect_linux_efficiency_cores atom cpus =
     (let atoms = (case atom of None \<Rightarrow> [] | Some content \<Rightarrow> parse_cpulist (trim content));
          entries = unwrap_or cpus []
      in if atoms \<noteq> [] then Some atoms
         else case slower_cores False (List.map_filter (cpu_value (\<lambda>c. parsed_number (cu_capacity c))) entries) of
           Some e \<Rightarrow> Some e
         | None \<Rightarrow> slower_cores True (List.map_filter (cpu_value (\<lambda>c.
             option_or (parsed_number (cu_highest_perf c)) (parsed_number (cu_max_freq c)))) entries))"

section \<open>Lemmas\<close>

text \<open>A container hides the machine below it, and a physical host reports neither.\<close>

lemma classify_cloud: "snd (classify_dmi vendor product) \<noteq> None \<longrightarrow> fst (classify_dmi vendor product) \<noteq> None"
  by (simp add: classify_dmi_def Let_def split: if_split)

lemma environment_consistent:
  assumes "detect_environment vars exists text_of = info"
  shows "(ei_env_type info = ''container'' \<longleftrightarrow> ei_container_engine info \<noteq> None)
   \<and> (ei_env_type info = ''virtual'' \<longleftrightarrow> ei_hypervisor info \<noteq> None)
   \<and> (ei_cloud_provider info \<noteq> None \<longrightarrow> ei_env_type info = ''virtual'')"
proof -
  obtain h c where d: "detect_hypervisor text_of = (h, c)" by force
  then have "c \<noteq> None \<Longrightarrow> h \<noteq> None" using classify_cloud unfolding detect_hypervisor_def by (metis fst_conv snd_conv)
  with d assms show ?thesis
    by (cases "detect_container vars exists text_of"; cases h; cases c) (auto simp: detect_environment_def)
qed

lemma insert_some_wf: "btree_wf m \<Longrightarrow> btree_wf (insert_some k v m)"
  by (simp add: insert_some_def btree_wf_insert split: option.split)

lemma insert_some_get:
  "btree_wf m \<Longrightarrow> btree_get (insert_some k v m) l = (if l = k \<and> v \<noteq> None then v else btree_get m l)"
  by (simp add: insert_some_def btree_get_insert split: option.split)

lemma to_labels_wf: "btree_wf (to_labels info)"
  unfolding to_labels_def by (intro insert_some_wf btree_wf_insert btree_wf_Nil)

lemma to_labels_get:
  "btree_get (to_labels info) ''env.type'' = Some (ei_env_type info)"
  "btree_get (to_labels info) ''env.hypervisor'' = ei_hypervisor info"
proof -
  have w: "btree_wf (btree_insert ''env.type'' (ei_env_type info) [])" by (intro btree_wf_insert btree_wf_Nil)
  note g = insert_some_get [OF insert_some_wf [OF insert_some_wf [OF w]]] insert_some_get [OF insert_some_wf [OF w]]
    insert_some_get [OF w]
  show "btree_get (to_labels info) ''env.type'' = Some (ei_env_type info)"
    unfolding to_labels_def by (simp only: g) (simp add: btree_get_def)
  show "btree_get (to_labels info) ''env.hypervisor'' = ei_hypervisor info"
    unfolding to_labels_def by (simp only: g) (simp add: btree_get_insert btree_get_def)
qed

text \<open>Quoting a value so that it decodes to itself.\<close>

definition escape :: "string \<Rightarrow> string" where
  "escape s = concat (map (\<lambda>c. if c = CHR 0x5C \<or> c = CHR 0x22 then [CHR 0x5C, c] else [c]) s)"

lemma unescape_escape: "unescape (escape s) = s"
  by (induction s) (auto simp: escape_def)

lemma slower_cores_slower:
  "slower_cores positive cores = Some e \<Longrightarrow> e \<noteq> [] \<and> (\<forall>i\<in>set e. \<exists>v w j. (i, v) \<in> set cores \<and> (j, w) \<in> set cores \<and> v < w)"
proof -
  assume s: "slower_cores positive cores = Some e"
  then have ne: "cores \<noteq> []" and e: "e = map fst (filter (\<lambda>(_, v). v < Max (set (map snd cores))) cores)" "e \<noteq> []"
    by (auto simp: slower_cores_def Let_def split: if_splits)
  from ne have "Max (set (map snd cores)) \<in> set (map snd cores)" by (intro Max_in) auto
  then obtain j where "(j, Max (set (map snd cores))) \<in> set cores" by auto
  with e show ?thesis by auto
qed

end
