(* ===== verification/Config.thy ===== *)
theory Config
  imports Update
begin

text \<open>
  The local configuration of \<open>src/config.rs\<close>: the file's optional values, the overrides of
  the environment, the defaults and the validation. Reading the file and parsing its TOML
  are inputs, as are the environment's variables and which paths are files. Durations are
  whole seconds on \<open>u64\<close>, paths are strings.
\<close>

section \<open>State\<close>

definition DEFAULT_INVENTORY_INTERVAL_SECS :: u64 where "DEFAULT_INVENTORY_INTERVAL_SECS = 3600"
definition DEFAULT_HEARTBEAT_INTERVAL_SECS :: u64 where "DEFAULT_HEARTBEAT_INTERVAL_SECS = 60"
definition DEFAULT_REQUEST_TIMEOUT_SECS :: u64 where "DEFAULT_REQUEST_TIMEOUT_SECS = 30"
definition MIN_INTERVAL_SECS :: u64 where "MIN_INTERVAL_SECS = 10"
definition MAX_INTERVAL_SECS :: u64 where "MAX_INTERVAL_SECS = 86400"
definition MIN_TIMEOUT_SECS :: u64 where "MIN_TIMEOUT_SECS = 1"
definition MAX_TIMEOUT_SECS :: u64 where "MAX_TIMEOUT_SECS = 300"
definition DEFAULT_FULL_REFRESH_INTERVAL_SECS :: u64 where "DEFAULT_FULL_REFRESH_INTERVAL_SECS = 86400"
definition DEFAULT_MAX_SPOOL_ENTRIES :: u64 where "DEFAULT_MAX_SPOOL_ENTRIES = 200"
definition MIN_MAX_SPOOL_ENTRIES :: u64 where "MIN_MAX_SPOOL_ENTRIES = 1"
definition MAX_MAX_SPOOL_ENTRIES :: u64 where "MAX_MAX_SPOOL_ENTRIES = 10000"

lemmas config_constants [guard_defs] =
  DEFAULT_INVENTORY_INTERVAL_SECS_def DEFAULT_HEARTBEAT_INTERVAL_SECS_def DEFAULT_REQUEST_TIMEOUT_SECS_def
  MIN_INTERVAL_SECS_def MAX_INTERVAL_SECS_def MIN_TIMEOUT_SECS_def MAX_TIMEOUT_SECS_def
  DEFAULT_FULL_REFRESH_INTERVAL_SECS_def DEFAULT_MAX_SPOOL_ENTRIES_def MIN_MAX_SPOOL_ENTRIES_def
  MAX_MAX_SPOOL_ENTRIES_def

record config =
  cf_server_url :: string
  cf_provisioning_key_file :: string
  cf_state_dir :: string
  cf_inventory_interval :: u64
  cf_heartbeat_interval :: u64
  cf_request_timeout :: u64
  cf_tls_ca_file :: "string option"
  cf_log_level :: string
  cf_allow_plain_http :: bool
  cf_allow_insecure_updates :: bool
  cf_full_refresh_interval :: u64
  cf_max_spool_entries :: nat
  cf_updates :: update_config

record file_config =
  fc_server_url :: "string option"
  fc_provisioning_key_file :: "string option"
  fc_state_dir :: "string option"
  fc_inventory_interval_secs :: "u64 option"
  fc_heartbeat_interval_secs :: "u64 option"
  fc_request_timeout_secs :: "u64 option"
  fc_tls_ca_file :: "string option"
  fc_log_level :: "string option"
  fc_allow_plain_http :: "bool option"
  fc_allow_insecure_updates :: "bool option"
  fc_full_refresh_interval_secs :: "u64 option"
  fc_max_spool_entries :: "u64 option"
  fc_updates :: update_config

datatype config_error = ConfigIo string | ConfigInvalid string

fun config_error_display :: "config_error \<Rightarrow> string" where
  "config_error_display (ConfigIo message) = message"
| "config_error_display (ConfigInvalid message) = message"

section \<open>Required and bounded values\<close>

definition required_string :: "string option \<Rightarrow> string \<Rightarrow> config_error + string" where
  "required_string value key =
     ok_or (option_filter (\<lambda>v. trim v \<noteq> []) value) (ConfigInvalid (key @ '' is required''))"

definition required_path :: "string option \<Rightarrow> string \<Rightarrow> config_error + string" where
  "required_path value key =
     ok_or (option_filter (\<lambda>v. v \<noteq> []) value) (ConfigInvalid (key @ '' is required''))"

definition bounded_u64 :: "string \<Rightarrow> u64 \<Rightarrow> u64 \<Rightarrow> u64 \<Rightarrow> config_error + u64" where
  "bounded_u64 name value lo hi =
     (if \<not> (lo \<le> value \<and> value \<le> hi)
      then Inl (ConfigInvalid (name @ '' must be between '' @ show_nat (unat lo) @ '' and '' @ show_nat (unat hi)))
      else Inr value)"

definition validate_interval :: "string \<Rightarrow> u64 \<Rightarrow> config_error + unit" where
  "validate_interval name seconds =
     (if \<not> (MIN_INTERVAL_SECS \<le> seconds \<and> seconds \<le> MAX_INTERVAL_SECS)
      then Inl (ConfigInvalid (name @ '' must be between '' @ show_nat (unat MIN_INTERVAL_SECS) @ '' and ''
        @ show_nat (unat MAX_INTERVAL_SECS) @ '' seconds''))
      else Inr ())"

definition validate_timeout :: "string \<Rightarrow> u64 \<Rightarrow> config_error + unit" where
  "validate_timeout name seconds =
     (if \<not> (MIN_TIMEOUT_SECS \<le> seconds \<and> seconds \<le> MAX_TIMEOUT_SECS)
      then Inl (ConfigInvalid (name @ '' must be between '' @ show_nat (unat MIN_TIMEOUT_SECS) @ '' and ''
        @ show_nat (unat MAX_TIMEOUT_SECS) @ '' seconds''))
      else Inr ())"

section \<open>Validation\<close>

definition map_err :: "('e \<Rightarrow> 'f) \<Rightarrow> 'e + 'a \<Rightarrow> 'f + 'a" where
  "map_err f r = (case r of Inl e \<Rightarrow> Inl (f e) | Inr a \<Rightarrow> Inr a)"

lemma map_err_Inr [simp]: "map_err f r = Inr a \<longleftrightarrow> r = Inr a"
  by (cases r) (simp_all add: map_err_def)

definition validate_config :: "'v update_env \<Rightarrow> (string \<Rightarrow> bool) \<Rightarrow> config \<Rightarrow> config_error + unit" where
  "validate_config env is_file c =
     and_then (map_err ConfigInvalid (validate_update_config env (cf_updates c))) (\<lambda>_.
     if trim (cf_server_url c) = [] then Inl (ConfigInvalid ''server_url is required'')
     else if \<not> cf_allow_plain_http c \<and> \<not> starts_with (cf_server_url c) ''https://''
     then Inl (ConfigInvalid ''server_url must use HTTPS unless allow_plain_http is true'')
     else if cf_allow_plain_http c \<and> \<not> starts_with (cf_server_url c) ''http://''
             \<and> \<not> starts_with (cf_server_url c) ''https://''
     then Inl (ConfigInvalid ''server_url must start with http:// or https://'')
     else if \<not> is_file (cf_provisioning_key_file c)
     then Inl (ConfigInvalid ''provisioning_key_file must point to a readable file'')
     else and_then (validate_interval ''inventory_interval'' (cf_inventory_interval c)) (\<lambda>_.
          and_then (validate_interval ''heartbeat_interval'' (cf_heartbeat_interval c)) (\<lambda>_.
          and_then (validate_timeout ''request_timeout'' (cf_request_timeout c)) (\<lambda>_.
          and_then (validate_interval ''inventory_full_refresh_interval'' (cf_full_refresh_interval c)) (\<lambda>_.
            Inr ())))))"

section \<open>The environment's overrides\<close>

text \<open>\<open>vars name\<close> is the outcome of \<open>env::var\<close>: no value when it is unset or not Unicode.\<close>

definition override_string :: "(string \<Rightarrow> string option) \<Rightarrow> string \<Rightarrow> string option \<Rightarrow> string option" where
  "override_string vars name target = (case vars name of Some value \<Rightarrow> Some value | None \<Rightarrow> target)"

definition override_path :: "(string \<Rightarrow> string option) \<Rightarrow> string \<Rightarrow> string option \<Rightarrow> string option" where
  "override_path vars name target = (case vars name of Some value \<Rightarrow> Some value | None \<Rightarrow> target)"

definition override_u64 :: "(string \<Rightarrow> string option) \<Rightarrow> string \<Rightarrow> u64 option \<Rightarrow> config_error + u64 option" where
  "override_u64 vars name target =
     (case vars name of
        None \<Rightarrow> Inr target
      | Some value \<Rightarrow>
          and_then (ok_or (parse_unsigned 64 value)
            (ConfigInvalid (''environment variable '' @ name @ '' must be an integer'')))
            (\<lambda>n. Inr (Some (of_nat n))))"

definition override_bool :: "(string \<Rightarrow> string option) \<Rightarrow> string \<Rightarrow> bool option \<Rightarrow> config_error + bool option" where
  "override_bool vars name target =
     (case vars name of
        None \<Rightarrow> Inr target
      | Some value \<Rightarrow>
          if value = ''true'' then Inr (Some True)
          else if value = ''false'' then Inr (Some False)
          else Inl (ConfigInvalid (''environment variable '' @ name @ '' must be true or false'')))"

definition apply_env_overrides :: "(string \<Rightarrow> string option) \<Rightarrow> file_config \<Rightarrow> config_error + file_config" where
  "apply_env_overrides vars v =
     (let v = v\<lparr>fc_server_url := override_string vars ''LARISKA_SERVER_URL'' (fc_server_url v)\<rparr>;
          v = v\<lparr>fc_provisioning_key_file :=
                 override_path vars ''LARISKA_PROVISIONING_KEY_FILE'' (fc_provisioning_key_file v)\<rparr>;
          v = v\<lparr>fc_state_dir := override_path vars ''LARISKA_STATE_DIR'' (fc_state_dir v)\<rparr> in
      and_then (override_u64 vars ''LARISKA_INVENTORY_INTERVAL_SECS'' (fc_inventory_interval_secs v)) (\<lambda>inventory.
      and_then (override_u64 vars ''LARISKA_HEARTBEAT_INTERVAL_SECS'' (fc_heartbeat_interval_secs v)) (\<lambda>heartbeat.
      and_then (override_u64 vars ''LARISKA_REQUEST_TIMEOUT_SECS'' (fc_request_timeout_secs v)) (\<lambda>timeout.
      let v = v\<lparr>fc_inventory_interval_secs := inventory, fc_heartbeat_interval_secs := heartbeat,
                fc_request_timeout_secs := timeout,
                fc_tls_ca_file := override_path vars ''LARISKA_TLS_CA_FILE'' (fc_tls_ca_file v),
                fc_log_level := override_string vars ''LARISKA_LOG_LEVEL'' (fc_log_level v)\<rparr> in
      and_then (override_bool vars ''LARISKA_ALLOW_PLAIN_HTTP'' (fc_allow_plain_http v)) (\<lambda>plain.
      and_then (override_u64 vars ''LARISKA_INVENTORY_FULL_REFRESH_INTERVAL_SECS''
                  (fc_full_refresh_interval_secs v)) (\<lambda>refresh.
      and_then (override_u64 vars ''LARISKA_MAX_SPOOL_ENTRIES'' (fc_max_spool_entries v)) (\<lambda>entries.
        Inr (v\<lparr>fc_allow_plain_http := plain, fc_full_refresh_interval_secs := refresh,
               fc_max_spool_entries := entries\<rparr>))))))))"

section \<open>Building the configuration\<close>

definition from_file_config :: "'v update_env \<Rightarrow> (string \<Rightarrow> bool) \<Rightarrow> file_config \<Rightarrow> config_error + config" where
  "from_file_config env is_file v =
     and_then (required_string (fc_server_url v) ''server_url'') (\<lambda>server_url.
     and_then (required_path (fc_provisioning_key_file v) ''provisioning_key_file'') (\<lambda>key_file.
     and_then (required_path (fc_state_dir v) ''state_dir'') (\<lambda>state_dir.
     and_then (bounded_u64 ''max_spool_entries'' (unwrap_or (fc_max_spool_entries v) DEFAULT_MAX_SPOOL_ENTRIES)
                 MIN_MAX_SPOOL_ENTRIES MAX_MAX_SPOOL_ENTRIES) (\<lambda>entries.
     let c = \<lparr>cf_server_url = server_url, cf_provisioning_key_file = key_file, cf_state_dir = state_dir,
              cf_inventory_interval = unwrap_or (fc_inventory_interval_secs v) DEFAULT_INVENTORY_INTERVAL_SECS,
              cf_heartbeat_interval = unwrap_or (fc_heartbeat_interval_secs v) DEFAULT_HEARTBEAT_INTERVAL_SECS,
              cf_request_timeout = unwrap_or (fc_request_timeout_secs v) DEFAULT_REQUEST_TIMEOUT_SECS,
              cf_tls_ca_file = fc_tls_ca_file v,
              cf_log_level = unwrap_or (fc_log_level v) ''info'',
              cf_allow_plain_http = unwrap_or (fc_allow_plain_http v) False,
              cf_allow_insecure_updates = unwrap_or (fc_allow_insecure_updates v) False,
              cf_full_refresh_interval =
                unwrap_or (fc_full_refresh_interval_secs v) DEFAULT_FULL_REFRESH_INTERVAL_SECS,
              cf_max_spool_entries = unat entries,
              cf_updates = fc_updates v\<rparr>
     in and_then (validate_config env is_file c) (\<lambda>_. Inr c)))))"

text \<open>\<open>content\<close> is what reading the file gives, \<open>toml\<close> its parser.\<close>

definition parse_toml :: "(string \<Rightarrow> string + file_config) \<Rightarrow> string \<Rightarrow> config_error + file_config" where
  "parse_toml toml content =
     map_err (\<lambda>e. ConfigInvalid (''invalid TOML configuration: '' @ e)) (toml content)"

definition parse_config_file ::
  "(string \<Rightarrow> string + file_config) \<Rightarrow> string \<Rightarrow> string + string \<Rightarrow> config_error + file_config" where
  "parse_config_file toml path content =
     and_then (map_err (\<lambda>e. ConfigIo (''failed to read config file '' @ path @ '': '' @ e)) content) (parse_toml toml)"

definition from_file_and_env ::
  "'v update_env \<Rightarrow> (string \<Rightarrow> string + file_config) \<Rightarrow> (string \<Rightarrow> bool) \<Rightarrow> (string \<Rightarrow> string option)
   \<Rightarrow> string \<Rightarrow> string + string \<Rightarrow> config_error + config" where
  "from_file_and_env env toml is_file vars path content =
     and_then (parse_config_file toml path content) (\<lambda>v.
     and_then (apply_env_overrides vars v) (from_file_config env is_file))"

section \<open>What an accepted configuration is\<close>

text \<open>The environment's value where it has one, else the file's, else the default.\<close>

definition effective_u64 :: "(string \<Rightarrow> string option) \<Rightarrow> string \<Rightarrow> u64 option \<Rightarrow> u64 \<Rightarrow> u64 \<Rightarrow> bool" where
  "effective_u64 vars name in_file fallback value \<longleftrightarrow>
     (case vars name of
        Some text \<Rightarrow> (\<exists>n. parse_unsigned 64 text = Some n \<and> n < 2 ^ 64 \<and> unat value = n)
      | None \<Rightarrow> value = unwrap_or in_file fallback)"

lemma parse_unsigned_bound: "parse_unsigned bits s = Some n \<Longrightarrow> n < 2 ^ bits"
  by (auto simp: parse_unsigned_def Let_def split: if_splits)

lemma override_effective:
  assumes "override_u64 vars name in_file = Inr v"
  shows "effective_u64 vars name in_file fallback (unwrap_or v fallback)"
proof (cases "vars name")
  case None
  with assms show ?thesis by (simp add: override_u64_def effective_u64_def)
next
  case (Some given)
  with assms obtain n where n: "parse_unsigned 64 given = Some n" "v = Some (of_nat n)"
    by (auto simp: override_u64_def and_then_Inr_iff)
  then show ?thesis
    using parse_unsigned_bound [OF n(1)] Some
    by (simp add: effective_u64_def unat_of_nat take_bit_nat_eq_self)
qed

lemma one_le_word: "(1 :: u64) \<le> w \<longleftrightarrow> w \<noteq> 0"
  by (simp add: word_le_nat_alt Suc_le_eq unat_gt_0)

lemma validate_config_ok:
  "validate_config env is_file c = Inr () \<longleftrightarrow>
     validate_update_config env (cf_updates c) = Inr () \<and> trim (cf_server_url c) \<noteq> []
     \<and> (starts_with (cf_server_url c) ''https://'' \<or> cf_allow_plain_http c \<and> starts_with (cf_server_url c) ''http://'')
     \<and> is_file (cf_provisioning_key_file c)
     \<and> 10 \<le> cf_inventory_interval c \<and> cf_inventory_interval c \<le> 86400
     \<and> 10 \<le> cf_heartbeat_interval c \<and> cf_heartbeat_interval c \<le> 86400
     \<and> 1 \<le> cf_request_timeout c \<and> cf_request_timeout c \<le> 300
     \<and> 10 \<le> cf_full_refresh_interval c \<and> cf_full_refresh_interval c \<le> 86400"
  by (auto simp: validate_config_def validate_interval_def validate_timeout_def and_then_Inr_iff
      config_constants not_le one_le_word split: if_splits)

section \<open>Properties\<close>

text \<open>
  C33. An accepted configuration is within all its bounds and never silently insecure: the
  server is reached over HTTPS unless plain HTTP is explicitly allowed, every interval is
  between ten seconds and a day, the update policy is valid; and every number is the
  environment's, else the file's, else the default one, an environment value that is not a
  number being an error.
\<close>

theorem accepted_config_is_bounded_and_secure:
  assumes "from_file_and_env env toml is_file vars path content = Inr c"
  shows "\<exists>body v. content = Inr body \<and> toml body = Inr v
    \<and> (starts_with (cf_server_url c) ''https://'' \<or> cf_allow_plain_http c \<and> starts_with (cf_server_url c) ''http://'')
    \<and> 10 \<le> cf_inventory_interval c \<and> cf_inventory_interval c \<le> 86400
    \<and> 10 \<le> cf_heartbeat_interval c \<and> cf_heartbeat_interval c \<le> 86400
    \<and> 1 \<le> cf_request_timeout c \<and> cf_request_timeout c \<le> 300
    \<and> 10 \<le> cf_full_refresh_interval c \<and> cf_full_refresh_interval c \<le> 86400
    \<and> 1 \<le> cf_max_spool_entries c \<and> cf_max_spool_entries c \<le> 10000
    \<and> is_file (cf_provisioning_key_file c) \<and> cf_state_dir c \<noteq> []
    \<and> validate_update_config env (cf_updates c) = Inr () \<and> cf_updates c = fc_updates v
    \<and> cf_allow_insecure_updates c = unwrap_or (fc_allow_insecure_updates v) False
    \<and> effective_u64 vars ''LARISKA_INVENTORY_INTERVAL_SECS'' (fc_inventory_interval_secs v) 3600 (cf_inventory_interval c)
    \<and> effective_u64 vars ''LARISKA_HEARTBEAT_INTERVAL_SECS'' (fc_heartbeat_interval_secs v) 60 (cf_heartbeat_interval c)
    \<and> effective_u64 vars ''LARISKA_REQUEST_TIMEOUT_SECS'' (fc_request_timeout_secs v) 30 (cf_request_timeout c)
    \<and> effective_u64 vars ''LARISKA_INVENTORY_FULL_REFRESH_INTERVAL_SECS'' (fc_full_refresh_interval_secs v) 86400
        (cf_full_refresh_interval c)
    \<and> effective_u64 vars ''LARISKA_MAX_SPOOL_ENTRIES'' (fc_max_spool_entries v) 200 (of_nat (cf_max_spool_entries c))"
proof -
  from assms obtain body v w where content: "content = Inr body" "toml body = Inr v"
    and w: "apply_env_overrides vars v = Inr w" and c: "from_file_config env is_file w = Inr c"
    by (auto simp: from_file_and_env_def parse_config_file_def parse_toml_def and_then_Inr_iff)
  from c obtain entries where entries: "bounded_u64 ''max_spool_entries''
      (unwrap_or (fc_max_spool_entries w) DEFAULT_MAX_SPOOL_ENTRIES) MIN_MAX_SPOOL_ENTRIES MAX_MAX_SPOOL_ENTRIES = Inr entries"
    and valid: "validate_config env is_file c = Inr ()"
    and fields: "cf_inventory_interval c = unwrap_or (fc_inventory_interval_secs w) 3600"
      "cf_heartbeat_interval c = unwrap_or (fc_heartbeat_interval_secs w) 60"
      "cf_request_timeout c = unwrap_or (fc_request_timeout_secs w) 30"
      "cf_full_refresh_interval c = unwrap_or (fc_full_refresh_interval_secs w) 86400"
      "cf_max_spool_entries c = unat entries" "cf_updates c = fc_updates w" "cf_state_dir c \<noteq> []"
      "cf_allow_insecure_updates c = unwrap_or (fc_allow_insecure_updates w) False"
    by (auto simp: from_file_config_def and_then_Inr_iff Let_def config_constants required_path_def option_filter_Some_iff)
  from entries have e: "entries = unwrap_or (fc_max_spool_entries w) 200" "1 \<le> entries" "entries \<le> 10000"
    by (auto simp: bounded_u64_def config_constants split: if_splits)
  then have bounds: "1 \<le> unat entries" "unat entries \<le> 10000" by (simp_all add: word_le_nat_alt)
  from w have over: "override_u64 vars ''LARISKA_INVENTORY_INTERVAL_SECS'' (fc_inventory_interval_secs v) = Inr (fc_inventory_interval_secs w)"
    "override_u64 vars ''LARISKA_HEARTBEAT_INTERVAL_SECS'' (fc_heartbeat_interval_secs v) = Inr (fc_heartbeat_interval_secs w)"
    "override_u64 vars ''LARISKA_REQUEST_TIMEOUT_SECS'' (fc_request_timeout_secs v) = Inr (fc_request_timeout_secs w)"
    "override_u64 vars ''LARISKA_INVENTORY_FULL_REFRESH_INTERVAL_SECS'' (fc_full_refresh_interval_secs v) = Inr (fc_full_refresh_interval_secs w)"
    "override_u64 vars ''LARISKA_MAX_SPOOL_ENTRIES'' (fc_max_spool_entries v) = Inr (fc_max_spool_entries w)"
    "fc_updates w = fc_updates v" "fc_allow_insecure_updates w = fc_allow_insecure_updates v"
    by (auto simp: apply_env_overrides_def and_then_Inr_iff Let_def)
  show ?thesis
    using content valid [unfolded validate_config_ok] fields bounds over override_effective [OF over(1)]
      override_effective [OF over(2)] override_effective [OF over(3)] override_effective [OF over(4)]
      override_effective [OF over(5), of 200] e(1)
    by auto
qed

definition sample_file_config :: file_config where
  "sample_file_config = \<lparr>fc_server_url = Some ''https://inventory'', fc_provisioning_key_file = Some ''/k'',
     fc_state_dir = Some ''/s'', fc_inventory_interval_secs = Some 600, fc_heartbeat_interval_secs = None,
     fc_request_timeout_secs = None, fc_tls_ca_file = None, fc_log_level = None, fc_allow_plain_http = None,
     fc_allow_insecure_updates = None, fc_full_refresh_interval_secs = None, fc_max_spool_entries = None,
     fc_updates = sample_policy\<rparr>"

theorem accepted_config_is_bounded_and_secure_witness:
  "\<exists>c. from_file_and_env sample_update_env (\<lambda>_. Inr sample_file_config) (\<lambda>p. p = ''/k'')
      [''LARISKA_HEARTBEAT_INTERVAL_SECS'' \<mapsto> ''30''] ''lariska.toml'' (Inr ''...'') = Inr c
    \<and> 10 \<le> cf_heartbeat_interval c \<and> unat (cf_heartbeat_interval c) = 30"
proof -
  let ?f = "from_file_and_env sample_update_env (\<lambda>_. Inr sample_file_config) (\<lambda>p. p = ''/k'')
      [''LARISKA_HEARTBEAT_INTERVAL_SECS'' \<mapsto> ''30''] ''lariska.toml'' (Inr ''...'')"
  have parse: "parse_unsigned 64 ''30'' = Some 30"
    by (simp add: parse_unsigned_def decimal_value_def digit_value_def scalar_def is_ascii_digit_def)
  have policy: "validate_update_config sample_update_env sample_policy = Inr ()"
    by (simp add: sample_verify_defs)
  have url: "trim ''https://inventory'' = ''https://inventory''" by code_simp
  have over: "apply_env_overrides [''LARISKA_HEARTBEAT_INTERVAL_SECS'' \<mapsto> ''30''] sample_file_config
      = Inr (sample_file_config\<lparr>fc_heartbeat_interval_secs := Some 30\<rparr>)"
    by (simp add: apply_env_overrides_def override_u64_def override_string_def override_path_def override_bool_def
        parse sample_file_config_def)
  have "is_ok ?f"
    by (simp add: from_file_and_env_def parse_config_file_def parse_toml_def map_err_def over)
       (simp add: from_file_config_def required_string_def required_path_def bounded_u64_def validate_config_def
        map_err_def validate_interval_def validate_timeout_def starts_with_def config_constants sample_file_config_def
        policy url)
  then obtain c where c: "?f = Inr c" by (auto simp: is_ok_iff)
  from accepted_config_is_bounded_and_secure [OF c]
  have "10 \<le> cf_heartbeat_interval c"
    "effective_u64 [''LARISKA_HEARTBEAT_INTERVAL_SECS'' \<mapsto> ''30''] ''LARISKA_HEARTBEAT_INTERVAL_SECS''
       (fc_heartbeat_interval_secs sample_file_config) 60 (cf_heartbeat_interval c)" by auto
  with c parse show ?thesis by (auto simp: effective_u64_def)
qed

end
