(* ===== verification/Managed.thy ===== *)
theory Managed
  imports Config
begin

text \<open>
  Acting on the server's decisions, \<open>src/managed.rs\<close>: settings that change the running
  intervals and the log level, and offers of a signed build. The state is what the module
  keeps: the published runtime settings, the log level, the settings last rejected and the
  settings last applied without a revision. Error values stand for the log messages made
  of them.
\<close>

section \<open>State\<close>

definition MIN_MANAGED_INTERVAL_SECS :: u64 where "MIN_MANAGED_INTERVAL_SECS = 10"
definition MAX_MANAGED_INTERVAL_SECS :: u64 where "MAX_MANAGED_INTERVAL_SECS = 86400"
definition MANAGED_LOG_LEVELS :: "string list" where
  "MANAGED_LOG_LEVELS = [''error'', ''warn'', ''info'', ''debug'', ''trace'']"

record runtime =
  rt_heartbeat_interval :: u64
  rt_inventory_interval :: u64

definition runtime_from_config :: "config \<Rightarrow> runtime" where
  "runtime_from_config c = \<lparr>rt_heartbeat_interval = cf_heartbeat_interval c,
     rt_inventory_interval = cf_inventory_interval c\<rparr>"

record managed_settings =
  ms_heartbeat_interval_secs :: "u64 option"
  ms_inventory_interval_secs :: "u64 option"
  ms_log_level :: "string option"

record managed_update =
  mu_version :: string
  mu_platform :: string
  mu_sha256 :: string
  mu_size_bytes :: "u64 option"
  mu_url :: string
  mu_signed_manifest :: "signed_manifest option"

record managed_directive =
  md_settings :: "managed_settings option"
  md_revision :: "u64 option"
  md_update :: "managed_update option"
  md_update_blocked :: "string option"

record rejected_settings =
  rj_revision :: "u64 option"
  rj_settings :: managed_settings

record managed_state =
  mg_runtime :: runtime
  mg_log_level :: "string option"
  mg_last_rejected :: "rejected_settings option"
  mg_last_unversioned :: "managed_settings option"

definition managed_start :: "config \<Rightarrow> managed_state" where
  "managed_start c = \<lparr>mg_runtime = runtime_from_config c, mg_log_level = None, mg_last_rejected = None,
     mg_last_unversioned = None\<rparr>"

section \<open>Settings\<close>

datatype managed_error = IntervalOutOfBounds string u64 | UnknownLogLevel string

record validated_settings =
  vs_heartbeat_interval :: "u64 option"
  vs_inventory_interval :: "u64 option"
  vs_log_level :: "string option"

definition validate_managed_interval :: "string \<Rightarrow> u64 option \<Rightarrow> managed_error + u64 option" where
  "validate_managed_interval name seconds =
     (case seconds of
        None \<Rightarrow> Inr None
      | Some s \<Rightarrow>
          if \<not> (MIN_MANAGED_INTERVAL_SECS \<le> s \<and> s \<le> MAX_MANAGED_INTERVAL_SECS)
          then Inl (IntervalOutOfBounds name s) else Inr (Some s))"

definition validate_managed_log_level :: "string \<Rightarrow> managed_error + string" where
  "validate_managed_log_level level =
     (let normalized = to_ascii_lowercase (trim level) in
      if normalized \<in> set MANAGED_LOG_LEVELS then Inr normalized else Inl (UnknownLogLevel level))"

definition validate_managed_settings :: "managed_settings \<Rightarrow> managed_error + validated_settings" where
  "validate_managed_settings s =
     and_then (validate_managed_interval ''heartbeat_interval_secs'' (ms_heartbeat_interval_secs s)) (\<lambda>heartbeat.
     and_then (validate_managed_interval ''inventory_interval_secs'' (ms_inventory_interval_secs s)) (\<lambda>inventory.
     and_then (case ms_log_level s of None \<Rightarrow> Inr None
               | Some level \<Rightarrow> and_then (validate_managed_log_level level) (\<lambda>l. Inr (Some l))) (\<lambda>level.
       Inr \<lparr>vs_heartbeat_interval = heartbeat, vs_inventory_interval = inventory, vs_log_level = level\<rparr>)))"

text \<open>Whether the rejection is worth a warning, and the state that remembers it.\<close>

definition remember_rejected_settings ::
  "u64 option \<Rightarrow> managed_settings \<Rightarrow> managed_state \<Rightarrow> bool \<times> managed_state" where
  "remember_rejected_settings revision settings st =
     (let rejected = \<lparr>rj_revision = revision, rj_settings = settings\<rparr> in
      if mg_last_rejected st = Some rejected then (False, st)
      else (True, st\<lparr>mg_last_rejected := Some rejected\<rparr>))"

definition clear_rejected_settings :: "managed_state \<Rightarrow> managed_state" where
  "clear_rejected_settings st = st\<lparr>mg_last_rejected := None\<rparr>"

definition next_runtime :: "validated_settings \<Rightarrow> runtime \<Rightarrow> runtime" where
  "next_runtime v r = \<lparr>rt_heartbeat_interval = unwrap_or (vs_heartbeat_interval v) (rt_heartbeat_interval r),
     rt_inventory_interval = unwrap_or (vs_inventory_interval v) (rt_inventory_interval r)\<rparr>"

definition put_settings :: "validated_settings \<Rightarrow> managed_state \<Rightarrow> managed_state" where
  "put_settings v st = st\<lparr>mg_runtime := next_runtime v (mg_runtime st),
     mg_log_level := option_or (vs_log_level v) (mg_log_level st)\<rparr>"

definition apply_settings ::
  "managed_directive \<Rightarrow> u64 option \<Rightarrow> managed_state \<Rightarrow> u64 option \<times> managed_state" where
  "apply_settings d applied st =
     (case md_settings d of
        None \<Rightarrow> (option_or (md_revision d) applied, st)
      | Some settings \<Rightarrow>
          if md_revision d \<noteq> None \<and> applied = md_revision d then (applied, st)
          else case validate_managed_settings settings of
            Inl e \<Rightarrow> (applied, snd (remember_rejected_settings (md_revision d) settings st))
          | Inr v \<Rightarrow>
              (let st = clear_rejected_settings st in
               if md_revision d = None
               then if mg_last_unversioned st = Some settings then (applied, st)
                    else (option_or (md_revision d) applied,
                          put_settings v (st\<lparr>mg_last_unversioned := Some settings\<rparr>))
               else (option_or (md_revision d) applied, put_settings v st)))"

section \<open>Offers\<close>

datatype update_outcome = Queued string | RefusedUpdate string | FailedUpdate string

text \<open>
  What the two verifications and the download meet: the clock and the ledger at the first
  check, at the second, and when the marker is written; the \<open>url\<close> crate's joining; the
  failures of the staging directory; the nonce drawn; the download.
\<close>

record queue_io =
  qi_clock :: "string + u64"
  qi_ledger :: "update_ledger json_file"
  qi_clock_queue :: "string + u64"
  qi_ledger_queue :: "update_ledger json_file"
  qi_clock_ready :: "string + u64"
  qi_join_url :: "string + (string \<Rightarrow> string + bool)"
  qi_fault :: stage_faults
  qi_nonce :: string
  qi_download :: download

definition apply_update ::
  "('v::linorder) update_env \<Rightarrow> config \<Rightarrow> queue_io \<Rightarrow> managed_update \<Rightarrow> mailbox \<Rightarrow> incoming
   \<Rightarrow> update_outcome \<times> mailbox \<times> incoming" where
  "apply_update env c io u mb inc =
     (if \<not> starts_with (cf_server_url c) ''https://'' \<and> \<not> cf_allow_insecure_updates c
      then (RefusedUpdate ''refusing native update over plain HTTP; allow_insecure_updates is a local lab-only override'', mb, inc)
      else if mu_platform u \<noteq> ue_target_triple env
      then (RefusedUpdate (''server offered a build for '' @ mu_platform u @ '' and this agent is '' @ ue_target_triple env), mb, inc)
      else case mu_signed_manifest u of
        None \<Rightarrow> (RefusedUpdate ''unsigned update: an Ed25519 signed release manifest is required'', mb, inc)
      | Some sm \<Rightarrow>
          (let m = sm_manifest sm in
           if rm_version m \<noteq> mu_version u \<or> rm_platform m \<noteq> mu_platform u
              \<or> Some (rm_size_bytes m) \<noteq> mu_size_bytes u \<or> rm_sha256 m \<noteq> mu_sha256 u
           then (RefusedUpdate ''update directive disagrees with signed release manifest'', mb, inc)
           else case verify_manifest env (cf_updates c) (qi_clock io) (qi_ledger io) sm of
             Inl reason \<Rightarrow> (RefusedUpdate reason, mb, inc)
           | Inr _ \<Rightarrow>
               (case queue_update env (cf_updates c) (qi_clock_queue io) (qi_clock_ready io) (qi_ledger_queue io)
                       (qi_join_url io) (qi_fault io) (qi_nonce io) (qi_download io) (mu_url u) sm mb inc of
                  (Inr nonce, mb', inc') \<Rightarrow> (Queued (mu_version u), mb', inc')
                | (Inl error, mb', inc') \<Rightarrow> (FailedUpdate error, mb', inc'))))"

section \<open>Lemmas\<close>

definition bounded_runtime :: "runtime \<Rightarrow> bool" where
  "bounded_runtime r \<longleftrightarrow> 10 \<le> rt_heartbeat_interval r \<and> rt_heartbeat_interval r \<le> 86400
     \<and> 10 \<le> rt_inventory_interval r \<and> rt_inventory_interval r \<le> 86400"

text \<open>The settings that a directive asks for are in force.\<close>

definition in_force :: "managed_settings \<Rightarrow> managed_state \<Rightarrow> bool" where
  "in_force s st \<longleftrightarrow> (\<forall>h. ms_heartbeat_interval_secs s = Some h \<longrightarrow> rt_heartbeat_interval (mg_runtime st) = h)
     \<and> (\<forall>i. ms_inventory_interval_secs s = Some i \<longrightarrow> rt_inventory_interval (mg_runtime st) = i)
     \<and> (\<forall>l. ms_log_level s = Some l \<longrightarrow> mg_log_level st = Some (to_ascii_lowercase (trim l)))"

lemma validated_interval:
  "validate_managed_interval name s = Inr v \<Longrightarrow> v = s \<and> (\<forall>n. s = Some n \<longrightarrow> 10 \<le> n \<and> n \<le> 86400)"
  by (auto simp: validate_managed_interval_def MIN_MANAGED_INTERVAL_SECS_def MAX_MANAGED_INTERVAL_SECS_def
      split: option.splits if_splits)

lemma validated_settings:
  assumes "validate_managed_settings s = Inr v"
  shows "vs_heartbeat_interval v = ms_heartbeat_interval_secs s \<and> vs_inventory_interval v = ms_inventory_interval_secs s
    \<and> vs_log_level v = map_option (\<lambda>l. to_ascii_lowercase (trim l)) (ms_log_level s)
    \<and> (\<forall>n. vs_heartbeat_interval v = Some n \<longrightarrow> 10 \<le> n \<and> n \<le> 86400)
    \<and> (\<forall>n. vs_inventory_interval v = Some n \<longrightarrow> 10 \<le> n \<and> n \<le> 86400)"
  using assms
  by (auto simp: validate_managed_settings_def and_then_Inr_iff validate_managed_log_level_def Let_def
      dest!: validated_interval split: option.splits if_splits)

lemma put_settings_bounded:
  assumes "validate_managed_settings s = Inr v" and "bounded_runtime (mg_runtime st)"
  shows "bounded_runtime (mg_runtime (put_settings v st))"
  using validated_settings [OF assms(1)] assms(2)
  by (auto simp: bounded_runtime_def put_settings_def next_runtime_def unwrap_or_def split: option.splits)

lemma put_settings_in_force: "validate_managed_settings s = Inr v \<Longrightarrow> in_force s (put_settings v st)"
  by (auto simp: in_force_def put_settings_def next_runtime_def dest!: validated_settings)

lemma apply_settings_bounded:
  "apply_settings d applied st = (applied', st') \<Longrightarrow> bounded_runtime (mg_runtime st) \<Longrightarrow> bounded_runtime (mg_runtime st')"
  by (auto simp: apply_settings_def Let_def remember_rejected_settings_def clear_rejected_settings_def
      intro: put_settings_bounded split: option.splits if_splits sum.splits)

lemma apply_settings_acknowledges:
  "apply_settings d applied st = (applied', st') \<Longrightarrow> applied' \<noteq> applied \<Longrightarrow>
   applied' = md_revision d \<and> (\<forall>s. md_settings d = Some s \<longrightarrow> in_force s st')"
  by (auto simp: apply_settings_def Let_def remember_rejected_settings_def clear_rejected_settings_def option_or_def
      intro: put_settings_in_force split: option.splits if_splits sum.splits)

lemma apply_settings_repeat:
  "apply_settings d applied st = (applied', st') \<Longrightarrow> apply_settings d applied' st' = (applied', st')"
  by (auto simp: apply_settings_def Let_def remember_rejected_settings_def clear_rejected_settings_def option_or_def
      put_settings_def split: option.splits if_splits sum.splits)

section \<open>Properties\<close>


definition sample_directive :: managed_directive where
  "sample_directive = \<lparr>md_settings = Some \<lparr>ms_heartbeat_interval_secs = Some 30, ms_inventory_interval_secs = None,
     ms_log_level = Some '' Debug ''\<rparr>, md_revision = Some 3, md_update = None, md_update_blocked = None\<rparr>"

definition sample_managed :: managed_state where
  "sample_managed = \<lparr>mg_runtime = \<lparr>rt_heartbeat_interval = 60, rt_inventory_interval = 3600\<rparr>, mg_log_level = None,
     mg_last_rejected = None, mg_last_unversioned = None\<rparr>"


text \<open>
  C35. A build is queued only when everything agrees: the transport is HTTPS or explicitly
  allowed to be insecure, the build is for this target, and the offer's version, platform,
  size and hash are those of a manifest signed by a trusted key; then the one staged
  request holds bytes of exactly that size and hash. A refusal touches nothing, a failure
  adds nothing.
\<close>

theorem queued_offer_is_authentic:
  assumes "apply_update env c io u mb inc = (outcome, mb', inc')"
    and "\<forall>p. Inr p \<in> set (dw_chunks (qi_download io)) \<longrightarrow> length p < 2 ^ 64"
  shows "(\<forall>v. outcome = Queued v \<longrightarrow> v = mu_version u \<and> mu_platform u = ue_target_triple env
      \<and> (starts_with (cf_server_url c) ''https://'' \<or> cf_allow_insecure_updates c)
      \<and> (\<exists>sm st. mu_signed_manifest u = Some sm \<and> authentic env (cf_updates c) sm
          \<and> rm_version (sm_manifest sm) = mu_version u \<and> rm_platform (sm_manifest sm) = mu_platform u
          \<and> inc' = [(qi_nonce io, st)] \<and> sg_manifest st = Some sm
          \<and> mu_size_bytes u = Some (rm_size_bytes (sm_manifest sm))
          \<and> length (sg_artifact st) = unat (rm_size_bytes (sm_manifest sm))
          \<and> encode_hex (ue_sha256 env (sg_artifact st)) = mu_sha256 u))
    \<and> (\<forall>r. outcome = RefusedUpdate r \<longrightarrow> mb' = mb \<and> inc' = inc)
    \<and> (\<forall>e. outcome = FailedUpdate e \<longrightarrow> set inc' \<subseteq> set inc)"
proof -
  consider (refused) r where "outcome = RefusedUpdate r" "mb' = mb" "inc' = inc"
    | (asked) sm where "mu_signed_manifest u = Some sm" "mu_platform u = ue_target_triple env"
        "starts_with (cf_server_url c) ''https://'' \<or> cf_allow_insecure_updates c"
        "rm_version (sm_manifest sm) = mu_version u" "rm_platform (sm_manifest sm) = mu_platform u"
        "mu_size_bytes u = Some (rm_size_bytes (sm_manifest sm))" "rm_sha256 (sm_manifest sm) = mu_sha256 u"
        "(case queue_update env (cf_updates c) (qi_clock_queue io) (qi_clock_ready io) (qi_ledger_queue io)
            (qi_join_url io) (qi_fault io) (qi_nonce io) (qi_download io) (mu_url u) sm mb inc of
          (Inr nonce, mb', inc') \<Rightarrow> (Queued (mu_version u), mb', inc')
        | (Inl error, mb', inc') \<Rightarrow> (FailedUpdate error, mb', inc')) = (outcome, mb', inc')"
    using assms(1) by (auto simp: apply_update_def Let_def split: if_splits option.splits sum.splits)
  then show ?thesis
  proof cases
    case (asked sm)
    obtain r mb1 inc1 where q: "queue_update env (cf_updates c) (qi_clock_queue io) (qi_clock_ready io)
        (qi_ledger_queue io) (qi_join_url io) (qi_fault io) (qi_nonce io) (qi_download io) (mu_url u) sm mb inc
      = (r, mb1, inc1)" by (metis prod_cases3)
    show ?thesis
    proof (cases r)
      case (Inl e)
      with q asked(8) queue_update_refused show ?thesis by fastforce
    next
      case (Inr n)
      with q obtain st where st: "verify_manifest env (cf_updates c) (qi_clock_queue io) (qi_ledger_queue io) sm = Inr ()"
        "inc1 = [(qi_nonce io, st)]"
        "stage_release env (cf_updates c) (qi_fault io) (qi_clock_ready io) (qi_download io) (qi_nonce io) sm = Inr st"
        by (blast dest: queue_update_staged)
      with Inr q asked stage_release_sound [OF st(3) assms(2)]
        verify_inner_sound(1) [OF verify_manifest_sound(1) [OF st(1)]] show ?thesis by auto
    qed
  qed simp
qed

definition sample_config :: config where
  "sample_config = \<lparr>cf_server_url = ''https://inventory'', cf_provisioning_key_file = ''/k'', cf_state_dir = ''/s'',
     cf_inventory_interval = 3600, cf_heartbeat_interval = 60, cf_request_timeout = 30, cf_tls_ca_file = None,
     cf_log_level = ''info'', cf_allow_plain_http = False, cf_allow_insecure_updates = False,
     cf_full_refresh_interval = 86400, cf_max_spool_entries = 200, cf_updates = sample_policy\<rparr>"

definition sample_offer :: managed_update where
  "sample_offer = \<lparr>mu_version = ''1.1'', mu_platform = ''t'', mu_sha256 = encode_hex (replicate 32 0),
     mu_size_bytes = Some 2, mu_url = ''/u'', mu_signed_manifest = Some sample_release\<rparr>"

definition sample_queue_io :: queue_io where
  "sample_queue_io = \<lparr>qi_clock = Inr 7, qi_ledger = Missing, qi_clock_queue = Inr 7, qi_ledger_queue = Missing,
     qi_clock_ready = Inr 8, qi_join_url = Inr (\<lambda>_. Inr True), qi_fault = (\<lambda>_. None), qi_nonce = ''n'',
     qi_download = sample_download\<rparr>"

theorem queued_offer_is_authentic_witness:
  "\<exists>st. snd (snd (apply_update sample_update_env sample_config sample_queue_io sample_offer
      \<lparr>mb_open = False, mb_result = Missing\<rparr> [])) = [(''n'', st)] \<and> length (sg_artifact st) = 2"
proof -
  let ?a = "apply_update sample_update_env sample_config sample_queue_io sample_offer \<lparr>mb_open = False, mb_result = Missing\<rparr> []"
  have "fst ?a = Queued ''1.1''"
    by (simp add: apply_update_def sample_config_def sample_offer_def sample_queue_io_def sample_verify_defs
        queue_update_def check_update_url_def stage_request_def bad_update_url_def starts_with_def
        reap_consumed_request_def stage_or_def stage_release_def receive_package_def sample_download_def checked_add_def)
  then have a: "?a = (Queued ''1.1'', fst (snd ?a), snd (snd ?a))" by (metis prod.collapse)
  have "\<forall>p. Inr p \<in> set (dw_chunks (qi_download sample_queue_io)) \<longrightarrow> length p < 2 ^ 64"
    by (auto simp: sample_queue_io_def sample_download_def)
  from queued_offer_is_authentic [OF a this] show ?thesis
    by (auto simp: sample_offer_def sample_queue_io_def sample_release_def)
qed

text \<open>
  The unversioned settings are compared with the last unversioned ones only. When a policy
  with a revision was applied in between, the same unversioned policy is dropped although
  other settings are in force.
\<close>

definition heartbeat_directive :: "u64 option \<Rightarrow> u64 \<Rightarrow> managed_directive" where
  "heartbeat_directive revision seconds = \<lparr>md_settings = Some \<lparr>ms_heartbeat_interval_secs = Some seconds,
     ms_inventory_interval_secs = None, ms_log_level = None\<rparr>, md_revision = revision, md_update = None,
     md_update_blocked = None\<rparr>"

lemma unversioned_policy_dropped:
  "\<exists>st1 st2. apply_settings (heartbeat_directive None 30) None sample_managed = (None, st1)
     \<and> rt_heartbeat_interval (mg_runtime st1) = 30
     \<and> apply_settings (heartbeat_directive (Some 3) 60) None st1 = (Some 3, st2)
     \<and> rt_heartbeat_interval (mg_runtime st2) = 60
     \<and> apply_settings (heartbeat_directive None 30) (Some 3) st2 = (Some 3, st2)"
  by (simp add: apply_settings_def heartbeat_directive_def validate_managed_settings_def validate_managed_interval_def
      MIN_MANAGED_INTERVAL_SECS_def MAX_MANAGED_INTERVAL_SECS_def sample_managed_def clear_rejected_settings_def
      put_settings_def next_runtime_def)

end
