(* ===== verification/Heartbeat.thy ===== *)
theory Heartbeat
  imports Managed Auth
begin

text \<open>
  Registration and heartbeats, \<open>src/heartbeat.rs\<close>: the two calls, the capability they
  record, and the loop that applies what the server decides. The answers of the server, the
  token exchanges, the changes of the two watch channels and what an update attempt meets
  are inputs; the loop returns a trace of what it received and what it tried.
\<close>

section \<open>Requests and answers\<close>

definition REGISTER_PATH :: string where "REGISTER_PATH = ''/api/v1/agent/register''"
definition HEARTBEAT_PATH :: string where "HEARTBEAT_PATH = ''/api/v1/agent/heartbeat''"

datatype heartbeat_status = Idle | Busy | ErrorStatus

record register_request =
  rg_agent_id :: string
  rg_hostname :: string
  rg_version :: string
  rg_labels :: "(string \<times> string) list"
  rg_agent_kind :: string
  rg_inventory_schema_versions :: "u16 list"
  rg_signed_updates :: bool

record heartbeat_request =
  hr_agent_id :: string
  hr_status :: heartbeat_status
  hr_current_job_id :: "string option"
  hr_detail :: "string option"
  hr_platform :: string
  hr_inventory_schema_versions :: "u16 list"
  hr_signed_updates :: bool
  hr_applied_config_revision :: "u64 option"

record agent_info =
  ai_agent_id :: string
  ai_hostname :: string
  ai_version :: string
  ai_labels :: "(string \<times> string) list"
  ai_status :: string
  ai_current_job_id :: "string option"
  ai_detail :: "string option"
  ai_registered_at :: "string option"
  ai_last_seen_at :: "string option"
  ai_online :: bool
  ai_inventory_schema_version :: u16

text \<open>The version an answer without the field means.\<close>

definition legacy_schema_version :: u16 where "legacy_schema_version = 1"

record heartbeat_response =
  hp_info :: agent_info
  hp_directive :: managed_directive

datatype loop_outcome = Stopped | Updated string

section \<open>The client\<close>

text \<open>The client's only own state is the schema version the server can take.\<close>

definition heartbeat_client_new :: u16 where "heartbeat_client_new = 1"

definition record_capability :: "agent_info \<Rightarrow> u16" where
  "record_capability info = (if ai_inventory_schema_version info = 2 then 2 else 1)"

text \<open>
  What the token cache gives, and the answers to posts: the cached or fetched token, the
  token of a forced refresh, and the answer to the \<open>n\<close>-th post.
\<close>

record ('q, 'r) call_io =
  ci_token :: "api_error + string"
  ci_refreshed :: "api_error + string"
  ci_post :: "nat \<Rightarrow> string \<Rightarrow> string \<Rightarrow> 'q \<Rightarrow> api_error + 'r"

definition register ::
  "(register_request, agent_info) call_io \<Rightarrow> string \<Rightarrow> string \<Rightarrow> string \<Rightarrow> (string \<times> string) list \<Rightarrow> u16
   \<Rightarrow> (api_error + agent_info) \<times> u16" where
  "register io aid host version tags capability =
     (let body = \<lparr>rg_agent_id = aid, rg_hostname = host, rg_version = version, rg_labels = tags,
                  rg_agent_kind = ''endpoint'', rg_inventory_schema_versions = [1, 2], rg_signed_updates = True\<rparr> in
      case snd (call_with_refresh (ci_token io) (ci_refreshed io) (\<lambda>n token. ci_post io n REGISTER_PATH token body)) of
        Inl e \<Rightarrow> (Inl e, capability)
      | Inr info \<Rightarrow> (Inr info, record_capability info))"

definition heartbeat_with_revision ::
  "'v update_env \<Rightarrow> (heartbeat_request, heartbeat_response) call_io \<Rightarrow> string \<Rightarrow> heartbeat_status \<Rightarrow> string option
   \<Rightarrow> string option \<Rightarrow> u64 option \<Rightarrow> u16 \<Rightarrow> (api_error + agent_info \<times> managed_directive) \<times> u16" where
  "heartbeat_with_revision env io aid status job detail applied capability =
     (let body = \<lparr>hr_agent_id = aid, hr_status = status, hr_current_job_id = job, hr_detail = detail,
                  hr_platform = ue_target_triple env, hr_inventory_schema_versions = [1, 2],
                  hr_signed_updates = True, hr_applied_config_revision = applied\<rparr> in
      case snd (call_with_refresh (ci_token io) (ci_refreshed io) (\<lambda>n token. ci_post io n HEARTBEAT_PATH token body)) of
        Inl e \<Rightarrow> (Inl e, capability)
      | Inr response \<Rightarrow> (Inr (hp_info response, hp_directive response), record_capability (hp_info response)))"

definition heartbeat ::
  "'v update_env \<Rightarrow> (heartbeat_request, heartbeat_response) call_io \<Rightarrow> string \<Rightarrow> heartbeat_status \<Rightarrow> string option
   \<Rightarrow> string option \<Rightarrow> u16 \<Rightarrow> (api_error + agent_info) \<times> u16" where
  "heartbeat env io aid status job detail capability =
     (case heartbeat_with_revision env io aid status job detail None capability of
        (Inl e, capability') \<Rightarrow> (Inl e, capability')
      | (Inr (info, _), capability') \<Rightarrow> (Inr info, capability'))"

section \<open>The loop\<close>

text \<open>
  What an answered beat meets: the clock, the shared directory and the pending document when it
  acknowledges its health, and, for an attempt to take an offer, the calls and the agent's
  update directory. The supervisor writes there between the beats, so each brings its own.
\<close>

record update_io =
  ui_ack_clock :: "string + u64"
  ui_shared_open :: bool
  ui_pending_health :: "pending_update json_file"
  ui_token :: "api_error + string"
  ui_http :: "api_error + unit"
  ui_queue :: queue_io
  ui_mailbox :: mailbox
  ui_incoming :: incoming

text \<open>
  Whether the loop ends, the outcome that is logged, if the attempt got as far, and the update
  directory it leaves.
\<close>

definition try_update ::
  "('v::linorder) update_env \<Rightarrow> config \<Rightarrow> update_io \<Rightarrow> managed_update
   \<Rightarrow> loop_outcome option \<times> update_outcome option \<times> mailbox \<times> incoming" where
  "try_update env c io u =
     (case ui_token io of
        Inl e \<Rightarrow> (None, None, ui_mailbox io, ui_incoming io)
      | Inr token \<Rightarrow>
          (case ui_http io of
             Inl e \<Rightarrow> (None, None, ui_mailbox io, ui_incoming io)
           | Inr http \<Rightarrow>
               (case apply_update env c (ui_queue io) u (ui_mailbox io) (ui_incoming io) of
                  (outcome, mb, inc) \<Rightarrow> (None, Some outcome, mb, inc))))"

record loop_state =
  ls_capability :: u16
  ls_managed :: managed_state
  ls_ticker :: u64
  ls_applied :: "u64 option"
  ls_block_reason :: "string option"
  ls_declined :: "managed_update option"

text \<open>
  One answered beat: the health document it was to publish, the directive, the offer that was
  tried with its outcome, and the update directory it left.
\<close>

record beat_log =
  bl_ack :: "string + health_ack option"
  bl_directive :: managed_directive
  bl_directory :: "mailbox \<times> incoming"
  bl_attempt :: "(managed_update \<times> update_outcome option) option"

definition act_on_directive ::
  "('v::linorder) update_env \<Rightarrow> config \<Rightarrow> update_io \<Rightarrow> managed_directive \<Rightarrow> loop_state
   \<Rightarrow> loop_outcome option \<times> beat_log \<times> loop_state" where
  "act_on_directive env c io d st =
     (let ack = ack_health env (ui_ack_clock io) (ui_shared_open io) (ui_pending_health io);
          (applied, managed) = apply_settings d (ls_applied st) (ls_managed st);
          st = st\<lparr>ls_applied := applied, ls_managed := managed, ls_block_reason := md_update_blocked d\<rparr>;
          nothing = (None, \<lparr>bl_ack = ack, bl_directive = d, bl_directory = (ui_mailbox io, ui_incoming io),
                            bl_attempt = None\<rparr>, st)
      in case md_update d of
           None \<Rightarrow> nothing
         | Some u \<Rightarrow>
             if ls_declined st = Some u then nothing
             else (case try_update env c io u of (ended, tried, directory) \<Rightarrow>
               (let entry = \<lparr>bl_ack = ack, bl_directive = d, bl_directory = directory,
                             bl_attempt = Some (u, tried)\<rparr>
                in case ended of
                     Some outcome \<Rightarrow> (Some outcome, entry, st)
                   | None \<Rightarrow> (None, entry, st\<lparr>ls_declined := Some u\<rparr>))))"

datatype loop_event =
    Tick "(heartbeat_request, heartbeat_response) call_io" update_io
  | RuntimeChanged bool
  | ShutdownChanged bool bool

text \<open>
  The loop over the events its \<open>select!\<close> takes, with the trace of answered beats; no
  outcome when the events end while it runs. The flag of a channel event says that the
  sender is gone, the second flag of a shutdown is its value.
\<close>

fun run_loop ::
  "('v::linorder) update_env \<Rightarrow> config \<Rightarrow> string \<Rightarrow> loop_event list \<Rightarrow> loop_state
   \<Rightarrow> loop_outcome option \<times> beat_log list \<times> loop_state" where
  "run_loop env c aid [] st = (None, [], st)"
| "run_loop env c aid (Tick io uio # events) st =
     (case heartbeat_with_revision env io aid Idle None None (ls_applied st) (ls_capability st) of
        (Inl e, capability) \<Rightarrow> run_loop env c aid events (st\<lparr>ls_capability := capability\<rparr>)
      | (Inr (info, d), capability) \<Rightarrow>
          (case act_on_directive env c uio d (st\<lparr>ls_capability := capability\<rparr>) of
             (Some outcome, entry, st') \<Rightarrow> (Some outcome, [entry], st')
           | (None, entry, st') \<Rightarrow>
               (case run_loop env c aid events st' of
                  (outcome, trace, st'') \<Rightarrow> (outcome, entry # trace, st''))))"
| "run_loop env c aid (RuntimeChanged gone # events) st =
     (if gone then (Some Stopped, [], st)
      else run_loop env c aid events
             (st\<lparr>ls_ticker := rt_heartbeat_interval (mg_runtime (ls_managed st))\<rparr>))"
| "run_loop env c aid (ShutdownChanged gone stop # events) st =
     (if gone \<or> stop then (Some Stopped, [], st) else run_loop env c aid events st)"

definition start_loop :: "config \<Rightarrow> u16 \<Rightarrow> loop_state" where
  "start_loop c capability = \<lparr>ls_capability = capability, ls_managed = managed_start c,
     ls_ticker = cf_heartbeat_interval c, ls_applied = None, ls_block_reason = None, ls_declined = None\<rparr>"

section \<open>Lemmas\<close>

text \<open>The offers that were received, and those that were tried, in order.\<close>

definition offers :: "beat_log list \<Rightarrow> managed_update list" where
  "offers trace = List.map_filter (md_update \<circ> bl_directive) trace"

definition attempts :: "beat_log list \<Rightarrow> managed_update list" where
  "attempts trace = List.map_filter (map_option fst \<circ> bl_attempt) trace"

lemma offers_simps [simp]:
  "offers [] = []"
  "offers (b # bs) = (case md_update (bl_directive b) of None \<Rightarrow> offers bs | Some u \<Rightarrow> u # offers bs)"
  by (simp_all add: offers_def map_filter_simps split: option.split)

lemma attempts_simps [simp]:
  "attempts [] = []"
  "attempts (b # bs) = (case bl_attempt b of None \<Rightarrow> attempts bs | Some a \<Rightarrow> fst a # attempts bs)"
  by (simp_all add: attempts_def map_filter_simps split: option.split)

lemma try_update_continues: "fst (try_update env c io u) = None"
  by (simp add: try_update_def split: sum.split prod.split)

lemma try_update_never_ends: "try_update env c io u \<noteq> (Some outcome, tried, mb, inc)"
  using try_update_continues [of env c io u] by auto

text \<open>The list without adjacent repetitions, and without the first when it equals the last one tried.\<close>

definition fresh_offers :: "managed_update option \<Rightarrow> managed_update list \<Rightarrow> managed_update list" where
  "fresh_offers declined us = (case declined of None \<Rightarrow> remdups_adj us | Some u \<Rightarrow> tl (remdups_adj (u # us)))"

lemma fresh_offers_Nil [simp]: "fresh_offers declined [] = []"
  by (simp add: fresh_offers_def split: option.split)

lemma remdups_adj_tl: "remdups_adj (u # us) = u # tl (remdups_adj (u # us))"
  by (cases us) (auto simp: remdups_adj_Cons split: list.split)

lemma fresh_offers_Cons:
  "fresh_offers declined (u # us) =
     (if declined = Some u then fresh_offers (Some u) us else u # fresh_offers (Some u) us)"
  using remdups_adj_tl [of u us]
  by (cases declined) (auto simp: fresh_offers_def)

lemma act_on_directive_cases:
  assumes "act_on_directive env c io d st = (r, entry, st')"
  shows "r = None \<and> bl_directive entry = d
    \<and> (case md_update d of
         None \<Rightarrow> bl_attempt entry = None \<and> ls_declined st' = ls_declined st
       | Some u \<Rightarrow> (if ls_declined st = Some u then bl_attempt entry = None
                    else map_option fst (bl_attempt entry) = Some u) \<and> ls_declined st' = Some u)"
  using assms
  by (auto simp: act_on_directive_def try_update_never_ends Let_def split: prod.splits option.splits if_splits)

lemma run_loop_attempts:
  "run_loop env c aid events st = (r, trace, st') \<Longrightarrow>
   attempts trace = fresh_offers (ls_declined st) (offers trace) \<and> r \<in> {None, Some Stopped}"
proof (induction env c aid events st arbitrary: r trace st' rule: run_loop.induct)
  case (2 env c aid io uio events st)
  obtain a capability where h: "heartbeat_with_revision env io aid Idle None None (ls_applied st) (ls_capability st)
      = (a, capability)" by force
  show ?case
  proof (cases a)
    case (Inl e)
    with h "2.prems" "2.IH"(1) show ?thesis by fastforce
  next
    case (Inr x)
    obtain info d where x: "x = (info, d)" by force
    obtain q entry st1 where act: "act_on_directive env c uio d (st\<lparr>ls_capability := capability\<rparr>) = (q, entry, st1)"
      by (metis prod_cases3)
    note cases = act_on_directive_cases [OF act]
    obtain r2 trace2 st2 where rest: "run_loop env c aid events st1 = (r2, trace2, st2)" by (metis prod_cases3)
    have "attempts trace2 = fresh_offers (ls_declined st1) (offers trace2) \<and> r2 \<in> {None, Some Stopped}"
      using "2.IH"(2) h Inr x act cases rest by fastforce
    moreover have "r = r2" "trace = entry # trace2" using "2.prems" h Inr x act cases rest by auto
    ultimately show ?thesis
      using cases by (auto simp: fresh_offers_Cons split: option.splits if_splits)
  qed
qed (auto split: if_splits)

text \<open>
  A beat that the server answered vouches for this build only, and only inside the window of
  the pending update.
\<close>

lemma act_on_directive_acks:
  assumes "act_on_directive env c io d st = (r, entry, st')"
  shows "bl_ack entry = ack_health env (ui_ack_clock io) (ui_shared_open io) (ui_pending_health io)"
  using assms
  by (auto simp: act_on_directive_def try_update_never_ends Let_def split: prod.splits option.splits if_splits)

lemma run_loop_vouches_for_itself:
  "run_loop env c aid events st = (r, trace, st') \<Longrightarrow> entry \<in> set trace \<Longrightarrow> bl_ack entry = Inr (Some a)
   \<Longrightarrow> ha_version a = ue_pkg_version env"
proof (induction env c aid events st arbitrary: r trace st' rule: run_loop.induct)
  case (2 env c aid io uio events st)
  then show ?case
    by (fastforce simp: ack_health_def and_then_Inr_iff dest!: act_on_directive_acks
        split: prod.splits sum.splits option.splits if_splits json_file.splits)
qed (auto split: if_splits)

section \<open>Properties\<close>

text \<open>
  The loop tries exactly the offers that differ from the one before: over any events,
  the offers tried are the offers received with adjacent repetitions removed, whatever the
  attempts gave, and the loop only ever ends because it was asked to stop; it never reports
  a replaced build.
\<close>

theorem offers_tried_once_in_a_row:
  assumes "run_loop env c aid events (start_loop c capability) = (outcome, trace, st)"
  shows "attempts trace = remdups_adj (offers trace) \<and> outcome \<in> {None, Some Stopped}"
  using run_loop_attempts [OF assms] by (simp add: start_loop_def fresh_offers_def)

definition sample_info :: agent_info where
  "sample_info = \<lparr>ai_agent_id = ''agent_1'', ai_hostname = ''host'', ai_version = ''0.5.0'', ai_labels = [],
     ai_status = ''ok'', ai_current_job_id = None, ai_detail = None, ai_registered_at = None,
     ai_last_seen_at = None, ai_online = True, ai_inventory_schema_version = 2\<rparr>"

definition sample_tick :: "managed_update option \<Rightarrow> loop_event" where
  "sample_tick offer = Tick \<lparr>ci_token = Inr ''t'', ci_refreshed = Inr ''t'', ci_post = (\<lambda>_ _ _ _.
      Inr \<lparr>hp_info = sample_info, hp_directive = \<lparr>md_settings = None, md_revision = None, md_update = offer,
        md_update_blocked = None\<rparr>\<rparr>)\<rparr>
     \<lparr>ui_ack_clock = Inr 9, ui_shared_open = True, ui_pending_health = Missing, ui_token = Inl Auth, ui_http = Inr (), ui_queue = sample_queue_io,
      ui_mailbox = \<lparr>mb_open = False, mb_result = Missing\<rparr>, ui_incoming = []\<rparr>"

theorem offers_tried_once_in_a_row_witness:
  "\<exists>outcome trace st. run_loop sample_update_env sample_config ''agent_1''
      [sample_tick (Some sample_offer), sample_tick (Some sample_offer), ShutdownChanged False True]
      (start_loop sample_config 1) = (outcome, trace, st)
    \<and> attempts trace = remdups_adj (offers trace) \<and> length (offers trace) = 2 \<and> length (attempts trace) = 1"
proof -
  let ?events = "[sample_tick (Some sample_offer), sample_tick (Some sample_offer), ShutdownChanged False True]"
  obtain outcome trace st where r: "run_loop sample_update_env sample_config ''agent_1'' ?events (start_loop sample_config 1)
      = (outcome, trace, st)" by (metis prod_cases3)
  note t = offers_tried_once_in_a_row [OF r]
  from r have "offers trace = [sample_offer, sample_offer]"
    by (auto simp: sample_tick_def heartbeat_with_revision_def call_with_refresh_def act_on_directive_def
        apply_settings_def try_update_def start_loop_def Let_def)
  with t r show ?thesis by auto
qed

end
