(* ===== verification/Agent.thy ===== *)
theory Agent
  imports Inventory_Cache Identity Environment Delivery Heartbeat
begin

text \<open>
  The agent's inventory cycle, \<open>src/app.rs\<close>: when a collection is due, what one cycle
  collects, builds, validates and queues, the loop around it, and the registration with its
  retries. It composes the collectors with their cache, the snapshot, its validation and the
  delivery queue. What a cycle meets of the host is a record of inputs.
\<close>

section \<open>Delays\<close>

definition REGISTER_MAX_ATTEMPTS :: nat where "REGISTER_MAX_ATTEMPTS = 5"
definition REGISTER_BASE_BACKOFF :: nat where "REGISTER_BASE_BACKOFF = 1"
definition BATTERY_INTERVAL_MULTIPLIER :: u64 where "BATTERY_INTERVAL_MULTIPLIER = 4"
definition MAX_EFFECTIVE_INVENTORY_INTERVAL :: u64 where "MAX_EFFECTIVE_INVENTORY_INTERVAL = 86400"
definition MAX_STARTUP_JITTER :: u64 where "MAX_STARTUP_JITTER = 300"
definition INVENTORY_JITTER_DIVISOR :: u64 where "INVENTORY_JITTER_DIVISOR = 10"

text \<open>\<open>u64::from_be_bytes\<close>.\<close>

definition from_be_bytes :: "u8 list \<Rightarrow> u64" where
  "from_be_bytes bytes = foldl (\<lambda>w b. 256 * w + of_nat (unat b)) 0 bytes"

definition stable_jitter_secs :: "(u8 list \<Rightarrow> u8 list) \<Rightarrow> string \<Rightarrow> u64 \<Rightarrow> u64" where
  "stable_jitter_secs sha aid max_secs =
     (if max_secs = 0 then 0
      else from_be_bytes (take 8 (sha (utf8 aid))) mod saturating_add max_secs 1)"

definition startup_inventory_delay :: "(u8 list \<Rightarrow> u8 list) \<Rightarrow> u64 \<Rightarrow> string \<Rightarrow> u64" where
  "startup_inventory_delay sha base aid =
     stable_jitter_secs sha aid (min (base div INVENTORY_JITTER_DIVISOR) MAX_STARTUP_JITTER)"

definition scheduled_inventory_delay :: "(u8 list \<Rightarrow> u8 list) \<Rightarrow> u64 \<Rightarrow> string \<Rightarrow> bool \<Rightarrow> u64" where
  "scheduled_inventory_delay sha base aid on_battery =
     (let multiplier = (if on_battery then BATTERY_INTERVAL_MULTIPLIER else 1);
          max_secs = MAX_EFFECTIVE_INVENTORY_INTERVAL;
          effective_secs = min (saturating_mul base multiplier) max_secs;
          jitter_room = saturating_sub max_secs effective_secs;
          max_jitter_secs = min (effective_secs div INVENTORY_JITTER_DIVISOR) jitter_room;
          jitter_secs = stable_jitter_secs sha aid max_jitter_secs
      in saturating_add effective_secs jitter_secs)"

section \<open>Registration\<close>

definition is_retryable :: "api_error \<Rightarrow> bool" where
  "is_retryable e = (case e of Transient _ \<Rightarrow> True | RateLimited _ \<Rightarrow> True | _ \<Rightarrow> False)"

text \<open>
  The loop of \<open>register_with_retry\<close>: \<open>io n\<close> is what the \<open>n\<close>-th attempt meets. The result
  has the delays slept, in seconds, the number of attempts and the recorded capability.
\<close>

type_synonym registration = "(string + unit) \<times> nat list \<times> nat \<times> u16"

function register_loop ::
  "(nat \<Rightarrow> (register_request, agent_info) call_io) \<Rightarrow> string \<Rightarrow> string \<Rightarrow> string \<Rightarrow> (string \<times> string) list
   \<Rightarrow> nat \<Rightarrow> nat list \<Rightarrow> u16 \<Rightarrow> registration" where
  "register_loop io aid host version tags attempt0 delays capability =
     (let attempt = attempt0 + 1 in
      case register (io attempt) aid host version tags capability of
        (Inr _, capability') \<Rightarrow> (Inr (), delays, attempt, capability')
      | (Inl e, capability') \<Rightarrow>
          if attempt \<ge> REGISTER_MAX_ATTEMPTS \<or> \<not> is_retryable e
          then (Inl (''agent registration failed: '' @ api_error_display e), delays, attempt, capability')
          else register_loop io aid host version tags attempt
                 (delays @ [REGISTER_BASE_BACKOFF * 2 ^ (attempt - 1)]) capability')"
  by pat_completeness auto

termination register_loop
  by (relation "measure (\<lambda>(_, _, _, _, _, attempt, _). REGISTER_MAX_ATTEMPTS - attempt)") auto

declare register_loop.simps [simp del]

definition register_with_retry ::
  "(nat \<Rightarrow> (register_request, agent_info) call_io) \<Rightarrow> string \<Rightarrow> string \<Rightarrow> string \<Rightarrow> (string \<times> string) list
   \<Rightarrow> u16 \<Rightarrow> registration" where
  "register_with_retry io aid host version tags capability =
     register_loop io aid host version tags 0 [] capability"

section \<open>One inventory cycle\<close>

text \<open>
  The host, the cache and the history, the schema version the server can take, the random
  bytes and the formatted time of the snapshot, what the host says of itself, and what the
  queue meets.
\<close>

record cycle =
  cy_host :: host
  cy_cache :: cache_env
  cy_history :: history_env
  cy_schema :: u16
  cy_rng :: "string + u8 list"
  cy_time :: "string + string"
  cy_vars :: "string \<Rightarrow> string option"
  cy_text :: "string \<Rightarrow> string option"
  cy_supplies :: "power_supply list option"
  cy_arch :: string
  cy_machine_id :: "string option"
  cy_queue :: delivery_env
  cy_plan :: fault_plan
  cy_names :: name_faults
  cy_mtime :: nat
  cy_now :: u64

definition host_labels :: "cycle \<Rightarrow> (string, string) btree" where
  "host_labels c =
     (let power_source = (if check_linux_battery (cy_supplies c) then ''battery'' else ''ac'') in
      btree_insert ''host.power_source'' power_source
        (to_labels (detect_environment (cy_vars c) (fs_exists (file_system.truncate (ho_files (cy_host c)))) (cy_text c))))"

definition source_warning :: "collection_source \<Rightarrow> string option" where
  "source_warning source =
     map_option (\<lambda>code. source_as_str (cs_source source) @ '': '' @ code) (cs_diagnostic_code source)"

definition safe_collector_warnings :: "collection_source list \<Rightarrow> string list" where
  "safe_collector_warnings srcs = List.map_filter source_warning srcs"

definition ensure_authoritative_collection :: "collector_result \<Rightarrow> string + unit" where
  "ensure_authoritative_collection collected =
     (if cr_complete collected then Inr ()
      else Inl (''inventory collection was incomplete ('' @ show_nat (length (cr_warnings collected))
                @ '' warning(s)); snapshot was not spooled or submitted''))"

definition build_snapshot ::
  "cycle \<Rightarrow> string \<Rightarrow> string \<Rightarrow> endpoint_identifier list \<Rightarrow> collector_result \<Rightarrow> string + inventory_snapshot" where
  "build_snapshot c aid host ids collected =
     and_then (map_err (\<lambda>e. ''failed to generate snapshot id: '' @ identity_error_display e)
                 (generate_snapshot_id (cy_rng c))) (\<lambda>sid.
     and_then (map_err (\<lambda>e. ''failed to format timestamp: '' @ e) (cy_time c)) (\<lambda>time.
     let env = ho_env (cy_host c);
         release = linux_os_release (read_metadata env (file_system.truncate (ho_files (cy_host c)))) in
     Inr (snapshot_new_v2 (ce_sha env) sid aid time host (Some ''linux'') (Some (unwrap_or (or_name release) ''linux''))
            (or_version release) (Some (cy_arch c)) (ce_version env) (host_labels c) ids (cr_entries collected)
            (safe_collector_warnings (cr_sources collected)) (cr_sources collected))))"

text \<open>The snapshot of a collection in the schema the server takes, or why there is none.\<close>

definition cycle_snapshot :: "cycle \<Rightarrow> string \<Rightarrow> string \<Rightarrow> collector_result \<Rightarrow> string + inventory_snapshot" where
  "cycle_snapshot c aid host collected =
     (let sha = ce_sha (ho_env (cy_host c)) in
      and_then (if cy_schema c = 1 then ensure_authoritative_collection collected else Inr ()) (\<lambda>_.
      and_then (build_snapshot c aid host (platform_identifiers sha (cy_machine_id c)) collected) (\<lambda>snapshot.
      let snapshot = (if cy_schema c = 2 then snapshot else into_v1 sha snapshot) in
      and_then (map_err model_error_display (validate_snapshot snapshot)) (\<lambda>_. Inr snapshot))))"

record inventory_state =
  iv_disk :: inventory_disk
  iv_delivery :: delivery

definition collect_and_submit ::
  "cycle \<Rightarrow> string \<Rightarrow> string \<Rightarrow> inventory_state \<Rightarrow> (string + unit) \<times> inventory_state" where
  "collect_and_submit c aid host st =
     (case collect_all_cached (cy_cache c) (cy_history c) (cy_host c) (iv_disk st) of
        (collected, disk) \<Rightarrow>
          (case cycle_snapshot c aid host collected of
             Inl e \<Rightarrow> (Inl e, st\<lparr>iv_disk := disk\<rparr>)
           | Inr snapshot \<Rightarrow>
               (case enqueue_if_needed (cy_queue c) (cy_plan c) (cy_names c) (cy_mtime c) (cy_now c) snapshot
                       (iv_delivery st) of
                  (r, delivery) \<Rightarrow> (map_sum id (\<lambda>_. ()) r, \<lparr>iv_disk = disk, iv_delivery = delivery\<rparr>))))"

section \<open>The inventory loop\<close>

text \<open>
  What the loop's \<open>select!\<close> takes: the timer, with what the cycle meets and whether the host
  is on battery afterwards; a change of the managed settings, unless their sender is gone;
  a change of the shutdown flag.
\<close>

datatype inventory_event =
    CollectionDue cycle bool
  | IntervalChanged bool u64 bool
  | StopChanged bool bool

text \<open>The delays armed, in order, and the state; the loop ends when told or with the events.\<close>

fun inventory_loop ::
  "(u8 list \<Rightarrow> u8 list) \<Rightarrow> string \<Rightarrow> string \<Rightarrow> inventory_event list \<Rightarrow> u64 \<Rightarrow> inventory_state
   \<Rightarrow> u64 list \<times> inventory_state" where
  "inventory_loop sha aid host [] interval st = ([], st)"
| "inventory_loop sha aid host (CollectionDue c on_battery # events) interval st =
     (case inventory_loop sha aid host events interval (snd (collect_and_submit c aid host st)) of
        (delays, st') \<Rightarrow> (scheduled_inventory_delay sha interval aid on_battery # delays, st'))"
| "inventory_loop sha aid host (IntervalChanged gone interval' on_battery # events) interval st =
     (if gone then ([], st)
      else case inventory_loop sha aid host events interval' st of
        (delays, st') \<Rightarrow> (scheduled_inventory_delay sha interval' aid on_battery # delays, st'))"
| "inventory_loop sha aid host (StopChanged gone stop # events) interval st =
     (if gone \<or> stop then ([], st) else inventory_loop sha aid host events interval st)"

definition run_inventory ::
  "(u8 list \<Rightarrow> u8 list) \<Rightarrow> string \<Rightarrow> string \<Rightarrow> inventory_event list \<Rightarrow> u64 \<Rightarrow> inventory_state
   \<Rightarrow> u64 list \<times> inventory_state" where
  "run_inventory sha aid host events interval st =
     (case inventory_loop sha aid host events interval st of
        (delays, st') \<Rightarrow> (startup_inventory_delay sha interval aid # delays, st'))"

section \<open>The delays are bounded\<close>

lemma stable_jitter_le: "stable_jitter_secs sha aid max_secs \<le> max_secs"
proof (cases "max_secs = 0")
  case False
  let ?m = "saturating_add max_secs 1"
  have u: "unat ?m \<le> unat max_secs + 1" by (simp add: unat_saturating_add)
  have "unat ?m \<noteq> 0" using False by (simp add: unat_saturating_add unat_eq_0)
  then have "unat (from_be_bytes (take 8 (sha (utf8 aid)))) mod unat ?m < unat ?m" by simp
  with u have "unat (from_be_bytes (take 8 (sha (utf8 aid))) mod ?m) \<le> unat max_secs" by (simp add: unat_mod_distrib)
  with False show ?thesis by (simp add: stable_jitter_secs_def word_le_nat_alt)
qed (simp add: stable_jitter_secs_def)

lemma unat_min: "unat (min a b) = min (unat a) (unat (b :: u64))"
  by (simp add: min_def word_le_nat_alt)

text \<open>At least the interval, stretched on battery, at most a tenth more, and at most a day.\<close>

lemma scheduled_delay_bounds:
  fixes base :: u64 and on_battery :: bool
  defines "effective \<equiv> min (unat base * (if on_battery then 4 else 1)) 86400"
  shows "effective \<le> unat (scheduled_inventory_delay sha base aid on_battery)"
    and "unat (scheduled_inventory_delay sha base aid on_battery) \<le> min 86400 (effective + effective div 10)"
proof -
  define w :: u64 where "w = min (saturating_mul base (if on_battery then 4 else 1)) 86400"
  define j :: u64 where "j = min (w div 10) (saturating_sub 86400 w)"
  have w: "unat w = effective" by (auto simp: w_def unat_min unat_saturating_mul effective_def)
  have j: "unat j = min (effective div 10) (86400 - effective)"
    by (simp add: j_def unat_min unat_saturating_sub unat_div w)
  have le: "effective \<le> 86400" by (simp add: effective_def)
  have "scheduled_inventory_delay sha base aid on_battery = saturating_add w (stable_jitter_secs sha aid j)"
    by (simp only: scheduled_inventory_delay_def Let_def BATTERY_INTERVAL_MULTIPLIER_def
        MAX_EFFECTIVE_INVENTORY_INTERVAL_def INVENTORY_JITTER_DIVISOR_def w_def j_def)
  then have "unat (scheduled_inventory_delay sha base aid on_battery)
      = min (effective + unat (stable_jitter_secs sha aid j)) (2 ^ 64 - 1)" by (simp only: unat_saturating_add w)
  moreover have jitter: "unat (stable_jitter_secs sha aid j) \<le> min (effective div 10) (86400 - effective)"
    using stable_jitter_le [of sha aid j] j by (simp add: word_le_nat_alt)
  moreover have day: "effective + unat (stable_jitter_secs sha aid j) \<le> 86400" using jitter le by linarith
  moreover have "effective + unat (stable_jitter_secs sha aid j) \<le> 2 ^ 64 - 1" by (rule le_trans [OF day]) simp
  ultimately have d: "unat (scheduled_inventory_delay sha base aid on_battery)
      = effective + unat (stable_jitter_secs sha aid j)" by (simp only: min_absorb1)
  show "effective \<le> unat (scheduled_inventory_delay sha base aid on_battery)" using d by simp
  show "unat (scheduled_inventory_delay sha base aid on_battery) \<le> min 86400 (effective + effective div 10)"
    using d jitter day by simp
qed

lemma startup_delay_bounds:
  "unat (startup_inventory_delay sha base aid) \<le> min 300 (unat base div 10)"
proof -
  have "unat (startup_inventory_delay sha base aid) \<le> unat (min (base div 10) 300 :: u64)"
    using stable_jitter_le [of sha aid "min (base div 10) 300"]
    by (simp add: startup_inventory_delay_def INVENTORY_JITTER_DIVISOR_def MAX_STARTUP_JITTER_def word_le_nat_alt)
  also have "\<dots> = min 300 (unat base div 10)" by (simp add: unat_min unat_div min.commute)
  finally show ?thesis .
qed

section \<open>Registration ends\<close>

text \<open>What the \<open>n\<close>-th attempt gives; the capability does not influence it.\<close>

definition attempt_result ::
  "(nat \<Rightarrow> (register_request, agent_info) call_io) \<Rightarrow> string \<Rightarrow> string \<Rightarrow> string \<Rightarrow> (string \<times> string) list
   \<Rightarrow> nat \<Rightarrow> api_error + agent_info" where
  "attempt_result io aid host version tags n = fst (register (io n) aid host version tags heartbeat_client_new)"

lemma register_result: "fst (register (io n) aid host version tags capability) = attempt_result io aid host version tags n"
  by (simp add: attempt_result_def register_def Let_def split: sum.split)

lemma register_loop_outcome:
  assumes "register_loop io aid host version tags k delays capability = (r, ds, n, capability')" and "k < 5"
  shows "k < n \<and> n \<le> 5 \<and> ds = delays @ map (\<lambda>i. 2 ^ i) [k..<n - 1]
    \<and> (\<forall>j. k < j \<longrightarrow> j < n \<longrightarrow> (\<exists>e. attempt_result io aid host version tags j = Inl e \<and> is_retryable e))
    \<and> (case attempt_result io aid host version tags n of
         Inr _ \<Rightarrow> r = Inr ()
       | Inl e \<Rightarrow> r = Inl (''agent registration failed: '' @ api_error_display e) \<and> (n = 5 \<or> \<not> is_retryable e))"
  using assms
proof (induction io aid host version tags k delays capability rule: register_loop.induct)
  case (1 io aid host version tags k delays capability)
  obtain a c where reg: "register (io (k + 1)) aid host version tags capability = (a, c)" by force
  then have a: "attempt_result io aid host version tags (Suc k) = a"
    using register_result [of io "k + 1" aid host version tags capability] by simp
  note unfolded = "1.prems"(1) [unfolded register_loop.simps [of io aid host version tags k]]
  show ?case
  proof (cases "\<exists>e. a = Inl e \<and> is_retryable e \<and> k + 1 < 5")
    case False
    then have "n = k + 1" "ds = delays" "case a of Inr _ \<Rightarrow> r = Inr ()
       | Inl e \<Rightarrow> r = Inl (''agent registration failed: '' @ api_error_display e) \<and> (n = 5 \<or> \<not> is_retryable e)"
      using unfolded reg "1.prems"(2) by (auto simp: Let_def REGISTER_MAX_ATTEMPTS_def split: sum.splits if_splits)
    with a "1.prems"(2) show ?thesis by auto
  next
    case True
    then obtain e where e: "a = Inl e" "is_retryable e" "k + 1 < 5" by blast
    then have rest: "register_loop io aid host version tags (k + 1) (delays @ [2 ^ k]) c = (r, ds, n, capability')"
      using unfolded reg by (simp add: Let_def REGISTER_MAX_ATTEMPTS_def REGISTER_BASE_BACKOFF_def)
    have "\<not> (k + 1 \<ge> REGISTER_MAX_ATTEMPTS \<or> \<not> is_retryable e)" using e by (simp add: REGISTER_MAX_ATTEMPTS_def)
    note ih = "1.IH" [OF refl reg [symmetric] e(1) this]
    have ih': "k + 1 < n \<and> n \<le> 5 \<and> ds = (delays @ [2 ^ k]) @ map (\<lambda>i. 2 ^ i) [k + 1..<n - 1]
      \<and> (\<forall>j. k + 1 < j \<longrightarrow> j < n \<longrightarrow> (\<exists>e. attempt_result io aid host version tags j = Inl e \<and> is_retryable e))
      \<and> (case attempt_result io aid host version tags n of Inr _ \<Rightarrow> r = Inr ()
         | Inl e \<Rightarrow> r = Inl (''agent registration failed: '' @ api_error_display e) \<and> (n = 5 \<or> \<not> is_retryable e))"
      using ih rest e(3) by (simp add: REGISTER_BASE_BACKOFF_def)
    then have "[k..<n - 1] = k # [k + 1..<n - 1]" by (intro trans [OF upt_conv_Cons]) auto
    moreover have "j = Suc k \<or> k + 1 < j" if "k < j" for j using that by auto
    ultimately show ?thesis using ih' a e by auto
  qed
qed

section \<open>Properties\<close>

text \<open>
  C37. Registration always ends, after at most five attempts and at most fifteen seconds of
  waiting: it makes attempts until one succeeds or fails for good, it waits one, two, four
  and eight seconds between them, every attempt before the last failed with a transient or
  rate-limited error, and it fails only when the last attempt did and was the fifth or not
  worth repeating.
\<close>

theorem registration_ends:
  "\<exists>n capability'. 1 \<le> n \<and> n \<le> 5
    \<and> (\<exists>r. register_with_retry io aid host version tags capability
          = (r, map (\<lambda>i. 2 ^ i) [0..<n - 1], n, capability')
        \<and> (case attempt_result io aid host version tags n of
             Inr _ \<Rightarrow> r = Inr ()
           | Inl e \<Rightarrow> r = Inl (''agent registration failed: '' @ api_error_display e) \<and> (n = 5 \<or> \<not> is_retryable e)))
    \<and> (\<forall>j\<in>{1..<n}. \<exists>e. attempt_result io aid host version tags j = Inl e \<and> is_retryable e)
    \<and> sum_list (map (\<lambda>i. 2 ^ i) [0..<n - 1]) \<le> (15 :: nat)"
proof -
  obtain r ds n c where l: "register_loop io aid host version tags 0 [] capability = (r, ds, n, c)"
    by (metis prod_cases4)
  note o = register_loop_outcome [OF l]
  have "n - 1 \<in> {0, 1, 2, 3, 4}" using o by auto
  then have "sum_list (map (\<lambda>i. 2 ^ i) [0..<n - 1]) \<le> (15 :: nat)" by (auto simp: numeral_eq_Suc)
  with o l show ?thesis
    unfolding register_with_retry_def by (intro exI [of _ n] exI [of _ c]) auto
qed

definition sample_register_io :: "nat \<Rightarrow> (register_request, agent_info) call_io" where
  "sample_register_io n = \<lparr>ci_token = Inr ''t'', ci_refreshed = Inr ''t'',
     ci_post = (\<lambda>_ _ _ _. if n = 3 then Inr sample_info else Inl (Transient ''reset''))\<rparr>"

theorem registration_ends_witness:
  "\<exists>capability'. register_with_retry sample_register_io ''agent_1'' ''host'' ''0.5.0'' [] 1
     = (Inr (), [1, 2], 3, capability')"
proof -
  have a: "attempt_result sample_register_io ''agent_1'' ''host'' ''0.5.0'' [] n
      = (if n = 3 then Inr sample_info else Inl (Transient ''reset''))" for n
    by (simp add: attempt_result_def register_def call_with_refresh_def sample_register_io_def Let_def)
  have retry: "is_retryable (Transient m)" for m by (simp add: is_retryable_def)
  obtain n c r where n: "1 \<le> n" "n \<le> 5" and
    w: "register_with_retry sample_register_io ''agent_1'' ''host'' ''0.5.0'' [] 1 = (r, map (\<lambda>i. 2 ^ i) [0..<n - 1], n, c)"
    and last: "case attempt_result sample_register_io ''agent_1'' ''host'' ''0.5.0'' [] n of
             Inr _ \<Rightarrow> r = Inr ()
           | Inl e \<Rightarrow> r = Inl (''agent registration failed: '' @ api_error_display e) \<and> (n = 5 \<or> \<not> is_retryable e)"
    and before: "\<forall>j\<in>{1..<n}. \<exists>e. attempt_result sample_register_io ''agent_1'' ''host'' ''0.5.0'' [] j = Inl e \<and> is_retryable e"
    using registration_ends [of sample_register_io "''agent_1''" "''host''" "''0.5.0''" "[]" 1] by (elim exE conjE) (rule that)
  have "\<not> 3 < n" using before a by (metis Inl_Inr_False atLeastLessThan_iff one_le_numeral)
  moreover have "n = 3 \<or> n = 5" using last a [of n] retry by (cases "n = 3") simp_all
  ultimately have "n = 3" by auto
  with w last a [of 3] show ?thesis by (auto simp: numeral_eq_Suc)
qed

section \<open>What a cycle queues\<close>

lemma not_blank_head: "\<not> is_whitespace c \<Longrightarrow> trim (c # s) \<noteq> []"
  by (simp add: trim_Nil_iff)

lemma agent_id_not_blank: "is_valid_agent_id aid \<Longrightarrow> trim aid \<noteq> []"
  using valid_agent_id_no_space trim_no_space(1) by fastforce

lemma snapshot_id_not_blank: "trim (''snap_'' @ hex) \<noteq> []"
  by (simp add: not_blank_head is_whitespace_def scalar_def)

lemma prepare_entry_source: "se_source (prepare_entry sha schema aid e) = se_source e"
  by (simp add: prepare_entry_def Let_def ensure_source normalize_source)

lemma into_v1_valid:
  assumes "valid_header s" and "\<forall>i\<in>set (identifiers s). utf8_len (trim (value_hash i)) \<ge> 8"
  shows "valid_snapshot (into_v1 sha s)"
proof -
  have "\<forall>i\<in>set (normalize_identifiers (identifiers s)). utf8_len (trim (value_hash i)) \<ge> 8"
    using assms(2) by (auto simp: normalize_identifiers_def)
  with assms(1) normalized_names show ?thesis
    by (auto simp: into_v1_def valid_snapshot_def valid_header_def normalize_snapshot_fields)
qed

text \<open>The version 2 snapshot of a collection that keeps the contract.\<close>

lemma built_snapshot_valid:
  assumes "build_snapshot c aid host (platform_identifiers (ce_sha (ho_env (cy_host c))) machine) collected = Inr s"
    and sha: "\<And>x. length (ce_sha (ho_env (cy_host c)) x) = 32" and env: "usable_env (ho_env (cy_host c))"
    and r: "reported all_sources collected" and aid: "is_valid_agent_id aid" and "trim host \<noteq> []"
    and "\<And>time. cy_time c = Inr time \<Longrightarrow> trim time \<noteq> []"
  shows "valid_snapshot s \<and> valid_header s \<and> (\<forall>i\<in>set (identifiers s). utf8_len (trim (value_hash i)) \<ge> 8)
    \<and> schema_version s = INVENTORY_SCHEMA_VERSION \<and> agent_id s = aid
    \<and> mset (sources s) = mset (cr_sources collected)
    \<and> se_source ` set (software s) \<subseteq> se_source ` set (cr_entries collected)"
proof -
  let ?sha = "ce_sha (ho_env (cy_host c))"
  obtain sid time raw where raw: "generate_snapshot_id (cy_rng c) = Inr sid" "cy_time c = Inr time"
      "s = normalize_snapshot ?sha raw" "schema_version raw = INVENTORY_SCHEMA_VERSION" "snapshot_id raw = sid"
      "agent_id raw = aid" "collected_at raw = time" "hostname raw = host" "agent_version raw = ce_version (ho_env (cy_host c))"
      "identifiers raw = platform_identifiers ?sha machine" "software raw = cr_entries collected"
      "sources raw = cr_sources collected"
    using assms(1) by (auto simp: build_snapshot_def and_then_Inr_iff snapshot_new_v2_def Let_def)
  have "trim sid \<noteq> []"
    using raw(1) snapshot_id_not_blank
    by (auto simp: generate_snapshot_id_def random_hex_id_def and_then_Inr_iff)
  then have h: "valid_header raw"
    using raw assms(6,7) agent_id_not_blank [OF aid] env by (simp add: valid_header_def usable_env_def)
  have ids: "\<forall>i\<in>set (identifiers raw). utf8_len (trim (value_hash i)) \<ge> 8"
    using platform_identifiers_long [of ?sha, OF sha] raw by simp
  have "distinct all_sources" by (simp add: all_sources_def)
  then have d: "distinct (map cs_source (sources raw))"
    using r raw mset_eq_imp_distinct_iff by (metis reported_def)
  have "valid_snapshot s"
    unfolding raw(3)
    by (rule normalize_snapshot_valid [OF sha raw(4) h d])
       (use r raw ids reported_sources [OF r] in \<open>auto simp: reported_def\<close>)
  moreover have "se_source ` set (software s) \<subseteq> se_source ` set (cr_entries collected)"
    using raw(3,11) prepare_entry_source by (auto elim!: normalized_entryE)
  moreover have "mset (sources s) = mset (cr_sources collected)"
    using raw by (simp add: normalize_snapshot_fields mset_sort_by)
  ultimately show ?thesis
    using h ids raw
    by (auto simp: normalize_snapshot_fields valid_header_def normalize_identifiers_def)
qed

lemma cycle_snapshot_cases:
  assumes sha: "\<And>x. length (ce_sha (ho_env (cy_host c)) x) = 32" and env: "usable_env (ho_env (cy_host c))"
    and r: "reported all_sources collected" and aid: "is_valid_agent_id aid" and host: "trim host \<noteq> []"
    and rng: "cy_rng c = Inr bytes" and time: "cy_time c = Inr time" "trim time \<noteq> []"
  shows "if cy_schema c = 1 \<and> \<not> cr_complete collected
    then \<exists>m. cycle_snapshot c aid host collected = Inl m
    else \<exists>s. cycle_snapshot c aid host collected = Inr s \<and> valid_snapshot s \<and> agent_id s = aid
      \<and> schema_version s = (if cy_schema c = 2 then 2 else 1)
      \<and> (cy_schema c = 2 \<longrightarrow> mset (sources s) = mset (cr_sources collected)
          \<and> se_source ` set (software s) \<subseteq> se_source ` set (cr_entries collected))"
proof (cases "cy_schema c = 1 \<and> \<not> cr_complete collected")
  case True
  then show ?thesis by (simp add: cycle_snapshot_def ensure_authoritative_collection_def Let_def)
next
  case False
  let ?ids = "platform_identifiers (ce_sha (ho_env (cy_host c))) (cy_machine_id c)"
  obtain s where s: "build_snapshot c aid host ?ids collected = Inr s"
    using rng time by (simp add: build_snapshot_def generate_snapshot_id_def random_hex_id_def fill_random_def map_err_def Let_def)
  note v = built_snapshot_valid [OF s sha env r aid host]
  define t where "t = (if cy_schema c = 2 then s else into_v1 (ce_sha (ho_env (cy_host c))) s)"
  have t: "valid_snapshot t \<and> agent_id t = aid \<and> schema_version t = (if cy_schema c = 2 then 2 else 1)"
    using v time into_v1_valid [of s "ce_sha (ho_env (cy_host c))"]
    by (auto simp: t_def into_v1_def normalize_snapshot_fields INVENTORY_SCHEMA_VERSION_def LEGACY_INVENTORY_SCHEMA_VERSION_def)
  then have "validate_snapshot t = Inr ()" by (simp add: validate_ok_iff)
  then have "cycle_snapshot c aid host collected = Inr t"
    using False s by (auto simp: cycle_snapshot_def ensure_authoritative_collection_def Let_def t_def map_err_def)
  with False t v time show ?thesis by (auto simp: t_def)
qed


definition sample_host :: host where
  "sample_host = \<lparr>ho_env = \<lparr>ce_now = (\<lambda>_. ''2026-01-01T00:00:00Z''), ce_version = ''0.5.0'',
       ce_sha = (\<lambda>_. replicate 32 0), ce_utf8_lossy = (\<lambda>_. [])\<rparr>,
     ho_files = empty_system ModifiedUnknown, ho_json = (\<lambda>_. None), ho_run = (\<lambda>_. Inl NotFound),
     ho_cache_opens = True, ho_lookup_joins = True, ho_panic = Some (NodejsCache, False)\<rparr>"

definition sample_cycle :: "u16 \<Rightarrow> cycle" where
  "sample_cycle schema = \<lparr>cy_host = sample_host,
     cy_cache = (sample_cache_env sample_document 1500)\<lparr>ie_encode := (\<lambda>c. if c = sample_document then [7] else []),
       ie_decode := (\<lambda>bytes. if bytes = [7] then Inr sample_document else Inl ''syntax'')\<rparr>,
     cy_history = \<lparr>hi_decode = (\<lambda>_. None), hi_encode = (\<lambda>_. []), hi_plan = no_faults\<rparr>, cy_schema = schema,
     cy_rng = Inr (replicate 16 0), cy_time = Inr ''2026-01-01T00:00:00Z'', cy_vars = (\<lambda>_. None), cy_text = (\<lambda>_. None),
     cy_supplies = None, cy_arch = ''x86_64'', cy_machine_id = Some ''m'', cy_queue = sample_delivery_env,
     cy_plan = no_faults, cy_names = dr_io sample_drain, cy_mtime = 1, cy_now = 1\<rparr>"

definition sample_state :: inventory_state where
  "sample_state = \<lparr>iv_disk = \<lparr>id_cache = [], id_state = []\<rparr>, iv_delivery = sample_delivery\<rparr>"


end
