(* ===== verification/Mac_Collector.thy ===== *)
theory Mac_Collector
  imports Runtime_Collectors
begin

text \<open>
  The macOS collector, \<open>src/inventory/macos.rs\<close>: the application bundles of the system's and
  the user's application directories, and the formulae and casks that Homebrew lists. The
  file system, the property-list parser, the home directory, a panic of the blocking task
  and the outcomes of the started commands are inputs.
\<close>

section \<open>Application bundles\<close>

text \<open>A parsed property list, as far as the code looks into it.\<close>

datatype plist = PlistDict "(string \<times> plist) list" | PlistString string | PlistOther

fun as_string :: "plist \<Rightarrow> string option" where
  "as_string (PlistString s) = Some s"
| "as_string (PlistDict _) = None"
| "as_string PlistOther = None"

record mac_env =
  ma_fs :: file_system
  ma_len :: "string \<Rightarrow> nat option"
  ma_plist :: "string \<Rightarrow> string + plist"
  ma_home :: "string option"

definition APPLICATION_DIRS :: "string list" where
  "APPLICATION_DIRS = [''/Applications'', ''~/Applications'']"

definition application_dirs :: "string option \<Rightarrow> string list" where
  "application_dirs home =
     List.map_filter (\<lambda>dir. case strip_prefix dir ''~/'' of
         Some suffix \<Rightarrow> map_option (\<lambda>h. path_join h suffix) home
       | None \<Rightarrow> Some dir) APPLICATION_DIRS"

definition file_stem :: "string \<Rightarrow> string option" where
  "file_stem p = map_option (\<lambda>n. case path_extension p of
       None \<Rightarrow> n | Some e \<Rightarrow> take (length n - (length e + 1)) n) (file_name p)"

definition plist_text :: "(string \<times> plist) list \<Rightarrow> string \<Rightarrow> string option" where
  "plist_text dict key = Option.bind (Option.bind (map_of dict key) as_string) non_empty"

definition bundle_entry ::
  "collect_env \<Rightarrow> mac_env \<Rightarrow> string \<Rightarrow> (string \<times> plist) list \<Rightarrow> software_entry option" where
  "bundle_entry env me app_path dict =
     (case option_or (plist_text dict ''CFBundleName'') (Option.bind (file_stem app_path) non_empty) of
        None \<Rightarrow> None
      | Some name \<Rightarrow>
          (let version = Option.bind (Option.bind (option_or (map_of dict ''CFBundleShortVersionString'')
                                                             (map_of dict ''CFBundleVersion'')) as_string) non_empty;
               scope = (case ma_home me of
                          Some home \<Rightarrow> if path_starts_with app_path home then UserScope else SystemScope
                        | None \<Rightarrow> SystemScope)
           in Some (with_path_instance env (ma_fs me)
                (blank_entry\<lparr>se_name := name, se_version := version, se_source := MacBundle,
                             se_install_location := non_empty app_path\<rparr>)
                (plist_text dict ''CFBundleIdentifier'') scope app_path)))"

definition read_bundle_info :: "collect_env \<Rightarrow> mac_env \<Rightarrow> string \<Rightarrow> string + software_entry option" where
  "read_bundle_info env me app_path =
     (let plist_path = path_join app_path ''Contents/Info.plist'' in
      if \<not> fs_exists (ma_fs me) plist_path then Inr None
      else if (case ma_len me plist_path of None \<Rightarrow> False | Some n \<Rightarrow> n > MAX_METADATA_FILE_BYTES)
      then Inl (''Info.plist exceeds '' @ show_nat MAX_METADATA_FILE_BYTES @ '' bytes'')
      else and_then (ma_plist me plist_path) (\<lambda>parsed. case parsed of
          PlistDict dict \<Rightarrow> Inr (bundle_entry env me app_path dict)
        | _ \<Rightarrow> Inl ''Info.plist root is not a dictionary''))"

definition bundle_step ::
  "collect_env \<Rightarrow> mac_env \<Rightarrow> string \<Rightarrow> string \<Rightarrow> software_entry list \<times> string list \<Rightarrow> software_entry list \<times> string list" where
  "bundle_step env me dir name acc =
     (let (entries, warnings) = acc; path = path_join dir name in
      if path_extension path \<noteq> Some ''app'' then acc
      else case read_bundle_info env me path of
        Inr (Some entry) \<Rightarrow> (entries @ [entry], warnings)
      | Inr None \<Rightarrow> acc
      | Inl e \<Rightarrow> (entries, warnings @ [''failed to read bundle '' @ path @ '': '' @ e]))"

text \<open>Items of a directory that cannot be read are left out, as \<open>filter_map(Result::ok)\<close> does.\<close>

definition readable_items :: "(string + string) list \<Rightarrow> string list" where
  "readable_items items = List.map_filter (\<lambda>i. case i of Inl _ \<Rightarrow> None | Inr n \<Rightarrow> Some n) items"

definition bundle_dir ::
  "collect_env \<Rightarrow> mac_env \<Rightarrow> string \<Rightarrow> software_entry list \<times> string list \<Rightarrow> software_entry list \<times> string list" where
  "bundle_dir env me dir acc =
     (case fs_read_dir (ma_fs me) dir of
        Inl FsNotFound \<Rightarrow> acc
      | Inl (FsError e) \<Rightarrow> (fst acc, snd acc @ [''failed to read '' @ dir @ '': '' @ e])
      | Inr items \<Rightarrow> fold (bundle_step env me dir) (readable_items items) acc)"

definition collect_bundles_sync :: "collect_env \<Rightarrow> mac_env \<Rightarrow> string list \<Rightarrow> collector_result" where
  "collect_bundles_sync env me dirs =
     (let (entries, warnings) = fold (bundle_dir env me) dirs ([], [])
      in \<lparr>cr_entries = entries, cr_warnings = warnings, cr_complete = (warnings = []), cr_sources = []\<rparr>)"

text \<open>\<open>panicked\<close> is the text of a panic of the blocking task.\<close>

definition collect_bundles :: "collect_env \<Rightarrow> mac_env \<Rightarrow> string option \<Rightarrow> collector_result" where
  "collect_bundles env me panicked =
     (case panicked of
        Some e \<Rightarrow> \<lparr>cr_entries = [], cr_warnings = [''macOS bundle collector panicked: '' @ e],
                   cr_complete = False, cr_sources = []\<rparr>
      | None \<Rightarrow> collect_bundles_sync env me (application_dirs (ma_home me)))"

section \<open>Homebrew\<close>

definition brew_line :: "collect_env \<Rightarrow> string \<Rightarrow> software_entry list" where
  "brew_line env line =
     (case split_whitespace line of
        [] \<Rightarrow> []
      | name # versions \<Rightarrow> map (\<lambda>version. with_instance (ce_sha env)
            (blank_entry\<lparr>se_name := name, se_version := Some version, se_source := Brew\<rparr>)
            (Some name) SystemScope (''brew:'' @ name @ '':'' @ version)) versions)"

definition parse_brew_versions :: "collect_env \<Rightarrow> string \<Rightarrow> software_entry list" where
  "parse_brew_versions env output = concat (map (brew_line env) (str_lines output))"

text \<open>\<open>run args\<close> is the outcome of running \<open>brew\<close> with these arguments.\<close>

definition collect_homebrew ::
  "collect_env \<Rightarrow> (string list \<Rightarrow> command_error + string) \<Rightarrow> collector_result option" where
  "collect_homebrew env run =
     (case run [''list'', ''--formula'', ''--versions''] of
        Inl NotFound \<Rightarrow> None
      | Inl (OtherError message) \<Rightarrow>
          Some \<lparr>cr_entries = [], cr_warnings = [''brew formula collector failed: '' @ message],
                cr_complete = False, cr_sources = []\<rparr>
      | Inr formulae \<Rightarrow>
          (let (casks, warnings) = (case run [''list'', ''--cask'', ''--versions''] of
                 Inr output \<Rightarrow> (parse_brew_versions env output, [])
               | Inl NotFound \<Rightarrow> ([], [''brew cask collector disappeared during collection''])
               | Inl (OtherError message) \<Rightarrow> ([], [''brew cask collector failed: '' @ message]))
           in Some \<lparr>cr_entries = parse_brew_versions env formulae @ casks, cr_warnings = warnings,
                    cr_complete = (warnings = []), cr_sources = []\<rparr>))"

definition mac_collect ::
  "collect_env \<Rightarrow> mac_env \<Rightarrow> string option \<Rightarrow> (string list \<Rightarrow> command_error + string) \<Rightarrow> collector_result" where
  "mac_collect env me panicked run =
     (let r = with_source env MacBundle (collect_bundles env me panicked);
          r = (case collect_homebrew env run of None \<Rightarrow> r | Some brew \<Rightarrow> merge r (with_source env Brew brew))
      in if list_ex (\<lambda>c. cs_source c = Brew) (cr_sources r) then r else merge r (not_applicable env Brew))"

section \<open>The collectors keep the contract\<close>

lemma bundle_entry_fresh:
  "bundle_entry env me p dict = Some e \<Longrightarrow> se_installation_identity e = None \<and> se_source e = MacBundle"
  by (auto simp: bundle_entry_def with_path_instance_def with_instance_def blank_entry_def Let_def split: option.splits)

lemma read_bundle_fresh:
  "read_bundle_info env me p = Inr (Some e) \<Longrightarrow> se_installation_identity e = None \<and> se_source e = MacBundle"
  (is "_ \<Longrightarrow> ?thesis")
proof -
  assume r: "read_bundle_info env me p = Inr (Some e)"
  then obtain parsed where "ma_plist me (path_join p ''Contents/Info.plist'') = Inr parsed"
    and "(case parsed of PlistDict dict \<Rightarrow> Inr (bundle_entry env me p dict)
          | _ \<Rightarrow> Inl ''Info.plist root is not a dictionary'') = Inr (Some e)"
    by (auto simp: read_bundle_info_def and_then_Inr_iff Let_def split: if_splits)
  then show ?thesis by (cases parsed) (auto dest: bundle_entry_fresh)
qed

definition fresh_bundle :: "software_entry \<Rightarrow> bool" where
  "fresh_bundle e \<longleftrightarrow> se_installation_identity e = None \<and> se_source e = MacBundle"

lemma bundle_step_fresh: "list_all fresh_bundle (fst acc) \<Longrightarrow> list_all fresh_bundle (fst (bundle_step env me dir name acc))"
  by (auto simp: bundle_step_def fresh_bundle_def Let_def dest: read_bundle_fresh
      split: prod.splits sum.splits option.splits if_splits)

lemma bundle_dir_fresh: "list_all fresh_bundle (fst acc) \<Longrightarrow> list_all fresh_bundle (fst (bundle_dir env me dir acc))"
proof -
  have "list_all fresh_bundle (fst acc) \<Longrightarrow> list_all fresh_bundle (fst (fold (bundle_step env me dir) names acc))" for names
    by (induction names arbitrary: acc) (simp_all add: bundle_step_fresh)
  then show "list_all fresh_bundle (fst acc) \<Longrightarrow> ?thesis"
    by (auto simp: bundle_dir_def split: sum.splits fs_error.splits)
qed

lemma collect_bundles_fresh:
  "fresh_entries MacBundle (collect_bundles env me panicked)" "cr_sources (collect_bundles env me panicked) = []"
proof -
  have "list_all fresh_bundle (fst acc) \<Longrightarrow> list_all fresh_bundle (fst (fold (bundle_dir env me) dirs acc))" for dirs acc
    by (induction dirs arbitrary: acc) (simp_all add: bundle_dir_fresh)
  from this [of "([], [])" "application_dirs (ma_home me)"]
  show "fresh_entries MacBundle (collect_bundles env me panicked)"
    by (auto simp: collect_bundles_def collect_bundles_sync_def fresh_entries_def fresh_bundle_def list_all_iff
        split: option.splits prod.splits)
  show "cr_sources (collect_bundles env me panicked) = []"
    by (auto simp: collect_bundles_def collect_bundles_sync_def split: option.splits prod.splits)
qed

lemma brew_fresh: "e \<in> set (parse_brew_versions env output) \<Longrightarrow> se_installation_identity e = None \<and> se_source e = Brew"
  by (auto simp: parse_brew_versions_def brew_line_def with_instance_def blank_entry_def split: list.splits)

lemma homebrew_fresh: "collect_homebrew env run = Some r \<Longrightarrow> fresh_entries Brew r \<and> cr_sources r = []"
  by (auto simp: collect_homebrew_def fresh_entries_def dest: brew_fresh
      split: sum.splits command_error.splits prod.splits)

lemma mac_collect_reported:
  assumes "usable_env env"
  shows "reported [MacBundle, Brew] (mac_collect env me panicked run)"
proof -
  let ?b = "with_source env MacBundle (collect_bundles env me panicked)"
  have b: "reported [MacBundle] ?b" by (rule reported_with_source [OF assms collect_bundles_fresh])
  then have srcs: "cs_source ` set (cr_sources ?b) = {MacBundle}" by (simp add: reported_sources)
  show ?thesis
  proof (cases "collect_homebrew env run")
    case None
    have "reported ([MacBundle] @ [Brew]) (merge ?b (not_applicable env Brew))"
      by (intro reported_merge b reported_not_applicable assms) simp
    moreover have "cs_source c = MacBundle" if "c \<in> set (cr_sources ?b)" for c using srcs that by blast
    then have "\<not> list_ex (\<lambda>c. cs_source c = Brew) (cr_sources ?b)" by (auto simp: list_ex_iff)
    ultimately show ?thesis by (simp add: mac_collect_def None)
  next
    case (Some r)
    have w: "reported [Brew] (with_source env Brew r)"
      using homebrew_fresh [OF Some] by (intro reported_with_source assms) simp_all
    then have "reported ([MacBundle] @ [Brew]) (merge ?b (with_source env Brew r))"
      by (intro reported_merge b) simp_all
    moreover have "list_ex (\<lambda>c. cs_source c = Brew) (cr_sources (merge ?b (with_source env Brew r)))"
      by (simp add: merge_def with_source_def Let_def)
    ultimately show ?thesis by (simp add: mac_collect_def Some)
  qed
qed

interpretation macos: reporting_collector
  "\<lambda>(env, me, panicked, run). mac_collect env me panicked run" "\<lambda>(env, _). usable_env env" "[MacBundle, Brew]"
  by unfold_locales (auto simp: mac_collect_reported)

text \<open>
  Items of an application directory that cannot be read are neither reported nor counted:
  the result is that of a directory without them, complete if it is.
\<close>

lemma unreadable_items_ignored:
  assumes "\<And>dir. fs_read_dir (ma_fs me') dir = (case fs_read_dir (ma_fs me) dir of
      Inl e \<Rightarrow> Inl e | Inr items \<Rightarrow> Inr (map Inr (readable_items items)))"
    and "read_bundle_info env me' = read_bundle_info env me"
  shows "collect_bundles_sync env me' dirs = collect_bundles_sync env me dirs"
proof -
  have "readable_items (map Inr names) = names" for names by (simp add: readable_items_def List.map_filter_def o_def)
  moreover have "bundle_step env me' = bundle_step env me" unfolding bundle_step_def assms(2) ..
  ultimately have "bundle_dir env me' = bundle_dir env me"
    by (intro ext) (simp add: bundle_dir_def assms(1) split: sum.splits fs_error.splits)
  then show ?thesis by (simp add: collect_bundles_sync_def)
qed

text \<open>Every version that Homebrew lists is an entry of its own.\<close>

lemma brew_line_versions:
  "split_whitespace line = name # versions \<Longrightarrow>
   map (\<lambda>e. (se_name e, se_version e)) (brew_line env line) = map (\<lambda>v. (name, Some v)) versions"
  by (simp add: brew_line_def with_instance_def o_def)

end
