(* ===== verification/Windows_Collector.thy ===== *)
theory Windows_Collector
  imports Collection
begin

text \<open>
  The Windows collector, \<open>src/inventory/windows.rs\<close>: the uninstall views of the machine and
  of every loaded user profile, and the updates recorded by Component Based Servicing. The
  registry is a tree of keys whose answers are inputs: the names that enumeration yields,
  the key or error that opening a path gives, and the typed reads of values. The sets of
  profiles and updates already seen are lists, which are only asked for membership.
\<close>

section \<open>The registry\<close>

text \<open>An error carries its text; that a key or value is missing is told apart.\<close>

datatype reg_error = RegNotFound string | RegError string

fun reg_error_display :: "reg_error \<Rightarrow> string" where
  "reg_error_display (RegNotFound e) = e"
| "reg_error_display (RegError e) = e"

datatype reg_key =
  RegKey (enum_keys: "(string + string) list") (open_key: "string \<Rightarrow> reg_error + reg_key")
    (get_text: "string \<Rightarrow> reg_error + string") (get_dword: "string \<Rightarrow> reg_error + u32")

definition reg_path :: "string list \<Rightarrow> string" where
  "reg_path parts = join [CHR 0x5C] parts"

definition UNINSTALL_KEYS :: "(string \<times> string) list" where
  "UNINSTALL_KEYS =
     [(reg_path [''SOFTWARE'', ''Microsoft'', ''Windows'', ''CurrentVersion'', ''Uninstall''], ''x86_64''),
      (reg_path [''SOFTWARE'', ''WOW6432Node'', ''Microsoft'', ''Windows'', ''CurrentVersion'', ''Uninstall''], ''x86'')]"

definition USER_UNINSTALL_KEYS :: "(string \<times> string) list" where
  "USER_UNINSTALL_KEYS =
     [(reg_path [''Software'', ''Microsoft'', ''Windows'', ''CurrentVersion'', ''Uninstall''], ''x86_64''),
      (reg_path [''Software'', ''WOW6432Node'', ''Microsoft'', ''Windows'', ''CurrentVersion'', ''Uninstall''], ''x86'')]"

definition CBS_PACKAGES :: string where
  "CBS_PACKAGES = reg_path [''SOFTWARE'', ''Microsoft'', ''Windows'', ''CurrentVersion'',
     ''Component Based Servicing'', ''Packages'']"

definition PROFILE_LIST :: string where
  "PROFILE_LIST = reg_path [''SOFTWARE'', ''Microsoft'', ''Windows NT'', ''CurrentVersion'', ''ProfileList'']"

definition CBS_STATE_INSTALLED :: u32 where "CBS_STATE_INSTALLED = 112"

section \<open>Scanning\<close>

text \<open>The vectors that the functions push to, and the completeness that they and together.\<close>

record scan =
  sc_entries :: "software_entry list"
  sc_warnings :: "string list"
  sc_complete :: bool

definition empty_scan :: scan where
  "empty_scan = \<lparr>sc_entries = [], sc_warnings = [], sc_complete = True\<rparr>"

definition warn :: "string \<Rightarrow> scan \<Rightarrow> scan" where
  "warn w s = s\<lparr>sc_warnings := sc_warnings s @ [w]\<rparr>"

definition fail :: "string \<Rightarrow> scan \<Rightarrow> scan" where
  "fail w s = s\<lparr>sc_warnings := sc_warnings s @ [w], sc_complete := False\<rparr>"

definition found :: "software_entry \<Rightarrow> scan \<Rightarrow> scan" where
  "found e s = s\<lparr>sc_entries := sc_entries s @ [e]\<rparr>"

lemma scan_simps [simp]:
  "sc_entries (warn w s) = sc_entries s" "sc_entries (fail w s) = sc_entries s" "sc_entries (found e s) = sc_entries s @ [e]"
  "sc_warnings (warn w s) = sc_warnings s @ [w]" "sc_warnings (fail w s) = sc_warnings s @ [w]"
  "sc_warnings (found e s) = sc_warnings s" "sc_complete (warn w s) = sc_complete s" "\<not> sc_complete (fail w s)"
  "sc_complete (found e s) = sc_complete s"
  by (simp_all add: warn_def fail_def found_def)

definition is_user_profile_sid :: "string \<Rightarrow> bool" where
  "is_user_profile_sid name \<longleftrightarrow> starts_with name ''S-1-5-21'' \<and> \<not> ends_with name ''_Classes''"

definition looks_like_product_guid :: "string \<Rightarrow> bool" where
  "looks_like_product_guid name =
     (let trimmed = trim name in
      utf8_len trimmed = 38 \<and> starts_with trimmed [CHR 0x7B] \<and> ends_with trimmed [CHR 0x7D]
      \<and> list_all (\<lambda>c. is_ascii_hexdigit c \<or> c = CHR ''-'') (butlast (tl trimmed)))"

definition is_msi_entry :: "reg_key \<Rightarrow> string \<Rightarrow> bool" where
  "is_msi_entry subkey key_name \<longleftrightarrow> get_dword subkey ''WindowsInstaller'' = Inr 1 \<or> looks_like_product_guid key_name"

definition read_optional_string :: "reg_key \<Rightarrow> string \<Rightarrow> scan \<Rightarrow> string option \<times> scan" where
  "read_optional_string key name s =
     (case get_text key name of
        Inr v \<Rightarrow> (Some v, s)
      | Inl (RegNotFound _) \<Rightarrow> (None, s)
      | Inl (RegError _) \<Rightarrow> (None, fail ''registry_value_unreadable'' s))"

definition uninstall_software ::
  "collect_env \<Rightarrow> string \<Rightarrow> installation_scope \<Rightarrow> string \<Rightarrow> string \<Rightarrow> bool \<Rightarrow> string
   \<Rightarrow> string option \<Rightarrow> string option \<Rightarrow> string option \<Rightarrow> software_entry" where
  "uninstall_software env architecture scope private_context name msi display_name version publisher location =
     with_instance (ce_sha env)
       (blank_entry\<lparr>se_name := display_name, se_version := Option.bind version non_empty,
          se_publisher := Option.bind publisher non_empty, se_architecture := Some architecture,
          se_source := (if msi then Msi else Winreg), se_install_location := Option.bind location non_empty\<rparr>)
       (if msi then Some name else None) scope
       (private_context @ '':'' @ architecture @ '':'' @ name)"

definition uninstall_item ::
  "collect_env \<Rightarrow> reg_key \<Rightarrow> string \<Rightarrow> installation_scope \<Rightarrow> string \<Rightarrow> string + string \<Rightarrow> scan \<Rightarrow> scan" where
  "uninstall_item env key architecture scope private_context item s =
     (case item of
        Inl e \<Rightarrow> fail (''failed to enumerate uninstall subkey: '' @ e) s
      | Inr name \<Rightarrow>
          (case open_key key name of
             Inl e \<Rightarrow> fail (''failed to open uninstall entry '' @ name @ '': '' @ reg_error_display e) s
           | Inr subkey \<Rightarrow>
               (let (display, s) = read_optional_string subkey ''DisplayName'' s in
                case Option.bind display non_empty of
                  None \<Rightarrow> s
                | Some display_name \<Rightarrow>
                    (let (version, s) = read_optional_string subkey ''DisplayVersion'' s;
                         (publisher, s) = read_optional_string subkey ''Publisher'' s;
                         (location, s) = read_optional_string subkey ''InstallLocation'' s
                     in found (uninstall_software env architecture scope private_context name
                          (is_msi_entry subkey name) display_name version publisher location) s))))"

definition collect_from_key ::
  "collect_env \<Rightarrow> reg_key \<Rightarrow> string \<Rightarrow> installation_scope \<Rightarrow> string \<Rightarrow> scan \<Rightarrow> scan" where
  "collect_from_key env key architecture scope private_context s =
     fold (uninstall_item env key architecture scope private_context) (enum_keys key) s"

definition machine_view :: "collect_env \<Rightarrow> reg_key \<Rightarrow> string \<times> string \<Rightarrow> scan \<Rightarrow> scan" where
  "machine_view env hklm view s =
     (case open_key hklm (fst view) of
        Inr key \<Rightarrow> collect_from_key env key (snd view) SystemScope (fst view) s
      | Inl (RegNotFound _) \<Rightarrow> s
      | Inl (RegError e) \<Rightarrow> fail (''failed to open '' @ fst view @ '': '' @ e) s)"

definition user_view :: "collect_env \<Rightarrow> string \<Rightarrow> reg_key \<Rightarrow> string \<times> string \<Rightarrow> scan \<Rightarrow> scan" where
  "user_view env name hive view s =
     (case open_key hive (fst view) of
        Inr key \<Rightarrow> collect_from_key env key (snd view) UserScope (name @ '':'' @ fst view) s
      | Inl (RegNotFound _) \<Rightarrow> s
      | Inl (RegError e) \<Rightarrow> fail (''failed to open '' @ fst view @ '' for user profile '' @ name @ '': '' @ e) s)"

text \<open>One enumerated hive; the state has the profiles that were read.\<close>

definition user_hive ::
  "collect_env \<Rightarrow> reg_key \<Rightarrow> string + string \<Rightarrow> string list \<times> scan \<Rightarrow> string list \<times> scan" where
  "user_hive env users item st =
     (let (profiles, s) = st in
      case item of
        Inl e \<Rightarrow> (profiles, fail (''failed to enumerate a user profile hive: '' @ e) s)
      | Inr name \<Rightarrow>
          if \<not> is_user_profile_sid name then (profiles, s)
          else case open_key users name of
            Inl e \<Rightarrow> (profiles, fail (''failed to open user profile hive '' @ name @ '': '' @ reg_error_display e) s)
          | Inr hive \<Rightarrow> (List.insert name profiles, fold (user_view env name hive) USER_UNINSTALL_KEYS s))"

text \<open>One entry of the profile list; the state has whether a profile is not loaded.\<close>

definition listed_profile :: "string list \<Rightarrow> string + string \<Rightarrow> bool \<times> scan \<Rightarrow> bool \<times> scan" where
  "listed_profile profiles item st =
     (let (inactive, s) = st in
      case item of
        Inl _ \<Rightarrow> (inactive, fail ''user profile list unreadable'' s)
      | Inr sid \<Rightarrow> if is_user_profile_sid sid \<and> sid \<notin> set profiles
                   then (True, warn ''an inactive user profile was not collected'' s) else (inactive, s))"

definition collect_user_scope :: "collect_env \<Rightarrow> reg_key \<Rightarrow> reg_key \<Rightarrow> scan \<Rightarrow> bool \<times> scan" where
  "collect_user_scope env hklm users s =
     (let (profiles, s) = fold (user_hive env users) (enum_keys users) ([], s) in
      case open_key hklm PROFILE_LIST of
        Inr profile_list \<Rightarrow> fold (listed_profile profiles) (enum_keys profile_list) (False, s)
      | Inl (RegNotFound _) \<Rightarrow> (False, s)
      | Inl (RegError _) \<Rightarrow> (False, fail ''user profile list unreadable'' s))"

section \<open>Updates\<close>

definition ascii_upper :: "char \<Rightarrow> char" where
  "ascii_upper c = (if is_ascii_lowercase c then char_of (scalar c - 32) else c)"

fun after_first :: "string \<Rightarrow> string \<Rightarrow> string option" where
  "after_first p [] = (if p = [] then Some [] else None)"
| "after_first p (c # s) = (if starts_with (c # s) p then Some (drop (length p) (c # s)) else after_first p s)"

definition kb_id_from_package_name :: "string \<Rightarrow> string option" where
  "kb_id_from_package_name name =
     (case after_first ''KB'' (map ascii_upper name) of
        None \<Rightarrow> None
      | Some rest \<Rightarrow>
          (let digits = takeWhile is_ascii_digit rest in
           if 6 \<le> length digits \<and> length digits \<le> 8 then Some (''KB'' @ digits) else None))"

definition update_entry :: "collect_env \<Rightarrow> string \<Rightarrow> software_entry" where
  "update_entry env kb =
     with_instance (ce_sha env)
       (blank_entry\<lparr>se_name := kb, se_publisher := Some ''Microsoft Corporation'', se_source := Kb\<rparr>)
       (Some kb) SystemScope kb"

definition update_package ::
  "collect_env \<Rightarrow> reg_key \<Rightarrow> string + string \<Rightarrow> string list \<times> scan \<Rightarrow> string list \<times> scan" where
  "update_package env packages item st =
     (let (known, s) = st in
      case item of
        Inl e \<Rightarrow> (known, fail (''failed to enumerate an installed update: '' @ e) s)
      | Inr name \<Rightarrow>
          (case kb_id_from_package_name name of
             None \<Rightarrow> (known, s)
           | Some kb \<Rightarrow>
               if kb \<in> set known then (known, s)
               else case open_key packages name of
                 Inl e \<Rightarrow> (known, fail (''failed to open installed update '' @ name @ '': '' @ reg_error_display e) s)
               | Inr package \<Rightarrow>
                   (case get_dword package ''CurrentState'' of
                      Inl _ \<Rightarrow> (known, fail ''registry_value_unreadable'' s)
                    | Inr state \<Rightarrow>
                        if state = CBS_STATE_INSTALLED then (List.insert kb known, found (update_entry env kb) s)
                        else (known, s))))"

definition collect_updates :: "collect_env \<Rightarrow> reg_key \<Rightarrow> scan \<Rightarrow> scan" where
  "collect_updates env hklm s =
     (case open_key hklm CBS_PACKAGES of
        Inl (RegNotFound _) \<Rightarrow> warn ''Component Based Servicing has no package list'' s
      | Inl (RegError e) \<Rightarrow> fail (''failed to read installed updates: '' @ e) s
      | Inr packages \<Rightarrow>
          (let (known, s) = fold (update_package env packages) (enum_keys packages) ([], s) in
           if known = [] then warn ''no installed updates found under Component Based Servicing'' s else s))"

section \<open>The collector\<close>

definition source_state ::
  "collect_env \<Rightarrow> software_entry list \<Rightarrow> software_source \<Rightarrow> bool \<Rightarrow> bool \<Rightarrow> collection_source" where
  "source_state env entries source healthy gap =
     new_source env source
       (if healthy \<and> \<not> gap then Complete
        else if list_ex (\<lambda>e. se_source e = source) entries then Partial else Failed)
       (if \<not> healthy then Some ''collection_failed'' else if gap then Some ''inactive_user_profile'' else None)"

definition collect_sync :: "collect_env \<Rightarrow> reg_key \<Rightarrow> reg_key \<Rightarrow> collector_result" where
  "collect_sync env hklm users =
     (let s = fold (machine_view env hklm) UNINSTALL_KEYS empty_scan;
          (inactive_profiles, s) = collect_user_scope env hklm users s;
          registry_complete = sc_complete s;
          s = collect_updates env hklm (s\<lparr>sc_complete := True\<rparr>);
          updates_complete = sc_complete s;
          s = s\<lparr>sc_complete := registry_complete \<and> updates_complete\<rparr>;
          s = (if sc_entries s = [] \<and> sc_warnings s = []
               then fail ''no entries found under either uninstall registry view'' s else s)
      in \<lparr>cr_entries = sc_entries s, cr_warnings = sc_warnings s, cr_complete = sc_complete s,
          cr_sources = [source_state env (sc_entries s) Winreg registry_complete inactive_profiles,
                        source_state env (sc_entries s) Msi registry_complete inactive_profiles,
                        source_state env (sc_entries s) Kb updates_complete False]\<rparr>)"

text \<open>The blocking task of \<open>collect\<close> may panic.\<close>

definition windows_collect :: "collect_env \<Rightarrow> bool \<Rightarrow> reg_key \<Rightarrow> reg_key \<Rightarrow> collector_result" where
  "windows_collect env panicked hklm users =
     (if panicked
      then merge (merge (failed_result env Winreg ''collector_panicked'') (failed_result env Msi ''collector_panicked''))
             (failed_result env Kb ''collector_panicked'')
      else collect_sync env hklm users)"


section \<open>What the scan finds\<close>

text \<open>The walk as a whole: the software that a key's answers amount to, and whether every read succeeded.\<close>

definition text_of :: "reg_key \<Rightarrow> string \<Rightarrow> string option" where
  "text_of key name = (case get_text key name of Inr v \<Rightarrow> Some v | Inl _ \<Rightarrow> None)"

definition text_readable :: "reg_key \<Rightarrow> string \<Rightarrow> bool" where
  "text_readable key name \<longleftrightarrow> (case get_text key name of Inl (RegError _) \<Rightarrow> False | _ \<Rightarrow> True)"

definition display_name :: "reg_key \<Rightarrow> string option" where
  "display_name subkey = Option.bind (text_of subkey ''DisplayName'') non_empty"

definition item_software ::
  "collect_env \<Rightarrow> reg_key \<Rightarrow> string \<Rightarrow> installation_scope \<Rightarrow> string \<Rightarrow> string + string \<Rightarrow> software_entry list" where
  "item_software env key architecture scope private_context item =
     (case item of
        Inl _ \<Rightarrow> []
      | Inr name \<Rightarrow>
          (case open_key key name of
             Inl _ \<Rightarrow> []
           | Inr subkey \<Rightarrow>
               (case display_name subkey of
                  None \<Rightarrow> []
                | Some d \<Rightarrow> [uninstall_software env architecture scope private_context name (is_msi_entry subkey name) d
                     (text_of subkey ''DisplayVersion'') (text_of subkey ''Publisher'') (text_of subkey ''InstallLocation'')])))"

definition item_readable :: "reg_key \<Rightarrow> string + string \<Rightarrow> bool" where
  "item_readable key item \<longleftrightarrow>
     (case item of
        Inl _ \<Rightarrow> False
      | Inr name \<Rightarrow>
          (case open_key key name of
             Inl _ \<Rightarrow> False
           | Inr subkey \<Rightarrow> text_readable subkey ''DisplayName''
               \<and> (display_name subkey = None
                  \<or> list_all (text_readable subkey) [''DisplayVersion'', ''Publisher'', ''InstallLocation''])))"

definition view_software ::
  "collect_env \<Rightarrow> reg_key \<Rightarrow> installation_scope \<Rightarrow> string \<Rightarrow> string \<times> string \<Rightarrow> software_entry list" where
  "view_software env parent scope private_context view =
     (case open_key parent (fst view) of
        Inl _ \<Rightarrow> []
      | Inr key \<Rightarrow> concat (map (item_software env key (snd view) scope (private_context @ fst view)) (enum_keys key)))"

definition view_readable :: "reg_key \<Rightarrow> string \<times> string \<Rightarrow> bool" where
  "view_readable parent view \<longleftrightarrow>
     (case open_key parent (fst view) of
        Inl (RegNotFound _) \<Rightarrow> True
      | Inl (RegError _) \<Rightarrow> False
      | Inr key \<Rightarrow> list_all (item_readable key) (enum_keys key))"

definition hive_software :: "collect_env \<Rightarrow> reg_key \<Rightarrow> string + string \<Rightarrow> software_entry list" where
  "hive_software env users item =
     (case item of
        Inl _ \<Rightarrow> []
      | Inr name \<Rightarrow>
          if \<not> is_user_profile_sid name then []
          else (case open_key users name of
             Inl _ \<Rightarrow> []
           | Inr hive \<Rightarrow> concat (map (view_software env hive UserScope (name @ '':'')) USER_UNINSTALL_KEYS)))"

definition hive_readable :: "reg_key \<Rightarrow> string + string \<Rightarrow> bool" where
  "hive_readable users item \<longleftrightarrow>
     (case item of
        Inl _ \<Rightarrow> False
      | Inr name \<Rightarrow> \<not> is_user_profile_sid name
          \<or> (case open_key users name of Inl _ \<Rightarrow> False | Inr hive \<Rightarrow> list_all (view_readable hive) USER_UNINSTALL_KEYS))"

definition loaded_profiles :: "reg_key \<Rightarrow> string set" where
  "loaded_profiles users = {n. Inr n \<in> set (enum_keys users) \<and> is_user_profile_sid n \<and> is_ok (open_key users n)}"

definition profile_entries :: "reg_key \<Rightarrow> (string + string) list" where
  "profile_entries hklm = (case open_key hklm PROFILE_LIST of Inl _ \<Rightarrow> [] | Inr key \<Rightarrow> enum_keys key)"

definition profile_list_readable :: "reg_key \<Rightarrow> bool" where
  "profile_list_readable hklm \<longleftrightarrow>
     (case open_key hklm PROFILE_LIST of
        Inl (RegNotFound _) \<Rightarrow> True | Inl (RegError _) \<Rightarrow> False | Inr key \<Rightarrow> list_all is_ok (enum_keys key))"

definition inactive_profile :: "reg_key \<Rightarrow> reg_key \<Rightarrow> bool" where
  "inactive_profile hklm users \<longleftrightarrow>
     (\<exists>sid. Inr sid \<in> set (profile_entries hklm) \<and> is_user_profile_sid sid \<and> sid \<notin> loaded_profiles users)"

definition registry_software :: "collect_env \<Rightarrow> reg_key \<Rightarrow> reg_key \<Rightarrow> software_entry list" where
  "registry_software env hklm users =
     concat (map (view_software env hklm SystemScope []) UNINSTALL_KEYS)
     @ concat (map (hive_software env users) (enum_keys users))"

definition registry_readable :: "reg_key \<Rightarrow> reg_key \<Rightarrow> bool" where
  "registry_readable hklm users \<longleftrightarrow> list_all (view_readable hklm) UNINSTALL_KEYS
     \<and> list_all (hive_readable users) (enum_keys users) \<and> profile_list_readable hklm"

text \<open>A step of a scan that appends and may lose completeness, and a fold of such steps.\<close>

definition scans :: "(scan \<Rightarrow> scan) \<Rightarrow> software_entry list \<Rightarrow> bool \<Rightarrow> bool" where
  "scans f es ok \<longleftrightarrow> (\<forall>s. sc_entries (f s) = sc_entries s @ es \<and> (sc_complete (f s) \<longleftrightarrow> sc_complete s \<and> ok))"

lemma scansI:
  "(\<And>s. sc_entries (f s) = sc_entries s @ es) \<Longrightarrow> (\<And>s. sc_complete (f s) \<longleftrightarrow> sc_complete s \<and> ok) \<Longrightarrow> scans f es ok"
  by (simp add: scans_def)

lemma scans_basic [simp]: "scans (\<lambda>s. s) [] True" "scans (warn w) [] True" "scans (fail w) [] False" "scans (found e) [e] True"
  by (simp_all add: scans_def)

lemma scans_comp: "scans f es ok \<Longrightarrow> scans g es' ok' \<Longrightarrow> scans (\<lambda>s. g (f s)) (es @ es') (ok \<and> ok')"
  by (auto simp: scans_def)

lemma scans_fold: "(\<And>x. scans (f x) (g x) (p x)) \<Longrightarrow> scans (fold f xs) (concat (map g xs)) (list_all p xs)"
  by (induction xs) (auto simp: scans_def)

lemma read_optional_string_eq:
  "read_optional_string key name s
   = (text_of key name, if text_readable key name then s else fail ''registry_value_unreadable'' s)"
  by (auto simp: read_optional_string_def text_of_def text_readable_def split: sum.splits reg_error.splits)

lemma uninstall_item_scans:
  "scans (uninstall_item env key architecture scope ctx item) (item_software env key architecture scope ctx item)
     (item_readable key item)"
  by (rule scansI)
    (auto simp: uninstall_item_def item_software_def item_readable_def read_optional_string_eq display_name_def
      split: sum.splits option.splits)

lemma collect_from_key_scans:
  "scans (collect_from_key env key architecture scope ctx)
     (concat (map (item_software env key architecture scope ctx) (enum_keys key))) (list_all (item_readable key) (enum_keys key))"
  unfolding collect_from_key_def by (rule scans_fold) (rule uninstall_item_scans)

lemma view_scans:
  "scans (machine_view env hklm view) (view_software env hklm SystemScope [] view) (view_readable hklm view)"
  "scans (user_view env name hive view) (view_software env hive UserScope (name @ '':'') view) (view_readable hive view)"
  using collect_from_key_scans
  by (auto simp: machine_view_def user_view_def view_software_def view_readable_def scans_def split: sum.splits reg_error.splits)

lemma user_hives:
  assumes "fold (user_hive env users) items (ps, s) = (ps', s')"
  shows "sc_entries s' = sc_entries s @ concat (map (hive_software env users) items)
    \<and> (sc_complete s' \<longleftrightarrow> sc_complete s \<and> list_all (hive_readable users) items)
    \<and> set ps' = set ps \<union> {n. Inr n \<in> set items \<and> is_user_profile_sid n \<and> is_ok (open_key users n)}"
  using assms
proof (induction items arbitrary: ps s)
  case (Cons item items)
  obtain ps1 s1 where 1: "user_hive env users item (ps, s) = (ps1, s1)" by force
  have views: "scans (fold (user_view env name hive) USER_UNINSTALL_KEYS)
      (concat (map (view_software env hive UserScope (name @ '':'')) USER_UNINSTALL_KEYS))
      (list_all (view_readable hive) USER_UNINSTALL_KEYS)" for name hive
    by (rule scans_fold) (rule view_scans)
  have "sc_entries s1 = sc_entries s @ hive_software env users item
    \<and> (sc_complete s1 \<longleftrightarrow> sc_complete s \<and> hive_readable users item)
    \<and> set ps1 = set ps \<union> {n. item = Inr n \<and> is_user_profile_sid n \<and> is_ok (open_key users n)}"
    using 1 views
    by (auto simp: user_hive_def hive_software_def hive_readable_def scans_def is_ok_iff split: sum.splits if_splits)
  moreover have "fold (user_hive env users) items (ps1, s1) = (ps', s')" using Cons.prems 1 by simp
  ultimately show ?case using Cons.IH [of ps1 s1] by auto
qed simp

lemma listed_profiles:
  assumes "fold (listed_profile profiles) items (b, s) = (b', s')"
  shows "sc_entries s' = sc_entries s \<and> (sc_complete s' \<longleftrightarrow> sc_complete s \<and> list_all is_ok items)
    \<and> (b' \<longleftrightarrow> b \<or> (\<exists>sid. Inr sid \<in> set items \<and> is_user_profile_sid sid \<and> sid \<notin> set profiles))"
  using assms
proof (induction items arbitrary: b s)
  case (Cons item items)
  obtain b1 s1 where 1: "listed_profile profiles item (b, s) = (b1, s1)" by force
  have "sc_entries s1 = sc_entries s \<and> (sc_complete s1 \<longleftrightarrow> sc_complete s \<and> is_ok item)
    \<and> (b1 \<longleftrightarrow> b \<or> (\<exists>sid. item = Inr sid \<and> is_user_profile_sid sid \<and> sid \<notin> set profiles))"
    using 1 by (auto simp: listed_profile_def split: sum.splits if_splits)
  moreover have "fold (listed_profile profiles) items (b1, s1) = (b', s')" using Cons.prems 1 by simp
  ultimately show ?case using Cons.IH [of b1 s1] by auto
qed simp

lemma user_scope:
  assumes "collect_user_scope env hklm users s = (inactive, s')"
  shows "sc_entries s' = sc_entries s @ concat (map (hive_software env users) (enum_keys users))
    \<and> (sc_complete s' \<longleftrightarrow> sc_complete s \<and> list_all (hive_readable users) (enum_keys users) \<and> profile_list_readable hklm)
    \<and> (inactive \<longleftrightarrow> inactive_profile hklm users)"
proof -
  obtain ps s1 where 1: "fold (user_hive env users) (enum_keys users) ([], s) = (ps, s1)" by force
  note hives = user_hives [OF 1]
  then have ps: "set ps = loaded_profiles users" by (simp add: loaded_profiles_def)
  show ?thesis
    using assms 1 hives listed_profiles [of ps _ False s1] ps
    by (auto simp: collect_user_scope_def profile_list_readable_def inactive_profile_def profile_entries_def
        split: sum.splits reg_error.splits)
qed

text \<open>The updates whose recorded state says that they are installed, and the entries whose state is known.\<close>

definition installed_update :: "reg_key \<Rightarrow> string + string \<Rightarrow> string \<Rightarrow> bool" where
  "installed_update packages item kb \<longleftrightarrow> (\<exists>name package. item = Inr name \<and> kb_id_from_package_name name = Some kb
     \<and> open_key packages name = Inr package \<and> get_dword package ''CurrentState'' = Inr CBS_STATE_INSTALLED)"

definition update_known :: "reg_key \<Rightarrow> string + string \<Rightarrow> bool" where
  "update_known packages item \<longleftrightarrow> (case item of
      Inl _ \<Rightarrow> False
    | Inr name \<Rightarrow> (case open_key packages name of Inl _ \<Rightarrow> False | Inr package \<Rightarrow> is_ok (get_dword package ''CurrentState'')))"

lemma update_packages:
  assumes "fold (update_package env packages) items ([], s) = (known, s')"
  shows "sc_entries s' = sc_entries s @ map (update_entry env) (rev known)
    \<and> distinct known \<and> set known = {kb. \<exists>item\<in>set items. installed_update packages item kb}
    \<and> (sc_complete s' \<longrightarrow> sc_complete s \<and> (\<forall>item\<in>set items. is_ok item
         \<and> (\<forall>name kb. item = Inr name \<longrightarrow> kb_id_from_package_name name = Some kb \<longrightarrow> kb \<in> set known \<or> update_known packages item)))"
  using assms
proof (induction items arbitrary: known s' rule: rev_induct)
  case (snoc item items)
  obtain ks s1 where 1: "fold (update_package env packages) items ([], s) = (ks, s1)" by force
  note ih = snoc.IH [OF 1]
  have step: "update_package env packages item (ks, s1) = (known, s')" using snoc.prems 1 by simp
  have "sc_entries s' = sc_entries s @ map (update_entry env) (rev known) \<and> distinct known
    \<and> set known = set ks \<union> {kb. installed_update packages item kb}"
    using step ih by (auto simp: update_package_def installed_update_def List.insert_def split: sum.splits option.splits if_splits)
  moreover have "sc_complete s' \<longrightarrow> sc_complete s1 \<and> is_ok item
      \<and> (\<forall>name kb. item = Inr name \<longrightarrow> kb_id_from_package_name name = Some kb \<longrightarrow> kb \<in> set known \<or> update_known packages item)"
    using step by (auto simp: update_package_def update_known_def split: sum.splits option.splits if_splits)
  ultimately show ?case using ih by auto
qed simp

definition update_items :: "reg_key \<Rightarrow> (string + string) list" where
  "update_items hklm = (case open_key hklm CBS_PACKAGES of Inl _ \<Rightarrow> [] | Inr packages \<Rightarrow> enum_keys packages)"

definition installed_updates :: "reg_key \<Rightarrow> string set" where
  "installed_updates hklm = (case open_key hklm CBS_PACKAGES of
      Inl _ \<Rightarrow> {} | Inr packages \<Rightarrow> {kb. \<exists>item\<in>set (enum_keys packages). installed_update packages item kb})"

lemma updates_found:
  "\<exists>kbs. sc_entries (collect_updates env hklm s) = sc_entries s @ map (update_entry env) kbs
     \<and> distinct kbs \<and> set kbs = installed_updates hklm"
proof (cases "open_key hklm CBS_PACKAGES")
  case (Inl e)
  then show ?thesis
    by (intro exI [of _ "[]"]) (cases e, simp_all add: collect_updates_def installed_updates_def)
next
  case (Inr packages)
  obtain known s' where f: "fold (update_package env packages) (enum_keys packages) ([], s) = (known, s')" by force
  show ?thesis
    using update_packages [OF f] f Inr
    by (intro exI [of _ "rev known"]) (simp add: collect_updates_def installed_updates_def)
qed

text \<open>A scan that found nothing at all has left a warning.\<close>

lemma updates_warn:
  assumes "sc_entries (collect_updates env hklm s) = []"
  shows "sc_warnings (collect_updates env hklm s) \<noteq> []"
proof (cases "open_key hklm CBS_PACKAGES")
  case (Inl e)
  then show ?thesis by (cases e) (simp_all add: collect_updates_def)
next
  case (Inr packages)
  obtain known s' where f: "fold (update_package env packages) (enum_keys packages) ([], s) = (known, s')" by force
  show ?thesis using update_packages [OF f] f Inr assms by (cases known) (auto simp: collect_updates_def)
qed

section \<open>What the collector reports\<close>

definition updates_complete :: "collect_env \<Rightarrow> reg_key \<Rightarrow> bool" where
  "updates_complete env hklm \<longleftrightarrow> sc_complete (collect_updates env hklm empty_scan)"

lemma fold_update_complete:
  "fst (fold (update_package env packages) items (ks, s)) = fst (fold (update_package env packages) items (ks, s'))
   \<and> (sc_complete s = sc_complete s' \<longrightarrow>
      sc_complete (snd (fold (update_package env packages) items (ks, s)))
      = sc_complete (snd (fold (update_package env packages) items (ks, s'))))"
proof (induction items arbitrary: ks s s')
  case (Cons item items)
  obtain k1 s1 where 1: "update_package env packages item (ks, s) = (k1, s1)" by force
  obtain k2 s2 where 2: "update_package env packages item (ks, s') = (k2, s2)" by force
  have "k1 = k2 \<and> (sc_complete s = sc_complete s' \<longrightarrow> sc_complete s1 = sc_complete s2)"
    using 1 2 by (auto simp: update_package_def split: sum.splits option.splits if_splits)
  then show ?case using Cons.IH [of k1 s1 s2] 1 2 by simp
qed simp

lemma collect_updates_complete:
  "sc_complete s \<Longrightarrow> sc_complete (collect_updates env hklm s) \<longleftrightarrow> updates_complete env hklm"
  using fold_update_complete [of env _ _ "[]" s empty_scan]
  by (auto simp: collect_updates_def updates_complete_def empty_scan_def prod.case_eq_if Let_def
      split: sum.splits reg_error.splits)

lemma collect_sync_eq:
  obtains kbs warnings where
    "collect_sync env hklm users =
       (let entries = registry_software env hklm users @ map (update_entry env) kbs in
        \<lparr>cr_entries = entries, cr_warnings = warnings,
         cr_complete = (registry_readable hklm users \<and> updates_complete env hklm),
         cr_sources = [source_state env entries Winreg (registry_readable hklm users) (inactive_profile hklm users),
                       source_state env entries Msi (registry_readable hklm users) (inactive_profile hklm users),
                       source_state env entries Kb (updates_complete env hklm) False]\<rparr>)"
    and "distinct kbs" and "set kbs = installed_updates hklm"
proof -
  let ?s = "fold (machine_view env hklm) UNINSTALL_KEYS empty_scan"
  obtain inactive s1 where u: "collect_user_scope env hklm users ?s = (inactive, s1)" by force
  let ?s2 = "collect_updates env hklm (s1\<lparr>sc_complete := True\<rparr>)"
  have "scans (fold (machine_view env hklm) UNINSTALL_KEYS)
      (concat (map (view_software env hklm SystemScope []) UNINSTALL_KEYS)) (list_all (view_readable hklm) UNINSTALL_KEYS)"
    by (rule scans_fold) (rule view_scans)
  then have s: "sc_entries s1 = registry_software env hklm users" "sc_complete s1 \<longleftrightarrow> registry_readable hklm users"
    "inactive \<longleftrightarrow> inactive_profile hklm users"
    using user_scope [OF u]
    by (auto simp: scans_def empty_scan_def registry_software_def registry_readable_def)
  obtain kbs where k: "sc_entries ?s2 = sc_entries s1 @ map (update_entry env) kbs" "distinct kbs" "set kbs = installed_updates hklm"
    using updates_found [of env hklm "s1\<lparr>sc_complete := True\<rparr>"] by auto
  have "sc_complete ?s2 \<longleftrightarrow> updates_complete env hklm" by (rule collect_updates_complete) simp
  moreover have "\<not> (sc_entries ?s2 = [] \<and> sc_warnings ?s2 = [])" using updates_warn by blast
  ultimately show thesis
    using k s u by (intro that [of kbs "sc_warnings ?s2"]) (simp_all add: collect_sync_def Let_def)
qed

lemma uninstall_software_source:
  "se_source (uninstall_software env architecture scope ctx name msi d v p l) = (if msi then Msi else Winreg)"
  "se_installation_identity (uninstall_software env architecture scope ctx name msi d v p l) = None"
  by (simp_all add: uninstall_software_def with_instance_def blank_entry_def)

definition registry_entry :: "software_entry \<Rightarrow> bool" where
  "registry_entry e \<longleftrightarrow> se_source e \<in> {Winreg, Msi} \<and> se_installation_identity e = None"

lemma item_software_source: "list_all registry_entry (item_software env key architecture scope ctx item)"
  by (auto simp: item_software_def uninstall_software_source registry_entry_def split: sum.splits option.splits)

lemma view_software_source: "list_all registry_entry (view_software env parent scope ctx view)"
  using item_software_source by (auto simp: view_software_def list_all_iff split: sum.splits)

lemma hive_software_source: "list_all registry_entry (hive_software env users item)"
  using view_software_source by (auto simp: hive_software_def list_all_iff split: sum.splits)

lemma registry_software_source: "list_all registry_entry (registry_software env hklm users)"
  using view_software_source hive_software_source by (auto simp: registry_software_def list_all_iff)

lemma update_entry_source: "se_source (update_entry env kb) = Kb" "se_installation_identity (update_entry env kb) = None"
  by (simp_all add: update_entry_def with_instance_def blank_entry_def)

lemma source_state_fields:
  "cs_source (source_state env entries source healthy gap) = source"
  "cs_status (source_state env entries source healthy gap) = (if healthy \<and> \<not> gap then Complete
     else if list_ex (\<lambda>e. se_source e = source) entries then Partial else Failed)"
  by (simp_all add: source_state_def)

lemma source_state_valid: "usable_env env \<Longrightarrow> valid_source (source_state env entries source healthy gap)"
  unfolding source_state_def
  by (rule new_source_valid) (auto simp: code_warning_def utf8_len_def scalar_def diagnostic_char_def char_class_defs split: if_splits)

lemma source_state_failed:
  "cs_status (source_state env entries source healthy gap) \<in> {Failed, NotApplicable} \<Longrightarrow> e \<in> set entries \<Longrightarrow> se_source e \<noteq> source"
  by (auto simp: source_state_fields list_ex_iff split: if_splits)

lemma windows_reported_once:
  assumes "usable_env env"
  shows "reported_once [Winreg, Msi, Kb] (windows_collect env panicked hklm users)"
proof (cases panicked)
  case True
  have "reported [Winreg] (failed_result env Winreg ''collector_panicked'')"
    "reported [Msi] (failed_result env Msi ''collector_panicked'')" "reported [Kb] (failed_result env Kb ''collector_panicked'')"
    using reported_failed [OF assms code_constants(3)] by blast+
  then have "reported (([Winreg] @ [Msi]) @ [Kb]) (windows_collect env panicked hklm users)"
    using True unfolding windows_collect_def by (simp only: if_True) (intro reported_merge; simp)
  then show ?thesis by (auto simp: reported_def reported_once_def)
next
  case False
  obtain kbs ws where eq: "collect_sync env hklm users =
       (let entries = registry_software env hklm users @ map (update_entry env) kbs in
        \<lparr>cr_entries = entries, cr_warnings = ws,
         cr_complete = (registry_readable hklm users \<and> updates_complete env hklm),
         cr_sources = [source_state env entries Winreg (registry_readable hklm users) (inactive_profile hklm users),
                       source_state env entries Msi (registry_readable hklm users) (inactive_profile hklm users),
                       source_state env entries Kb (updates_complete env hklm) False]\<rparr>)"
    by (rule collect_sync_eq)
  let ?entries = "registry_software env hklm users @ map (update_entry env) kbs"
  have "se_installation_identity e = None \<and> se_source e \<in> {Winreg, Msi, Kb}" if "e \<in> set ?entries" for e
    using that registry_software_source [of env hklm users] by (auto simp: list_all_iff registry_entry_def update_entry_source)
  moreover have "se_source e \<noteq> source"
    if "cs_status (source_state env ?entries source healthy gap) \<in> {Failed, NotApplicable}" "e \<in> set ?entries" for e source healthy gap
    by (rule source_state_failed [OF that])
  ultimately show ?thesis
    using False unfolding reported_once_def windows_collect_def eq Let_def
    by (simp add: source_state_fields(1) source_state_valid [OF assms]) blast
qed

interpretation windows: source_collector
  "\<lambda>(env, panicked, hklm, users). windows_collect env panicked hklm users" "\<lambda>(env, _). usable_env env" "[Winreg, Msi, Kb]"
  by unfold_locales (auto simp: windows_reported_once)


text \<open>
  The warning for an empty registry is never given: on a machine without any uninstall view
  and without a list of packages the empty result counts as complete.
\<close>

definition blank_key :: reg_key where
  "blank_key = RegKey [] (\<lambda>_. Inl (RegNotFound ''not found'')) (\<lambda>_. Inl (RegNotFound ''not found''))
     (\<lambda>_. Inl (RegNotFound ''not found''))"

lemma empty_registry_is_complete:
  "cr_entries (windows_collect env False blank_key blank_key) = [] \<and> cr_complete (windows_collect env False blank_key blank_key)"
  by (simp add: windows_collect_def collect_sync_def blank_key_def collect_user_scope_def collect_updates_def
      machine_view_def UNINSTALL_KEYS_def empty_scan_def Let_def warn_def)

definition sample_machine :: reg_key where
  "sample_machine =
     (let app = RegKey [] (\<lambda>_. Inl (RegNotFound [])) (\<lambda>v. if v = ''DisplayName'' then Inr ''Editor'' else Inl (RegNotFound []))
                  (\<lambda>_. Inl (RegNotFound []));
          kb = RegKey [] (\<lambda>_. Inl (RegNotFound [])) (\<lambda>_. Inl (RegNotFound [])) (\<lambda>_. Inr 112)
      in RegKey []
        (\<lambda>p. if p = fst (hd UNINSTALL_KEYS) then Inr (RegKey [Inr ''Editor1''] (\<lambda>_. Inr app) (\<lambda>_. Inl (RegNotFound [])) (\<lambda>_. Inl (RegNotFound [])))
             else if p = CBS_PACKAGES then Inr (RegKey [Inr ''Package_for_KB5034123~31'', Inr ''Package_for_KB5034123~32'']
               (\<lambda>_. Inr kb) (\<lambda>_. Inl (RegNotFound [])) (\<lambda>_. Inl (RegNotFound [])))
             else Inl (RegNotFound []))
        (\<lambda>_. Inl (RegNotFound [])) (\<lambda>_. Inl (RegNotFound [])))"

definition plain_env :: collect_env where
  "plain_env = \<lparr>ce_now = (\<lambda>_. ''2026''), ce_version = ''1'', ce_sha = (\<lambda>_. []), ce_utf8_lossy = (\<lambda>_. [])\<rparr>"


end
