(* ===== verification/Trusted_Paths.thy ===== *)
theory Trusted_Paths
  imports Collection Update
begin

text \<open>
  The trust in paths of the privileged updater, \<open>src/native_update.rs\<close>: on Unix the owners
  and modes of the configuration, of the updater's directory and of all their ancestors, on
  Windows the report of owners and access lists that a fixed script prints. What \<open>lstat\<close>
  says of a path, the effective user, the outcomes of the file operations, the names in
  the environment and Rust's \<open>{:?}\<close> of a string are inputs.
\<close>

unbundle bit_operations_syntax

section \<open>Unix\<close>

record path_meta =
  pm_is_dir :: bool
  pm_is_symlink :: bool
  pm_uid :: u32
  pm_mode :: u32

text \<open>\<open>Path::ancestors\<close>: the path itself first, the root last.\<close>

definition ancestors :: "string \<Rightarrow> string list" where
  "ancestors p = map (\<lambda>k. (if is_absolute p then ''/'' else []) @ join ''/'' (take k (components p)))
     (rev [0..<Suc (length (components p))])"

definition has_dot_component :: "string \<Rightarrow> bool" where
  "has_dot_component p \<longleftrightarrow> ''..'' \<in> set (components p)
     \<or> \<not> is_absolute p \<and> hd (split_on (CHR ''/'') p) = ''.''"

text \<open>Writable by the group or by others: mode bits \<open>0o022\<close>.\<close>

definition endpoint_writable :: "path_meta \<Rightarrow> bool" where
  "endpoint_writable m \<longleftrightarrow> pm_mode m AND 18 \<noteq> 0"

fun check_ancestors :: "(string \<Rightarrow> string + path_meta) \<Rightarrow> string list \<Rightarrow> string + unit" where
  "check_ancestors lstat [] = Inr ()"
| "check_ancestors lstat (parent # rest) =
     (case lstat parent of
        Inl e \<Rightarrow> Inl (''native updater parent '' @ parent @ '': '' @ e)
      | Inr m \<Rightarrow>
          if \<not> pm_is_dir m \<or> pm_uid m \<noteq> 0 \<or> endpoint_writable m
          then Inl ''native updater parents must be existing root-owned directories inaccessible for endpoint writes''
          else check_ancestors lstat rest)"

definition trusted_directory_ancestors :: "(string \<Rightarrow> string + path_meta) \<Rightarrow> string \<Rightarrow> string + unit" where
  "trusted_directory_ancestors lstat path =
     (if has_dot_component path then Inl ''native updater directory path must be normalized''
      else check_ancestors lstat (ancestors path))"

datatype make_dir = Created | AlreadyExists | MakeFailed string

record root_io =
  ri_euid :: u32
  ri_lstat :: "string \<Rightarrow> string + path_meta"
  ri_create :: make_dir
  ri_created :: "string + path_meta"
  ri_chmod :: "string + unit"

definition path_parent :: "string \<Rightarrow> string option" where
  "path_parent p = (if length (ancestors p) < 2 then None else Some (ancestors p ! 1))"

definition private_root :: "target_os \<Rightarrow> update_config \<Rightarrow> root_io \<Rightarrow> string + string" where
  "private_root os uc io =
     (let root = native_state_dir os uc in
      if \<not> is_absolute root then Inl ''native updater state must be absolute''
      else if ri_euid io \<noteq> 0 then Inl ''native updater requires root''
      else case path_parent root of
        None \<Rightarrow> Inl ''native updater state has no parent''
      | Some parent \<Rightarrow>
          and_then (trusted_directory_ancestors (ri_lstat io) parent) (\<lambda>_.
          and_then (case ri_create io of MakeFailed e \<Rightarrow> Inl e | _ \<Rightarrow> Inr ()) (\<lambda>_.
          and_then (ri_created io) (\<lambda>m.
          if \<not> pm_is_dir m \<or> pm_uid m \<noteq> 0 \<or> endpoint_writable m
          then Inl ''native updater state must be root-owned and not group/world writable''
          else and_then (ri_chmod io) (\<lambda>_. Inr root)))))"

definition reject_config_environment :: "string list \<Rightarrow> string + unit" where
  "reject_config_environment names =
     (if list_ex (\<lambda>k. starts_with k ''LARISKA_'') names
      then Inl ''native updater refuses ambient LARISKA_* configuration overrides'' else Inr ())"

fun check_config_path :: "(string \<Rightarrow> string + path_meta) \<Rightarrow> string list \<Rightarrow> string + unit" where
  "check_config_path lstat [] = Inr ()"
| "check_config_path lstat (item # rest) =
     and_then (lstat item) (\<lambda>m.
       if pm_is_symlink m \<or> pm_uid m \<noteq> 0 \<or> endpoint_writable m
       then Inl ''updater config and parent directories must be root-owned and not writable by the endpoint''
       else check_config_path lstat rest)"

definition trusted_config :: "(string \<Rightarrow> string + path_meta) \<Rightarrow> string list \<Rightarrow> string \<Rightarrow> string + unit" where
  "trusted_config lstat names path =
     (if \<not> is_absolute path then Inl ''native updater config path must be absolute''
      else and_then (check_config_path lstat (ancestors path)) (\<lambda>_. reject_config_environment names))"

section \<open>Windows\<close>

record windows_ace =
  ac_sid :: string
  ac_rights :: u32
  ac_allow :: bool
  ac_inherit_only :: bool

record windows_path_security =
  wo_path :: string
  wo_owner :: string
  wo_reparse :: bool
  wo_aces :: "windows_ace list"

record windows_trust_report =
  tr_trusted_sids :: "string list"
  tr_objects :: "windows_path_security list"

definition LEAF_WRITE :: u32 where
  "LEAF_WRITE = 0x2 OR 0x4 OR 0x10 OR 0x40 OR 0x100 OR 0x10000 OR 0x40000 OR 0x80000 OR 0x10000000 OR 0x40000000"

definition PARENT_REPLACE :: u32 where
  "PARENT_REPLACE = 0x40 OR 0x10000 OR 0x40000 OR 0x80000 OR 0x10000000 OR 0x40000000"

text \<open>\<open>{:#010x}\<close> of a 32-bit value.\<close>

definition hex_u32 :: "u32 \<Rightarrow> string" where
  "hex_u32 v = ''0x'' @ map (\<lambda>k. hex_digit (unat (drop_bit (4 * k) v) mod 16)) (rev [0..<8])"

definition forbidden_grant :: "windows_trust_report \<Rightarrow> u32 \<Rightarrow> windows_ace \<Rightarrow> bool" where
  "forbidden_grant report forbidden ace \<longleftrightarrow> ac_allow ace \<and> \<not> ac_inherit_only ace
     \<and> ac_sid ace \<notin> set (tr_trusted_sids report) \<and> ac_rights ace AND forbidden \<noteq> 0"

definition show_bool :: "bool \<Rightarrow> string" where
  "show_bool b = (if b then ''true'' else ''false'')"

definition check_object ::
  "(string \<Rightarrow> string) \<Rightarrow> windows_trust_report \<Rightarrow> bool \<Rightarrow> windows_path_security \<Rightarrow> string + unit" where
  "check_object debug report strict object =
     (let location = debug (take 512 (wo_path object));
          forbidden = (if strict then LEAF_WRITE else PARENT_REPLACE) in
      if wo_reparse object \<or> wo_owner object \<notin> set (tr_trusted_sids report)
      then Inl (''Windows updater paths must have privileged owners and no reparse points: path='' @ location
             @ '', owner='' @ debug (take 96 (wo_owner object)) @ '', reparse='' @ show_bool (wo_reparse object))
      else if length (wo_aces object) > 2048
      then Inl (''Windows updater ACL exceeds bound: path='' @ location)
      else case find (forbidden_grant report forbidden) (wo_aces object) of
        Some ace \<Rightarrow> Inl (''Windows updater path is writable or replaceable by an unprivileged account: path='' @ location
             @ '', sid='' @ debug (take 96 (ac_sid ace)) @ '', rights='' @ hex_u32 (ac_rights ace)
             @ '', forbidden='' @ hex_u32 forbidden @ '', strict_leaf='' @ show_bool strict)
      | None \<Rightarrow> Inr ())"

text \<open>The loop over the objects; the first is the path itself, the others its ancestors.\<close>

fun check_objects ::
  "(string \<Rightarrow> string) \<Rightarrow> windows_trust_report \<Rightarrow> bool \<Rightarrow> windows_path_security list \<Rightarrow> string + unit" where
  "check_objects debug report strict [] = Inr ()"
| "check_objects debug report strict (object # rest) =
     and_then (check_object debug report strict object) (\<lambda>_. check_objects debug report False rest)"

definition validate_windows_trust ::
  "(string \<Rightarrow> string) \<Rightarrow> windows_trust_report \<Rightarrow> bool \<Rightarrow> string + unit" where
  "validate_windows_trust debug report strict_leaf =
     (if tr_objects report = [] \<or> length (tr_objects report) > 128 \<or> length (tr_trusted_sids report) > 256
      then Inl ''invalid bounded Windows ownership report''
      else check_objects debug report strict_leaf (tr_objects report))"

section \<open>Who can write\<close>

text \<open>The bits of the access mask that the two constants name.\<close>

definition leaf_rights :: "nat set" where
  "leaf_rights = {1, 2, 4, 6, 8, 16, 18, 19, 28, 30}"

definition parent_rights :: "nat set" where
  "parent_rights = {6, 16, 18, 19, 28, 30}"

lemma bit_of_power: "(w :: u32) AND 2 ^ n \<noteq> 0 \<longleftrightarrow> bit w n"
  by (simp add: bit_iff_and_push_bit_not_eq_0 push_bit_eq_mult)

lemma and_or_nonzero: "(w :: u32) AND (a OR b) \<noteq> 0 \<longleftrightarrow> w AND a \<noteq> 0 \<or> w AND b \<noteq> 0"
  by (simp add: bit.conj_disj_distrib or_eq_0_iff)

lemma rights_bits:
  "w AND LEAF_WRITE \<noteq> 0 \<longleftrightarrow> (\<exists>n\<in>leaf_rights. bit w n)"
  "w AND PARENT_REPLACE \<noteq> 0 \<longleftrightarrow> (\<exists>n\<in>parent_rights. bit w n)"
proof -
  have p: "w AND 0x2 \<noteq> 0 \<longleftrightarrow> bit w 1" "w AND 0x4 \<noteq> 0 \<longleftrightarrow> bit w 2" "w AND 0x10 \<noteq> 0 \<longleftrightarrow> bit w 4"
    "w AND 0x40 \<noteq> 0 \<longleftrightarrow> bit w 6" "w AND 0x100 \<noteq> 0 \<longleftrightarrow> bit w 8" "w AND 0x10000 \<noteq> 0 \<longleftrightarrow> bit w 16"
    "w AND 0x40000 \<noteq> 0 \<longleftrightarrow> bit w 18" "w AND 0x80000 \<noteq> 0 \<longleftrightarrow> bit w 19"
    "w AND 0x10000000 \<noteq> 0 \<longleftrightarrow> bit w 28" "w AND 0x40000000 \<noteq> 0 \<longleftrightarrow> bit w 30"
    using bit_of_power [of w 1] bit_of_power [of w 2] bit_of_power [of w 4] bit_of_power [of w 6] bit_of_power [of w 8]
      bit_of_power [of w 16] bit_of_power [of w 18] bit_of_power [of w 19] bit_of_power [of w 28] bit_of_power [of w 30]
    by simp_all
  show "w AND LEAF_WRITE \<noteq> 0 \<longleftrightarrow> (\<exists>n\<in>leaf_rights. bit w n)"
    unfolding LEAF_WRITE_def and_or_nonzero p by (auto simp: leaf_rights_def)
  show "w AND PARENT_REPLACE \<noteq> 0 \<longleftrightarrow> (\<exists>n\<in>parent_rights. bit w n)"
    unfolding PARENT_REPLACE_def and_or_nonzero p by (auto simp: parent_rights_def)
qed

lemma endpoint_writable_bits: "endpoint_writable m \<longleftrightarrow> bit (pm_mode m) 1 \<or> bit (pm_mode m) 4"
proof -
  have "(18 :: u32) = 2 OR 16" by simp
  then have "endpoint_writable m \<longleftrightarrow> pm_mode m AND 2 \<noteq> 0 \<or> pm_mode m AND 16 \<noteq> 0"
    unfolding endpoint_writable_def by (simp only: and_or_nonzero)
  then show ?thesis using bit_of_power [of "pm_mode m" 1] bit_of_power [of "pm_mode m" 4] by auto
qed


text \<open>A file or directory that only root can change.\<close>

definition root_only :: "path_meta \<Rightarrow> bool" where
  "root_only m \<longleftrightarrow> pm_uid m = 0 \<and> \<not> bit (pm_mode m) 1 \<and> \<not> bit (pm_mode m) 4"

lemma check_ancestors_iff:
  "check_ancestors lstat ps = Inr () \<longleftrightarrow> list_all (\<lambda>p. \<exists>m. lstat p = Inr m \<and> pm_is_dir m \<and> root_only m) ps"
  by (induction ps) (auto simp: root_only_def endpoint_writable_bits split: sum.splits)

lemma check_config_path_iff:
  "check_config_path lstat ps = Inr () \<longleftrightarrow> list_all (\<lambda>p. \<exists>m. lstat p = Inr m \<and> \<not> pm_is_symlink m \<and> root_only m) ps"
  by (induction ps) (auto simp: root_only_def endpoint_writable_bits and_then_Inr_iff)

lemma trusted_config_iff:
  "trusted_config lstat names path = Inr () \<longleftrightarrow> is_absolute path
     \<and> list_all (\<lambda>p. \<exists>m. lstat p = Inr m \<and> \<not> pm_is_symlink m \<and> root_only m) (ancestors path)
     \<and> (\<nexists>k. k \<in> set names \<and> starts_with k ''LARISKA_'')"
  by (auto simp: trusted_config_def reject_config_environment_def and_then_Inr_iff check_config_path_iff list_ex_iff)

lemma private_root_trusted:
  assumes "private_root os uc io = Inr root"
  shows "root = native_state_dir os uc" and "is_absolute root" and "ri_euid io = 0"
    and "\<exists>m. ri_created io = Inr m \<and> pm_is_dir m \<and> root_only m"
    and "\<exists>parent. path_parent root = Some parent \<and> ''..'' \<notin> set (components parent)
           \<and> list_all (\<lambda>p. \<exists>m. ri_lstat io p = Inr m \<and> pm_is_dir m \<and> root_only m) (ancestors parent)"
  using assms
  by (auto simp: private_root_def and_then_Inr_iff trusted_directory_ancestors_def check_ancestors_iff
      has_dot_component_def root_only_def endpoint_writable_bits Let_def split: if_splits option.splits)

lemma ancestors_root:
  assumes "is_absolute p"
  shows "last (ancestors p) = ''/''" and "hd (ancestors p) = ''/'' @ join ''/'' (components p)"
  using assms by (simp_all add: ancestors_def last_map last_rev hd_map hd_rev del: upt_Suc)

text \<open>
  An object that no account outside the report's trusted ones can change with one of the
  rights: it has a trusted owner, is no reparse point, and no entry that applies to it
  allows such a right to another account.
\<close>

definition trusted_object :: "windows_trust_report \<Rightarrow> nat set \<Rightarrow> windows_path_security \<Rightarrow> bool" where
  "trusted_object report rights object \<longleftrightarrow> \<not> wo_reparse object \<and> wo_owner object \<in> set (tr_trusted_sids report)
     \<and> length (wo_aces object) \<le> 2048
     \<and> list_all (\<lambda>ace. \<not> ac_allow ace \<or> ac_inherit_only ace \<or> ac_sid ace \<in> set (tr_trusted_sids report)
                       \<or> (\<nexists>n. n \<in> rights \<and> bit (ac_rights ace) n)) (wo_aces object)"

lemma check_object_iff:
  "check_object debug report strict object = Inr ()
     \<longleftrightarrow> trusted_object report (if strict then leaf_rights else parent_rights) object"
proof -
  have "forbidden_grant report (if strict then LEAF_WRITE else PARENT_REPLACE) ace \<longleftrightarrow>
      ac_allow ace \<and> \<not> ac_inherit_only ace \<and> ac_sid ace \<notin> set (tr_trusted_sids report)
      \<and> (\<exists>n\<in>if strict then leaf_rights else parent_rights. bit (ac_rights ace) n)" for ace
    by (simp add: forbidden_grant_def rights_bits)
  then have "find (forbidden_grant report (if strict then LEAF_WRITE else PARENT_REPLACE)) (wo_aces object) = None
      \<longleftrightarrow> list_all (\<lambda>ace. \<not> ac_allow ace \<or> ac_inherit_only ace \<or> ac_sid ace \<in> set (tr_trusted_sids report)
            \<or> (\<nexists>n. n \<in> (if strict then leaf_rights else parent_rights) \<and> bit (ac_rights ace) n)) (wo_aces object)"
    unfolding find_None_iff list_all_iff by blast
  then show ?thesis
    by (cases "find (forbidden_grant report (if strict then LEAF_WRITE else PARENT_REPLACE)) (wo_aces object)")
       (simp_all add: check_object_def trusted_object_def Let_def not_less)
qed

lemma check_objects_iff:
  "check_objects debug report strict objects = Inr () \<longleftrightarrow>
     (objects = [] \<or> trusted_object report (if strict then leaf_rights else parent_rights) (hd objects))
     \<and> list_all (trusted_object report parent_rights) (tl objects)"
proof -
  have later: "check_objects debug report False objects = Inr () \<longleftrightarrow> list_all (trusted_object report parent_rights) objects" for objects
    by (induction objects) (simp_all add: and_then_Inr_iff check_object_iff)
  show ?thesis by (cases objects) (simp_all add: and_then_Inr_iff check_object_iff later)
qed

text \<open>
  C2. The report about a Windows path is accepted exactly when it is within its bounds and
  the path and all its ancestors are trusted: the path itself against every right to change
  its content, metadata or access list when it is checked strictly, the ancestors against
  every right to delete or replace a child, or to take over the directory.
\<close>

theorem windows_trust_exact:
  "validate_windows_trust debug report strict_leaf = Inr () \<longleftrightarrow>
     tr_objects report \<noteq> [] \<and> length (tr_objects report) \<le> 128 \<and> length (tr_trusted_sids report) \<le> 256
     \<and> trusted_object report (if strict_leaf then leaf_rights else parent_rights) (hd (tr_objects report))
     \<and> list_all (trusted_object report parent_rights) (tl (tr_objects report))"
  by (auto simp: validate_windows_trust_def check_objects_iff)

text \<open>A strict check accepts less.\<close>

lemma strict_check_stronger:
  "validate_windows_trust debug report True = Inr () \<Longrightarrow> validate_windows_trust debug report False = Inr ()"
proof -
  have "trusted_object report leaf_rights o' \<Longrightarrow> trusted_object report parent_rights o'" for o'
    unfolding trusted_object_def list_all_iff leaf_rights_def parent_rights_def by blast
  then show "validate_windows_trust debug report True = Inr () \<Longrightarrow> ?thesis"
    by (auto simp: validate_windows_trust_def check_objects_iff split: if_splits)
qed

end
