(* ===== verification/Native_Commands.thy ===== *)
theory Native_Commands
  imports Collection Native_Update Trusted_Paths
begin

text \<open>
  The privileged commands of \<open>src/native_update.rs\<close>: the bounded runner, the installation of
  a package, the check of the platform's signature and the version of the installed agent.
  What a started process does is an input: the sizes of its output files, the time and
  its state at every poll, what the files hold at the end. An execution yields its result
  and the commands that were run, in order.
\<close>

section \<open>The bounded runner\<close>

definition POWERSHELL :: string where
  "POWERSHELL = join [CHR 0x5C] [''C:'', ''Windows'', ''System32'', ''WindowsPowerShell'', ''v1.0'', ''powershell.exe'']"

definition WINDOWS_POWERSHELL_MODULES :: string where
  "WINDOWS_POWERSHELL_MODULES =
     join [CHR 0x5C] [''C:'', ''Windows'', ''System32'', ''WindowsPowerShell'', ''v1.0'', ''Modules'']"

text \<open>An exit status: its code, if it has one, and how it is displayed.\<close>

record exit_status =
  ex_code :: "int option"
  ex_text :: string

definition exit_success :: "exit_status \<Rightarrow> bool" where
  "exit_success s \<longleftrightarrow> ex_code s = Some 0"

text \<open>A command to be spawned; a variable without value is removed.\<close>

record command =
  cm_program :: string
  cm_args :: "string list"
  cm_env :: "(string \<times> string option) list"

definition quoted :: "string \<Rightarrow> string" where
  "quoted s = [CHR 0x27] @ s @ [CHR 0x27]"

definition module_reset :: string where
  "module_reset = ''$env:PSModulePath='' @ quoted WINDOWS_POWERSHELL_MODULES
     @ '';$env:WinPSModulePath=$env:PSModulePath;''"

definition prepare_command ::
  "string \<Rightarrow> string list \<Rightarrow> (string \<times> string) list \<Rightarrow> string + command" where
  "prepare_command program args environment =
     (let env = map (\<lambda>(n, v). (n, Some v)) environment in
      if eq_ignore_ascii_case program POWERSHELL then
        (case args of
           [a, b, c, script] \<Rightarrow>
             if a = ''-NoProfile'' \<and> b = ''-NonInteractive'' \<and> c = ''-Command''
             then Inr \<lparr>cm_program = program, cm_args = [a, b, c, module_reset @ script],
                       cm_env = env @ [(''PSModulePath'', Some WINDOWS_POWERSHELL_MODULES),
                                       (''WinPSModulePath'', Some WINDOWS_POWERSHELL_MODULES),
                                       (''PSModuleAnalysisCachePath'', None)]\<rparr>
             else Inl ''native PowerShell requires a fixed, noninteractive script''
         | _ \<Rightarrow> Inl ''native PowerShell requires a fixed, noninteractive script'')
      else Inr \<lparr>cm_program = program, cm_args = args, cm_env = env\<rparr>)"

text \<open>
  One poll: the lengths of the two output files, the milliseconds since the start, and
  whether the process has ended.
\<close>

record poll =
  po_stdout :: "string + u64"
  po_stderr :: "string + u64"
  po_elapsed :: nat
  po_wait :: "string + exit_status option"

definition output_limit :: u64 where "output_limit = of_nat MAX_JOURNAL_BYTES"

text \<open>The outcome of the loop: none while the process runs.\<close>

fun poll_loop :: "string \<Rightarrow> poll list \<Rightarrow> (string + exit_status) option" where
  "poll_loop program [] = None"
| "poll_loop program (p # ps) =
     (case and_then (po_stdout p) (\<lambda>a. and_then (po_stderr p) (\<lambda>b. Inr (saturating_add a b))) of
        Inl e \<Rightarrow> Some (Inl e)
      | Inr len \<Rightarrow>
          if len > output_limit \<or> po_elapsed p > 300000
          then Some (Inl (program @ '' exceeded its time/output limit''))
          else case po_wait p of
            Inl e \<Rightarrow> Some (Inl e)
          | Inr (Some status) \<Rightarrow> Some (Inr status)
          | Inr None \<Rightarrow> poll_loop program ps)"

record exec_io =
  xi_files :: "string + unit"
  xi_handles :: "string + unit"
  xi_spawn :: "string + poll list"
  xi_read_stdout :: "string + u8 list"
  xi_read_stderr :: "string + u8 list"
  xi_final_stdout :: "string + u64"
  xi_final_stderr :: "string + u64"

definition read_output :: "exec_io \<Rightarrow> exit_status \<Rightarrow> string + u8 list" where
  "read_output io status =
     and_then (xi_read_stdout io) (\<lambda>out.
     and_then (if exit_success status then Inr [] else xi_read_stderr io) (\<lambda>err.
     let bytes = take (MAX_JOURNAL_BYTES + 1) out @ take (MAX_JOURNAL_BYTES + 1) err in
     if length bytes > MAX_JOURNAL_BYTES then Inl ''native command output exceeded limit''
     else and_then (xi_final_stdout io) (\<lambda>a. and_then (xi_final_stderr io) (\<lambda>b.
       if saturating_add a b > output_limit then Inl ''native command output exceeded limit'' else Inr bytes))))"

definition execute_bounded_env ::
  "string \<Rightarrow> string list \<Rightarrow> (string \<times> string) list \<Rightarrow> exec_io \<Rightarrow> (string + exit_status \<times> u8 list) option" where
  "execute_bounded_env program args environment io =
     (case and_then (xi_files io) (\<lambda>_. and_then (prepare_command program args environment) (\<lambda>_.
             and_then (xi_handles io) (\<lambda>_. map_sum (\<lambda>e. program @ '': '' @ e) id (xi_spawn io)))) of
        Inl e \<Rightarrow> Some (Inl e)
      | Inr polls \<Rightarrow>
          (case poll_loop program polls of
             None \<Rightarrow> None
           | Some (Inl e) \<Rightarrow> Some (Inl e)
           | Some (Inr status) \<Rightarrow> Some (and_then (read_output io status) (\<lambda>bytes. Inr (status, bytes)))))"

section \<open>Commands with an outcome\<close>

text \<open>\<open>exec\<close> is what the bounded runner returned; the second part of a result is what was run.\<close>

type_synonym runner = "string \<Rightarrow> string list \<Rightarrow> (string \<times> string) list \<Rightarrow> string + exit_status \<times> u8 list"

type_synonym 'a ran = "(string + 'a) \<times> (string \<times> string list) list"

definition then_ran :: "'a ran \<Rightarrow> ('a \<Rightarrow> 'b ran) \<Rightarrow> 'b ran" where
  "then_ran m k = (case m of
      (Inl e, log) \<Rightarrow> (Inl e, log)
    | (Inr a, log) \<Rightarrow> (case k a of (r, log') \<Rightarrow> (r, log @ log')))"

definition native_run_command :: "runner \<Rightarrow> string \<Rightarrow> string list \<Rightarrow> unit ran" where
  "native_run_command exec program args =
     (and_then (exec program args []) (\<lambda>(status, _).
        if exit_success status \<or> ends_with program ''msiexec.exe'' \<and> ex_code status = Some 3010 then Inr ()
        else Inl (program @ '' exited with '' @ ex_text status)),
      [(program, args)])"

definition command_output :: "(u8 list \<Rightarrow> string) \<Rightarrow> runner \<Rightarrow> string \<Rightarrow> string list \<Rightarrow> string ran" where
  "command_output lossy exec program args =
     (and_then (exec program args []) (\<lambda>(status, bytes).
        if \<not> exit_success status then Inl (program @ '' signature/metadata check failed'')
        else Inr (lossy bytes)),
      [(program, args)])"

section \<open>Installing a package\<close>

text \<open>The fixed alias that the macOS installer needs: the outcomes of its file operations.\<close>

datatype remove_result = Removed | NothingToRemove | RemoveFailed string

record alias_io =
  al_is_file :: "string + bool"
  al_remove :: remove_result
  al_link :: "string + unit"
  al_sync :: "string + unit"

definition pkg_alias :: "alias_io \<Rightarrow> string \<Rightarrow> string + string" where
  "pkg_alias io artifact =
     and_then (al_is_file io) (\<lambda>regular.
     if \<not> regular then Inl ''Installer artifact must be a regular private cached file''
     else case path_parent artifact of
       None \<Rightarrow> Inl ''Installer artifact has no cache''
     | Some parent \<Rightarrow>
         (let path = path_join parent ''installer-artifact.pkg'' in
          if components path = components artifact then Inl ''Installer alias must differ from the cached artifact''
          else case al_remove io of
            RemoveFailed e \<Rightarrow> Inl (''stale Installer alias: '' @ e)
          | _ \<Rightarrow> and_then (map_sum (\<lambda>e. ''Installer package alias: '' @ e) id (al_link io)) (\<lambda>_.
                 and_then (al_sync io) (\<lambda>_. Inr path))))"

definition MSIEXEC :: string where
  "MSIEXEC = join [CHR 0x5C] [''C:'', ''Windows'', ''System32'', ''msiexec.exe'']"

definition install_package ::
  "(u8 list \<Rightarrow> string) \<Rightarrow> alias_io \<Rightarrow> runner \<Rightarrow> release_manifest \<Rightarrow> string \<Rightarrow> unit ran" where
  "install_package lossy alias_io exec manifest artifact =
     (case rm_package_kind manifest of
        Deb \<Rightarrow>
          then_ran (command_output lossy exec ''/usr/bin/dpkg-deb'' [''--field'', artifact, ''Package'', ''Version'']) (\<lambda>metadata.
          if ''Package: lariska'' \<notin> set (str_lines metadata)
             \<or> (''Version: '' @ rm_version manifest) \<notin> set (str_lines metadata)
          then (Inl ''deb package name/version does not match signed manifest'', [])
          else native_run_command exec ''/usr/bin/dpkg'' [''--install'', artifact])
      | Rpm \<Rightarrow>
          then_ran (command_output lossy exec ''/usr/bin/rpm''
              [''-qp'', ''--queryformat'', ''%{NAME}'' @ [CHR 0x0A] @ ''%{VERSION}'' @ [CHR 0x0A], artifact]) (\<lambda>metadata.
          if metadata \<noteq> ''lariska'' @ [CHR 0x0A] @ rm_version manifest @ [CHR 0x0A]
          then (Inl ''rpm identity does not match signed manifest'', [])
          else native_run_command exec ''/usr/bin/rpm'' [''-U'', ''--oldpackage'', ''--replacepkgs'', artifact])
      | Pkg \<Rightarrow>
          (case pkg_alias alias_io artifact of
             Inl e \<Rightarrow> (Inl e, [])
           | Inr path \<Rightarrow> native_run_command exec ''/usr/sbin/installer'' [''-pkg'', path, ''-target'', ''/''])
      | Msi \<Rightarrow> native_run_command exec MSIEXEC [''/i'', artifact, ''/qn'', ''/norestart'', ''REINSTALLMODE=amus''])"

section \<open>The platform's signature\<close>

record leaf_state =
  lf_in_leaf :: bool
  lf_subject :: "string option"
  lf_digest :: string
  lf_reading :: bool

record macos_leaf =
  ml_subject :: string
  ml_sha256 :: string

definition numbered_line :: "string \<Rightarrow> (string \<times> string) option" where
  "numbered_line line = (case split_once (CHR ''.'') line of
      None \<Rightarrow> None
    | Some (number, name) \<Rightarrow> if number \<noteq> [] \<and> list_all is_ascii_digit number then Some (number, name) else None)"

definition fingerprint_label :: "string \<Rightarrow> bool" where
  "fingerprint_label label \<longleftrightarrow> eq_ignore_ascii_case (trim label) ''SHA256 Fingerprint''
     \<or> eq_ignore_ascii_case (trim label) ''SHA-256 Fingerprint''"

definition leaf_line :: "string \<Rightarrow> leaf_state \<Rightarrow> leaf_state" where
  "leaf_line line st =
     (if \<not> lf_in_leaf st then st
      else case (case split_once (CHR '':'') line of
                   Some (label, rest) \<Rightarrow> if fingerprint_label label then Some rest else None
                 | None \<Rightarrow> None) of
        Some rest \<Rightarrow> st\<lparr>lf_reading := True, lf_digest := lf_digest st @ filter is_ascii_hexdigit rest\<rparr>
      | None \<Rightarrow>
          if \<not> lf_reading st then st
          else if list_all (\<lambda>c. is_ascii_hexdigit c \<or> c = CHR '':'' \<or> is_whitespace c) line
          then st\<lparr>lf_digest := lf_digest st @ filter is_ascii_hexdigit line\<rparr>
          else st\<lparr>lf_reading := False\<rparr>)"

text \<open>The loop over the lines, which ends at the numbered line after the leaf's.\<close>

fun leaf_lines :: "string list \<Rightarrow> leaf_state \<Rightarrow> leaf_state" where
  "leaf_lines [] st = st"
| "leaf_lines (line # rest) st =
     (case numbered_line (trim line) of
        Some (number, name) \<Rightarrow>
          if lf_in_leaf st then st
          else leaf_lines rest (if number = ''1'' then st\<lparr>lf_in_leaf := True, lf_subject := Some (trim name)\<rparr> else st)
      | None \<Rightarrow> leaf_lines rest (leaf_line (trim line) st))"

definition leaf_start :: leaf_state where
  "leaf_start = \<lparr>lf_in_leaf = False, lf_subject = None, lf_digest = [], lf_reading = False\<rparr>"

definition macos_leaf_signature :: "string \<Rightarrow> string + macos_leaf" where
  "macos_leaf_signature output =
     (let st = leaf_lines (str_lines output) leaf_start in
      case lf_subject st of
        None \<Rightarrow> Inl ''macOS package signature has no leaf certificate''
      | Some subject \<Rightarrow>
          if length (lf_digest st) \<noteq> 64
          then Inl ''macOS leaf certificate has no unambiguous SHA-256 fingerprint''
          else Inr \<lparr>ml_subject = subject, ml_sha256 = to_ascii_lowercase (lf_digest st)\<rparr>)"

text \<open>The text after the last occurrence.\<close>

fun last_after :: "string \<Rightarrow> string \<Rightarrow> string option" where
  "last_after p [] = (if p = [] then Some [] else None)"
| "last_after p (c # s) =
     (case last_after p s of
        Some t \<Rightarrow> Some t
      | None \<Rightarrow> if starts_with (c # s) p then Some (drop (length p) (c # s)) else None)"

definition signature_script :: string where
  "signature_script = ''$s=Microsoft.PowerShell.Security'' @ [CHR 0x5C]
     @ ''Get-AuthenticodeSignature -LiteralPath $env:LARISKA_UPDATE_ARTIFACT; if($s.Status -ne ''
     @ quoted ''Valid'' @ ''){exit 1}; $s.SignerCertificate.Thumbprint''"

definition verify_native_signature ::
  "(u8 list \<Rightarrow> string) \<Rightarrow> runner \<Rightarrow> update_config \<Rightarrow> release_manifest \<Rightarrow> string \<Rightarrow> unit ran" where
  "verify_native_signature lossy exec uc manifest artifact =
     (case rm_package_kind manifest of
        Deb \<Rightarrow> (Inr (), [])
      | Rpm \<Rightarrow> (Inr (), [])
      | Pkg \<Rightarrow>
          then_ran (command_output lossy exec ''/usr/sbin/pkgutil'' [''--check-signature'', artifact]) (\<lambda>output.
          if uc_allow_self_signed_native uc then
            (case uc_macos_signer_sha256 uc of
               None \<Rightarrow> (Inl ''self-signed macOS package requires a local SHA-256 signer pin'', [])
             | Some pin \<Rightarrow>
                 (and_then (macos_leaf_signature output) (\<lambda>leaf.
                    if \<not> eq_ignore_ascii_case (ml_sha256 leaf) pin
                    then Inl ''macOS package signer fingerprint does not match local pin'' else Inr ()), []))
          else
            (case uc_macos_team_id uc of
               None \<Rightarrow> (Inl ''macOS package requires local Team ID'', [])
             | Some team \<Rightarrow>
                 (case macos_leaf_signature output of
                    Inl e \<Rightarrow> (Inl e, [])
                  | Inr leaf \<Rightarrow>
                      if last_after '' ('' (ml_subject leaf) \<noteq> Some (team @ '')'')
                      then (Inl ''macOS package Team ID does not match the leaf signer'', [])
                      else native_run_command exec ''/usr/sbin/spctl'' [''--assess'', ''--type'', ''install'', artifact])))
      | Msi \<Rightarrow>
          (case uc_windows_signer_thumbprint uc of
             None \<Rightarrow> (Inl ''MSI package requires a local signer thumbprint'', [])
           | Some pin \<Rightarrow>
               (let args = [''-NoProfile'', ''-NonInteractive'', ''-Command'', signature_script] in
                (and_then (exec POWERSHELL args [(''LARISKA_UPDATE_ARTIFACT'', artifact)]) (\<lambda>(status, output).
                   if \<not> exit_success status \<or> \<not> eq_ignore_ascii_case (trim (lossy output)) pin
                   then Inl ''MSI signature is invalid or the signer is not pinned'' else Inr ()),
                 [(POWERSHELL, args)]))))"

section \<open>The installed version\<close>

definition parse_installed_cli_version :: "(string \<Rightarrow> string + unit) \<Rightarrow> string \<Rightarrow> string + string" where
  "parse_installed_cli_version semver output =
     (let output = trim output; version = unwrap_or (strip_prefix output ''lariska '') output in
      if utf8_len version > 128 then Inl ''installed endpoint version exceeds its length limit''
      else and_then (map_sum (\<lambda>e. ''installed endpoint version: '' @ e) id (semver version)) (\<lambda>_. Inr version))"

definition installed_agent_version ::
  "(string \<Rightarrow> string + unit) \<Rightarrow> (u8 list \<Rightarrow> string) \<Rightarrow> runner \<Rightarrow> string + unit \<Rightarrow> string ran" where
  "installed_agent_version semver lossy exec trusted =
     then_ran (trusted, []) (\<lambda>_.
     then_ran (command_output lossy exec ''/usr/bin/lariska'' [''--version'']) (\<lambda>output.
       (parse_installed_cli_version semver output, [])))"

definition installed_receipt_version ::
  "(string \<Rightarrow> string + unit) \<Rightarrow> (u8 list \<Rightarrow> string) \<Rightarrow> runner \<Rightarrow> string ran" where
  "installed_receipt_version semver lossy exec =
     then_ran (command_output lossy exec ''/usr/sbin/pkgutil'' [''--pkg-info'', ''com.shapoclyack.lariska'']) (\<lambda>receipt.
     case List.map_filter (\<lambda>line. strip_prefix line ''version: '') (str_lines receipt) of
       [] \<Rightarrow> (Inl ''installed macOS endpoint receipt has no version'', [])
     | version # _ \<Rightarrow> (and_then (map_sum (\<lambda>e. ''installed endpoint version: '' @ e) id (semver version)) (\<lambda>_. Inr version), []))"

text \<open>The service is restarted by the platform's manager; the Linux and the macOS build.\<close>

definition restart_agent :: "bool \<Rightarrow> runner \<Rightarrow> unit ran" where
  "restart_agent macos exec =
     (if macos then native_run_command exec ''/bin/launchctl'' [''kickstart'', ''-k'', ''system/com.shapoclyack.lariska'']
      else native_run_command exec ''/usr/bin/systemctl'' [''restart'', ''lariska.service''])"

section \<open>The runner is bounded\<close>

lemma map_sum_Inr_iff [simp]: "map_sum f id r = Inr a \<longleftrightarrow> r = Inr a"
  by (cases r) auto

lemma command_output_bounded:
  assumes "execute_bounded_env program args environment io = Some (Inr (status, bytes))"
  shows "length bytes \<le> MAX_JOURNAL_BYTES" and "\<exists>c. prepare_command program args environment = Inr c"
  using assms
  by (auto simp: execute_bounded_env_def read_output_def and_then_Inr_iff Let_def
      split: sum.splits option.splits if_splits)

text \<open>The loop ends at the latest at the first poll after five minutes.\<close>

lemma poll_loop_ends:
  assumes "p \<in> set polls" and "300000 < po_elapsed p"
  shows "poll_loop program polls \<noteq> None"
  using assms by (induction polls) (auto split: sum.splits option.splits)

lemma command_ends_in_time:
  assumes "xi_spawn io = Inr polls" and "length polls > 6001"
    and "\<And>k. k < length polls \<Longrightarrow> 50 * k \<le> po_elapsed (polls ! k)"
  shows "execute_bounded_env program args environment io \<noteq> None"
proof -
  have "300000 < po_elapsed (polls ! 6001)" using assms(3) [of 6001] assms(2) by simp
  then have "poll_loop program polls \<noteq> None" using assms(2) by (intro poll_loop_ends [of "polls ! 6001"]) auto
  then show ?thesis using assms(1)
    by (auto simp: execute_bounded_env_def and_then_Inr_iff split: sum.splits option.splits)
qed

text \<open>A PowerShell command is never interactive and resets the module path first.\<close>

lemma powershell_is_fixed:
  assumes "prepare_command program args environment = Inr c" and "eq_ignore_ascii_case program POWERSHELL"
  shows "\<exists>script. cm_args c = [''-NoProfile'', ''-NonInteractive'', ''-Command'', module_reset @ script]
    \<and> map_of (rev (cm_env c)) ''PSModulePath'' = Some (Some WINDOWS_POWERSHELL_MODULES)
    \<and> map_of (rev (cm_env c)) ''PSModuleAnalysisCachePath'' = Some None"
  using assms by (auto simp: prepare_command_def Let_def split: list.splits if_splits)

section \<open>Only checked packages\<close>

lemma then_ran_Inr_iff:
  "fst (then_ran m k) = Inr b \<longleftrightarrow> (\<exists>a. fst m = Inr a \<and> fst (k a) = Inr b)"
  by (auto simp: then_ran_def split: prod.splits sum.splits)

lemma then_ran_log:
  "c \<in> set (snd (then_ran m k)) \<longleftrightarrow> c \<in> set (snd m) \<or> (\<exists>a. fst m = Inr a \<and> c \<in> set (snd (k a)))"
  by (auto simp: then_ran_def split: prod.splits sum.splits)

definition succeeds :: "runner \<Rightarrow> string \<Rightarrow> string list \<Rightarrow> u8 list \<Rightarrow> bool" where
  "succeeds exec program args out \<longleftrightarrow> (\<exists>status. exec program args [] = Inr (status, out) \<and> exit_success status)"

lemma command_output_Inr_iff:
  "fst (command_output lossy exec program args) = Inr s \<longleftrightarrow> (\<exists>out. succeeds exec program args out \<and> s = lossy out)"
  by (auto simp: command_output_def succeeds_def and_then_Inr_iff)

lemma command_logs [simp]:
  "snd (command_output lossy exec program args) = [(program, args)]"
  "snd (native_run_command exec program args) = [(program, args)]"
  by (simp_all add: command_output_def native_run_command_def)

lemma spctl_Inr_iff:
  "\<not> ends_with program ''msiexec.exe'' \<Longrightarrow>
   fst (native_run_command exec program args) = Inr () \<longleftrightarrow> (\<exists>out. succeeds exec program args out)"
  by (auto simp: native_run_command_def succeeds_def and_then_Inr_iff)

text \<open>What the local policy demands of the signer of a package.\<close>

definition signer_accepted :: "(u8 list \<Rightarrow> string) \<Rightarrow> runner \<Rightarrow> update_config \<Rightarrow> package_kind \<Rightarrow> string \<Rightarrow> bool" where
  "signer_accepted lossy exec uc kind artifact \<longleftrightarrow>
     (case kind of
        Deb \<Rightarrow> True
      | Rpm \<Rightarrow> True
      | Pkg \<Rightarrow>
          (\<exists>out leaf. succeeds exec ''/usr/sbin/pkgutil'' [''--check-signature'', artifact] out
             \<and> macos_leaf_signature (lossy out) = Inr leaf
             \<and> (if uc_allow_self_signed_native uc
                then \<exists>pin. uc_macos_signer_sha256 uc = Some pin \<and> eq_ignore_ascii_case (ml_sha256 leaf) pin
                else (\<exists>team. uc_macos_team_id uc = Some team \<and> last_after '' ('' (ml_subject leaf) = Some (team @ '')''))
                     \<and> (\<exists>out. succeeds exec ''/usr/sbin/spctl'' [''--assess'', ''--type'', ''install'', artifact] out)))
      | Msi \<Rightarrow>
          (\<exists>pin status out. uc_windows_signer_thumbprint uc = Some pin
             \<and> exec POWERSHELL [''-NoProfile'', ''-NonInteractive'', ''-Command'', signature_script]
                 [(''LARISKA_UPDATE_ARTIFACT'', artifact)] = Inr (status, out)
             \<and> exit_success status \<and> eq_ignore_ascii_case (trim (lossy out)) pin))"

lemma signature_exact:
  "fst (verify_native_signature lossy exec uc m artifact) = Inr () \<longleftrightarrow>
   signer_accepted lossy exec uc (rm_package_kind m) artifact"
proof (cases "rm_package_kind m")
  case Pkg
  have "\<not> ends_with ''/usr/sbin/spctl'' ''msiexec.exe''" by (simp add: ends_with_def starts_with_def)
  note spctl = spctl_Inr_iff [OF this]
  show ?thesis
  proof (cases "uc_allow_self_signed_native uc")
    case True
    then show ?thesis
    proof (cases "uc_macos_signer_sha256 uc")
      case (Some pin)
      have "fst (verify_native_signature lossy exec uc m artifact) = Inr () \<longleftrightarrow>
          (\<exists>out. succeeds exec ''/usr/sbin/pkgutil'' [''--check-signature'', artifact] out
             \<and> (\<exists>leaf. macos_leaf_signature (lossy out) = Inr leaf \<and> eq_ignore_ascii_case (ml_sha256 leaf) pin))"
        by (simp add: verify_native_signature_def Pkg then_ran_Inr_iff command_output_Inr_iff True Some
            and_then_Inr_iff split: if_split) blast
      then show ?thesis by (simp add: signer_accepted_def Pkg True Some)
    qed (simp add: verify_native_signature_def signer_accepted_def Pkg then_ran_Inr_iff)
  next
    case False
    then show ?thesis
    proof (cases "uc_macos_team_id uc")
      case (Some team)
      have "fst (case macos_leaf_signature printed of
              Inl e \<Rightarrow> (Inl e, [])
            | Inr leaf \<Rightarrow> if last_after '' ('' (ml_subject leaf) \<noteq> Some (team @ '')'')
                then (Inl ''macOS package Team ID does not match the leaf signer'', [])
                else native_run_command exec ''/usr/sbin/spctl'' [''--assess'', ''--type'', ''install'', artifact]) = Inr ()
          \<longleftrightarrow> (\<exists>leaf. macos_leaf_signature printed = Inr leaf \<and> last_after '' ('' (ml_subject leaf) = Some (team @ '')'')
                \<and> (\<exists>out. succeeds exec ''/usr/sbin/spctl'' [''--assess'', ''--type'', ''install'', artifact] out))" for printed
        by (cases "macos_leaf_signature printed") (simp_all add: spctl)
      then show ?thesis
        by (simp add: verify_native_signature_def signer_accepted_def Pkg then_ran_Inr_iff command_output_Inr_iff False Some)
          blast
    qed (simp add: verify_native_signature_def signer_accepted_def Pkg then_ran_Inr_iff)
  qed
next
  case Msi
  then show ?thesis
    by (auto simp: verify_native_signature_def signer_accepted_def and_then_Inr_iff Let_def split: option.splits)
qed (simp_all add: verify_native_signature_def signer_accepted_def)

text \<open>The package's own name and version, for the kinds whose tool prints them.\<close>

definition identity_checked :: "(u8 list \<Rightarrow> string) \<Rightarrow> runner \<Rightarrow> release_manifest \<Rightarrow> string \<Rightarrow> bool" where
  "identity_checked lossy exec m artifact \<longleftrightarrow>
     (case rm_package_kind m of
        Deb \<Rightarrow> (\<exists>out. succeeds exec ''/usr/bin/dpkg-deb'' [''--field'', artifact, ''Package'', ''Version''] out
                 \<and> {''Package: lariska'', ''Version: '' @ rm_version m} \<subseteq> set (str_lines (lossy out)))
      | Rpm \<Rightarrow> (\<exists>out. succeeds exec ''/usr/bin/rpm''
                    [''-qp'', ''--queryformat'', ''%{NAME}'' @ [CHR 0x0A] @ ''%{VERSION}'' @ [CHR 0x0A], artifact] out
                 \<and> lossy out = ''lariska'' @ [CHR 0x0A] @ rm_version m @ [CHR 0x0A])
      | _ \<Rightarrow> True)"

definition installing :: "string \<times> string list \<Rightarrow> bool" where
  "installing c \<longleftrightarrow> ''--install'' \<in> set (snd c) \<or> ''-U'' \<in> set (snd c) \<or> ''-pkg'' \<in> set (snd c) \<or> ''/i'' \<in> set (snd c)"

lemma installs_only_identified:
  assumes "(program, args) \<in> set (snd (install_package lossy aio exec m artifact))"
    and "installing (program, args)" and "artifact \<notin> {''--install'', ''-U'', ''-pkg'', ''/i''}"
  shows "identity_checked lossy exec m artifact"
  using assms
  by (auto simp: install_package_def identity_checked_def installing_def then_ran_log command_output_Inr_iff
      split: package_kind.splits if_splits)

section \<open>The leaf's signature\<close>

text \<open>Certificates after the leaf do not matter.\<close>

lemma leaf_stops_at_next_certificate:
  assumes "lf_in_leaf st" and "list_all (\<lambda>l. numbered_line (trim l) = None) pre"
    and "numbered_line (trim line) = Some n"
  shows "leaf_lines (pre @ line # rest) st = leaf_lines pre st"
  using assms(1,2)
proof (induction pre arbitrary: st)
  case Nil
  then show ?case using assms(3) by (cases n) simp
next
  case (Cons l pre)
  have "lf_in_leaf (leaf_line (trim l) st)"
    using Cons.prems(1) by (auto simp: leaf_line_def split: option.splits)
  then show ?case using Cons by simp
qed

lemma leaf_digest_hex:
  "list_all is_ascii_hexdigit (lf_digest st) \<Longrightarrow> list_all is_ascii_hexdigit (lf_digest (leaf_lines ls st))"
proof (induction ls arbitrary: st)
  case (Cons l ls)
  have "list_all is_ascii_hexdigit (lf_digest (leaf_line (trim l) st))"
    using Cons.prems by (auto simp: leaf_line_def list_all_iff split: option.splits prod.splits)
  then show ?case using Cons by (auto split: option.splits prod.splits)
qed simp

lemma leaf_fingerprint:
  assumes "macos_leaf_signature output = Inr leaf"
  shows "length (ml_sha256 leaf) = 64" and "list_all is_ascii_hexdigit (ml_sha256 leaf)"
proof -
  let ?st = "leaf_lines (str_lines output) leaf_start"
  have d: "ml_sha256 leaf = to_ascii_lowercase (lf_digest ?st)" "length (lf_digest ?st) = 64"
    using assms by (auto simp: macos_leaf_signature_def Let_def split: option.splits if_splits)
  have "list_all is_ascii_hexdigit (lf_digest ?st)" by (rule leaf_digest_hex) (simp add: leaf_start_def)
  then show "list_all is_ascii_hexdigit (ml_sha256 leaf)"
    unfolding d(1) to_ascii_lowercase_def
    by (auto simp: list_all_iff ascii_lower_def char_class_defs)
  show "length (ml_sha256 leaf) = 64" using d by (simp add: to_ascii_lowercase_def)
qed



text \<open>A signed package of a pinned signer is accepted, another is not.\<close>

definition pinned_policy :: update_config where
  "pinned_policy = default_update_config\<lparr>uc_allow_self_signed_native := True,
     uc_macos_signer_sha256 := Some (replicate 64 (CHR ''A''))\<rparr>"

definition pkgutil_output :: "char \<Rightarrow> string" where
  "pkgutil_output c = ''Status: signed'' @ [CHR 0x0A] @ '' 1. Developer ID (T)'' @ [CHR 0x0A]
     @ '' SHA256 Fingerprint:'' @ [CHR 0x0A] @ replicate 64 c @ [CHR 0x0A] @ '' 2. CA'' @ [CHR 0x0A]"

definition pkg_manifest :: release_manifest where
  "pkg_manifest = \<lparr>rm_schema = 1, rm_key_id = ''k'', rm_version = ''1.0.0'', rm_platform = ''p'', rm_package_kind = Pkg,
     rm_size_bytes = 1, rm_sha256 = [], rm_expires_at = 1, rm_sequence = 1\<rparr>"

definition pkgutil :: runner where
  "pkgutil program args environment = Inr (\<lparr>ex_code = Some 0, ex_text = ''exit status: 0''\<rparr>, [])"

lemma pkgutil_leaf:
  "macos_leaf_signature (pkgutil_output (CHR ''a'')) = Inr \<lparr>ml_subject = ''Developer ID (T)'', ml_sha256 = replicate 64 (CHR ''a'')\<rparr>"
  "macos_leaf_signature (pkgutil_output (CHR ''b'')) = Inr \<lparr>ml_subject = ''Developer ID (T)'', ml_sha256 = replicate 64 (CHR ''b'')\<rparr>"
  by code_simp+

lemma pin_ignores_case:
  "eq_ignore_ascii_case (replicate 64 (CHR ''a'')) (replicate 64 (CHR ''A''))"
  "\<not> eq_ignore_ascii_case (replicate 64 (CHR ''b'')) (replicate 64 (CHR ''A''))"
  by code_simp+


end
