(* ===== verification/Platforms.thy ===== *)
theory Platforms
  imports Environment Fingerprint Mac_Collector Windows_Collector Native_Commands Identity
begin

text \<open>
  The builds for the other operating systems, and what depends on the build: the operating
  system's release and the power source (\<open>src/src/inventory/environment.rs\<close>, \<open>src/src/qos.rs\<close>),
  the calls that put the process into the background, the identifier of the machine
  (\<open>src/src/identity.rs\<close>), the fingerprint of the applications of macOS
  (\<open>src/src/inventory/cache.rs\<close>), the dispatch of a collection (\<open>src/src/inventory/mod.rs\<close>),
  the target triple (\<open>src/src/managed.rs\<close>), and the Windows part of the trust in paths
  (\<open>src/src/native_update.rs\<close>). Registry, property lists and command output are inputs.
\<close>

section \<open>The operating system's release\<close>

definition SYSTEM_VERSION_PLIST :: string where
  "SYSTEM_VERSION_PLIST = ''/System/Library/CoreServices/SystemVersion.plist''"

definition macos_os_release :: "(string \<Rightarrow> string + plist) \<Rightarrow> os_release" where
  "macos_os_release read =
     (case read SYSTEM_VERSION_PLIST of
        Inr (PlistDict dict) \<Rightarrow>
          \<lparr>or_name = plist_text dict ''ProductName'',
           or_version = Option.bind (Option.bind (option_or (map_of dict ''ProductUserVisibleVersion'')
                                                            (map_of dict ''ProductVersion'')) as_string) non_empty\<rparr>
      | _ \<Rightarrow> default_os_release)"

definition windows_product_name :: "string \<Rightarrow> u32 option \<Rightarrow> string option \<Rightarrow> string" where
  "windows_product_name product build installation_type =
     (let is_client = (case installation_type of None \<Rightarrow> True | Some t \<Rightarrow> eq_ignore_ascii_case t ''Client'') in
      if is_client \<and> (case build of None \<Rightarrow> False | Some b \<Rightarrow> b \<ge> 22000)
      then (case strip_prefix product ''Windows 10'' of Some rest \<Rightarrow> ''Windows 11'' @ rest | None \<Rightarrow> product)
      else product)"

definition show_u32 :: "u32 \<Rightarrow> string" where
  "show_u32 w = show_nat (unat w)"

definition windows_version_string :: "u32 option \<Rightarrow> u32 option \<Rightarrow> string option \<Rightarrow> u32 option \<Rightarrow> string option" where
  "windows_version_string major minor build ubr =
     Option.bind (Option.bind build non_empty) (\<lambda>build.
     map_option (\<lambda>major.
       show_u32 major @ ''.'' @ show_u32 (unwrap_or minor 0) @ ''.'' @ build
       @ (case ubr of Some u \<Rightarrow> ''.'' @ show_u32 u | None \<Rightarrow> [])) major)"

definition CURRENT_VERSION :: string where
  "CURRENT_VERSION = reg_path [''SOFTWARE'', ''Microsoft'', ''Windows NT'', ''CurrentVersion'']"

definition sum_option :: "'e + 'a \<Rightarrow> 'a option" where
  "sum_option r = (case r of Inl _ \<Rightarrow> None | Inr v \<Rightarrow> Some v)"

definition windows_os_release :: "reg_key \<Rightarrow> os_release" where
  "windows_os_release hklm =
     (case open_key hklm CURRENT_VERSION of
        Inl _ \<Rightarrow> default_os_release
      | Inr key \<Rightarrow>
          (let value = (\<lambda>name. sum_option (get_text key name)); number = (\<lambda>name. sum_option (get_dword key name));
               build = value ''CurrentBuildNumber'';
               build_number = map_option of_nat (Option.bind build (\<lambda>b. parse_unsigned 32 (trim b)))
           in \<lparr>or_name = map_option (\<lambda>p. windows_product_name p build_number (value ''InstallationType''))
                           (value ''ProductName''),
               or_version = windows_version_string (number ''CurrentMajorVersionNumber'')
                              (number ''CurrentMinorVersionNumber'') build (number ''UBR'')\<rparr>))"

section \<open>Power and priority\<close>

text \<open>\<open>pmset\<close> gives the text of its standard output unless it cannot be run.\<close>

definition check_macos_battery :: "string option \<Rightarrow> bool" where
  "check_macos_battery out = (case out of None \<Rightarrow> False | Some s \<Rightarrow> str_contains s ''Battery Power'')"

definition ac_line_status_is_battery :: "u8 \<Rightarrow> bool" where
  "ac_line_status_is_battery status \<longleftrightarrow> status = 0"

text \<open>The status that the call fills in, if it succeeds.\<close>

definition check_windows_battery :: "u8 option \<Rightarrow> bool" where
  "check_windows_battery status =
     (case status of None \<Rightarrow> False | Some ac_line_status \<Rightarrow> ac_line_status_is_battery ac_line_status)"

datatype qos_call =
    SetPriority int
  | SetThreadBackground
  | SetAffinity "1024 word"
  | SetPriorityClass u32
  | SetPowerThrottling u32 u32 u32

definition CPU_SETSIZE :: nat where "CPU_SETSIZE = 1024"

text \<open>The set that \<open>sched_setaffinity\<close> gets: indices that do not fit are left out.\<close>

definition cpu_mask :: "nat list \<Rightarrow> 1024 word" where
  "cpu_mask core_indices =
     fold (\<lambda>cpu m. if cpu < CPU_SETSIZE then m OR push_bit cpu 1 else m) core_indices 0"

definition enforce_linux_efficiency_cores :: "nat list option \<Rightarrow> qos_call list" where
  "enforce_linux_efficiency_cores e_cores =
     SetPriority 19 # (case e_cores of Some (c # cs) \<Rightarrow> [SetAffinity (cpu_mask (c # cs))] | _ \<Rightarrow> [])"

definition enforce_macos_efficiency_cores :: "qos_call list" where
  "enforce_macos_efficiency_cores = [SetPriority 0x1000, SetThreadBackground]"

definition enforce_windows_eco_qos :: "qos_call list" where
  "enforce_windows_eco_qos = [SetPriorityClass 0x40, SetPowerThrottling 1 (1 OR 4) (1 OR 4)]"

section \<open>The machine's identifier\<close>

definition windows_uuid_raw :: "reg_key \<Rightarrow> string option" where
  "windows_uuid_raw hklm =
     Option.bind (sum_option (open_key hklm (reg_path [''SOFTWARE'', ''Microsoft'', ''Cryptography'']))) (\<lambda>key.
     Option.bind (sum_option (get_text key ''MachineGuid'')) (\<lambda>guid.
       let trimmed = trim guid in if trimmed = [] then None else Some trimmed))"

text \<open>\<open>ioreg\<close>: whether it ended with success, and its output; the value is between the third and fourth quote.\<close>

definition macos_uuid_raw :: "(bool \<times> string) option \<Rightarrow> string option" where
  "macos_uuid_raw ioreg =
     Option.bind ioreg (\<lambda>(success, out).
       if \<not> success then None
       else Option.bind (find (\<lambda>line. str_contains line ''IOPlatformUUID'') (str_lines out)) (\<lambda>line.
            option_filter (\<lambda>v. v \<noteq> []) (map_option trim (field_at (split_on (CHR 0x22) line) 3))))"

section \<open>The applications of macOS\<close>

definition add_application :: "watched_system \<Rightarrow> string \<Rightarrow> fingerprint_builder \<Rightarrow> string + fingerprint_builder" where
  "add_application fs application b =
     (if path_extension application \<noteq> Some ''app'' then Inr b
      else and_then (add_path fs application b) (\<lambda>(_, b).
           and_then (add_path fs (path_join application ''Contents/Info.plist'') b) (\<lambda>(_, b). Inr b)))"

definition add_applications_dir :: "watched_system \<Rightarrow> string \<Rightarrow> fingerprint_builder \<Rightarrow> string + fingerprint_builder" where
  "add_applications_dir fs path b =
     and_then (add_path fs path b) (\<lambda>(is_dir, b).
       if \<not> is_dir then Inr b
       else and_then (sorted_children fs path) (\<lambda>cs. try_fold (add_application fs) cs b))"

definition brew_roots :: "string list" where
  "brew_roots = [''/opt/homebrew/Cellar'', ''/opt/homebrew/Caskroom'', ''/usr/local/Cellar'', ''/usr/local/Caskroom'']"

definition application_roots :: "string option \<Rightarrow> string list" where
  "application_roots home =
     ''/Applications'' # (case home of None \<Rightarrow> [] | Some h \<Rightarrow> [path_join h ''Applications''])"

definition macos_fingerprint ::
  "(u8 list \<Rightarrow> u8 list) \<Rightarrow> watched_system \<Rightarrow> string option \<Rightarrow> string + string option" where
  "macos_fingerprint sha fs home =
     and_then (try_fold (add_applications_dir fs) (application_roots home) new_builder) (\<lambda>b.
     and_then (try_fold (add_tree fs 2) brew_roots b) (\<lambda>b. Inr (Some (finish sha b))))"

section \<open>Collecting on any platform\<close>

datatype platform =
    LinuxHost "string \<Rightarrow> bool" "string \<Rightarrow> command_error + string"
  | WindowsHost bool reg_key reg_key
  | MacHost mac_env "string option" "string list \<Rightarrow> command_error + string"
  | OtherHost

definition unsupported_result :: collector_result where
  "unsupported_result = \<lparr>cr_entries = [],
     cr_warnings = [''software collection is not supported on this operating system''],
     cr_complete = False, cr_sources = []\<rparr>"

fun collect_platform :: "collect_env \<Rightarrow> platform \<Rightarrow> collector_result" where
  "collect_platform env (LinuxHost exists run) = linux_collect env exists run"
| "collect_platform env (WindowsHost panicked hklm users) = windows_collect env panicked hklm users"
| "collect_platform env (MacHost me panicked run) = mac_collect env me panicked run"
| "collect_platform env OtherHost = unsupported_result"

fun platform_sources :: "platform \<Rightarrow> software_source list" where
  "platform_sources (LinuxHost _ _) = [Dpkg, software_source.Rpm, Pacman]"
| "platform_sources (WindowsHost _ _ _) = [Winreg, software_source.Msi, Kb]"
| "platform_sources (MacHost _ _ _) = [MacBundle, Brew]"
| "platform_sources OtherHost = []"

text \<open>\<open>panicked\<close> says that the blocking task of the runtimes panicked.\<close>

definition collect_all_with_timeout ::
  "collect_env \<Rightarrow> platform \<Rightarrow> bool \<Rightarrow> file_system \<Rightarrow> (string \<Rightarrow> package_json option) \<Rightarrow> collector_result" where
  "collect_all_with_timeout env p panicked fs json =
     (if panicked
      then fold (\<lambda>source r. merge r (failed_result env source ''collector_panicked''))
             [Pip, Npm, Java] (collect_platform env p)
      else merge (collect_platform env p) (collect_all_runtimes env fs json))"

section \<open>The target\<close>

definition target_triple :: "string \<Rightarrow> string \<Rightarrow> string \<Rightarrow> string" where
  "target_triple os arch env =
     (if os = ''windows'' then arch @ ''-pc-windows-'' @ (if env = ''msvc'' then ''msvc'' else ''gnu'')
      else if os = ''macos'' then arch @ ''-apple-darwin''
      else if os = ''linux'' then arch @ ''-unknown-linux-'' @ (if env = ''musl'' then ''musl'' else ''gnu'')
      else arch @ ''-unknown-'' @ os)"

section \<open>Trusted paths on Windows\<close>

text \<open>A path as the standard library parses it.\<close>

datatype path_part = DiskPrefix | OtherPrefix | RootDir | CurDir | ParentDir | NamePart string

text \<open>\<open>exec\<close> is the bounded runner, \<open>script\<close> the fixed script that prints the report.\<close>

definition windows_trusted_path ::
  "(string \<Rightarrow> string) \<Rightarrow> (u8 list \<Rightarrow> string) \<Rightarrow> (u8 list \<Rightarrow> string + windows_trust_report) \<Rightarrow> runner \<Rightarrow> string
   \<Rightarrow> string \<Rightarrow> path_part list \<Rightarrow> bool \<Rightarrow> string + unit" where
  "windows_trusted_path debug lossy decode exec script shown parts strict_leaf =
     (if parts = [] \<or> hd parts \<noteq> DiskPrefix
      then Inl ''privileged Windows updater requires a local absolute disk path''
      else if list_ex (\<lambda>p. p = ParentDir \<or> p = CurDir) parts
      then Inl ''privileged Windows updater paths must be normalized''
      else and_then (exec POWERSHELL [''-NoProfile'', ''-NonInteractive'', ''-Command'', script]
                       [(''LARISKA_UPDATE_TRUST_PATH'', shown)]) (\<lambda>(status, bytes).
        if \<not> exit_success status
        then Inl (''Windows updater ownership/ACL check failed ('' @ ex_text status @ ''): '' @ take 2048 (lossy bytes))
        else and_then (map_sum (\<lambda>e. ''Windows ACL report: '' @ e) id (decode bytes)) (\<lambda>report.
             validate_windows_trust debug report strict_leaf)))"

definition windows_trusted_config ::
  "(string \<Rightarrow> bool \<Rightarrow> string + unit) \<Rightarrow> string list \<Rightarrow> bool \<Rightarrow> string \<Rightarrow> string + unit" where
  "windows_trusted_config check names absolute path =
     (if \<not> absolute then Inl ''native updater config path must be absolute''
      else and_then (check path True) (\<lambda>_. reject_config_environment names))"

section \<open>The incoming requests\<close>

text \<open>An entry of the directory: its path, whether it is a directory, and whether it holds \<open>ready.json\<close>.\<close>

record incoming_entry =
  in_path :: string
  in_is_dir :: "string + bool"
  in_ready :: bool

definition readable_entry :: "string + incoming_entry \<Rightarrow> string + string list" where
  "readable_entry e = and_then e (\<lambda>e. and_then (in_is_dir e) (\<lambda>d. Inr (if d \<and> in_ready e then [in_path e] else [])))"

fun ready_entries :: "(string + incoming_entry) list \<Rightarrow> string + string list" where
  "ready_entries [] = Inr []"
| "ready_entries (e # es) = and_then (readable_entry e) (\<lambda>ps. and_then (ready_entries es) (\<lambda>qs. Inr (ps @ qs)))"

definition incoming_requests :: "fs_error + (string + incoming_entry) list \<Rightarrow> string + string list" where
  "incoming_requests listing =
     (case listing of
        Inl FsNotFound \<Rightarrow> Inr []
      | Inl (FsError e) \<Rightarrow> Inl e
      | Inr items \<Rightarrow> and_then (ready_entries (take MAX_REQUESTS items)) (\<lambda>ps. Inr (sort_by compare_paths ps)))"

section \<open>Every platform reports each of its sources once\<close>

lemma reported_reported_once: "reported srcs r \<Longrightarrow> reported_once srcs r"
  by (auto simp: reported_def reported_once_def)

lemma reported_once_merge:
  assumes r: "reported_once A r" and s: "reported_once B s" and disjoint: "set A \<inter> set B = {}"
  shows "reported_once (A @ B) (merge r s)"
proof -
  note r' = r [unfolded reported_once_def] and s' = s [unfolded reported_once_def]
  have A: "cs_source c \<in> set A" if "c \<in> set (cr_sources r)" for c
    using r' that by (metis image_eqI list.set_map mset_eq_setD)
  have B: "cs_source c \<in> set B" if "c \<in> set (cr_sources s)" for c
    using s' that by (metis image_eqI list.set_map mset_eq_setD)
  have foreign: "se_source e \<noteq> cs_source c"
    if "e \<in> set (cr_entries r) \<and> c \<in> set (cr_sources s) \<or> e \<in> set (cr_entries s) \<and> c \<in> set (cr_sources r)" for e c
    using that r' s' A B disjoint by (metis disjoint_iff)
  show ?thesis
    using r' s' foreign by (simp add: reported_once_def merge_def ball_Un)
qed

lemma runtimes_reported:
  "usable_env env \<Longrightarrow> reported_once [Pip, Npm, Java] (collect_all_runtimes env fs json)"
proof -
  assume u: "usable_env env"
  have d: "reported_once [] default_result" by (simp add: reported_once_def default_result_def)
  note step = reported_once_merge [OF _ reported_reported_once]
  from step [OF step [OF step [OF d collect_python_packages_reported [OF u]] collect_nodejs_packages_reported [OF u]]
      collect_java_runtimes_reported [OF u]]
  show ?thesis by (simp add: collect_all_runtimes_def)
qed

lemma platform_reported: "usable_env env \<Longrightarrow> reported_once (platform_sources p) (collect_platform env p)"
proof (cases p)
  case OtherHost
  then show ?thesis by (simp add: reported_once_def unsupported_result_def)
qed (simp_all add: reported_reported_once linux_collect_reported mac_collect_reported windows_reported_once)

lemma panicked_runtimes_reported:
  assumes "usable_env env" and "reported_once A r" and "set A \<inter> {Pip, Npm, Java} = {}"
  shows "reported_once (A @ [Pip, Npm, Java])
    (fold (\<lambda>source r. merge r (failed_result env source ''collector_panicked'')) [Pip, Npm, Java] r)"
proof -
  have f: "reported_once [source] (failed_result env source ''collector_panicked'')" for source
    by (rule reported_reported_once [OF reported_failed [OF assms(1)]]) code_simp
  from reported_once_merge [OF reported_once_merge [OF reported_once_merge [OF assms(2) f [of Pip]] f [of Npm]] f [of Java]]
  show ?thesis using assms(3) by auto
qed

lemma collection_reported:
  assumes "usable_env env"
  shows "reported_once (platform_sources p @ [Pip, Npm, Java]) (collect_all_with_timeout env p panicked fs json)"
proof -
  have disjoint: "set (platform_sources p) \<inter> {Pip, Npm, Java} = {}" by (cases p) auto
  show ?thesis
    using panicked_runtimes_reported [OF assms platform_reported [OF assms] disjoint]
      reported_once_merge [OF platform_reported [OF assms] runtimes_reported [OF assms]] disjoint
    by (simp add: collect_all_with_timeout_def)
qed

interpretation any_platform: source_collector
  "\<lambda>(env, panicked, fs, json). collect_all_with_timeout env p panicked fs json" "\<lambda>(env, _). usable_env env"
  "platform_sources p @ [Pip, Npm, Java]" for p
  by unfold_locales (auto simp: collection_reported)

text \<open>
  A collection on any platform reports every source of the platform and the three runtimes
  once and validly; an entry comes only from a source that was collected completely or
  partly; on an unsupported system, or when the runtimes panicked, the result is incomplete.
\<close>

theorem every_platform_reports_its_sources:
  assumes "usable_env env" and "collect_all_with_timeout env p panicked fs json = r"
  shows "reported_once (platform_sources p @ [Pip, Npm, Java]) r
    \<and> (\<forall>e\<in>set (cr_entries r). \<exists>c\<in>set (cr_sources r). cs_source c = se_source e \<and> cs_status c \<in> {Complete, Partial})
    \<and> (cr_complete r \<longrightarrow> p \<noteq> OtherHost \<and> \<not> panicked)"
proof -
  have "\<not> cr_complete r" if "p = OtherHost \<or> panicked"
    using that assms(2)
    by (cases p) (auto simp: collect_all_with_timeout_def unsupported_result_def merge_def failed_result_def split: if_splits)
  then show ?thesis
    using collection_reported [OF assms(1)] any_platform.entries_have_their_source [of "(env, panicked, fs, json)" _ p] assms
    by auto
qed

definition no_files :: file_system where
  "no_files = \<lparr>fs_read_dir = (\<lambda>_. Inl FsNotFound), fs_is_dir = (\<lambda>_. Inl FsNotFound), fs_exists = (\<lambda>_. False),
     fs_read = (\<lambda>_. None), fs_canonical = (\<lambda>_. None)\<rparr>"

theorem every_platform_reports_its_sources_witness:
  "let r = collect_all_with_timeout plain_env (WindowsHost True blank_key blank_key) True no_files (\<lambda>_. None) in
     mset (map cs_source (cr_sources r)) = {#Winreg, software_source.Msi, Kb, Pip, Npm, Java#} \<and> \<not> cr_complete r"
proof -
  have u: "usable_env plain_env"
    by (simp add: usable_env_def plain_env_def trim_def trim_start_def trim_end_def is_whitespace_def scalar_def)
  from every_platform_reports_its_sources [OF u refl, of "WindowsHost True blank_key blank_key" True no_files "\<lambda>_. None"]
  show ?thesis unfolding Let_def reported_once_def by simp
qed

section \<open>Releases and priorities\<close>

text \<open>
  A version without a dot in the build number has exactly its three or four parts; a product
  is renamed only on a client installation, and only its leading \<open>Windows 10\<close>.
\<close>

lemma split_on_append: "d \<notin> set a \<Longrightarrow> split_on d (a @ d # b) = a # split_on d b"
  by (induction a) (auto split: list.splits)

lemma split_on_single: "d \<notin> set a \<Longrightarrow> split_on d a = [a]"
  by (induction a) auto

lemma show_nat_no_dot: "CHR ''.'' \<notin> set (show_nat n)"
  using show_nat_digits [of n] by (auto simp: list_all_iff is_ascii_digit_def scalar_def)

lemma windows_version_parts:
  assumes "windows_version_string major minor build ubr = Some v" and "CHR ''.'' \<notin> set (unwrap_or build [])"
  shows "\<exists>m b. major = Some m \<and> build = Some b \<and> split_on (CHR ''.'') v =
    [show_u32 m, show_u32 (unwrap_or minor 0), trim b] @ (case ubr of Some u \<Rightarrow> [show_u32 u] | None \<Rightarrow> [])"
proof -
  obtain m b where mb: "major = Some m" "build = Some b" "non_empty b = Some (trim b)"
    and v: "v = show_u32 m @ ''.'' @ show_u32 (unwrap_or minor 0) @ ''.'' @ trim b
              @ (case ubr of Some u \<Rightarrow> ''.'' @ show_u32 u | None \<Rightarrow> [])"
    using assms(1) by (auto simp: windows_version_string_def bind_eq_Some_conv non_empty_def Let_def split: if_splits)
  have "set (trim b) \<subseteq> set b"
    unfolding trim_def trim_start_def trim_end_def by (auto dest!: set_dropWhileD)
  then have "CHR ''.'' \<notin> set (trim b)" using assms(2) mb(2) by auto
  then have "split_on (CHR ''.'') v =
    [show_u32 m, show_u32 (unwrap_or minor 0), trim b] @ (case ubr of Some u \<Rightarrow> [show_u32 u] | None \<Rightarrow> [])"
    unfolding v show_u32_def
    by (cases ubr) (simp_all add: split_on_append split_on_single show_nat_no_dot del: split_on.simps show_nat.simps)
  with mb show ?thesis by blast
qed

lemma product_renamed_only_for_clients:
  assumes "windows_product_name product build installation_type \<noteq> product"
  shows "\<exists>b rest. build = Some b \<and> b \<ge> 22000 \<and> product = ''Windows 10'' @ rest
    \<and> windows_product_name product build installation_type = ''Windows 11'' @ rest
    \<and> (\<forall>t. installation_type = Some t \<longrightarrow> eq_ignore_ascii_case t ''Client'')"
proof -
  define client where "client \<longleftrightarrow> (case installation_type of None \<Rightarrow> True | Some t \<Rightarrow> eq_ignore_ascii_case t ''Client'')"
  have d: "windows_product_name product build installation_type =
      (if client \<and> (case build of None \<Rightarrow> False | Some b \<Rightarrow> b \<ge> 22000)
       then (case strip_prefix product ''Windows 10'' of Some rest \<Rightarrow> ''Windows 11'' @ rest | None \<Rightarrow> product)
       else product)"
    by (simp add: windows_product_name_def client_def)
  obtain b rest where b: "client" "build = Some b" "b \<ge> 22000" "strip_prefix product ''Windows 10'' = Some rest"
    using assms unfolding d by (auto split: option.splits if_splits)
  have "product = ''Windows 10'' @ rest"
    using b(4) unfolding strip_prefix_def starts_with_def
    by (metis append_take_drop_id option.distinct(1) option.inject)
  moreover have "installation_type = Some t \<Longrightarrow> eq_ignore_ascii_case t ''Client''" for t
    using b(1) by (simp add: client_def)
  ultimately show ?thesis using b unfolding d by simp
qed

text \<open>The affinity mask holds exactly the detected cores that fit; the excess is dropped.\<close>

lemma cpu_mask_fold:
  "bit (fold (\<lambda>cpu m. if cpu < CPU_SETSIZE then m OR push_bit cpu 1 else m) cores m) i \<longleftrightarrow>
   bit (m :: 1024 word) i \<or> i < CPU_SETSIZE \<and> i \<in> set cores"
proof (induction cores arbitrary: m)
  case (Cons cpu cores)
  have "bit (push_bit cpu (1 :: 1024 word)) i \<longleftrightarrow> i = cpu" if "cpu < CPU_SETSIZE"
    using that by (auto simp: CPU_SETSIZE_def bit_exp_iff possible_bit_def)
  then show ?case using Cons by (auto simp: bit_or_iff)
qed simp

lemma cpu_mask_bits: "bit (cpu_mask cores) i \<longleftrightarrow> i < CPU_SETSIZE \<and> i \<in> set cores"
  by (simp add: cpu_mask_def cpu_mask_fold)

section \<open>The fingerprint of the applications\<close>

definition application_paths :: "string \<Rightarrow> string list" where
  "application_paths application =
     (if path_extension application = Some ''app''
      then [application, path_join application ''Contents/Info.plist''] else [])"

definition applications_dir_paths :: "watched_system \<Rightarrow> string \<Rightarrow> string list" where
  "applications_dir_paths fs path =
     path # (if map_option fst (seen fs path) = Some DirectoryKind
             then concat (map application_paths (children_of fs path)) else [])"

definition macos_paths :: "watched_system \<Rightarrow> string option \<Rightarrow> string list" where
  "macos_paths fs home = concat (map (applications_dir_paths fs) (application_roots home))
     @ concat (map (tree_paths fs 2) brew_roots)"

lemma add_application_records:
  "add_application fs a b = Inr b' \<Longrightarrow> records fs (application_paths a) b b'"
  using records_trans [where ps = "[a]"]
  by (fastforce simp: add_application_def application_paths_def records_refl and_then_Inr_iff
      dest: add_path_records split: if_splits)

lemma add_applications_dir_records:
  assumes "add_applications_dir fs path b = Inr b'"
  shows "records fs (applications_dir_paths fs path) b b'"
proof -
  obtain is_dir c where c: "add_path fs path b = Inr (is_dir, c)"
    and rest: "(if \<not> is_dir then Inr c
       else and_then (sorted_children fs path) (\<lambda>cs. try_fold (add_application fs) cs c)) = Inr b'"
    using assms by (auto simp: add_applications_dir_def and_then_Inr_iff)
  note p = add_path_records [OF c]
  show ?thesis
  proof (cases is_dir)
    case True
    with rest obtain cs where cs: "sorted_children fs path = Inr cs" "try_fold (add_application fs) cs c = Inr b'"
      by (auto simp: and_then_Inr_iff)
    have "records fs (concat (map application_paths cs)) c b'"
      by (rule try_fold_records [OF cs(2)]) (rule add_application_records)
    from records_trans [OF conjunct1 [OF p] this] show ?thesis
      using True p cs(1) by (simp add: applications_dir_paths_def children_of_def)
  qed (use rest p in \<open>simp add: applications_dir_paths_def\<close>)
qed

lemma macos_fingerprint_digest:
  assumes "macos_fingerprint sha fs home = Inr (Some f)"
  shows "f = digest_of sha fs (macos_paths fs home)"
proof -
  obtain c b where c: "try_fold (add_applications_dir fs) (application_roots home) new_builder = Inr c"
    and b: "try_fold (add_tree fs 2) brew_roots c = Inr b" and f: "f = finish sha b"
    using assms by (auto simp: macos_fingerprint_def and_then_Inr_iff)
  have "records fs (macos_paths fs home) new_builder b"
    unfolding macos_paths_def
    by (rule records_trans [OF try_fold_records [OF c add_applications_dir_records] try_fold_records [OF b add_tree_records]])
  with f show ?thesis by (simp add: finish_records)
qed

text \<open>
  As on Linux, equal fingerprints of two states of a macOS host mean equal observations: the
  bundles, their property lists and the entries of Homebrew, and what is recorded of each.
\<close>

lemma macos_fingerprint_observes:
  assumes "macos_fingerprint sha fs home = Inr (Some f)" and "macos_fingerprint sha gs home = Inr (Some f)"
    and "sha (encode_observations (observe fs (macos_paths fs home)))
           = sha (encode_observations (observe gs (macos_paths gs home))) \<Longrightarrow>
         encode_observations (observe fs (macos_paths fs home)) = encode_observations (observe gs (macos_paths gs home))"
    and "\<forall>p\<in>set (macos_paths fs home) \<union> set (macos_paths gs home). utf8_len p < 2 ^ 64"
  shows "observe fs (macos_paths fs home) = observe gs (macos_paths gs home)"
  using digest_of_inject [where sha = sha, OF _ assms(3,4)] macos_fingerprint_digest [OF assms(1)] macos_fingerprint_digest [OF assms(2)]
  by simp

section \<open>Trusted paths and requests\<close>

text \<open>An accepted Windows path is on a local disk and normalized, and its report was accepted.\<close>

lemma windows_trusted_path_accepts:
  assumes "windows_trusted_path debug lossy decode exec script shown parts strict_leaf = Inr ()"
  shows "hd parts = DiskPrefix \<and> ParentDir \<notin> set parts \<and> CurDir \<notin> set parts
    \<and> (\<exists>status bytes report. exec POWERSHELL [''-NoProfile'', ''-NonInteractive'', ''-Command'', script]
           [(''LARISKA_UPDATE_TRUST_PATH'', shown)] = Inr (status, bytes)
         \<and> exit_success status \<and> decode bytes = Inr report \<and> tr_objects report \<noteq> []
         \<and> trusted_object report (if strict_leaf then leaf_rights else parent_rights) (hd (tr_objects report))
         \<and> list_all (trusted_object report parent_rights) (tl (tr_objects report)))"
proof -
  obtain status bytes report where x: "exec POWERSHELL [''-NoProfile'', ''-NonInteractive'', ''-Command'', script]
      [(''LARISKA_UPDATE_TRUST_PATH'', shown)] = Inr (status, bytes)" "exit_success status" "decode bytes = Inr report"
      "validate_windows_trust debug report strict_leaf = Inr ()"
    using assms by (auto simp: windows_trusted_path_def and_then_Inr_iff split: if_splits sum.splits)
  then have "tr_objects report \<noteq> []
     \<and> trusted_object report (if strict_leaf then leaf_rights else parent_rights) (hd (tr_objects report))
     \<and> list_all (trusted_object report parent_rights) (tl (tr_objects report))"
    by (auto simp: validate_windows_trust_def check_objects_iff split: if_splits)
  with x show ?thesis
    using assms by (auto simp: windows_trusted_path_def list_ex_iff split: if_splits)
qed

text \<open>
  At most 64 entries of the directory are looked at, so the requests behind as many others,
  which need not be requests, are not seen.
\<close>

lemma ready_entries_result:
  assumes "ready_entries es = Inr ps"
  shows "ps = map in_path (filter (\<lambda>e. in_is_dir e = Inr True \<and> in_ready e) (List.map_filter sum_option es))
    \<and> length ps \<le> length es"
  using assms
proof (induction es arbitrary: ps)
  case (Cons a es)
  then obtain e d qs where e: "a = Inr e" "in_is_dir e = Inr d" "ready_entries es = Inr qs"
    "ps = (if d \<and> in_ready e then [in_path e] else []) @ qs"
    by (auto simp: and_then_Inr_iff readable_entry_def)
  with Cons.IH [OF e(3)] show ?case by (auto simp: sum_option_def List.map_filter_simps)
qed simp

lemma incoming_requests_bounded:
  assumes "incoming_requests (Inr items) = Inr ps"
  shows "length ps \<le> MAX_REQUESTS \<and> mset ps = mset (map in_path
    (filter (\<lambda>e. in_is_dir e = Inr True \<and> in_ready e) (List.map_filter sum_option (take MAX_REQUESTS items))))"
proof -
  obtain qs where q: "ready_entries (take MAX_REQUESTS items) = Inr qs" "ps = sort_by compare_paths qs"
    using assms by (auto simp: incoming_requests_def and_then_Inr_iff)
  have m: "mset ps = mset qs" by (simp add: q(2))
  then have "length ps = length qs" by (metis size_mset)
  with ready_entries_result [OF q(1)] m show ?thesis by auto
qed

end
