(* ===== verification/Client_Certificate.thy ===== *)
theory Client_Certificate
  imports Managed Atomic_File Api
begin

text \<open>
  The agent's TLS client certificate, \<open>src/mtls.rs\<close>, and the requests that carry it,
  \<open>src/api.rs\<close>: the one file that holds the private key with its certificate, the pending
  enrolment whose key is written before anything is requested, enrolment, recovery and
  renewal with their back-off. Key generation, the PEM and X.509 parsers, the JSON codecs,
  the TLS client's builder, the clock, the server's replies and the file system's failures
  are parameters. A run yields, in order, every state of the state directory and every
  request for a certificate together with the directory at the moment it was sent. Times
  are seconds of the Unix epoch; they stay in the range of \<open>OffsetDateTime\<close>, so that the
  sum with the back-off does not overflow its \<open>i64\<close>.
\<close>

section \<open>State\<close>

record cert_bundle =
  bd_key :: string
  bd_certificate :: string
  bd_ca_certificate :: string
  bd_renew_after :: string

record pending =
  pn_key :: string
  pn_csr :: string
  pn_server_url :: string

record issued =
  is_certificate :: string
  is_ca_certificate :: string
  is_renew_after :: string

record cert_state =
  cs_bundle :: "cert_bundle option"
  cs_unavailable :: bool
  cs_retry_at :: int
  cs_pending :: "pending option"

text \<open>What the code reads of a parsed X.509 certificate.\<close>

record certificate =
  ct_public_key :: "u8 list"
  ct_not_after :: int
  ct_valid :: "int \<Rightarrow> bool"

text \<open>The libraries: parsers, codecs and the builder of the HTTP client.\<close>

record cert_env =
  cx_public_key :: "string \<Rightarrow> string + u8 list"
  cx_certificate :: "string \<Rightarrow> string + certificate"
  cx_timestamp :: "string \<Rightarrow> string + int"
  cx_decode_bundle :: "u8 list \<Rightarrow> string + cert_bundle"
  cx_encode_bundle :: "cert_bundle \<Rightarrow> string + u8 list"
  cx_decode_pending :: "u8 list \<Rightarrow> string + pending"
  cx_encode_pending :: "pending \<Rightarrow> string + u8 list"
  cx_decode_issued :: "string \<Rightarrow> string + issued"
  cx_read_file :: "string \<Rightarrow> string + u8 list"
  cx_root :: "u8 list \<Rightarrow> string + unit"
  cx_identity :: "string \<Rightarrow> string + unit"
  cx_build :: "string + unit"

definition IDENTITY_BUNDLE :: string where "IDENTITY_BUNDLE = ''client-identity.json''"
definition ENROLLMENT_FILE :: string where "ENROLLMENT_FILE = ''client-enrollment.json''"

definition fatal :: "string \<Rightarrow> api_error" where
  "fatal e = Fatal (''client certificate: '' @ e)"

section \<open>Checks on a bundle\<close>

definition timestamp :: "cert_env \<Rightarrow> string \<Rightarrow> api_error + int" where
  "timestamp cx v = map_err fatal (cx_timestamp cx v)"

definition valid_now :: "cert_env \<Rightarrow> int \<Rightarrow> cert_bundle \<Rightarrow> api_error + bool" where
  "valid_now cx clock b =
     and_then (map_err fatal (cx_certificate cx (bd_certificate b))) (\<lambda>cert. Inr (ct_valid cert clock))"

definition validate_bundle :: "cert_env \<Rightarrow> cert_bundle \<Rightarrow> api_error + unit" where
  "validate_bundle cx b =
     and_then (map_err fatal (cx_public_key cx (bd_key b))) (\<lambda>key.
     and_then (map_err fatal (cx_certificate cx (bd_certificate b))) (\<lambda>cert.
     if ct_public_key cert \<noteq> key then Inl (fatal ''certificate does not match private key'')
     else and_then (timestamp cx (bd_renew_after b)) (\<lambda>renewal.
       if renewal \<ge> ct_not_after cert then Inl (fatal ''renewal must precede certificate expiration'')
       else Inr ())))"

section \<open>The HTTP client\<close>

record http_client =
  hc_redirects :: bool
  hc_timeout :: u64
  hc_root :: "u8 list option"
  hc_identity :: "string option"

definition identity_pem :: "cert_bundle \<Rightarrow> string" where
  "identity_pem b = bd_key b @ [CHR 0x0A] @ bd_certificate b @ [CHR 0x0A] @ bd_ca_certificate b"

definition build_client :: "cert_env \<Rightarrow> config \<Rightarrow> cert_bundle option \<Rightarrow> api_error + http_client" where
  "build_client cx c b =
     and_then (case cf_tls_ca_file c of
          None \<Rightarrow> Inr None
        | Some path \<Rightarrow> map_err fatal (and_then (cx_read_file cx path) (\<lambda>pem.
            and_then (cx_root cx pem) (\<lambda>_. Inr (Some pem))))) (\<lambda>root.
     and_then (case b of
          None \<Rightarrow> Inr None
        | Some b \<Rightarrow> map_err fatal (and_then (cx_identity cx (identity_pem b)) (\<lambda>_. Inr (Some (identity_pem b))))) (\<lambda>identity.
     and_then (map_err fatal (cx_build cx)) (\<lambda>_.
       Inr \<lparr>hc_redirects = False, hc_timeout = cf_request_timeout c, hc_root = root, hc_identity = identity\<rparr>)))"

definition usable_now :: "cert_env \<Rightarrow> int \<Rightarrow> cert_bundle \<Rightarrow> bool" where
  "usable_now cx clock b \<longleftrightarrow> valid_now cx clock b = Inr True"

definition cert_client :: "cert_env \<Rightarrow> config \<Rightarrow> int \<Rightarrow> cert_state \<Rightarrow> api_error + http_client" where
  "cert_client cx c clock st = build_client cx c (option_filter (usable_now cx clock) (cs_bundle st))"

section \<open>Loading and publishing\<close>

definition read_named :: "fault_plan \<Rightarrow> string \<Rightarrow> u8 list dir \<Rightarrow> string + u8 list option" where
  "read_named plan name d = (case fault plan ReadFile of Some e \<Rightarrow> Inl e | None \<Rightarrow> Inr (map_of d name))"

definition load_bundle :: "cert_env \<Rightarrow> fault_plan \<Rightarrow> u8 list dir \<Rightarrow> api_error + cert_bundle option" where
  "load_bundle cx plan d =
     and_then (map_err fatal (read_named plan IDENTITY_BUNDLE d)) (\<lambda>bytes. case bytes of
        None \<Rightarrow> Inr None
      | Some bytes \<Rightarrow> and_then (map_err fatal (cx_decode_bundle cx bytes)) (\<lambda>b.
          and_then (validate_bundle cx b) (\<lambda>_. Inr (Some b))))"

definition load_pending :: "cert_env \<Rightarrow> string \<Rightarrow> fault_plan \<Rightarrow> u8 list dir \<Rightarrow> api_error + pending option" where
  "load_pending cx url plan d =
     and_then (map_err fatal (read_named plan ENROLLMENT_FILE d)) (\<lambda>bytes. case bytes of
        None \<Rightarrow> Inr None
      | Some bytes \<Rightarrow> and_then (map_err fatal (cx_decode_pending cx bytes)) (\<lambda>p.
          if pn_server_url p \<noteq> url then Inl (fatal ''pending enrollment belongs to a different server'')
          else and_then (map_err fatal (cx_public_key cx (pn_key p))) (\<lambda>_. Inr (Some p))))"

definition cert_load ::
  "cert_env \<Rightarrow> config \<Rightarrow> fault_plan \<Rightarrow> fault_plan \<Rightarrow> u8 list dir \<Rightarrow> api_error + cert_state" where
  "cert_load cx c bundle_plan pending_plan d =
     and_then (load_bundle cx bundle_plan d) (\<lambda>b.
     and_then (load_pending cx (cf_server_url c) pending_plan d) (\<lambda>p.
       Inr \<lparr>cs_bundle = b, cs_unavailable = False, cs_retry_at = 0, cs_pending = p\<rparr>))"

definition recover_state :: "cert_state \<Rightarrow> cert_state" where
  "recover_state st = st\<lparr>cs_bundle := None, cs_unavailable := False, cs_retry_at := 0\<rparr>"

text \<open>
  \<open>persist_named\<close>: \<open>created\<close> is the outcome of creating the directory, \<open>n\<close> the random
  number of the temporary file's name, \<open>encoded\<close> the serialised value. The temporary file
  must not exist, and is removed when any later step fails.
\<close>

definition temp_cert_name :: "nat \<Rightarrow> string" where
  "temp_cert_name n = ''.client-identity-'' @ show_nat n @ ''.tmp''"

definition write_named ::
  "fault_plan \<Rightarrow> string \<Rightarrow> string \<Rightarrow> string + u8 list \<Rightarrow> u8 list dir \<Rightarrow> (string + unit) \<times> u8 list dir list" where
  "write_named plan temp name encoded d =
     (case fault plan CreateTemp of
        Some e \<Rightarrow> (Inl e, [d])
      | None \<Rightarrow>
          if map_of d temp \<noteq> None then (Inl ''File exists (os error 17)'', [d])
          else case encoded of
            Inl e \<Rightarrow> (Inl e, [AList.update temp [] d])
          | Inr bytes \<Rightarrow>
              (case write_temp plan id temp bytes d of
                 (Inl (_, e), states) \<Rightarrow> (Inl e, states)
               | (Inr _, states) \<Rightarrow>
                   (case fault plan Publish of
                      Some e \<Rightarrow> (Inl e, states)
                    | None \<Rightarrow>
                        (let d' = AList.update name bytes (AList.delete temp (last states)) in
                         case fault plan SyncDir of
                           Some e \<Rightarrow> (Inl e, states @ [d'])
                         | None \<Rightarrow> (Inr (), states @ [d'])))))"

record persist_io =
  ps_created :: "string + unit"
  ps_plan :: fault_plan
  ps_number :: nat

definition persist_named ::
  "persist_io \<Rightarrow> string \<Rightarrow> string + u8 list \<Rightarrow> u8 list dir \<Rightarrow> (api_error + unit) \<times> u8 list dir list" where
  "persist_named io name encoded d =
     (case ps_created io of
        Inl e \<Rightarrow> (Inl (fatal e), [d])
      | Inr _ \<Rightarrow>
          (let temp = temp_cert_name (ps_number io) in
           case write_named (ps_plan io) temp name encoded d of
             (Inl e, states) \<Rightarrow> (Inl (fatal e), states
                @ (if fault (ps_plan io) RemoveTemp = None then [AList.delete temp (last states)] else []))
           | (Inr _, states) \<Rightarrow> (Inr (), states)))"

section \<open>Enrolment\<close>

record cert_request =
  rq_url :: string
  rq_token :: string
  rq_csr :: string
  rq_client :: http_client

datatype cert_step = OnDisk "u8 list dir" | Sent cert_request "u8 list dir"

text \<open>The inputs of one call: the clock at each place that reads it, the generated key and
  its signing request, the replies of the two endpoints, and the file operations.\<close>

datatype moment = NowAt | DueAt | UsableAt | ClientAt | RecoverAt | RequestAt | IssuedAt

record cert_io =
  io_clock :: "moment \<Rightarrow> int"
  io_key :: "string + string"
  io_csr :: "string + string"
  io_pending :: persist_io
  io_bundle :: persist_io
  io_recover :: "api_error + http_response"
  io_issue :: "api_error + http_response"
  io_remove :: fault_plan

definition trim_end_slashes :: "string \<Rightarrow> string" where
  "trim_end_slashes s = rev (dropWhile (\<lambda>ch. ch = CHR ''/'') (rev s))"

definition request_certificate ::
  "cert_env \<Rightarrow> config \<Rightarrow> int \<Rightarrow> string \<Rightarrow> cert_state \<Rightarrow> string \<Rightarrow> string \<Rightarrow> api_error + http_response \<Rightarrow> u8 list dir
   \<Rightarrow> (api_error + http_response) \<times> cert_step list" where
  "request_certificate cx c clock tok st path csr reply d =
     (case cert_client cx c clock st of
        Inl e \<Rightarrow> (Inl e, [])
      | Inr client \<Rightarrow> (reply, [Sent \<lparr>rq_url = trim_end_slashes (cf_server_url c) @ ''/api/v1/agent/'' @ path,
                                  rq_token = tok, rq_csr = csr, rq_client = client\<rparr> d]))"

text \<open>The pending enrolment: the one at hand, or a new one whose file is written first.\<close>

definition obtain_pending ::
  "cert_env \<Rightarrow> config \<Rightarrow> cert_io \<Rightarrow> cert_state \<Rightarrow> u8 list dir \<Rightarrow> (api_error + pending) \<times> u8 list dir list" where
  "obtain_pending cx c io st d =
     (case cs_pending st of
        Some p \<Rightarrow> (Inr p, [])
      | None \<Rightarrow>
          (case and_then (map_err fatal (io_key io)) (\<lambda>key. and_then (map_err fatal (io_csr io)) (\<lambda>csr.
                  Inr \<lparr>pn_key = key, pn_csr = csr, pn_server_url = cf_server_url c\<rparr>)) of
             Inl e \<Rightarrow> (Inl e, [])
           | Inr p \<Rightarrow>
               (case persist_named (io_pending io) ENROLLMENT_FILE (cx_encode_pending cx p) d of
                  (Inl e, states) \<Rightarrow> (Inl e, states)
                | (Inr _, states) \<Rightarrow> (Inr p, states))))"

text \<open>The issued certificate, or nothing when the server does not offer enrolment.\<close>

definition obtain_issued ::
  "cert_env \<Rightarrow> config \<Rightarrow> string \<Rightarrow> cert_io \<Rightarrow> bool \<Rightarrow> cert_state \<Rightarrow> string \<Rightarrow> u8 list dir
   \<Rightarrow> (api_error + issued option) \<times> cert_step list" where
  "obtain_issued cx c tok io was_pending st csr d =
     (let (recovered, sent) =
            (if \<not> was_pending then (Inr None, [])
             else case request_certificate cx c (io_clock io RecoverAt) tok st ''certificate/recover'' csr (io_recover io) d of
               (Inl e, sent) \<Rightarrow> (Inl e, sent)
             | (Inr r, sent) \<Rightarrow>
                 (if rs_status r = 404 then Inr None
                  else and_then (classify_response (cx_decode_issued cx) r) (\<lambda>i. Inr (Some i)), sent))
      in case recovered of
           Inl e \<Rightarrow> (Inl e, sent)
         | Inr (Some i) \<Rightarrow> (Inr (Some i), sent)
         | Inr None \<Rightarrow>
             (case request_certificate cx c (io_clock io RequestAt) tok st ''certificate'' csr (io_issue io) d of
                (Inl e, sent') \<Rightarrow> (Inl e, sent @ sent')
              | (Inr r, sent') \<Rightarrow>
                  (if rs_status r = 404 \<and> cs_bundle st = None then Inr None
                   else and_then (classify_response (cx_decode_issued cx) r) (\<lambda>i. Inr (Some i)), sent @ sent')))"

text \<open>Checking and publishing what was issued; the pending file goes last.\<close>

definition remove_pending :: "fault_plan \<Rightarrow> u8 list dir \<Rightarrow> (api_error + unit) \<times> u8 list dir list" where
  "remove_pending plan d =
     (case fault plan RemoveFile of
        Some e \<Rightarrow> (Inl (fatal e), [])
      | None \<Rightarrow>
          if map_of d ENROLLMENT_FILE = None then (Inl (fatal ''No such file or directory (os error 2)''), [])
          else (case fault plan SyncDir of
             Some e \<Rightarrow> (Inl (fatal e), [AList.delete ENROLLMENT_FILE d])
           | None \<Rightarrow> (Inr (), [AList.delete ENROLLMENT_FILE d])))"

definition publish_bundle ::
  "cert_env \<Rightarrow> config \<Rightarrow> cert_io \<Rightarrow> cert_bundle \<Rightarrow> u8 list dir \<Rightarrow> (api_error + http_client) \<times> u8 list dir list" where
  "publish_bundle cx c io b d =
     (case and_then (validate_bundle cx b) (\<lambda>_. and_then (valid_now cx (io_clock io IssuedAt) b) (\<lambda>valid.
             if \<not> valid then Inl (fatal ''issuer returned a certificate outside its validity period'')
             else build_client cx c (Some b))) of
        Inl e \<Rightarrow> (Inl e, [])
      | Inr client \<Rightarrow>
          (case persist_named (io_bundle io) IDENTITY_BUNDLE (cx_encode_bundle cx b) d of
             (Inl e, states) \<Rightarrow> (Inl e, states)
           | (Inr _, states) \<Rightarrow>
               (case remove_pending (io_remove io) (last states) of
                  (Inl e, states') \<Rightarrow> (Inl e, states @ states')
                | (Inr _, states') \<Rightarrow> (Inr client, states @ states'))))"

definition issued_bundle :: "pending \<Rightarrow> issued \<Rightarrow> cert_bundle" where
  "issued_bundle p i = \<lparr>bd_key = pn_key p, bd_certificate = is_certificate i,
     bd_ca_certificate = is_ca_certificate i, bd_renew_after = is_renew_after i\<rparr>"

definition enroll ::
  "cert_env \<Rightarrow> config \<Rightarrow> string \<Rightarrow> cert_io \<Rightarrow> cert_state \<Rightarrow> u8 list dir
   \<Rightarrow> (api_error + http_client) \<times> cert_state \<times> cert_step list" where
  "enroll cx c tok io st d =
     (case obtain_pending cx c io st d of
        (Inl e, states) \<Rightarrow> (Inl e, st, map OnDisk states)
      | (Inr p, states) \<Rightarrow>
          (let was_pending = cs_pending st \<noteq> None; st = st\<lparr>cs_pending := Some p\<rparr>; d = last (d # states) in
           case obtain_issued cx c tok io was_pending st (pn_csr p) d of
             (Inl e, sent) \<Rightarrow> (Inl e, st, map OnDisk states @ sent)
           | (Inr None, sent) \<Rightarrow>
               (let st = st\<lparr>cs_unavailable := True\<rparr> in
                (cert_client cx c (io_clock io ClientAt) st, st, map OnDisk states @ sent))
           | (Inr (Some i), sent) \<Rightarrow>
               (let b = issued_bundle p i in
                case publish_bundle cx c io b d of
                  (Inl e, states') \<Rightarrow> (Inl e, st, map OnDisk states @ sent @ map OnDisk states')
                | (Inr client, states') \<Rightarrow>
                    (Inr client, st\<lparr>cs_pending := None, cs_bundle := Some b, cs_retry_at := 0\<rparr>,
                     map OnDisk states @ sent @ map OnDisk states'))))"

definition renewal_due :: "cert_env \<Rightarrow> cert_io \<Rightarrow> cert_state \<Rightarrow> api_error + bool" where
  "renewal_due cx io st =
     (case cs_bundle st of
        None \<Rightarrow> Inr True
      | Some b \<Rightarrow> and_then (valid_now cx (io_clock io DueAt) b) (\<lambda>valid.
          if \<not> valid then Inr True
          else and_then (timestamp cx (bd_renew_after b)) (\<lambda>renew. Inr (renew \<le> io_clock io NowAt))))"

definition bundle_usable :: "cert_env \<Rightarrow> int \<Rightarrow> cert_state \<Rightarrow> bool" where
  "bundle_usable cx clock st = (case cs_bundle st of None \<Rightarrow> False | Some b \<Rightarrow> usable_now cx clock b)"

definition ensure_certificate ::
  "cert_env \<Rightarrow> config \<Rightarrow> string \<Rightarrow> cert_io \<Rightarrow> cert_state \<Rightarrow> u8 list dir
   \<Rightarrow> (api_error + http_client) \<times> cert_state \<times> cert_step list" where
  "ensure_certificate cx c tok io st d =
     (let current = cert_client cx c (io_clock io ClientAt) in
      if \<not> starts_with (cf_server_url c) ''https://'' \<or> cs_unavailable st then (current st, st, [])
      else case renewal_due cx io st of
        Inl e \<Rightarrow> (Inl e, st, [])
      | Inr due \<Rightarrow>
          if \<not> due then (current st, st, [])
          else let usable = bundle_usable cx (io_clock io UsableAt) st in
            if io_clock io NowAt < cs_retry_at st
            then (if usable then current st else Inl (Transient ''certificate enrollment is backing off''), st, [])
            else case enroll cx c tok io (st\<lparr>cs_retry_at := io_clock io NowAt + 300\<rparr>) d of
              (Inr client, st', trace) \<Rightarrow> (Inr client, st', trace)
            | (Inl Auth, st', trace) \<Rightarrow> (Inl Auth, st'\<lparr>cs_retry_at := 0\<rparr>, trace)
            | (Inl e, st', trace) \<Rightarrow> (if usable then current st' else Inl e, st', trace))"


section \<open>Requests under a certificate\<close>

text \<open>
  \<open>ApiClient::new\<close>, the clients of \<open>http\<close> and \<open>authenticated_http\<close>, and \<open>post_json\<close> over the
  state of the certificate: \<open>io n\<close> and \<open>send n\<close> are what the \<open>n\<close>-th attempt meets.
\<close>

definition api_client_new ::
  "cert_env \<Rightarrow> config \<Rightarrow> fault_plan \<Rightarrow> fault_plan \<Rightarrow> u8 list dir
   \<Rightarrow> api_error + http_client \<times> string \<times> cert_state" where
  "api_client_new cx c bundle_plan pending_plan d =
     and_then (case cf_tls_ca_file c of
          None \<Rightarrow> Inr None
        | Some path \<Rightarrow>
            and_then (map_err (\<lambda>e. Fatal (''failed to read tls_ca_file: '' @ e)) (cx_read_file cx path)) (\<lambda>pem.
            and_then (map_err (\<lambda>e. Fatal (''invalid tls_ca_file: '' @ e)) (cx_root cx pem)) (\<lambda>_. Inr (Some pem)))) (\<lambda>root.
     and_then (map_err (\<lambda>e. Fatal (''failed to build http client: '' @ e)) (cx_build cx)) (\<lambda>_.
     and_then (cert_load cx c bundle_plan pending_plan d) (\<lambda>st.
       Inr (\<lparr>hc_redirects = False, hc_timeout = cf_request_timeout c, hc_root = root, hc_identity = None\<rparr>,
            trim_end_slashes (cf_server_url c), st))))"

definition authenticated_http ::
  "cert_env \<Rightarrow> config \<Rightarrow> string option \<Rightarrow> cert_io \<Rightarrow> cert_state \<Rightarrow> u8 list dir
   \<Rightarrow> (api_error + http_client) \<times> cert_state \<times> cert_step list" where
  "authenticated_http cx c tok io st d =
     (case tok of
        Some t \<Rightarrow> ensure_certificate cx c t io st d
      | None \<Rightarrow> (cert_client cx c (io_clock io ClientAt) st, st, []))"

text \<open>The directories of a trace, from the one it starts in.\<close>

definition disks :: "u8 list dir \<Rightarrow> cert_step list \<Rightarrow> u8 list dir list" where
  "disks d trace = d # List.map_filter (\<lambda>s. case s of OnDisk e \<Rightarrow> Some e | Sent _ _ \<Rightarrow> None) trace"

fun certified_attempts ::
  "cert_env \<Rightarrow> config \<Rightarrow> string option \<Rightarrow> (nat \<Rightarrow> cert_io) \<Rightarrow> (nat \<Rightarrow> http_client \<Rightarrow> api_error + http_response)
   \<Rightarrow> (string \<Rightarrow> string + 'r) \<Rightarrow> nat list \<Rightarrow> cert_state \<Rightarrow> u8 list dir
   \<Rightarrow> (nat \<times> (api_error + 'r)) option \<times> cert_state \<times> cert_step list" where
  "certified_attempts cx c tok io send decode [] st d = (None, st, [])"
| "certified_attempts cx c tok io send decode (attempt # later) st d =
     (case authenticated_http cx c tok (io attempt) st d of
        (Inl e, st', trace) \<Rightarrow> (Some (attempt + 1, Inl e), st', trace)
      | (Inr client, st', trace) \<Rightarrow>
          (case send attempt client of
             Inl e \<Rightarrow> (Some (attempt + 1, Inl e), st', trace)
           | Inr r \<Rightarrow>
               if attempt = 0 \<and> recover_certificate True r tok
               then (case certified_attempts cx c tok io send decode later (recover_state st') (last (disks d trace)) of
                  (result, st'', trace') \<Rightarrow> (result, st'', trace @ trace'))
               else (Some (attempt + 1, classify_response decode r), st', trace)))"

definition certified_post ::
  "cert_env \<Rightarrow> config \<Rightarrow> string option \<Rightarrow> (nat \<Rightarrow> cert_io) \<Rightarrow> (nat \<Rightarrow> http_client \<Rightarrow> api_error + http_response)
   \<Rightarrow> (string \<Rightarrow> string + 'r) \<Rightarrow> cert_state \<Rightarrow> u8 list dir
   \<Rightarrow> (nat \<times> (api_error + 'r)) option \<times> cert_state \<times> cert_step list" where
  "certified_post cx c tok io send decode st d = certified_attempts cx c tok io send decode [0..<2] st d"

section \<open>What is stored\<close>

lemma disks_simps [simp]:
  "disks d [] = [d]" "disks d (OnDisk e # trace) = d # disks e trace" "disks d (Sent rq e # trace) = disks d trace"
  by (simp_all add: disks_def List.map_filter_def)

lemma disks_append: "disks d (s @ t) = butlast (disks d s) @ disks (last (disks d s)) t"
  by (induction s arbitrary: d) (auto simp: disks_def List.map_filter_def split: cert_step.splits)

lemma disks_on_disk [simp]: "disks d (map OnDisk states) = d # states"
  by (induction states arbitrary: d) (simp_all add: disks_def List.map_filter_def)

lemma temp_cert_other [simp]:
  "temp_cert_name n \<noteq> IDENTITY_BUNDLE" "temp_cert_name n \<noteq> ENROLLMENT_FILE" "IDENTITY_BUNDLE \<noteq> ENROLLMENT_FILE"
  by (simp_all add: temp_cert_name_def IDENTITY_BUNDLE_def ENROLLMENT_FILE_def)

lemmas cert_names [simp] = temp_cert_other [symmetric]

lemma write_named_states:
  assumes "write_named plan temp name encoded d = (r, states)"
  shows "states \<noteq> []"
    and "\<forall>e\<in>set states. \<forall>k. k \<noteq> temp \<longrightarrow> k \<noteq> name \<longrightarrow> map_of e k = map_of d k"
    and "temp \<noteq> name \<Longrightarrow> \<forall>e\<in>set states. map_of e name = map_of d name \<or> (\<exists>bs. encoded = Inr bs \<and> map_of e name = Some bs)"
    and "r = Inr u \<Longrightarrow> \<exists>bs. encoded = Inr bs \<and> map_of (last states) name = Some bs"
proof -
  let ?w = "\<lambda>bs. write_temp plan id temp bs d"
  consider "states = [d]" "\<exists>e. r = Inl e" | "states = [AList.update temp [] d]" "\<exists>e. r = Inl e"
    | bs ts where "encoded = Inr bs" "ts = snd (?w bs)" "states = ts" "\<exists>e. r = Inl e"
    | bs ts where "encoded = Inr bs" "ts = snd (?w bs)" "states = ts @ [AList.update name bs (AList.delete temp (last ts))]"
    using assms by (force simp: write_named_def Let_def split: option.splits if_splits sum.splits prod.splits)
  note cases = this
  have ts: "ts \<noteq> [] \<and> (\<forall>e\<in>set ts. e = d \<or> (\<exists>v. e = AList.update temp v d))" if "ts = snd (?w bs)" for ts bs
    using write_temp_states [of plan id temp bs d "fst (?w bs)" ts] that by simp
  have old: "map_of e k = map_of d k" if "ts = snd (?w bs)" "e \<in> set ts" "k \<noteq> temp" for ts bs e k
    using ts [OF that(1)] that(2,3) by auto
  show "states \<noteq> []"
  proof (cases rule: cases)
    case (3 bs ts)
    then show ?thesis using ts [of ts bs] by simp
  qed simp_all
  show "\<forall>e\<in>set states. \<forall>k. k \<noteq> temp \<longrightarrow> k \<noteq> name \<longrightarrow> map_of e k = map_of d k"
    by (cases rule: cases) (auto simp: old ts)
  show "temp \<noteq> name \<Longrightarrow> \<forall>e\<in>set states. map_of e name = map_of d name \<or> (\<exists>bs. encoded = Inr bs \<and> map_of e name = Some bs)"
    by (cases rule: cases) (auto simp: old)
  show "r = Inr u \<Longrightarrow> \<exists>bs. encoded = Inr bs \<and> map_of (last states) name = Some bs"
    by (cases rule: cases) auto
qed

lemma persist_named_states:
  assumes "persist_named io name encoded d = (r, states)" and "name \<in> {IDENTITY_BUNDLE, ENROLLMENT_FILE}"
  shows "states \<noteq> []"
    and "e \<in> set states \<Longrightarrow> k \<in> {IDENTITY_BUNDLE, ENROLLMENT_FILE} - {name} \<Longrightarrow> map_of e k = map_of d k"
    and "e \<in> set states \<Longrightarrow> map_of e name = map_of d name \<or> (\<exists>bs. encoded = Inr bs \<and> map_of e name = Some bs)"
    and "r = Inr u \<Longrightarrow> \<exists>bs. encoded = Inr bs \<and> map_of (last states) name = Some bs"
proof -
  let ?temp = "temp_cert_name (ps_number io)"
  obtain w ts where w: "write_named (ps_plan io) ?temp name encoded d = (w, ts)" by force
  have other: "?temp \<noteq> k" if "k \<in> {IDENTITY_BUNDLE, ENROLLMENT_FILE}" for k using that by auto
  note s = write_named_states [OF w]
  consider "states = [d]" "\<exists>e. r = Inl e" | "states = ts" "r = Inr ()" "w = Inr ()" | "states = ts" "\<exists>e. r = Inl e"
    | "states = ts @ [AList.delete ?temp (last ts)]" "\<exists>e. r = Inl e"
    using assms(1) w by (force simp: persist_named_def Let_def split: sum.splits if_splits)
  note cases = this
  have last: "last ts \<in> set ts" using s(1) by simp
  show "states \<noteq> []" by (cases rule: cases) (simp_all add: s(1))
  show "e \<in> set states \<Longrightarrow> k \<in> {IDENTITY_BUNDLE, ENROLLMENT_FILE} - {name} \<Longrightarrow> map_of e k = map_of d k"
    using s(2) other [of k] last by (cases rule: cases) auto
  show "e \<in> set states \<Longrightarrow> map_of e name = map_of d name \<or> (\<exists>bs. encoded = Inr bs \<and> map_of e name = Some bs)"
    using s(3) [OF other [OF assms(2)]] other [OF assms(2)] last by (cases rule: cases) auto
  show "r = Inr u \<Longrightarrow> \<exists>bs. encoded = Inr bs \<and> map_of (last states) name = Some bs"
    using s(4) by (cases rule: cases) auto
qed


lemma same_file_loads:
  "map_of e IDENTITY_BUNDLE = map_of d IDENTITY_BUNDLE \<Longrightarrow> load_bundle cx no_faults e = load_bundle cx no_faults d"
  "map_of e ENROLLMENT_FILE = map_of d ENROLLMENT_FILE \<Longrightarrow> load_pending cx url no_faults e = load_pending cx url no_faults d"
  by (simp_all add: load_bundle_def load_pending_def read_named_def)

text \<open>The two files keep the contract of the durable stores.\<close>

definition bundle_ok :: "cert_env \<Rightarrow> cert_bundle \<Rightarrow> bool" where
  "bundle_ok cx b \<longleftrightarrow> validate_bundle cx b = Inr ()
     \<and> (\<forall>bs. cx_encode_bundle cx b = Inr bs \<longrightarrow> cx_decode_bundle cx bs = Inr b)"

definition pending_ok :: "cert_env \<Rightarrow> string \<Rightarrow> pending \<Rightarrow> bool" where
  "pending_ok cx url p \<longleftrightarrow> is_ok (cx_public_key cx (pn_key p)) \<and> pn_server_url p = url
     \<and> (\<forall>bs. cx_encode_pending cx p = Inr bs \<longrightarrow> cx_decode_pending cx bs = Inr p)"

lemma bundle_ok_loads:
  assumes "bundle_ok cx b" and "cx_encode_bundle cx b = Inr bs" and "map_of d IDENTITY_BUNDLE = Some bs"
  shows "load_bundle cx no_faults d = Inr (Some b)"
  using assms by (simp add: load_bundle_def read_named_def bundle_ok_def map_err_def)

lemma pending_ok_loads:
  assumes "pending_ok cx url p" and "cx_encode_pending cx p = Inr bs" and "map_of d ENROLLMENT_FILE = Some bs"
  shows "load_pending cx url no_faults d = Inr (Some p)"
  using assms by (auto simp: load_pending_def read_named_def pending_ok_def map_err_def is_ok_iff)

interpretation bundle_file: durable_store "load_bundle cx no_faults"
  "\<lambda>b. persist_named io IDENTITY_BUNDLE (cx_encode_bundle cx b)" "bundle_ok cx" id for cx io
proof unfold_locales
  fix b :: cert_bundle and d :: "u8 list dir"
  obtain r states where w: "persist_named io IDENTITY_BUNDLE (cx_encode_bundle cx b) d = (r, states)" by force
  note s = persist_named_states [OF w, simplified]
  show "snd (persist_named io IDENTITY_BUNDLE (cx_encode_bundle cx b) d) \<noteq> []" using s(1) w by simp
  assume b: "bundle_ok cx b"
  show "load_bundle cx no_faults (last (snd (persist_named io IDENTITY_BUNDLE (cx_encode_bundle cx b) d))) = Inr (Some (id b))"
    if "fst (persist_named io IDENTITY_BUNDLE (cx_encode_bundle cx b) d) = Inr ()"
    using s(4) that w bundle_ok_loads [OF b] by auto
  show "load_bundle cx no_faults e = load_bundle cx no_faults d \<or> load_bundle cx no_faults e = Inr (Some (id b))"
    if "e \<in> set (snd (persist_named io IDENTITY_BUNDLE (cx_encode_bundle cx b) d))" for e
    using s(3) [of e] that w bundle_ok_loads [OF b, of _ e] same_file_loads(1) [of e d cx] by auto
qed

interpretation pending_file: durable_store "load_pending cx url no_faults"
  "\<lambda>p. persist_named io ENROLLMENT_FILE (cx_encode_pending cx p)" "pending_ok cx url" id for cx url io
proof unfold_locales
  fix p :: pending and d :: "u8 list dir"
  obtain r states where w: "persist_named io ENROLLMENT_FILE (cx_encode_pending cx p) d = (r, states)" by force
  note s = persist_named_states [OF w, simplified]
  show "snd (persist_named io ENROLLMENT_FILE (cx_encode_pending cx p) d) \<noteq> []" using s(1) w by simp
  assume p: "pending_ok cx url p"
  show "load_pending cx url no_faults (last (snd (persist_named io ENROLLMENT_FILE (cx_encode_pending cx p) d))) = Inr (Some (id p))"
    if "fst (persist_named io ENROLLMENT_FILE (cx_encode_pending cx p) d) = Inr ()"
    using s(4) that w pending_ok_loads [OF p] by auto
  show "load_pending cx url no_faults e = load_pending cx url no_faults d \<or> load_pending cx url no_faults e = Inr (Some (id p))"
    if "e \<in> set (snd (persist_named io ENROLLMENT_FILE (cx_encode_pending cx p) d))" for e
    using s(3) [of e] that w pending_ok_loads [OF p, of _ e] same_file_loads(2) [of e d cx url] by auto
qed

section \<open>The private key is never lost\<close>

text \<open>
  The key of an enrolment is stored: in the pending file, or in the published bundle.
\<close>

definition key_stored :: "cert_env \<Rightarrow> config \<Rightarrow> pending \<Rightarrow> u8 list dir \<Rightarrow> bool" where
  "key_stored cx c p d \<longleftrightarrow> load_pending cx (cf_server_url c) no_faults d = Inr (Some p)
     \<or> (\<exists>b. load_bundle cx no_faults d = Inr (Some b) \<and> bd_key b = pn_key p)"

definition loadable :: "cert_env \<Rightarrow> config \<Rightarrow> u8 list dir \<Rightarrow> bool" where
  "loadable cx c d \<longleftrightarrow> is_ok (cert_load cx c no_faults no_faults d)"

definition cert_inv :: "cert_env \<Rightarrow> config \<Rightarrow> cert_state \<Rightarrow> u8 list dir \<Rightarrow> bool" where
  "cert_inv cx c st d \<longleftrightarrow> loadable cx c d
     \<and> (\<forall>p. cs_pending st = Some p \<longrightarrow> key_stored cx c p d)
     \<and> (\<forall>b. cs_bundle st = Some b \<longrightarrow> validate_bundle cx b = Inr ())"

text \<open>From each request on, the key that its signing request belongs to stays stored.\<close>

primrec key_safe :: "cert_env \<Rightarrow> config \<Rightarrow> cert_step list \<Rightarrow> bool" where
  "key_safe cx c [] = True"
| "key_safe cx c (step # trace) = ((case step of
      OnDisk _ \<Rightarrow> True
    | Sent rq e \<Rightarrow> \<exists>p. pn_csr p = rq_csr rq \<and> list_all (key_stored cx c p) (disks e trace))
    \<and> key_safe cx c trace)"

text \<open>What the libraries promise: codecs read back what they wrote, a generated key parses.\<close>

definition libraries_ok :: "cert_env \<Rightarrow> bool" where
  "libraries_ok cx \<longleftrightarrow> (\<forall>b bs. cx_encode_bundle cx b = Inr bs \<longrightarrow> cx_decode_bundle cx bs = Inr b)
     \<and> (\<forall>p bs. cx_encode_pending cx p = Inr bs \<longrightarrow> cx_decode_pending cx bs = Inr p)"

definition key_parses :: "cert_env \<Rightarrow> cert_io \<Rightarrow> bool" where
  "key_parses cx io \<longleftrightarrow> (\<forall>k. io_key io = Inr k \<longrightarrow> is_ok (cx_public_key cx k))"

lemma loadable_iff:
  "loadable cx c d \<longleftrightarrow> is_ok (load_bundle cx no_faults d) \<and> is_ok (load_pending cx (cf_server_url c) no_faults d)"
  by (auto simp: loadable_def cert_load_def is_ok_iff and_then_Inr_iff)

lemma obtain_pending_states:
  assumes "obtain_pending cx c io st d = (r, states)" and inv: "cert_inv cx c st d"
    and "libraries_ok cx" and "key_parses cx io"
  shows "\<forall>e\<in>set states. load_bundle cx no_faults e = load_bundle cx no_faults d \<and> loadable cx c e"
    and "r = Inr p \<Longrightarrow> key_stored cx c p (last (d # states))"
proof -
  have "(\<forall>e\<in>set states. load_bundle cx no_faults e = load_bundle cx no_faults d \<and> loadable cx c e)
    \<and> (\<forall>p. r = Inr p \<longrightarrow> key_stored cx c p (last (d # states)))"
  proof (cases "cs_pending st")
    case (Some p)
    then show ?thesis using assms(1) inv by (auto simp: obtain_pending_def cert_inv_def)
  next
    case None
    show ?thesis
    proof (cases "states = []")
      case True
      then show ?thesis using assms(1) None persist_named_states(1)
        by (fastforce simp: obtain_pending_def split: sum.splits prod.splits)
    next
      case False
      then obtain p w where p: "persist_named (io_pending io) ENROLLMENT_FILE (cx_encode_pending cx p) d = (w, states)"
        "pn_server_url p = cf_server_url c" "io_key io = Inr (pn_key p)"
        "r = (case w of Inl e \<Rightarrow> Inl e | Inr _ \<Rightarrow> Inr p)"
        using assms(1) None
        by (auto simp: obtain_pending_def and_then_Inr_iff split: sum.splits prod.splits)
      have ok: "pending_ok cx (cf_server_url c) p"
        using assms(3,4) p by (auto simp: pending_ok_def libraries_ok_def key_parses_def)
      note s = persist_named_states [OF p(1), simplified]
      have b: "load_bundle cx no_faults e = load_bundle cx no_faults d" if "e \<in> set states" for e
        using s(2) [OF that, of IDENTITY_BUNDLE] by (intro same_file_loads) simp
      have "loadable cx c e" if "e \<in> set states" for e
        using b [OF that] pending_file.store_atomic [OF ok, of e "io_pending io" d] that p(1) inv
        by (auto simp: loadable_iff cert_inv_def)
      moreover have "key_stored cx c p (last states)" if "w = Inr ()"
        using pending_file.store_load [OF ok, of "io_pending io" d] that p(1) by (simp add: key_stored_def)
      ultimately show ?thesis using b p(4) False by (auto split: sum.splits)
    qed
  qed
  then show "\<forall>e\<in>set states. load_bundle cx no_faults e = load_bundle cx no_faults d \<and> loadable cx c e"
    and "r = Inr p \<Longrightarrow> key_stored cx c p (last (d # states))" by blast+
qed


lemma request_sent:
  assumes "request_certificate cx c clock tok st path csr reply d = (r, sent)" and "s \<in> set sent"
  shows "\<exists>rq. s = Sent rq d \<and> rq_csr rq = csr \<and> rq_token rq = tok \<and> cert_client cx c clock st = Inr (rq_client rq)"
  using assms by (auto simp: request_certificate_def split: sum.splits)

lemma obtain_issued_sent:
  assumes "obtain_issued cx c tok io was_pending st csr d = (r, sent)"
  shows "\<forall>s\<in>set sent. \<exists>rq m. s = Sent rq d \<and> rq_csr rq = csr \<and> rq_token rq = tok
    \<and> cert_client cx c (io_clock io m) st = Inr (rq_client rq)"
proof -
  obtain r1 s1 where 1: "request_certificate cx c (io_clock io RecoverAt) tok st ''certificate/recover'' csr (io_recover io) d = (r1, s1)"
    by force
  obtain r2 s2 where 2: "request_certificate cx c (io_clock io RequestAt) tok st ''certificate'' csr (io_issue io) d = (r2, s2)"
    by force
  have "set sent \<subseteq> set s1 \<union> set s2"
    using assms 1 2 by (auto simp: obtain_issued_def Let_def split: sum.splits option.splits if_splits)
  then show ?thesis using request_sent [OF 1] request_sent [OF 2] by blast
qed

lemma remove_pending_states:
  "remove_pending plan d = (r, states) \<Longrightarrow> states = [] \<or> states = [AList.delete ENROLLMENT_FILE d]"
  by (auto simp: remove_pending_def split: option.splits if_splits)

lemma pending_removed:
  "load_bundle cx no_faults (AList.delete ENROLLMENT_FILE d) = load_bundle cx no_faults d"
  "load_pending cx url no_faults (AList.delete ENROLLMENT_FILE d) = Inr None"
  by (auto intro!: same_file_loads(1)) (simp add: load_pending_def read_named_def map_err_def)

definition new_bundle_of :: "cert_env \<Rightarrow> cert_io \<Rightarrow> cert_bundle \<Rightarrow> bool" where
  "new_bundle_of cx io b \<longleftrightarrow> validate_bundle cx b = Inr () \<and> usable_now cx (io_clock io IssuedAt) b"

lemma publish_succeeds:
  assumes "publish_bundle cx c io b d = (Inr client, states)"
  shows "new_bundle_of cx io b" and "build_client cx c (Some b) = Inr client"
  using assms
  by (auto simp: publish_bundle_def new_bundle_of_def usable_now_def and_then_Inr_iff
      split: sum.splits prod.splits if_splits)

lemma publish_writes:
  "publish_bundle cx c io b d = (r, states) \<Longrightarrow> states \<noteq> [] \<Longrightarrow> new_bundle_of cx io b"
  by (auto simp: publish_bundle_def new_bundle_of_def usable_now_def and_then_Inr_iff
      split: sum.splits if_splits)

lemma publish_bundle_states:
  assumes "publish_bundle cx c io b d = (r, states)" and "libraries_ok cx" and "loadable cx c d"
    and "key_stored cx c p d" and "bd_key b = pn_key p"
  shows "\<forall>e\<in>set states. loadable cx c e \<and> key_stored cx c p e
           \<and> (load_bundle cx no_faults e = load_bundle cx no_faults d \<or> load_bundle cx no_faults e = Inr (Some b))"
proof -
  obtain w ps where w: "persist_named (io_bundle io) IDENTITY_BUNDLE (cx_encode_bundle cx b) d = (w, ps)" by force
  obtain w' qs where w': "remove_pending (io_remove io) (last ps) = (w', qs)" by force
  have shape: "states = [] \<or> states = ps \<or> w = Inr () \<and> states = ps @ qs"
    using assms(1) w w' by (auto simp: publish_bundle_def split: sum.splits)
  show ?thesis
  proof (cases "states = []")
    case False
    have ok: "bundle_ok cx b"
      using publish_writes [OF assms(1) False] assms(2) by (simp add: bundle_ok_def libraries_ok_def new_bundle_of_def)
    note s = persist_named_states [OF w, simplified]
    have written: "loadable cx c e \<and> key_stored cx c p e
        \<and> (load_bundle cx no_faults e = load_bundle cx no_faults d \<or> load_bundle cx no_faults e = Inr (Some b))"
      if "e \<in> set ps" for e
    proof -
      have "load_pending cx (cf_server_url c) no_faults e = load_pending cx (cf_server_url c) no_faults d"
        using s(2) [OF that, of ENROLLMENT_FILE] by (intro same_file_loads) simp
      moreover have "load_bundle cx no_faults e = load_bundle cx no_faults d \<or> load_bundle cx no_faults e = Inr (Some b)"
        using bundle_file.store_atomic [OF ok, of e "io_bundle io" d] that w by simp
      ultimately show ?thesis using assms(3,4,5) by (auto simp: loadable_iff key_stored_def)
    qed
    have final: "load_bundle cx no_faults (last ps) = Inr (Some b)" if "w = Inr ()"
      using bundle_file.store_load [OF ok, of "io_bundle io" d] that w by simp
    have removed: "loadable cx c e \<and> key_stored cx c p e
        \<and> (load_bundle cx no_faults e = load_bundle cx no_faults d \<or> load_bundle cx no_faults e = Inr (Some b))"
      if "w = Inr ()" "e = AList.delete ENROLLMENT_FILE (last ps)" for e
      using final [OF that(1)] assms(5) that(2) by (simp add: loadable_iff key_stored_def pending_removed)
    have "e \<in> set ps \<or> w = Inr () \<and> e = AList.delete ENROLLMENT_FILE (last ps)" if "e \<in> set states" for e
      using shape False remove_pending_states [OF w'] that by auto
    then show ?thesis using written removed by blast
  qed simp
qed

lemma key_safe_disks [simp]: "key_safe cx c (map OnDisk states @ trace) = key_safe cx c trace"
  by (induction states) simp_all

lemma key_safe_sent:
  assumes "\<forall>s\<in>set sent. \<exists>rq. s = Sent rq d \<and> rq_csr rq = pn_csr p"
    and "list_all (key_stored cx c p) (d # states)"
  shows "key_safe cx c (sent @ map OnDisk states)"
  using assms(1)
proof (induction sent)
  case Nil
  then show ?case using key_safe_disks [of cx c states "[]"] by simp
next
  case (Cons s sent)
  obtain rq where s: "s = Sent rq d" "rq_csr rq = pn_csr p" using Cons.prems by auto
  have "\<forall>s\<in>set sent. \<exists>rq. s = Sent rq d" using Cons.prems by auto
  then have "disks d (sent @ map OnDisk states) = d # states" by (induction sent) auto
  then show ?case using Cons s assms(2) by auto
qed

lemma sent_disks: "\<forall>s\<in>set sent. \<exists>rq. s = Sent rq e \<Longrightarrow> disks d sent = [d]"
  by (induction sent) auto

lemma disks_enrolment:
  assumes "\<forall>s\<in>set sent. \<exists>rq. s = Sent rq e"
  shows "disks d (map OnDisk states @ sent @ map OnDisk states') = d # states @ states'"
proof -
  have "disks d' (sent @ map OnDisk states') = d' # states'" for d'
    using sent_disks [OF assms, of d'] by (simp add: disks_append)
  moreover have "butlast (d # states) @ last (d # states) # states' = d # states @ states'" by (cases states rule: rev_cases) auto
  ultimately show ?thesis by (simp add: disks_append del: last.simps butlast.simps)
qed

lemma enroll_safe:
  assumes "enroll cx c tok io st d = (r, st', trace)" and inv: "cert_inv cx c st d"
    and "libraries_ok cx" and "key_parses cx io"
  shows "key_safe cx c trace"
    and "\<forall>e\<in>set (disks d trace). loadable cx c e \<and> (load_bundle cx no_faults e = load_bundle cx no_faults d
           \<or> (\<exists>b. load_bundle cx no_faults e = Inr (Some b) \<and> new_bundle_of cx io b))"
    and "cert_inv cx c st' (last (disks d trace))"
proof -
  obtain rp states where op: "obtain_pending cx c io st d = (rp, states)" by force
  note o = obtain_pending_states [OF op inv assms(3,4)]
  have load: "loadable cx c (last (d # states))" "load_bundle cx no_faults (last (d # states)) = load_bundle cx no_faults d"
    using o(1) inv by (auto simp: cert_inv_def)
  have "key_safe cx c trace \<and> (\<forall>e\<in>set (disks d trace). loadable cx c e \<and> (load_bundle cx no_faults e = load_bundle cx no_faults d
           \<or> (\<exists>b. load_bundle cx no_faults e = Inr (Some b) \<and> new_bundle_of cx io b)))
      \<and> cert_inv cx c st' (last (disks d trace))"
  proof (cases rp)
    case (Inl e)
    then have "trace = map OnDisk states" "st' = st" using assms(1) op by (auto simp: enroll_def)
    moreover have "cs_pending st = None" using op Inl by (auto simp: obtain_pending_def split: option.splits)
    ultimately show ?thesis
      using o(1) inv load key_safe_disks [of cx c states "[]"] by (auto simp: cert_inv_def)
  next
    case (Inr p)
    let ?d = "last (d # states)" and ?st = "st\<lparr>cs_pending := Some p\<rparr>"
    note stored = o(2) [OF Inr]
    obtain ri sent where oi: "obtain_issued cx c tok io (cs_pending st \<noteq> None) ?st (pn_csr p) ?d = (ri, sent)" by force
    have sent: "\<forall>s\<in>set sent. \<exists>rq. s = Sent rq ?d \<and> rq_csr rq = pn_csr p"
      using obtain_issued_sent [OF oi] by blast
    then have sent': "\<forall>s\<in>set sent. \<exists>rq. s = Sent rq ?d" by blast
    have inv': "cert_inv cx c (?st\<lparr>cs_unavailable := u\<rparr>) ?d" for u
      using inv load stored by (auto simp: cert_inv_def simp del: last.simps)
    show ?thesis
    proof (cases "\<exists>i. ri = Inr (Some i)")
      case False
      then have "trace = map OnDisk states @ sent @ map OnDisk []" "st' = ?st \<or> st' = ?st\<lparr>cs_unavailable := True\<rparr>"
        using assms(1) op oi Inr by (auto simp: enroll_def Let_def split: sum.splits option.splits)
      moreover from this(1) have "disks d trace = d # states"
        using disks_enrolment [OF sent', of d states "[]"] by simp
      moreover have "cert_inv cx c st' ?d" using calculation(2) inv' [of "cs_unavailable st"] inv' [of True] by auto
      ultimately show ?thesis
        using key_safe_sent [OF sent, of cx c "[]"] stored o(1) inv by (auto simp: cert_inv_def simp del: last.simps)
    next
      case True
      then obtain i where i: "ri = Inr (Some i)" by blast
      let ?b = "issued_bundle p i"
      obtain rb states' where pb: "publish_bundle cx c io ?b ?d = (rb, states')" by force
      have tr: "trace = map OnDisk states @ sent @ map OnDisk states'"
        and st': "st' = ?st \<or> (\<exists>client. rb = Inr client) \<and> st' = ?st\<lparr>cs_pending := None, cs_bundle := Some ?b, cs_retry_at := 0\<rparr>"
        using assms(1) op oi Inr i pb by (auto simp: enroll_def Let_def split: sum.splits)
      have key: "bd_key ?b = pn_key p" by (simp add: issued_bundle_def)
      note b = publish_bundle_states [OF pb assms(3) load(1) stored key]
      have safe: "list_all (key_stored cx c p) (?d # states')" using b stored by (simp add: list_all_iff del: last.simps)
      have dl: "disks d trace = d # states @ states'" unfolding tr by (rule disks_enrolment [OF sent'])
      have "last (d # states @ states') \<in> set (?d # states')" by (cases states') auto
      then have "loadable cx c (last (disks d trace)) \<and> key_stored cx c p (last (disks d trace))"
        using b load(1) stored unfolding dl by (auto simp del: last.simps)
      then have "cert_inv cx c st' (last (disks d trace))"
        using st' inv publish_succeeds(1) [of cx c io ?b ?d] pb by (auto simp: cert_inv_def new_bundle_of_def)
      moreover have "\<forall>e\<in>set states'. loadable cx c e \<and> (load_bundle cx no_faults e = load_bundle cx no_faults d
           \<or> (\<exists>b. load_bundle cx no_faults e = Inr (Some b) \<and> new_bundle_of cx io b))"
        using b load(2) publish_writes [OF pb] by (cases "states' = []") auto
      moreover have "key_safe cx c trace" using key_safe_sent [OF sent safe] tr by simp
      ultimately show ?thesis using o(1) inv unfolding dl by (auto simp: cert_inv_def)
    qed
  qed
  then show "key_safe cx c trace"
    and "\<forall>e\<in>set (disks d trace). loadable cx c e \<and> (load_bundle cx no_faults e = load_bundle cx no_faults d
           \<or> (\<exists>b. load_bundle cx no_faults e = Inr (Some b) \<and> new_bundle_of cx io b))"
    and "cert_inv cx c st' (last (disks d trace))" by blast+
qed


lemma load_bundle_valid: "load_bundle cx plan d = Inr (Some b) \<Longrightarrow> validate_bundle cx b = Inr ()"
  by (auto simp: load_bundle_def and_then_Inr_iff split: option.splits)

lemma loaded_inv: "cert_load cx c no_faults no_faults d = Inr st \<Longrightarrow> cert_inv cx c st d"
  by (auto simp: cert_inv_def loadable_iff key_stored_def cert_load_def and_then_Inr_iff load_bundle_valid)

lemma recover_keeps_inv: "cert_inv cx c st d \<Longrightarrow> cert_inv cx c (recover_state st) d"
  by (simp add: cert_inv_def recover_state_def)

lemma ensure_cases:
  assumes "ensure_certificate cx c tok io st d = (r, st', trace)"
  obtains (kept) "st' = st" "trace = []" "\<And>client. r = Inr client \<Longrightarrow> cert_client cx c (io_clock io ClientAt) st = Inr client"
    | (enrolled) r1 st1 where "enroll cx c tok io (st\<lparr>cs_retry_at := io_clock io NowAt + 300\<rparr>) d = (r1, st1, trace)"
        "starts_with (cf_server_url c) ''https://''" "\<not> cs_unavailable st" "renewal_due cx io st = Inr True"
        "cs_retry_at st \<le> io_clock io NowAt"
        "st' = (if r1 = Inl Auth then st1\<lparr>cs_retry_at := 0\<rparr> else st1)"
        "r = r1 \<or> (\<exists>e. r1 = Inl e \<and> e \<noteq> Auth \<and> r = cert_client cx c (io_clock io ClientAt) st1)"
  using assms unfolding ensure_certificate_def Let_def
  by (simp split: if_splits sum.splits prod.splits api_error.splits cong: if_cong) auto


section \<open>What is presented, and how often\<close>

lemma build_client_identity:
  "build_client cx c b = Inr client \<Longrightarrow> hc_identity client = map_option identity_pem b"
  by (auto simp: build_client_def and_then_Inr_iff split: option.splits)

text \<open>The client carries no identity, or a checked bundle that was valid when it was built.\<close>

definition presents_valid :: "cert_env \<Rightarrow> cert_io \<Rightarrow> http_client \<Rightarrow> bool" where
  "presents_valid cx io client \<longleftrightarrow> hc_identity client = None
     \<or> (\<exists>b m. hc_identity client = Some (identity_pem b) \<and> validate_bundle cx b = Inr () \<and> usable_now cx (io_clock io m) b)"


lemma cert_client_presents:
  assumes "cert_client cx c (io_clock io m) st = Inr client" and "\<forall>b. cs_bundle st = Some b \<longrightarrow> validate_bundle cx b = Inr ()"
  shows "presents_valid cx io client"
  using assms by (cases "cs_bundle st")
    (auto simp: cert_client_def presents_valid_def dest!: build_client_identity split: option.splits)

lemma enroll_presents:
  assumes "enroll cx c tok io st d = (r, st', trace)" and v: "\<forall>b. cs_bundle st = Some b \<longrightarrow> validate_bundle cx b = Inr ()"
  shows "r = Inr client \<Longrightarrow> presents_valid cx io client"
    and "Sent rq e \<in> set trace \<Longrightarrow> rq_token rq = tok \<and> presents_valid cx io (rq_client rq)"
    and "\<forall>b. cs_bundle st' = Some b \<longrightarrow> validate_bundle cx b = Inr ()"
    and "cs_retry_at st' = cs_retry_at st \<or> cs_retry_at st' = 0 \<and> (\<exists>client. r = Inr client)"
proof -
  have "(\<forall>client. r = Inr client \<longrightarrow> presents_valid cx io client)
    \<and> (\<forall>rq e. Sent rq e \<in> set trace \<longrightarrow> rq_token rq = tok \<and> presents_valid cx io (rq_client rq))
    \<and> (\<forall>b. cs_bundle st' = Some b \<longrightarrow> validate_bundle cx b = Inr ())
    \<and> (cs_retry_at st' = cs_retry_at st \<or> cs_retry_at st' = 0 \<and> (\<exists>client. r = Inr client))"
  proof (cases "obtain_pending cx c io st d")
    case (Pair rp states)
    show ?thesis
    proof (cases rp)
      case (Inl e)
      then show ?thesis using assms Pair by (auto simp: enroll_def)
    next
      case (Inr p)
      let ?d = "last (d # states)" and ?st = "st\<lparr>cs_pending := Some p\<rparr>"
      obtain ri sent where oi: "obtain_issued cx c tok io (cs_pending st \<noteq> None) ?st (pn_csr p) ?d = (ri, sent)" by force
      have v': "\<forall>b. cs_bundle (?st\<lparr>cs_unavailable := u\<rparr>) = Some b \<longrightarrow> validate_bundle cx b = Inr ()" for u
        using v by simp
      have sent: "rq_token rq = tok \<and> presents_valid cx io (rq_client rq)" if "Sent rq e \<in> set sent" for rq e
        using obtain_issued_sent [OF oi] that cert_client_presents [of cx c io _ ?st] v by fastforce
      show ?thesis
      proof (cases "\<exists>i. ri = Inr (Some i)")
        case False
        then have tr: "trace = map OnDisk states @ sent"
          and st': "st' = ?st \<or> st' = ?st\<lparr>cs_unavailable := True\<rparr>"
          and r: "\<And>client. r = Inr client \<Longrightarrow> cert_client cx c (io_clock io ClientAt) (?st\<lparr>cs_unavailable := True\<rparr>) = Inr client"
          using assms(1) Pair oi Inr by (auto simp: enroll_def Let_def split: sum.splits option.splits)
        show ?thesis using cert_client_presents [OF r v'] tr sent st' v by auto
      next
        case True
        then obtain i where i: "ri = Inr (Some i)" by blast
        let ?b = "issued_bundle p i"
        obtain rb states' where pb: "publish_bundle cx c io ?b ?d = (rb, states')" by force
        have tr: "trace = map OnDisk states @ sent @ map OnDisk states'" and r: "r = rb"
          and st': "(\<exists>e. r = Inl e) \<and> st' = ?st \<or> (\<exists>client. r = Inr client) \<and> st' = ?st\<lparr>cs_pending := None, cs_bundle := Some ?b, cs_retry_at := 0\<rparr>"
          using assms(1) Pair oi Inr i pb by (auto simp: enroll_def Let_def split: sum.splits)
        have ok: "validate_bundle cx ?b = Inr () \<and> usable_now cx (io_clock io IssuedAt) ?b
            \<and> hc_identity client = Some (identity_pem ?b)" if "r = Inr client" for client
          using publish_succeeds [of cx c io ?b ?d client] pb that r build_client_identity [of cx c "Some ?b" client]
          by (simp add: new_bundle_of_def)
        then have "presents_valid cx io client" if "r = Inr client" for client
          using that unfolding presents_valid_def by blast
        then show ?thesis using st' sent ok v unfolding tr by auto
      qed
    qed
  qed
  then show "r = Inr client \<Longrightarrow> presents_valid cx io client"
    and "Sent rq e \<in> set trace \<Longrightarrow> rq_token rq = tok \<and> presents_valid cx io (rq_client rq)"
    and "\<forall>b. cs_bundle st' = Some b \<longrightarrow> validate_bundle cx b = Inr ()"
    and "cs_retry_at st' = cs_retry_at st \<or> cs_retry_at st' = 0 \<and> (\<exists>client. r = Inr client)" by blast+
qed


text \<open>
  A pending enrolment that is in memory but no longer on disk cannot be completed: the last
  step of every attempt fails, and the state that asks for it stays.
\<close>

lemma missing_pending_file_blocks_enrolment:
  assumes "enroll cx c tok io st d = (r, st', trace)" and "cs_pending st = Some p"
    and "map_of d ENROLLMENT_FILE = None" and "\<not> cs_unavailable st'"
  shows "(\<exists>e. r = Inl e) \<and> cs_pending st' = Some p \<and> map_of (last (disks d trace)) ENROLLMENT_FILE = None"
proof -
  obtain ri sent where oi: "obtain_issued cx c tok io True (st\<lparr>cs_pending := Some p\<rparr>) (pn_csr p) d = (ri, sent)" by force
  have sent: "\<forall>s\<in>set sent. \<exists>rq. s = Sent rq d" using obtain_issued_sent [OF oi] by blast
  have o: "obtain_pending cx c io st d = (Inr p, [])" by (simp add: obtain_pending_def assms(2))
  show ?thesis
  proof (cases "\<exists>i. ri = Inr (Some i)")
    case False
    then show ?thesis using assms oi o sent_disks [OF sent, of d]
      by (auto simp: enroll_def Let_def split: sum.splits option.splits)
  next
    case True
    then obtain i where i: "ri = Inr (Some i)" by blast
    obtain rb states where pb: "publish_bundle cx c io (issued_bundle p i) d = (rb, states)" by force
    obtain w ps where w: "persist_named (io_bundle io) IDENTITY_BUNDLE (cx_encode_bundle cx (issued_bundle p i)) d = (w, ps)"
      by force
    note s = persist_named_states [OF w, simplified]
    have no: "map_of e ENROLLMENT_FILE = None" if "e \<in> set ps" for e
      using s(2) [OF that, of ENROLLMENT_FILE] assms(3) by simp
    then have "\<exists>e. remove_pending (io_remove io) (last ps) = (Inl e, [])"
      using s(1) by (auto simp: remove_pending_def split: option.splits)
    then have "rb \<noteq> Inr client" and "states = [] \<or> states = ps" for client
      using pb w by (auto simp: publish_bundle_def split: sum.splits prod.splits)
    then have "(\<exists>e. rb = Inl e) \<and> (states = [] \<or> states = ps)" by (cases rb) auto
    then show ?thesis
      using assms oi o i pb no disks_enrolment [OF sent, of d "[]" states]
      by (auto simp: enroll_def Let_def split: sum.splits)
  qed
qed

section \<open>The request around it\<close>

text \<open>
  \<open>post_json\<close> over the certificate's state is the retry loop of the HTTP boundary over what
  each attempt meets, and keeps the invariant of the certificate.
\<close>

lemma certified_attempts_refine:
  assumes "certified_attempts cx c tok io send decode attempts st d = (result, st', trace)"
    and "distinct attempts"
  shows "\<exists>met. result = post_attempts True tok met decode attempts"
  using assms
proof (induction attempts arbitrary: st d result st' trace)
  case (Cons n later)
  obtain rc st1 tr where a: "authenticated_http cx c tok (io n) st d = (rc, st1, tr)" by (metis prod.exhaust)
  define m where "m = (case rc of Inl e \<Rightarrow> Inl e | Inr client \<Rightarrow> send n client)"
  have agree: "post_attempts True tok (met(n := x)) decode later = post_attempts True tok met decode later" for met x
    using Cons.prems(2) by (induction later) (auto split: sum.splits)
  show ?case
  proof (cases "\<exists>rs. m = Inr rs \<and> n = 0 \<and> recover_certificate True rs tok")
    case False
    then have "result = post_attempts True tok (\<lambda>_. m) decode (n # later)"
      using Cons.prems(1) a by (auto simp: m_def split: sum.splits if_splits)
    then show ?thesis by blast
  next
    case True
    then obtain rs where rs: "m = Inr rs" "n = 0" "recover_certificate True rs tok" by blast
    obtain res st2 tr2 where l: "certified_attempts cx c tok io send decode later (recover_state st1) (last (disks d tr)) = (res, st2, tr2)"
      by (metis prod.exhaust)
    obtain met where met: "res = post_attempts True tok met decode later" using Cons.IH [OF l] Cons.prems(2) by auto
    have "result = res" using Cons.prems(1) a rs l by (auto simp: m_def split: sum.splits)
    then have "result = post_attempts True tok (met(n := m)) decode (n # later)"
      using rs met agree [of met m] by simp
    then show ?thesis by blast
  qed
qed auto

lemma certified_attempts_step:
  assumes "certified_attempts cx c tok io send decode (n # later) st d = (result, st', trace)"
    and "authenticated_http cx c tok (io n) st d = (rc, st1, tr)"
  obtains "st' = st1" "trace = tr"
    | res tr2 where "certified_attempts cx c tok io send decode later (recover_state st1) (last (disks d tr)) = (res, st', tr2)"
        "trace = tr @ tr2"
proof -
  obtain res st2 tr2 where l: "certified_attempts cx c tok io send decode later (recover_state st1) (last (disks d tr)) = (res, st2, tr2)"
    by (metis prod.exhaust)
  have "(st' = st1 \<and> trace = tr) \<or> (st' = st2 \<and> trace = tr @ tr2)"
    using assms(1) by (simp add: assms(2) l split: sum.splits if_splits)
  then show thesis using that l by blast
qed

lemma certified_attempts_keep_inv:
  assumes "certified_attempts cx c tok io send decode attempts st d = (result, st', trace)"
    and "cert_inv cx c st d" and "libraries_ok cx" and "\<forall>n. key_parses cx (io n)"
  shows "cert_inv cx c st' (last (disks d trace)) \<and> list_all (loadable cx c) (disks d trace)"
  using assms(1,2)
proof (induction attempts arbitrary: st d result st' trace)
  case Nil
  then show ?case by (simp add: cert_inv_def)
next
  case (Cons n later)
  obtain rc st1 tr where a: "authenticated_http cx c tok (io n) st d = (rc, st1, tr)" by (metis prod.exhaust)
  have kept: "cert_inv cx c st1 (last (disks d tr)) \<and> list_all (loadable cx c) (disks d tr)"
  proof (cases tok)
    case None
    then show ?thesis using a Cons.prems(2) by (auto simp: authenticated_http_def cert_inv_def)
  next
    case (Some t)
    then have "ensure_certificate cx c t (io n) st d = (rc, st1, tr)" using a by (simp add: authenticated_http_def)
    then show ?thesis
    proof (cases rule: ensure_cases)
      case kept
      then show ?thesis using Cons.prems(2) by (simp add: cert_inv_def)
    next
      case (enrolled r1 st2)
      have "cert_inv cx c (st\<lparr>cs_retry_at := io_clock (io n) NowAt + 300\<rparr>) d" using Cons.prems(2) by (simp add: cert_inv_def)
      note safe = enroll_safe [OF enrolled(1) this assms(3) assms(4) [rule_format]]
      show ?thesis using safe(2,3) enrolled(6) by (auto simp: cert_inv_def list_all_iff)
    qed
  qed
  from Cons.prems(1) a show ?case
  proof (cases rule: certified_attempts_step)
    case 1
    then show ?thesis using kept by simp
  next
    case (2 res tr2)
    have "disks (last (disks d tr)) tr2 \<noteq> []" by (simp add: disks_def)
    moreover have "set (butlast (disks d tr)) \<subseteq> set (disks d tr)" by (rule subsetI) (rule in_set_butlastD)
    moreover have "cert_inv cx c st' (last (disks (last (disks d tr)) tr2)) \<and> list_all (loadable cx c) (disks (last (disks d tr)) tr2)"
      using kept by (intro Cons.IH [OF 2(1)] recover_keeps_inv) simp
    ultimately show ?thesis
      using kept unfolding 2(2) by (auto simp: list_all_iff disks_append)
  qed
qed

section \<open>Examples\<close>

definition sample_bundle :: cert_bundle where
  "sample_bundle = \<lparr>bd_key = ''K'', bd_certificate = ''C'', bd_ca_certificate = [], bd_renew_after = ''R''\<rparr>"

definition sample_pending :: pending where
  "sample_pending = \<lparr>pn_key = ''K'', pn_csr = ''Q'', pn_server_url = ''https://inventory''\<rparr>"

definition sample_libraries :: cert_env where
  "sample_libraries = \<lparr>cx_public_key = (\<lambda>k. if k = ''K'' then Inr [7] else Inl ''no key''),
     cx_certificate = (\<lambda>p. if p = ''C'' then Inr \<lparr>ct_public_key = [7], ct_not_after = 100, ct_valid = (\<lambda>now. now \<le> 100)\<rparr>
                         else Inl ''no certificate''),
     cx_timestamp = (\<lambda>_. Inr 50),
     cx_decode_bundle = (\<lambda>bs. if bs = [1, 1] then Inr sample_bundle else Inl ''syntax''),
     cx_encode_bundle = (\<lambda>b. if b = sample_bundle then Inr [1, 1] else Inl ''unsupported''),
     cx_decode_pending = (\<lambda>bs. if bs = [2, 2] then Inr sample_pending else Inl ''syntax''),
     cx_encode_pending = (\<lambda>p. if p = sample_pending then Inr [2, 2] else Inl ''unsupported''),
     cx_decode_issued = (\<lambda>s. if s = ''issued'' then Inr \<lparr>is_certificate = ''C'', is_ca_certificate = [], is_renew_after = ''R''\<rparr>
                           else Inl ''syntax''),
     cx_read_file = (\<lambda>_. Inl ''no file''), cx_root = (\<lambda>_. Inr ()), cx_identity = (\<lambda>_. Inr ()), cx_build = Inr ()\<rparr>"

definition sample_enrolment :: cert_io where
  "sample_enrolment = \<lparr>io_clock = (\<lambda>_. 10), io_key = Inr ''K'', io_csr = Inr ''Q'',
     io_pending = \<lparr>ps_created = Inr (), ps_plan = no_faults, ps_number = 3\<rparr>,
     io_bundle = \<lparr>ps_created = Inr (), ps_plan = no_faults, ps_number = 4\<rparr>,
     io_recover = Inl Auth,
     io_issue = Inr \<lparr>rs_status = 200, rs_content_length = None, rs_retry_after = None, rs_cert_error = None,
                     rs_chunks = [Inr ''issued'']\<rparr>,
     io_remove = no_faults\<rparr>"

definition unenrolled :: cert_state where
  "unenrolled = \<lparr>cs_bundle = None, cs_unavailable = False, cs_retry_at = 0, cs_pending = None\<rparr>"

lemma sample_enrolment_ok:
  "libraries_ok sample_libraries" "key_parses sample_libraries sample_enrolment"
  "cert_inv sample_libraries sample_config unenrolled []"
  by (simp_all add: libraries_ok_def sample_libraries_def key_parses_def sample_enrolment_def cert_inv_def
      unenrolled_def loadable_iff load_bundle_def load_pending_def read_named_def map_err_def)

text \<open>The enrolment from an empty directory: the key, the request, the bundle, the clean-up.\<close>

lemma sample_pending_written:
  "obtain_pending sample_libraries sample_config sample_enrolment (unenrolled\<lparr>cs_retry_at := 310\<rparr>) []
   = (Inr sample_pending, [[(temp_cert_name 3, [])], [(temp_cert_name 3, [2])], [(temp_cert_name 3, [2, 2])],
                           [(ENROLLMENT_FILE, [2, 2])]])"
  by (simp add: obtain_pending_def unenrolled_def sample_enrolment_def map_err_def persist_named_def write_named_def
      write_temp_def temp_states_def sample_libraries_def sample_pending_def sample_config_def Let_def upt_rec)

lemma sample_clients:
  "build_client sample_libraries sample_config b
   = Inr \<lparr>hc_redirects = False, hc_timeout = 30, hc_root = None, hc_identity = map_option identity_pem b\<rparr>"
  by (simp add: build_client_def sample_config_def sample_libraries_def map_err_def split: option.splits)

lemma sample_issued:
  assumes "cs_bundle st = None"
  shows "obtain_issued sample_libraries sample_config ''t'' sample_enrolment False st ''Q'' d
    = (Inr (Some \<lparr>is_certificate = ''C'', is_ca_certificate = [], is_renew_after = ''R''\<rparr>),
       [Sent \<lparr>rq_url = ''https://inventory/api/v1/agent/certificate'', rq_token = ''t'', rq_csr = ''Q'',
              rq_client = \<lparr>hc_redirects = False, hc_timeout = 30, hc_root = None, hc_identity = None\<rparr>\<rparr> d])"
  by (simp add: obtain_issued_def request_certificate_def cert_client_def sample_clients assms)
    (simp add: sample_enrolment_def sample_libraries_def sample_config_def trim_end_slashes_def classify_response_def
      read_response_body_limited_def MAX_SUCCESS_RESPONSE_BYTES_def utf8_len_def scalar_def)

lemma sample_checks:
  "validate_bundle sample_libraries sample_bundle = Inr ()"
  "valid_now sample_libraries (io_clock sample_enrolment m) sample_bundle = Inr True"
  "cx_encode_bundle sample_libraries sample_bundle = Inr [1, 1]"
  by (simp_all add: validate_bundle_def valid_now_def timestamp_def map_err_def sample_libraries_def
      sample_bundle_def sample_enrolment_def)

lemma sample_published:
  "publish_bundle sample_libraries sample_config sample_enrolment sample_bundle [(ENROLLMENT_FILE, [2, 2])]
   = (Inr \<lparr>hc_redirects = False, hc_timeout = 30, hc_root = None, hc_identity = Some (identity_pem sample_bundle)\<rparr>,
      [[(ENROLLMENT_FILE, [2, 2]), (temp_cert_name 4, [])], [(ENROLLMENT_FILE, [2, 2]), (temp_cert_name 4, [1])],
       [(ENROLLMENT_FILE, [2, 2]), (temp_cert_name 4, [1, 1])], [(ENROLLMENT_FILE, [2, 2]), (IDENTITY_BUNDLE, [1, 1])],
       [(IDENTITY_BUNDLE, [1, 1])]])"
  by (simp add: publish_bundle_def sample_clients sample_checks)
    (simp add: sample_enrolment_def persist_named_def write_named_def write_temp_def temp_states_def remove_pending_def
      Let_def upt_rec AList.delete_eq)

lemma sample_enrolled:
  "ensure_certificate sample_libraries sample_config ''t'' sample_enrolment unenrolled []
   = (Inr \<lparr>hc_redirects = False, hc_timeout = 30, hc_root = None, hc_identity = Some (identity_pem sample_bundle)\<rparr>,
      unenrolled\<lparr>cs_bundle := Some sample_bundle\<rparr>,
      map OnDisk [[(temp_cert_name 3, [])], [(temp_cert_name 3, [2])], [(temp_cert_name 3, [2, 2])], [(ENROLLMENT_FILE, [2, 2])]]
      @ [Sent \<lparr>rq_url = ''https://inventory/api/v1/agent/certificate'', rq_token = ''t'', rq_csr = ''Q'',
               rq_client = \<lparr>hc_redirects = False, hc_timeout = 30, hc_root = None, hc_identity = None\<rparr>\<rparr>
            [(ENROLLMENT_FILE, [2, 2])]]
      @ map OnDisk [[(ENROLLMENT_FILE, [2, 2]), (temp_cert_name 4, [])],
                    [(ENROLLMENT_FILE, [2, 2]), (temp_cert_name 4, [1])],
                    [(ENROLLMENT_FILE, [2, 2]), (temp_cert_name 4, [1, 1])],
                    [(ENROLLMENT_FILE, [2, 2]), (IDENTITY_BUNDLE, [1, 1])],
                    [(IDENTITY_BUNDLE, [1, 1])]])"
proof -
  have f: "pn_csr sample_pending = ''Q''" "io_clock sample_enrolment m = 10" "starts_with (cf_server_url sample_config) ''https://''"
    "issued_bundle sample_pending \<lparr>is_certificate = ''C'', is_ca_certificate = [], is_renew_after = ''R''\<rparr> = sample_bundle" for m
    by (simp_all add: sample_pending_def sample_enrolment_def sample_config_def starts_with_def issued_bundle_def sample_bundle_def)
  have "enroll sample_libraries sample_config ''t'' sample_enrolment (unenrolled\<lparr>cs_retry_at := 310\<rparr>) []
      = (Inr \<lparr>hc_redirects = False, hc_timeout = 30, hc_root = None, hc_identity = Some (identity_pem sample_bundle)\<rparr>,
         unenrolled\<lparr>cs_bundle := Some sample_bundle\<rparr>, map OnDisk [[(temp_cert_name 3, [])], [(temp_cert_name 3, [2])], [(temp_cert_name 3, [2, 2])], [(ENROLLMENT_FILE, [2, 2])]]
      @ [Sent \<lparr>rq_url = ''https://inventory/api/v1/agent/certificate'', rq_token = ''t'', rq_csr = ''Q'',
               rq_client = \<lparr>hc_redirects = False, hc_timeout = 30, hc_root = None, hc_identity = None\<rparr>\<rparr>
            [(ENROLLMENT_FILE, [2, 2])]]
      @ map OnDisk [[(ENROLLMENT_FILE, [2, 2]), (temp_cert_name 4, [])],
                    [(ENROLLMENT_FILE, [2, 2]), (temp_cert_name 4, [1])],
                    [(ENROLLMENT_FILE, [2, 2]), (temp_cert_name 4, [1, 1])],
                    [(ENROLLMENT_FILE, [2, 2]), (IDENTITY_BUNDLE, [1, 1])],
                    [(IDENTITY_BUNDLE, [1, 1])]])"
    unfolding enroll_def sample_pending_written
    by (simp add: f(1,4) sample_issued sample_published unenrolled_def Let_def)
  moreover have "renewal_due sample_libraries sample_enrolment unenrolled = Inr True" "\<not> cs_unavailable unenrolled"
    "cs_retry_at unenrolled = 0" by (simp_all add: renewal_due_def unenrolled_def)
  ultimately show ?thesis by (simp add: ensure_certificate_def f(2,3) Let_def)
qed



end
