(* ===== verification/Transport.thy ===== *)
theory Transport
  imports Client_Certificate
begin

text \<open>
  What \<open>ApiClient\<close> of \<open>src/src/api.rs\<close> puts on the wire and how it reports a failed transport:
  the requests of \<open>post_json\<close> and \<open>post_compressed_json\<close>, and the flattening of an error's
  chain of causes. Serialization, compression, and what a sent request meets are parameters.
\<close>

section \<open>Transport errors\<close>

text \<open>An error of the HTTP crate: its own text, the texts of its sources in order, and its kind.\<close>

record transport_error =
  te_text :: string
  te_sources :: "string list"
  te_timeout :: bool
  te_connect :: bool
  te_request :: bool

fun causes_loop :: "nat \<Rightarrow> string list \<Rightarrow> string \<Rightarrow> string" where
  "causes_loop 0 chain out = out"
| "causes_loop (Suc n) [] out = out"
| "causes_loop (Suc n) (cause # chain) out = causes_loop n chain (out @ '': '' @ cause)"

definition describe_causes :: "string list \<Rightarrow> string" where
  "describe_causes chain = causes_loop 8 chain []"

definition describe_transport_error :: "transport_error \<Rightarrow> string" where
  "describe_transport_error e = te_text e @ describe_causes (te_sources e)"

definition classify_transport_error :: "transport_error \<Rightarrow> api_error" where
  "classify_transport_error e =
     (let described = describe_transport_error e in
      if te_timeout e \<or> te_connect e \<or> te_request e then Transient described else Fatal described)"

section \<open>Requests\<close>

record http_request =
  hq_url :: string
  hq_headers :: "(string \<times> string) list"
  hq_body :: "u8 list"

definition bearer_header :: "string option \<Rightarrow> (string \<times> string) list" where
  "bearer_header tok = (case tok of None \<Rightarrow> [] | Some t \<Rightarrow> [(''Authorization'', ''Bearer '' @ t)])"

definition key_header :: "string option \<Rightarrow> (string \<times> string) list" where
  "key_header key = (case key of None \<Rightarrow> [] | Some k \<Rightarrow> [(''Idempotency-Key'', k)])"

definition json_request ::
  "string \<Rightarrow> string \<Rightarrow> string option \<Rightarrow> string option \<Rightarrow> u8 list \<Rightarrow> http_request" where
  "json_request base path tok key bytes =
     \<lparr>hq_url = base @ path,
      hq_headers = [(''Content-Type'', ''application/json'')] @ bearer_header tok @ key_header key, hq_body = bytes\<rparr>"

definition compressed_request ::
  "string \<Rightarrow> string \<Rightarrow> string option \<Rightarrow> string option \<Rightarrow> u8 list \<Rightarrow> http_request" where
  "compressed_request base path tok key bytes =
     \<lparr>hq_url = base @ path,
      hq_headers = [(''Content-Type'', ''application/json''), (''Content-Encoding'', ''zstd'')]
        @ bearer_header tok @ key_header key, hq_body = bytes\<rparr>"

type_synonym wire = "nat \<Rightarrow> http_client \<Rightarrow> http_request \<Rightarrow> transport_error + http_response"

text \<open>
  The client of a call without a token, and the two calls: the \<open>n\<close>-th attempt sends its
  request over the client that the certificate gives. A body that cannot be serialized is an
  error of the first request of \<open>post_json\<close>, and one before any request of the other.
\<close>

definition api_http :: "cert_env \<Rightarrow> config \<Rightarrow> cert_io \<Rightarrow> cert_state \<Rightarrow> api_error + http_client" where
  "api_http cx c io st = cert_client cx c (io_clock io ClientAt) st"

definition send_request :: "wire \<Rightarrow> transport_error + http_request \<Rightarrow> nat \<Rightarrow> http_client \<Rightarrow> api_error + http_response" where
  "send_request wire request n client = map_sum classify_transport_error id (and_then request (wire n client))"

definition client_post_json ::
  "cert_env \<Rightarrow> config \<Rightarrow> string \<Rightarrow> string \<Rightarrow> string option \<Rightarrow> ('b \<Rightarrow> transport_error + u8 list) \<Rightarrow> 'b \<Rightarrow> string option
   \<Rightarrow> (nat \<Rightarrow> cert_io) \<Rightarrow> wire \<Rightarrow> (string \<Rightarrow> string + 'r) \<Rightarrow> cert_state \<Rightarrow> u8 list dir
   \<Rightarrow> (nat \<times> (api_error + 'r)) option \<times> cert_state \<times> cert_step list" where
  "client_post_json cx c base path tok encode body key io wire decode st d =
     certified_post cx c tok io
       (send_request wire (and_then (encode body) (\<lambda>bytes. Inr (json_request base path tok key bytes)))) decode st d"

definition compressed_body ::
  "('b \<Rightarrow> string + u8 list) \<Rightarrow> (u8 list \<Rightarrow> string + u8 list) \<Rightarrow> 'b \<Rightarrow> api_error + u8 list" where
  "compressed_body encode compress body =
     and_then (map_sum (\<lambda>e. Fatal (''failed to serialize request: '' @ e)) id (encode body)) (\<lambda>raw.
       map_sum (\<lambda>e. Fatal (''failed to compress request: '' @ e)) id (compress raw))"

definition post_compressed_json ::
  "cert_env \<Rightarrow> config \<Rightarrow> string \<Rightarrow> string \<Rightarrow> string option \<Rightarrow> ('b \<Rightarrow> string + u8 list) \<Rightarrow> (u8 list \<Rightarrow> string + u8 list)
   \<Rightarrow> 'b \<Rightarrow> string option \<Rightarrow> (nat \<Rightarrow> cert_io) \<Rightarrow> wire \<Rightarrow> (string \<Rightarrow> string + 'r) \<Rightarrow> cert_state \<Rightarrow> u8 list dir
   \<Rightarrow> (nat \<times> (api_error + 'r)) option \<times> cert_state \<times> cert_step list" where
  "post_compressed_json cx c base path tok encode compress body key io wire decode st d =
     (case compressed_body encode compress body of
        Inl e \<Rightarrow> (Some (0, Inl e), st, [])
      | Inr bytes \<Rightarrow>
          certified_post cx c tok io (send_request wire (Inr (compressed_request base path tok key bytes))) decode st d)"

section \<open>Lemmas\<close>

text \<open>The description names the first eight causes in their order, each after a colon.\<close>

lemma causes_loop_result: "causes_loop n chain out = out @ concat (map ((@) '': '') (take n chain))"
  by (induction n chain out rule: causes_loop.induct) simp_all

lemma describe_causes_first_eight: "describe_causes chain = concat (map ((@) '': '') (take 8 chain))"
  by (simp add: describe_causes_def causes_loop_result)

text \<open>
  Whatever arrives, a call depends on the wire only through the one request of its arguments:
  a second attempt after a recovered certificate repeats the first byte for byte, so a server
  that reads one reads the other.
\<close>

definition same_on_request :: "wire \<Rightarrow> wire \<Rightarrow> http_request \<Rightarrow> bool" where
  "same_on_request w w' q \<longleftrightarrow> (\<forall>n client. w n client q = w' n client q)"

lemma attempts_send_one_request:
  assumes "same_on_request w w' q"
  shows "certified_post cx c tok io (send_request w (Inr q)) decode st d
    = certified_post cx c tok io (send_request w' (Inr q)) decode st d"
proof -
  have "send_request w (Inr q) = send_request w' (Inr q)"
    using assms by (simp add: same_on_request_def send_request_def fun_eq_iff)
  then show ?thesis by simp
qed

lemma compressed_call_sends_body:
  assumes "encode body = Inr raw" and "compress raw = Inr bytes" and "decompress bytes = raw"
  shows "\<exists>q. hq_url q = base @ path \<and> decompress (hq_body q) = raw
    \<and> map_of (hq_headers q) ''Authorization'' = map_option ((@) ''Bearer '') tok
    \<and> (\<forall>w w'. same_on_request w w' q \<longrightarrow>
        post_compressed_json cx c base path tok encode compress body key io w decode st d
        = post_compressed_json cx c base path tok encode compress body key io w' decode st d)"
proof (intro exI conjI allI impI)
  let ?q = "compressed_request base path tok key bytes"
  show "hq_url ?q = base @ path" "decompress (hq_body ?q) = raw" by (simp_all add: compressed_request_def assms(3))
  show "map_of (hq_headers ?q) ''Authorization'' = map_option ((@) ''Bearer '') tok"
    by (cases tok) (simp_all add: compressed_request_def bearer_header_def key_header_def split: option.splits)
  show "post_compressed_json cx c base path tok encode compress body key io w decode st d
      = post_compressed_json cx c base path tok encode compress body key io w' decode st d"
    if "same_on_request w w' ?q" for w w'
    using attempts_send_one_request [OF that] assms(1,2) by (simp add: post_compressed_json_def compressed_body_def)
qed

end
