(* ===== verification/Shared_Mailbox.thy ===== *)
theory Shared_Mailbox
  imports Update "HOL-Library.AList"
begin

text \<open>
  \<open>SharedUpdateDir\<close> of \<open>src/src/update.rs\<close> in the Unix build: the privileged helper works in a
  directory that the unprivileged service owns, so every file is reached from a directory
  handle and no link is followed. The file system is a list of nodes, a handle or directory
  entry is an index into it, and before every system call other processes may change it in
  any way. The theory also models \<open>atomic_json\<close> and \<open>read_json\<close>, with which the helper keeps
  its own documents.
\<close>

section \<open>The file system\<close>

text \<open>
  A node is never removed: its number stays valid for the handles that are open.
  \<open>Special\<close> stands for devices, pipes and sockets. Modes are the permission bits.
\<close>

datatype node =
    Regular "u8 list" u32
  | Folder "(string \<times> nat) list" "nat \<times> nat" u32
  | Link string
  | Special

type_synonym nodes = "node list"

fun folder_node :: "node \<Rightarrow> bool" where
  "folder_node (Folder es owner mode) = True"
| "folder_node n = False"

fun link_node :: "node \<Rightarrow> bool" where
  "link_node (Link target) = True"
| "link_node n = False"

definition is_folder :: "nodes \<Rightarrow> nat \<Rightarrow> bool" where
  "is_folder t d \<longleftrightarrow> d < length t \<and> folder_node (t ! d)"

fun folder_entries :: "node \<Rightarrow> (string \<times> nat) list" where
  "folder_entries (Folder es owner mode) = es"
| "folder_entries n = []"

definition entry :: "nodes \<Rightarrow> nat \<Rightarrow> string \<Rightarrow> nat option" where
  "entry t d name = (if is_folder t d then map_of (folder_entries (t ! d)) name else None)"

text \<open>Replacing the entries of a folder; anything else keeps its content.\<close>

fun set_entries :: "((string \<times> nat) list \<Rightarrow> (string \<times> nat) list) \<Rightarrow> node \<Rightarrow> node" where
  "set_entries f (Folder es owner mode) = Folder (f es) owner mode"
| "set_entries f n = n"

definition with_entries :: "((string \<times> nat) list \<Rightarrow> (string \<times> nat) list) \<Rightarrow> nat \<Rightarrow> nodes \<Rightarrow> nodes" where
  "with_entries f d t = t[d := set_entries f (t ! d)]"

section \<open>System calls\<close>

datatype sys_error = NoEntry | SysError string

fun sys_error_display :: "sys_error \<Rightarrow> string" where
  "sys_error_display NoEntry = ''No such file or directory (os error 2)''"
| "sys_error_display (SysError e) = e"

type_synonym 'a call = "nodes \<Rightarrow> (sys_error + 'a) \<times> nodes"

text \<open>\<open>openat\<close> with \<open>O_RDONLY | O_DIRECTORY | O_NOFOLLOW\<close>.\<close>

definition sys_open_dir :: "nat \<Rightarrow> string \<Rightarrow> nat call" where
  "sys_open_dir d name t =
     (case entry t d name of
        None \<Rightarrow> (Inl NoEntry, t)
      | Some i \<Rightarrow> (if is_folder t i then Inr i else Inl (SysError ''Not a directory''), t))"

text \<open>\<open>mkdirat\<close> with mode 0750: the new folder belongs to the caller.\<close>

definition sys_mkdir :: "nat \<times> nat \<Rightarrow> nat \<Rightarrow> string \<Rightarrow> unit call" where
  "sys_mkdir who d name t =
     (if \<not> is_folder t d then (Inl (SysError ''Not a directory''), t)
      else if entry t d name \<noteq> None then (Inl (SysError ''File exists''), t)
      else (Inr (), with_entries (\<lambda>es. (name, length t) # es) d t @ [Folder [] who 488]))"

fun owner_of :: "node \<Rightarrow> (nat \<times> nat) option" where
  "owner_of (Folder es owner mode) = Some owner"
| "owner_of n = None"

definition sys_owner :: "nat \<Rightarrow> (nat \<times> nat) call" where
  "sys_owner d t =
     (case (if d < length t then owner_of (t ! d) else None) of
        Some owner \<Rightarrow> (Inr owner, t) | None \<Rightarrow> (Inl (SysError ''Bad file descriptor''), t))"

fun set_owner :: "nat \<times> nat \<Rightarrow> node \<Rightarrow> node" where
  "set_owner owner (Folder es old mode) = Folder es owner mode"
| "set_owner owner n = n"

definition sys_chown :: "nat \<times> nat \<Rightarrow> nat \<Rightarrow> unit call" where
  "sys_chown owner d t = (Inr (), t[d := set_owner owner (t ! d)])"

definition sys_sync :: "unit call" where
  "sys_sync t = (Inr (), t)"

definition sys_unlink :: "nat \<Rightarrow> string \<Rightarrow> unit call" where
  "sys_unlink d name t =
     (case entry t d name of
        None \<Rightarrow> (Inl NoEntry, t)
      | Some i \<Rightarrow> if is_folder t i then (Inl (SysError ''Is a directory''), t)
                  else (Inr (), with_entries (AList.delete name) d t))"

text \<open>\<open>openat\<close> with \<open>O_RDONLY | O_NOFOLLOW | O_NONBLOCK\<close>: anything but a link opens.\<close>

definition sys_open_read :: "nat \<Rightarrow> string \<Rightarrow> nat call" where
  "sys_open_read d name t =
     (case entry t d name of
        None \<Rightarrow> (Inl NoEntry, t)
      | Some i \<Rightarrow> (if i < length t \<and> \<not> link_node (t ! i) then Inr i
                   else Inl (SysError ''Too many levels of symbolic links''), t))"

definition sys_stat :: "nat \<Rightarrow> node call" where
  "sys_stat i t = (if i < length t then Inr (t ! i) else Inl (SysError ''Bad file descriptor''), t)"

fun read_node :: "nat \<Rightarrow> node \<Rightarrow> sys_error + u8 list" where
  "read_node limit (Regular bytes mode) = Inr (take limit bytes)"
| "read_node limit n = Inl (SysError ''Is a directory'')"

definition sys_read :: "nat \<Rightarrow> nat \<Rightarrow> u8 list call" where
  "sys_read limit i t =
     (if i < length t then read_node limit (t ! i) else Inl (SysError ''Bad file descriptor''), t)"

text \<open>\<open>openat\<close> with \<open>O_WRONLY | O_CREAT | O_EXCL | O_NOFOLLOW\<close> and mode 0600.\<close>

definition sys_create :: "nat \<Rightarrow> string \<Rightarrow> nat call" where
  "sys_create d name t =
     (if \<not> is_folder t d then (Inl (SysError ''Not a directory''), t)
      else if entry t d name \<noteq> None then (Inl (SysError ''File exists''), t)
      else (Inr (length t), with_entries (\<lambda>es. (name, length t) # es) d t @ [Regular [] 384]))"

text \<open>Writing through a new handle, whose position is the start of the file.\<close>

fun write_node :: "u8 list \<Rightarrow> node \<Rightarrow> node" where
  "write_node bytes (Regular old mode) = Regular (bytes @ drop (length bytes) old) mode"
| "write_node bytes n = n"

definition sys_write :: "nat \<Rightarrow> u8 list \<Rightarrow> unit call" where
  "sys_write i bytes t = (Inr (), t[i := write_node bytes (t ! i)])"

fun set_mode :: "u32 \<Rightarrow> node \<Rightarrow> node" where
  "set_mode mode (Regular bytes old) = Regular bytes mode"
| "set_mode mode n = n"

definition sys_chmod :: "u32 \<Rightarrow> nat \<Rightarrow> unit call" where
  "sys_chmod mode i t = (Inr (), t[i := set_mode mode (t ! i)])"

text \<open>\<open>renameat\<close> inside one folder; a folder is only replaced by a folder, and when empty.\<close>

definition sys_rename :: "nat \<Rightarrow> string \<Rightarrow> string \<Rightarrow> unit call" where
  "sys_rename d source target t =
     (case entry t d source of
        None \<Rightarrow> (Inl NoEntry, t)
      | Some i \<Rightarrow>
          (case entry t d target of
             Some j \<Rightarrow>
               if i = j then (Inr (), t)
               else if is_folder t i \<noteq> is_folder t j then (Inl (SysError ''Is a directory''), t)
               else if is_folder t j \<and> folder_entries (t ! j) \<noteq> []
               then (Inl (SysError ''Directory not empty''), t)
               else (Inr (), with_entries (\<lambda>es. (target, i) # AList.delete target (AList.delete source es)) d t)
           | None \<Rightarrow> (Inr (), with_entries (\<lambda>es. (target, i) # AList.delete source es) d t)))"

section \<open>Running system calls\<close>

text \<open>
  What happens outside of the program: before the \<open>n\<close>-th call the other processes turn the
  file system \<open>t\<close> into \<open>others n t\<close>; the call may be refused with an error, and a refused
  write may still have written \<open>partial n\<close> bytes. The state records the file system before
  and after every call.
\<close>

record outside =
  others :: "nat \<Rightarrow> nodes \<Rightarrow> nodes"
  refusal :: "nat \<Rightarrow> string option"
  partial :: "nat \<Rightarrow> nat"

record sys_state =
  disk :: nodes
  calls :: nat
  steps :: "(nodes \<times> nodes) list"

type_synonym 'a sys = "sys_state \<Rightarrow> (string + 'a) \<times> sys_state"

definition return_sys :: "'a \<Rightarrow> 'a sys" where
  "return_sys v s = (Inr v, s)"

definition lift_sys :: "string + 'a \<Rightarrow> 'a sys" where
  "lift_sys r s = (r, s)"

definition bind_sys :: "'a sys \<Rightarrow> ('a \<Rightarrow> 'b sys) \<Rightarrow> 'b sys" where
  "bind_sys m k s = (case m s of (Inl e, s') \<Rightarrow> (Inl e, s') | (Inr v, s') \<Rightarrow> k v s')"

text \<open>One call; \<open>part\<close> is what a refused call still did.\<close>

definition sys_step :: "outside \<Rightarrow> (nat \<Rightarrow> nodes \<Rightarrow> nodes) \<Rightarrow> 'a call \<Rightarrow> sys_state \<Rightarrow> (sys_error + 'a) \<times> sys_state" where
  "sys_step out part f s =
     (let before = others out (calls s) (disk s);
          (r, after) = (case refusal out (calls s) of
             Some e \<Rightarrow> (Inl (SysError e), part (partial out (calls s)) before)
           | None \<Rightarrow> f before)
      in (r, \<lparr>disk = after, calls = Suc (calls s), steps = steps s @ [(before, after)]\<rparr>))"

definition attempt :: "outside \<Rightarrow> 'a call \<Rightarrow> (sys_error + 'a) sys" where
  "attempt out f s = (let (r, s') = sys_step out (\<lambda>_ t. t) f s in (Inr r, s'))"

definition sys_call :: "outside \<Rightarrow> 'a call \<Rightarrow> 'a sys" where
  "sys_call out f s = (let (r, s') = sys_step out (\<lambda>_ t. t) f s in (map_sum sys_error_display id r, s'))"

definition write_all :: "outside \<Rightarrow> nat \<Rightarrow> u8 list \<Rightarrow> unit sys" where
  "write_all out i bytes s =
     (let (r, s') = sys_step out (\<lambda>n t. snd (sys_write i (take n bytes) t)) (sys_write i bytes) s
      in (map_sum sys_error_display id r, s'))"

text \<open>\<open>clean\<close> runs when \<open>m\<close> failed; its own outcome does not matter.\<close>

definition or_clean :: "'a sys \<Rightarrow> 'b sys \<Rightarrow> 'a sys" where
  "or_clean m clean s =
     (case m s of (Inl e, s') \<Rightarrow> (Inl e, snd (clean s')) | (Inr v, s') \<Rightarrow> (Inr v, s'))"

section \<open>The mailbox\<close>

definition MAX_MANIFEST_BYTES :: nat where
  "MAX_MANIFEST_BYTES = 16 * 1024"

definition MAX_LEDGER_BYTES :: nat where
  "MAX_LEDGER_BYTES = 256 * 1024"

text \<open>
  \<open>SharedUpdateDir::open\<close>. \<open>resolve\<close> is the operating system's resolution of the parent of
  \<open>state_dir\<close>, whose last component is \<open>leaf\<close>; \<open>who\<close> are the effective user and group.
\<close>

definition sys_open_state :: "(nodes \<Rightarrow> string + nat) \<Rightarrow> string \<Rightarrow> nat call" where
  "sys_open_state resolve leaf t =
     (case resolve t of Inl e \<Rightarrow> (Inl (SysError e), t) | Inr p \<Rightarrow> sys_open_dir p leaf t)"

definition make_update_dir :: "outside \<Rightarrow> nat \<times> nat \<Rightarrow> bool \<Rightarrow> nat \<Rightarrow> bool sys" where
  "make_update_dir out who create state =
     (if create then bind_sys (attempt out (sys_mkdir who state ''update'')) (\<lambda>r. return_sys (is_ok r))
      else return_sys False)"

definition hand_over :: "outside \<Rightarrow> nat \<times> nat \<Rightarrow> nat \<Rightarrow> nat \<Rightarrow> unit sys" where
  "hand_over out who state dir =
     bind_sys (sys_call out (sys_owner state)) (\<lambda>owner.
     bind_sys (if fst who = 0 then sys_call out (sys_chown owner dir) else return_sys ()) (\<lambda>_.
     bind_sys (sys_call out sys_sync) (\<lambda>_.
     sys_call out sys_sync)))"

definition mailbox_open ::
  "outside \<Rightarrow> nat \<times> nat \<Rightarrow> (nodes \<Rightarrow> string + nat) \<Rightarrow> string \<Rightarrow> bool \<Rightarrow> nat sys" where
  "mailbox_open out who resolve leaf create =
     bind_sys (sys_call out (sys_open_state resolve leaf)) (\<lambda>state.
     bind_sys (make_update_dir out who create state) (\<lambda>made.
     bind_sys (sys_call out (sys_open_dir state ''update'')) (\<lambda>dir.
     bind_sys (if made then hand_over out who state dir else return_sys ()) (\<lambda>_.
     return_sys dir))))"

definition mailbox_remove :: "outside \<Rightarrow> nat \<Rightarrow> string \<Rightarrow> unit sys" where
  "mailbox_remove out dir name =
     bind_sys (attempt out (sys_unlink dir name)) (\<lambda>r.
       case r of
         Inl (SysError e) \<Rightarrow> lift_sys (Inl e)
       | _ \<Rightarrow> sys_call out sys_sync)"

definition mailbox_read :: "outside \<Rightarrow> (u8 list \<Rightarrow> string + 'v) \<Rightarrow> nat \<Rightarrow> string \<Rightarrow> 'v sys" where
  "mailbox_read out decode dir name =
     bind_sys (sys_call out (sys_open_read dir name)) (\<lambda>i.
     bind_sys (sys_call out (sys_stat i)) (\<lambda>n.
       case n of
         Regular content _ \<Rightarrow>
           if length content > MAX_MANIFEST_BYTES
           then lift_sys (Inl ''shared update record is not a regular bounded file'')
           else bind_sys (sys_call out (sys_read (MAX_MANIFEST_BYTES + 1) i)) (\<lambda>bytes.
             if length bytes > MAX_MANIFEST_BYTES
             then lift_sys (Inl ''shared update record grew beyond limit'')
             else lift_sys (decode bytes))
       | _ \<Rightarrow> lift_sys (Inl ''shared update record is not a regular bounded file'')))"

definition temp_name :: "string \<Rightarrow> string" where
  "temp_name nonce = ''.'' @ nonce @ ''.tmp''"

definition fill_and_rename ::
  "outside \<Rightarrow> ('v \<Rightarrow> string + u8 list) \<Rightarrow> string \<Rightarrow> nat \<Rightarrow> string \<Rightarrow> 'v \<Rightarrow> bool \<Rightarrow> nat \<Rightarrow> unit sys" where
  "fill_and_rename out encode nonce dir name v public file =
     bind_sys (lift_sys (encode v)) (\<lambda>bytes.
     bind_sys (write_all out file bytes) (\<lambda>_.
     bind_sys (if public then sys_call out (sys_chmod 420 file) else return_sys ()) (\<lambda>_.
     bind_sys (sys_call out sys_sync) (\<lambda>_.
     bind_sys (sys_call out (sys_rename dir (temp_name nonce) name)) (\<lambda>_.
     sys_call out sys_sync)))))"

definition mailbox_write ::
  "outside \<Rightarrow> ('v \<Rightarrow> string + u8 list) \<Rightarrow> string \<Rightarrow> nat \<Rightarrow> string \<Rightarrow> 'v \<Rightarrow> bool \<Rightarrow> unit sys" where
  "mailbox_write out encode nonce dir name v public =
     bind_sys (sys_call out (sys_create dir (temp_name nonce))) (\<lambda>file.
       or_clean (fill_and_rename out encode nonce dir name v public file)
         (attempt out (sys_unlink dir (temp_name nonce))))"

text \<open>
  What the helper does with the mailbox: \<open>ack_request\<close> publishes a result, and
  \<open>publish_pending_health\<close> removes the old acknowledgement and publishes the transaction.
\<close>

definition put_document ::
  "outside \<Rightarrow> nat \<times> nat \<Rightarrow> (nodes \<Rightarrow> string + nat) \<Rightarrow> string \<Rightarrow> ('v \<Rightarrow> string + u8 list) \<Rightarrow> string
   \<Rightarrow> string list \<Rightarrow> string \<Rightarrow> 'v \<Rightarrow> unit sys" where
  "put_document out who resolve leaf encode nonce stale name v =
     bind_sys (mailbox_open out who resolve leaf True) (\<lambda>dir.
     bind_sys (foldr (\<lambda>old m. bind_sys (mailbox_remove out dir old) (\<lambda>_. m)) stale (return_sys ())) (\<lambda>_.
     mailbox_write out encode nonce dir name v True))"

section \<open>Confinement\<close>

text \<open>
  The two folders that the helper may change: whatever the name of \<open>state_dir\<close> denoted at one
  of its calls, and whatever \<open>update\<close> denoted in such a folder; both as plain entries.
\<close>

definition is_state_dir :: "(nodes \<Rightarrow> string + nat) \<Rightarrow> string \<Rightarrow> (nodes \<times> nodes) list \<Rightarrow> nat \<Rightarrow> bool" where
  "is_state_dir resolve leaf tr i \<longleftrightarrow>
     (\<exists>(a, b)\<in>set tr. \<exists>p. resolve a = Inr p \<and> entry a p leaf = Some i)"

definition is_mailbox :: "(nodes \<Rightarrow> string + nat) \<Rightarrow> string \<Rightarrow> (nodes \<times> nodes) list \<Rightarrow> nat \<Rightarrow> bool" where
  "is_mailbox resolve leaf tr i \<longleftrightarrow>
     (\<exists>st. is_state_dir resolve leaf tr st \<and> (\<exists>(a, b)\<in>set tr. entry a st ''update'' = Some i))"

text \<open>A change of a folder at the given names only.\<close>

definition only_entries :: "string set \<Rightarrow> node \<Rightarrow> node \<Rightarrow> bool" where
  "only_entries names n n' \<longleftrightarrow> folder_node n \<and> folder_node n' \<and>
     (\<forall>x. x \<notin> names \<longrightarrow> map_of (folder_entries n') x = map_of (folder_entries n) x)"

definition allowed ::
  "(nodes \<Rightarrow> string + nat) \<Rightarrow> string \<Rightarrow> string set \<Rightarrow> (nodes \<times> nodes) list \<Rightarrow> nat \<Rightarrow> node \<Rightarrow> node \<Rightarrow> bool" where
  "allowed resolve leaf names tr i n n' \<longleftrightarrow> n' = n
     \<or> is_state_dir resolve leaf tr i \<and> only_entries {''update''} n n'
     \<or> is_mailbox resolve leaf tr i \<and> only_entries names n n'"

definition grows :: "outside \<Rightarrow> bool" where
  "grows out \<longleftrightarrow> (\<forall>n t. length t \<le> length (others out n t))"

lemma is_state_dir_mono: "is_state_dir resolve leaf tr i \<Longrightarrow> is_state_dir resolve leaf (tr @ new) i"
  by (auto simp: is_state_dir_def)

lemma is_mailbox_mono: "is_mailbox resolve leaf tr i \<Longrightarrow> is_mailbox resolve leaf (tr @ new) i"
  by (auto simp: is_mailbox_def intro: is_state_dir_mono)

lemma allowed_mono: "allowed resolve leaf names tr i n n' \<Longrightarrow> allowed resolve leaf names (tr @ new) i n n'"
  by (auto simp: allowed_def intro: is_state_dir_mono is_mailbox_mono)

subsection \<open>What a call changes\<close>

text \<open>Below \<open>N\<close>, the call changes node \<open>d\<close> at most, and that at the given names.\<close>

definition within :: "nat \<Rightarrow> nat \<Rightarrow> string set \<Rightarrow> nodes \<Rightarrow> nodes \<Rightarrow> bool" where
  "within N d names t t' \<longleftrightarrow> N \<le> length t' \<and>
     (\<forall>i<N. t' ! i = t ! i \<or> i = d \<and> only_entries names (t ! i) (t' ! i))"

lemma within_refl [simp]: "N \<le> length t \<Longrightarrow> within N d names t t"
  by (simp add: within_def)

lemma folder_node_set [simp]:
  "folder_node (set_entries f n) = folder_node n" "folder_node (set_owner owner n) = folder_node n"
  by (cases n; simp)+

lemma folder_entries_set [simp]:
  "folder_node n \<Longrightarrow> folder_entries (set_entries f n) = f (folder_entries n)"
  "folder_entries (set_owner owner n) = folder_entries n"
  by (cases n; simp)+

lemma within_entries:
  assumes "N \<le> length t" "is_folder t d" "\<And>es x. x \<notin> names \<Longrightarrow> map_of (f es) x = map_of es x"
  shows "within N d names t (with_entries f d t)" "within N d names t (with_entries f d t @ [n])"
  using assms by (auto simp: within_def with_entries_def is_folder_def only_entries_def nth_append nth_list_update)

lemma entry_folder: "entry t d name = Some i \<Longrightarrow> is_folder t d"
  by (simp add: entry_def split: if_splits)

lemma within_mkdir: "N \<le> length t \<Longrightarrow> name \<in> names \<Longrightarrow> within N d names t (snd (sys_mkdir who d name t))"
  by (auto simp: sys_mkdir_def intro!: within_entries)

lemma within_create: "N \<le> length t \<Longrightarrow> name \<in> names \<Longrightarrow> within N d names t (snd (sys_create d name t))"
  by (auto simp: sys_create_def intro!: within_entries)

lemma within_unlink: "N \<le> length t \<Longrightarrow> name \<in> names \<Longrightarrow> within N d names t (snd (sys_unlink d name t))"
  by (auto simp: sys_unlink_def AList.delete_conv' split: option.splits
      intro!: within_entries dest: entry_folder)

lemma within_rename:
  "N \<le> length t \<Longrightarrow> source \<in> names \<Longrightarrow> target \<in> names \<Longrightarrow>
   within N d names t (snd (sys_rename d source target t))"
  by (auto simp: sys_rename_def AList.delete_conv' split: option.splits
      intro!: within_entries dest: entry_folder)

lemma within_chown: "N \<le> length t \<Longrightarrow> within N d names t (snd (sys_chown owner d t))"
proof (cases "d < length t \<and> folder_node (t ! d)")
  case False
  then have "d < length t \<Longrightarrow> set_owner owner (t ! d) = t ! d" by (cases "t ! d") auto
  then have "t[d := set_owner owner (t ! d)] = t" by (metis list_update_id list_update_beyond not_less)
  then show "N \<le> length t \<Longrightarrow> ?thesis" by (simp add: sys_chown_def)
qed (auto simp: within_def sys_chown_def only_entries_def nth_list_update)

lemma within_file:
  "N \<le> length t \<Longrightarrow> N \<le> file \<Longrightarrow> within N d names t (snd (sys_write file bytes t))"
  "N \<le> length t \<Longrightarrow> N \<le> file \<Longrightarrow> within N d names t (snd (sys_chmod mode file t))"
  by (simp_all add: within_def sys_write_def sys_chmod_def)

lemma reading_calls [simp]:
  "snd (sys_open_state resolve leaf t) = t" "snd (sys_open_dir d name t) = t"
  "snd (sys_open_read d name t) = t" "snd (sys_stat i t) = t" "snd (sys_read n i t) = t"
  "snd (sys_owner d t) = t" "snd (sys_sync t) = t"
  by (simp_all add: sys_open_state_def sys_open_dir_def sys_open_read_def sys_stat_def sys_read_def
      sys_owner_def sys_sync_def split: sum.splits option.splits)

lemmas within_calls = within_mkdir within_create within_unlink within_rename within_chown within_file

subsection \<open>Every operation stays inside\<close>

text \<open>
  The invariant of a run: all recorded steps are allowed, and \<open>F\<close>, a fact about the steps
  taken that later steps cannot take back.
\<close>

definition lasting :: "((nodes \<times> nodes) list \<Rightarrow> bool) \<Rightarrow> bool" where
  "lasting F \<longleftrightarrow> (\<forall>tr new. F tr \<longrightarrow> F (tr @ new))"

definition inside ::
  "(nodes \<Rightarrow> string + nat) \<Rightarrow> string \<Rightarrow> string set \<Rightarrow> nat \<Rightarrow> ((nodes \<times> nodes) list \<Rightarrow> bool) \<Rightarrow> sys_state \<Rightarrow> bool" where
  "inside resolve leaf names N F s \<longleftrightarrow> N \<le> length (disk s) \<and> F (steps s) \<and>
     (\<forall>(a, b)\<in>set (steps s). \<forall>i<N. allowed resolve leaf names (steps s) i (a ! i) (b ! i))"

definition runs ::
  "(sys_state \<Rightarrow> bool) \<Rightarrow> 'a sys \<Rightarrow> ('a \<Rightarrow> sys_state \<Rightarrow> bool) \<Rightarrow> (sys_state \<Rightarrow> bool) \<Rightarrow> bool" where
  "runs I m Q E \<longleftrightarrow> (\<forall>s r s'. I s \<longrightarrow> m s = (r, s') \<longrightarrow> (case r of Inl e \<Rightarrow> E s' | Inr v \<Rightarrow> Q v s'))"

definition keeps :: "(sys_state \<Rightarrow> bool) \<Rightarrow> 'a sys \<Rightarrow> ('a \<Rightarrow> sys_state \<Rightarrow> bool) \<Rightarrow> bool" where
  "keeps I m P \<longleftrightarrow> runs I m (\<lambda>v s. I s \<and> P v s) I"

lemma runsI:
  assumes "\<And>s v s'. I s \<Longrightarrow> m s = (Inr v, s') \<Longrightarrow> Q v s'" "\<And>s e s'. I s \<Longrightarrow> m s = (Inl e, s') \<Longrightarrow> E s'"
  shows "runs I m Q E"
  using assms by (auto simp: runs_def split: sum.splits)

lemma runsD:
  assumes "runs I m Q E" "I s"
  shows "m s = (Inr v, s') \<Longrightarrow> Q v s'" "m s = (Inl e, s') \<Longrightarrow> E s'"
  using assms(1) [unfolded runs_def, rule_format, OF assms(2)] by fastforce+

lemma keepsI:
  assumes "\<And>s v s'. I s \<Longrightarrow> m s = (Inr v, s') \<Longrightarrow> I s' \<and> P v s'"
    and "\<And>s e s'. I s \<Longrightarrow> m s = (Inl e, s') \<Longrightarrow> I s'"
  shows "keeps I m P"
  unfolding keeps_def by (rule runsI) (use assms in blast)+

lemma keepsD:
  assumes "keeps I m P" "I s"
  shows "m s = (r, s') \<Longrightarrow> I s'" "m s = (Inr v, s') \<Longrightarrow> P v s'"
  using runsD [OF assms(1) [unfolded keeps_def] assms(2)] by (cases r; blast)+

lemma map_sum_InrE: "map_sum f id r = Inr v \<Longrightarrow> (r = Inr v \<Longrightarrow> Q) \<Longrightarrow> Q"
  by (cases r) auto

lemma keeps_return: "keeps I (return_sys v) (\<lambda>w s. w = v)"
  by (rule keepsI) (auto simp: return_sys_def)

lemma keeps_lift: "keeps I (lift_sys r) (\<lambda>w s. r = Inr w)"
  by (rule keepsI) (auto simp: lift_sys_def)

lemma keeps_weaken:
  assumes "keeps I m P" "\<And>v s. I s \<Longrightarrow> P v s \<Longrightarrow> Q v s"
  shows "keeps I m Q"
  by (rule keepsI) (blast dest: keepsD [OF assms(1)] intro: assms(2))+

lemma keeps_sys_bind:
  assumes "keeps I m P" "\<And>v. keeps (\<lambda>s. I s \<and> P v s) (k v) Q"
  shows "keeps I (bind_sys m k) Q"
proof (rule keepsI)
  fix s w s' assume "I s" "bind_sys m k s = (Inr w, s')"
  then obtain v s1 where "m s = (Inr v, s1)" "k v s1 = (Inr w, s')"
    by (auto simp: bind_sys_def split: prod.splits sum.splits)
  with \<open>I s\<close> show "I s' \<and> Q w s'"
    using keepsD [OF assms(1) \<open>I s\<close>] keepsD [OF assms(2), of s1 v] by blast
next
  fix s e s' assume "I s" "bind_sys m k s = (Inl e, s')"
  then consider "m s = (Inl e, s')" | v s1 where "m s = (Inr v, s1)" "k v s1 = (Inl e, s')"
    by (auto simp: bind_sys_def split: prod.splits sum.splits)
  then show "I s'"
    using keepsD [OF assms(1) \<open>I s\<close>] keepsD [OF assms(2)] by cases blast+
qed

lemma keeps_or_clean:
  assumes "keeps I m P" "keeps I c Q"
  shows "keeps I (or_clean m c) P"
proof (rule keepsI)
  fix s v s' assume "I s" "or_clean m c s = (Inr v, s')"
  then show "I s' \<and> P v s'"
    using keepsD [OF assms(1)] by (auto simp: or_clean_def split: prod.splits sum.splits)
next
  fix s e s' assume "I s" "or_clean m c s = (Inl e, s')"
  then obtain s1 where "m s = (Inl e, s1)" "s' = snd (c s1)"
    by (auto simp: or_clean_def split: prod.splits sum.splits)
  then show "I s'"
    using keepsD(1) [OF assms(1) \<open>I s\<close>] keepsD(1) [OF assms(2), of s1 "fst (c s1)" "snd (c s1)"] by simp
qed

lemma inside_conj:
  "inside resolve leaf names N (\<lambda>tr. F tr \<and> G tr) s \<longleftrightarrow> inside resolve leaf names N F s \<and> G (steps s)"
  by (auto simp: inside_def)

text \<open>One call; \<open>harmless\<close> is what the operation needs of the call and of its refused form.\<close>

definition harmless ::
  "(nodes \<Rightarrow> string + nat) \<Rightarrow> string \<Rightarrow> string set \<Rightarrow> nat \<Rightarrow> ((nodes \<times> nodes) list \<Rightarrow> bool)
   \<Rightarrow> (nodes \<Rightarrow> nodes) \<Rightarrow> bool" where
  "harmless resolve leaf names N F f \<longleftrightarrow> (\<forall>tr t. F tr \<longrightarrow> N \<le> length t \<longrightarrow>
     N \<le> length (f t) \<and> (\<forall>i<N. allowed resolve leaf names tr i (t ! i) (f t ! i)))"

lemma harmless_within:
  assumes "\<And>t. N \<le> length t \<Longrightarrow> within N d ns t (f t)"
    and "\<And>tr. F tr \<Longrightarrow> is_state_dir resolve leaf tr d \<and> ns \<subseteq> {''update''}
                    \<or> is_mailbox resolve leaf tr d \<and> ns \<subseteq> names"
  shows "harmless resolve leaf names N F f"
  unfolding harmless_def
proof (intro allI impI conjI)
  fix tr and t :: nodes assume F: "F tr" and N: "N \<le> length t"
  show "N \<le> length (f t)" using assms(1) [OF N] by (simp add: within_def)
  fix i assume "i < N"
  then have "f t ! i = t ! i \<or> i = d \<and> only_entries ns (t ! i) (f t ! i)"
    using assms(1) [OF N] by (simp add: within_def)
  then show "allowed resolve leaf names tr i (t ! i) (f t ! i)"
    using assms(2) [OF F] unfolding allowed_def only_entries_def by blast
qed

lemma harmless_id: "(\<And>t. f t = t) \<Longrightarrow> harmless resolve leaf names N F f"
  by (simp add: harmless_def allowed_def)

lemma sys_step_cases:
  assumes "sys_step out part f s = (r, s')"
  obtains a where "a = others out (calls s) (disk s)"
    and "steps s' = steps s @ [(a, disk s')]"
    and "disk s' = snd (f a) \<and> r = fst (f a) \<or> (\<exists>n e. disk s' = part n a \<and> r = Inl e)"
proof (cases "refusal out (calls s)")
  case None
  then show ?thesis using assms that by (auto simp: sys_step_def Let_def split: prod.splits)
next
  case (Some e)
  let ?a = "others out (calls s) (disk s)"
  have "disk s' = part (partial out (calls s)) ?a" "r = Inl (SysError e)" "steps s' = steps s @ [(?a, disk s')]"
    using assms Some by (auto simp: sys_step_def Let_def)
  then show ?thesis by (intro that [OF refl]) blast+
qed

lemma sys_step_inside:
  assumes out: "grows out" and F: "lasting F" and s: "inside resolve leaf names N F s"
    and ok: "harmless resolve leaf names N F (\<lambda>t. snd (f t))" "\<And>n. harmless resolve leaf names N F (part n)"
    and run: "sys_step out part f s = (r, s')"
  shows "inside resolve leaf names N F s'"
    and "r = Inr v \<Longrightarrow> \<exists>(a, b)\<in>set (steps s'). N \<le> length a \<and> fst (f a) = Inr v"
proof -
  obtain a where a: "a = others out (calls s) (disk s)" "steps s' = steps s @ [(a, disk s')]"
    and b: "disk s' = snd (f a) \<and> r = fst (f a) \<or> (\<exists>n e. disk s' = part n a \<and> r = Inl e)"
    using run by (rule sys_step_cases)
  have "length (disk s) \<le> length a" using out by (simp add: a(1) grows_def)
  then have N: "N \<le> length a" using s by (simp add: inside_def)
  have Fs: "F (steps s)" and old: "\<forall>(a, b)\<in>set (steps s). \<forall>i<N. allowed resolve leaf names (steps s) i (a ! i) (b ! i)"
    using s by (auto simp: inside_def)
  have "N \<le> length (disk s') \<and> (\<forall>i<N. allowed resolve leaf names (steps s) i (a ! i) (disk s' ! i))"
    using b ok N Fs by (auto simp: harmless_def)
  then show "inside resolve leaf names N F s'"
    using old F Fs by (auto simp: inside_def lasting_def a(2) intro!: allowed_mono)
  show "r = Inr v \<Longrightarrow> \<exists>(a, b)\<in>set (steps s'). N \<le> length a \<and> fst (f a) = Inr v"
    using b N by (auto simp: a(2))
qed

lemma keeps_call:
  assumes "grows out" "lasting F" "harmless resolve leaf names N F (\<lambda>t. snd (f t))"
  shows "keeps (inside resolve leaf names N F) (sys_call out f)
           (\<lambda>v s. \<exists>(a, b)\<in>set (steps s). N \<le> length a \<and> fst (f a) = Inr v)"
proof (rule keepsI)
  note step = sys_step_inside [OF assms(1,2) _ assms(3) harmless_id [OF refl]]
  fix s s' assume s: "inside resolve leaf names N F s"
  { fix v assume "sys_call out f s = (Inr v, s')"
    then have "sys_step out (\<lambda>_ t. t) f s = (Inr v, s')"
      by (auto simp: sys_call_def split: prod.splits elim: map_sum_InrE)
    then show "inside resolve leaf names N F s' \<and> (\<exists>(a, b)\<in>set (steps s'). N \<le> length a \<and> fst (f a) = Inr v)"
      using step [OF s] by blast }
  { fix e assume "sys_call out f s = (Inl e, s')"
    then obtain r where "sys_step out (\<lambda>_ t. t) f s = (r, s')" by (auto simp: sys_call_def split: prod.splits)
    then show "inside resolve leaf names N F s'" by (rule step(1) [OF s]) }
qed

lemma keeps_attempt:
  assumes "grows out" "lasting F" "harmless resolve leaf names N F (\<lambda>t. snd (f t))"
  shows "keeps (inside resolve leaf names N F) (attempt out f) (\<lambda>v s. True)"
  using sys_step_inside(1) [OF assms(1,2) _ assms(3) harmless_id [OF refl]]
  by (intro keepsI) (auto simp: attempt_def split: prod.splits)

lemma keeps_write_all:
  assumes "grows out" "lasting F" "N \<le> file"
  shows "keeps (inside resolve leaf names N F) (write_all out file bytes) (\<lambda>v s. True)"
proof -
  have h: "harmless resolve leaf names N F (\<lambda>t. snd (sys_write file bs t))" for bs
    using assms(3) by (auto simp: harmless_def allowed_def sys_write_def)
  show ?thesis
    using sys_step_inside(1) [OF assms(1,2) _ h h]
    by (intro keepsI) (auto simp: write_all_def split: prod.splits)
qed

lemma keeps_seq:
  assumes "keeps I m P" "\<And>v s. I s \<Longrightarrow> P v s \<Longrightarrow> keeps I (k v) Q"
  shows "keeps I (bind_sys m k) Q"
proof (rule keepsI)
  fix s w s' assume "I s" "bind_sys m k s = (Inr w, s')"
  then obtain v s1 where "m s = (Inr v, s1)" "k v s1 = (Inr w, s')"
    by (auto simp: bind_sys_def split: prod.splits sum.splits)
  with \<open>I s\<close> show "I s' \<and> Q w s'"
    using keepsD [OF assms(1) \<open>I s\<close>] keepsD [OF assms(2), of s1 v s1] by blast
next
  fix s e s' assume "I s" "bind_sys m k s = (Inl e, s')"
  then consider "m s = (Inl e, s')" | v s1 where "m s = (Inr v, s1)" "k v s1 = (Inl e, s')"
    by (auto simp: bind_sys_def split: prod.splits sum.splits)
  then show "I s'"
    using keepsD [OF assms(1) \<open>I s\<close>] keepsD [OF assms(2)] by cases blast+
qed

lemma keeps_then:
  assumes "keeps I m P" "\<And>v. keeps I (k v) Q"
  shows "keeps I (bind_sys m k) Q"
  using assms by (rule keeps_seq)

lemma keeps_learn:
  assumes "keeps (inside resolve leaf names N F) m (\<lambda>v s. G v (steps s))"
    and "\<And>v. keeps (inside resolve leaf names N (\<lambda>tr. F tr \<and> G v tr)) (k v) Q"
  shows "keeps (inside resolve leaf names N F) (bind_sys m k) Q"
  by (rule keeps_sys_bind [OF assms(1)]) (use assms(2) in \<open>simp add: inside_conj [abs_def]\<close>)

lemma keeps_forget:
  assumes "keeps I m P"
  shows "keeps I m (\<lambda>v s. True)"
  using assms by (rule keeps_weaken) simp

lemma lasting_facts [simp, intro]:
  "lasting (\<lambda>tr. True)" "lasting (\<lambda>tr. is_state_dir resolve leaf tr i)"
  "lasting (\<lambda>tr. is_mailbox resolve leaf tr i)"
  "lasting F \<Longrightarrow> lasting G \<Longrightarrow> lasting (\<lambda>tr. F tr \<and> G tr)"
  by (auto simp: lasting_def intro: is_state_dir_mono is_mailbox_mono)

lemma open_state_names:
  assumes "(a, b) \<in> set tr" "fst (sys_open_state resolve leaf a) = Inr i"
  shows "is_state_dir resolve leaf tr i"
  using assms by (auto simp: is_state_dir_def sys_open_state_def sys_open_dir_def
      split: sum.splits option.splits if_splits)

lemma open_update_names:
  assumes "(a, b) \<in> set tr" "fst (sys_open_dir st ''update'' a) = Inr i" "is_state_dir resolve leaf tr st"
  shows "is_mailbox resolve leaf tr i"
  using assms by (auto simp: is_mailbox_def sys_open_dir_def split: option.splits if_splits)

lemma create_is_new: "fst (sys_create d name t) = Inr i \<Longrightarrow> i = length t"
  by (auto simp: sys_create_def split: if_splits)

lemma keeps_make_update_dir:
  assumes "grows out" "lasting F" "\<And>tr. F tr \<Longrightarrow> is_state_dir resolve leaf tr st"
  shows "keeps (inside resolve leaf names N F) (make_update_dir out who create st) (\<lambda>v s. True)"
proof -
  have "harmless resolve leaf names N F (\<lambda>t. snd (sys_mkdir who st ''update'' t))"
    by (rule harmless_within [where ns = "{''update''}"]) (use assms(3) in \<open>auto intro: within_mkdir\<close>)
  from keeps_then [OF keeps_attempt [OF assms(1,2) this], of "\<lambda>r. return_sys (is_ok r)", OF keeps_forget [OF keeps_return]]
  show ?thesis by (simp add: make_update_dir_def keeps_forget [OF keeps_return])
qed

lemma keeps_sync:
  assumes "grows out" "lasting F"
  shows "keeps (inside resolve leaf names N F) (sys_call out sys_sync) (\<lambda>v s. True)"
  by (rule keeps_forget [OF keeps_call [OF assms harmless_id]]) simp

lemma keeps_hand_over:
  assumes "grows out" "lasting F" "\<And>tr. F tr \<Longrightarrow> is_mailbox resolve leaf tr dir"
  shows "keeps (inside resolve leaf names N F) (hand_over out who st dir) (\<lambda>v s. True)"
proof -
  have "harmless resolve leaf names N F (\<lambda>t. snd (sys_chown owner dir t))" for owner
    by (rule harmless_within [where ns = "{}"]) (use assms(3) in \<open>auto intro: within_chown\<close>)
  note chown = keeps_forget [OF keeps_call [OF assms(1,2) this]]
  note sync = keeps_sync [OF assms(1,2)]
  have "keeps (inside resolve leaf names N F)
      (if fst who = 0 then sys_call out (sys_chown owner dir) else return_sys ()) (\<lambda>v s. True)" for owner
    using chown keeps_forget [OF keeps_return] by auto
  from keeps_then [OF this keeps_then [OF sync sync]]
  show ?thesis
    unfolding hand_over_def
    by (intro keeps_then [OF keeps_call [OF assms(1,2) harmless_id]]) simp_all
qed

lemma keeps_open:
  assumes "grows out"
  shows "keeps (inside resolve leaf names N (\<lambda>tr. True)) (mailbox_open out who resolve leaf create)
           (\<lambda>dir s. is_mailbox resolve leaf (steps s) dir)"
  unfolding mailbox_open_def
proof (rule keeps_learn [where G = "\<lambda>st tr. is_state_dir resolve leaf tr st"])
  show "keeps (inside resolve leaf names N (\<lambda>tr. True)) (sys_call out (sys_open_state resolve leaf))
      (\<lambda>st s. is_state_dir resolve leaf (steps s) st)"
    by (rule keeps_weaken [OF keeps_call [OF assms _ harmless_id]]) (auto intro: open_state_names)
next
  fix st
  let ?F = "\<lambda>tr. True \<and> is_state_dir resolve leaf tr st"
  let ?G = "\<lambda>dir tr. ?F tr \<and> is_mailbox resolve leaf tr dir"
  have "keeps (inside resolve leaf names N (?G dir))
      (bind_sys (if made then hand_over out who st dir else return_sys ()) (\<lambda>_. return_sys dir))
      (\<lambda>d s. is_mailbox resolve leaf (steps s) d)" for dir made
  proof (rule keeps_seq [where P = "\<lambda>v s. True"])
    show "keeps (inside resolve leaf names N (?G dir)) (if made then hand_over out who st dir else return_sys ())
        (\<lambda>v s. True)"
      by (auto intro!: keeps_hand_over assms keeps_forget [OF keeps_return])
    show "keeps (inside resolve leaf names N (?G dir)) (return_sys dir) (\<lambda>d s. is_mailbox resolve leaf (steps s) d)"
      by (rule keeps_weaken [OF keeps_return]) (simp add: inside_def)
  qed
  moreover have "keeps (inside resolve leaf names N ?F) (sys_call out (sys_open_dir st ''update''))
      (\<lambda>dir s. is_mailbox resolve leaf (steps s) dir)"
    by (rule keeps_weaken [OF keeps_call [OF assms _ harmless_id]])
      (auto simp: inside_def intro: open_update_names)
  ultimately show "keeps (inside resolve leaf names N ?F)
      (bind_sys (make_update_dir out who create st) (\<lambda>made.
       bind_sys (sys_call out (sys_open_dir st ''update'')) (\<lambda>dir.
       bind_sys (if made then hand_over out who st dir else return_sys ()) (\<lambda>_. return_sys dir))))
      (\<lambda>d s. is_mailbox resolve leaf (steps s) d)"
    by (intro keeps_then [OF keeps_make_update_dir] keeps_learn [where G = "\<lambda>dir tr. is_mailbox resolve leaf tr dir"] assms)
      auto
qed

lemma keeps_remove:
  assumes "grows out" "lasting F" "\<And>tr. F tr \<Longrightarrow> is_mailbox resolve leaf tr dir" "name \<in> names"
  shows "keeps (inside resolve leaf names N F) (mailbox_remove out dir name) (\<lambda>v s. True)"
proof -
  have "harmless resolve leaf names N F (\<lambda>t. snd (sys_unlink dir name t))"
    by (rule harmless_within [where ns = names]) (use assms(3,4) in \<open>auto intro: within_unlink\<close>)
  then show ?thesis
    unfolding mailbox_remove_def
    by (intro keeps_then [OF keeps_attempt])
      (auto intro: assms(1,2) keeps_sync keeps_forget [OF keeps_lift] split: sum.splits sys_error.splits)
qed

lemma keeps_fill:
  assumes "grows out" "lasting F" "\<And>tr. F tr \<Longrightarrow> is_mailbox resolve leaf tr dir"
    and "name \<in> names" "temp_name nonce \<in> names" "N \<le> file"
  shows "keeps (inside resolve leaf names N F) (fill_and_rename out encode nonce dir name v public file) (\<lambda>v s. True)"
proof -
  have mode: "harmless resolve leaf names N F (\<lambda>t. snd (sys_chmod m file t))" for m
    using assms(6) by (auto simp: harmless_def allowed_def sys_chmod_def)
  have rename: "harmless resolve leaf names N F (\<lambda>t. snd (sys_rename dir (temp_name nonce) name t))"
    by (rule harmless_within [where ns = names]) (use assms(3,4,5) in \<open>auto intro: within_rename\<close>)
  have chmod: "keeps (inside resolve leaf names N F)
      (if public then sys_call out (sys_chmod 420 file) else return_sys ()) (\<lambda>v s. True)"
    by (auto intro: keeps_forget [OF keeps_call [OF assms(1,2) mode]] keeps_forget [OF keeps_return])
  show ?thesis
    unfolding fill_and_rename_def
    by (intro keeps_then [OF keeps_lift] keeps_then [OF keeps_write_all [OF assms(1,2,6)]] keeps_then [OF chmod]
        keeps_then [OF keeps_sync [OF assms(1,2)]] keeps_then [OF keeps_call [OF assms(1,2) rename]]
        keeps_sync [OF assms(1,2)])
qed

lemma keeps_write:
  assumes "grows out" "lasting F" "\<And>tr. F tr \<Longrightarrow> is_mailbox resolve leaf tr dir"
    and "name \<in> names" "temp_name nonce \<in> names"
  shows "keeps (inside resolve leaf names N F) (mailbox_write out encode nonce dir name v public) (\<lambda>v s. True)"
proof -
  have "harmless resolve leaf names N F (\<lambda>t. snd (sys_create dir (temp_name nonce) t))"
    by (rule harmless_within [where ns = names]) (use assms(3,5) in \<open>auto intro: within_create\<close>)
  note create = keeps_call [OF assms(1,2) this]
  have "harmless resolve leaf names N F (\<lambda>t. snd (sys_unlink dir (temp_name nonce) t))"
    by (rule harmless_within [where ns = names]) (use assms(3,5) in \<open>auto intro: within_unlink\<close>)
  note clean = keeps_attempt [OF assms(1,2) this]
  show ?thesis
    unfolding mailbox_write_def
  proof (rule keeps_seq [OF create])
    fix h s
    assume "\<exists>(a, b)\<in>set (steps s). N \<le> length a \<and> fst (sys_create dir (temp_name nonce) a) = Inr h"
    then have "N \<le> h" by (auto dest: create_is_new)
    then show "keeps (inside resolve leaf names N F)
        (or_clean (fill_and_rename out encode nonce dir name v public h)
          (attempt out (sys_unlink dir (temp_name nonce)))) (\<lambda>v s. True)"
      by (intro keeps_or_clean [OF keeps_fill clean] assms)
  qed
qed

lemma keeps_removals:
  assumes "grows out" "lasting F" "\<And>tr. F tr \<Longrightarrow> is_mailbox resolve leaf tr dir" "set stale \<subseteq> names"
  shows "keeps (inside resolve leaf names N F)
     (foldr (\<lambda>old m. bind_sys (mailbox_remove out dir old) (\<lambda>_. m)) stale (return_sys ())) (\<lambda>v s. True)"
  using assms(4)
proof (induction stale)
  case (Cons old stale)
  have "keeps (inside resolve leaf names N F) (mailbox_remove out dir old) (\<lambda>v s. True)"
    using Cons.prems by (intro keeps_remove assms) auto
  from keeps_then [OF this] Cons show ?case by simp
qed (simp add: keeps_forget [OF keeps_return])

lemma keeps_put:
  assumes "grows out" "insert name (insert (temp_name nonce) (set stale)) \<subseteq> names"
  shows "keeps (inside resolve leaf names N (\<lambda>tr. True))
     (put_document out who resolve leaf encode nonce stale name v) (\<lambda>v s. True)"
  unfolding put_document_def
  by (rule keeps_learn [where G = "\<lambda>dir tr. is_mailbox resolve leaf tr dir"])
    (use assms in \<open>auto intro!: keeps_open keeps_then [OF keeps_removals] keeps_write\<close>)

definition start :: "nodes \<Rightarrow> sys_state" where
  "start t = \<lparr>disk = t, calls = 0, steps = []\<rparr>"


section \<open>The mailbox as a directory of documents\<close>

text \<open>What a reader finds under a name: the bytes of a regular file.\<close>

fun file_bytes :: "node \<Rightarrow> u8 list option" where
  "file_bytes (Regular content mode) = Some content"
| "file_bytes n = None"

definition file_of :: "nodes \<Rightarrow> nat \<Rightarrow> u8 list option" where
  "file_of t i = (if i < length t then file_bytes (t ! i) else None)"

definition file_at :: "nodes \<Rightarrow> nat \<Rightarrow> string \<Rightarrow> u8 list option" where
  "file_at t d name = Option.bind (entry t d name) (file_of t)"

text \<open>Every entry denotes a node.\<close>

definition sound :: "nodes \<Rightarrow> nat \<Rightarrow> bool" where
  "sound t d \<longleftrightarrow> (\<forall>name i. entry t d name = Some i \<longrightarrow> i < length t)"

lemma file_bytes_set_entries [simp]: "file_bytes (set_entries f n) = file_bytes n"
  by (cases n) auto

lemma length_with_entries [simp]: "length (with_entries f d t) = length t"
  by (simp add: with_entries_def)

lemma nth_with_entries:
  "i < length t \<Longrightarrow> with_entries f d t ! i = (if i = d then set_entries f (t ! i) else t ! i)"
  by (auto simp: with_entries_def nth_list_update)

lemma is_folder_with_entries [simp]: "is_folder (with_entries f d t) i = is_folder t i"
  by (auto simp: is_folder_def nth_with_entries split: if_splits)

lemma file_of_with_entries [simp]: "file_of (with_entries f d t) = file_of t"
  by (rule ext) (simp add: file_of_def nth_with_entries)

lemma entry_with_entries:
  "entry (with_entries f d t) d name = (if is_folder t d then map_of (f (folder_entries (t ! d))) name else None)"
proof (cases "is_folder t d")
  case True
  then have "d < length t" "folder_node (t ! d)" by (simp_all add: is_folder_def)
  with True show ?thesis by (simp add: entry_def nth_with_entries)
qed (simp add: entry_def)

lemma entries_as_map: "is_folder t d \<Longrightarrow> map_of (folder_entries (t ! d)) = entry t d"
  by (rule ext) (simp add: entry_def)

lemmas directory_simps = file_at_def entry_with_entries AList.delete_conv' entries_as_map

lemma file_at_unlink:
  "file_at (snd (sys_unlink d n t)) d x = (if x = n \<and> is_ok (fst (sys_unlink d n t)) then None else file_at t d x)"
proof (cases "entry t d n")
  case (Some i)
  then show ?thesis by (simp add: sys_unlink_def directory_simps entry_folder)
qed (simp add: sys_unlink_def file_at_def)

lemma file_at_rename:
  assumes "sys_rename d source target t = (Inr (), t')" "entry t d source = Some i" "entry t d target \<noteq> Some i"
  shows "file_at t' d x = (if x = target then file_of t i else if x = source then None else file_at t d x)"
  using assms entry_folder [OF assms(2)]
  by (cases "entry t d target")
    (auto simp: sys_rename_def directory_simps split: if_splits)

lemma file_at_create:
  assumes "sys_create d n t = (Inr i, t')" "sound t d"
  shows "file_at t' d x = (if x = n then Some [] else file_at t d x)" "entry t' d n = Some i"
    "x \<noteq> n \<Longrightarrow> entry t' d x \<noteq> Some i" "file_of t' i = Some []" "i \<noteq> d" "is_folder t' d"
proof -
  have i: "i = length t" "is_folder t d" and t': "t' = with_entries (\<lambda>es. (n, length t) # es) d t @ [Regular [] 384]"
    using assms(1) by (auto simp: sys_create_def split: if_splits)
  have d: "d < length t" using i by (simp add: is_folder_def)
  have e: "entry t' d x = (if x = n then Some i else entry t d x)" for x
    using i d by (simp add: t' entry_def is_folder_def nth_append nth_with_entries)
  have fo: "file_of t' j = (if j = i then Some [] else file_of t j)" for j
    using i by (auto simp: t' file_of_def nth_append nth_with_entries)
  show "entry t' d n = Some i" "file_of t' i = Some []" "i \<noteq> d" using e fo i d by simp_all
  show "x \<noteq> n \<Longrightarrow> entry t' d x \<noteq> Some i" using assms(2) by (auto simp: e sound_def i)
  show "is_folder t' d" using i d by (simp add: t' is_folder_def nth_append nth_with_entries)
  show "file_at t' d x = (if x = n then Some [] else file_at t d x)"
    using assms(2) by (cases "entry t d x") (auto simp: file_at_def e fo sound_def i)
qed

lemma runs_bind:
  assumes "runs I m P E" "\<And>v. runs (P v) (k v) Q E"
  shows "runs I (bind_sys m k) Q E"
proof (rule runsI)
  fix s w s' assume "I s" "bind_sys m k s = (Inr w, s')"
  then obtain v s1 where "m s = (Inr v, s1)" "k v s1 = (Inr w, s')"
    by (auto simp: bind_sys_def split: prod.splits sum.splits)
  with \<open>I s\<close> show "Q w s'" using assms by (blast dest: runsD)
next
  fix s e s' assume "I s" "bind_sys m k s = (Inl e, s')"
  then consider "m s = (Inl e, s')" | v s1 where "m s = (Inr v, s1)" "k v s1 = (Inl e, s')"
    by (auto simp: bind_sys_def split: prod.splits sum.splits)
  then show "E s'" using \<open>I s\<close> assms by cases (blast dest: runsD)+
qed

lemma runs_or_clean:
  assumes "runs I m Q E" "\<And>s. E s \<Longrightarrow> E (snd (clean s))"
  shows "runs I (or_clean m clean) Q E"
  by (rule runsI) (auto simp: or_clean_def split: prod.splits sum.splits intro: assms(2) dest: runsD [OF assms(1)])

text \<open>Without other processes a call acts on the file system that the last call left.\<close>

definition alone :: "outside \<Rightarrow> bool" where
  "alone out \<longleftrightarrow> (\<forall>n t. others out n t = t)"

definition after_call :: "sys_state \<Rightarrow> nodes \<Rightarrow> sys_state" where
  "after_call s t = \<lparr>disk = t, calls = Suc (calls s), steps = steps s @ [(disk s, t)]\<rparr>"

lemma sys_step_alone:
  "alone out \<Longrightarrow> sys_step out part f s = (case refusal out (calls s) of
     Some e \<Rightarrow> (Inl (SysError e), after_call s (part (partial out (calls s)) (disk s)))
   | None \<Rightarrow> (fst (f (disk s)), after_call s (snd (f (disk s)))))"
  by (simp add: sys_step_def alone_def after_call_def Let_def split: option.splits prod.splits)

lemma runs_call:
  assumes "alone out" "\<And>s v. I s \<Longrightarrow> fst (f (disk s)) = Inr v \<Longrightarrow> Q v (after_call s (snd (f (disk s))))"
    and "\<And>s e. I s \<Longrightarrow> fst (f (disk s)) = Inl e \<Longrightarrow> E (after_call s (snd (f (disk s))))"
    and "\<And>s. I s \<Longrightarrow> E (after_call s (disk s))"
  shows "runs I (sys_call out f) Q E"
proof (rule runsI)
  fix s v s' assume s: "I s"
  { assume "sys_call out f s = (Inr v, s')"
    then have "fst (f (disk s)) = Inr v \<and> s' = after_call s (snd (f (disk s)))"
      using assms(1) by (cases "fst (f (disk s))") (auto simp: sys_call_def sys_step_alone split: option.splits)
    then show "Q v s'" using assms(2) [OF s] by blast }
  { fix e assume "sys_call out f s = (Inl e, s')"
    then have "s' = after_call s (disk s) \<or> (\<exists>e. fst (f (disk s)) = Inl e) \<and> s' = after_call s (snd (f (disk s)))"
      using assms(1) by (cases "fst (f (disk s))") (auto simp: sys_call_def sys_step_alone split: option.splits)
    then show "E s'" using assms(3,4) [OF s] by blast }
qed

text \<open>
  A state of the file system that a crash during a write may leave: the document is the old
  or the new one, and all other documents but the temporary file are the old ones.
\<close>

definition old_or_new :: "nodes \<Rightarrow> nat \<Rightarrow> string \<Rightarrow> string \<Rightarrow> u8 list \<Rightarrow> nodes \<Rightarrow> bool" where
  "old_or_new t d name temp bytes u \<longleftrightarrow> file_at u d name \<in> {file_at t d name, Some bytes}
     \<and> (\<forall>x. x \<notin> {name, temp} \<longrightarrow> file_at u d x = file_at t d x)"

definition crash_safe :: "nodes \<Rightarrow> nat \<Rightarrow> string \<Rightarrow> string \<Rightarrow> u8 list \<Rightarrow> sys_state \<Rightarrow> bool" where
  "crash_safe t d name temp bytes s \<longleftrightarrow> old_or_new t d name temp bytes (disk s)
     \<and> (\<forall>(a, b)\<in>set (steps s). old_or_new t d name temp bytes b)"

text \<open>The temporary file is written through handle \<open>h\<close> and holds \<open>c\<close>.\<close>

definition writing :: "nodes \<Rightarrow> nat \<Rightarrow> string \<Rightarrow> string \<Rightarrow> u8 list \<Rightarrow> nat \<Rightarrow> u8 list \<Rightarrow> sys_state \<Rightarrow> bool" where
  "writing t d name temp bytes h c s \<longleftrightarrow> crash_safe t d name temp bytes s
     \<and> entry (disk s) d temp = Some h \<and> (\<forall>x. x \<noteq> temp \<longrightarrow> entry (disk s) d x \<noteq> Some h)
     \<and> file_of (disk s) h = Some c"

definition published :: "nodes \<Rightarrow> nat \<Rightarrow> string \<Rightarrow> string \<Rightarrow> u8 list \<Rightarrow> sys_state \<Rightarrow> bool" where
  "published t d name temp bytes s \<longleftrightarrow> crash_safe t d name temp bytes s
     \<and> file_at (disk s) d name = Some bytes \<and> file_at (disk s) d temp = None"

lemma after_call_simps [simp]:
  "disk (after_call s t) = t" "steps (after_call s t) = steps s @ [(disk s, t)]"
  by (simp_all add: after_call_def)

lemma crash_safe_call:
  "crash_safe t d name temp bytes s \<Longrightarrow> old_or_new t d name temp bytes u \<Longrightarrow>
   crash_safe t d name temp bytes (after_call s u)"
  by (auto simp: crash_safe_def)

lemma file_node:
  assumes "file_of u h = Some c" "entry u d temp = Some h"
  shows "h < length u" "h \<noteq> d" "\<exists>m. u ! h = Regular c m"
proof -
  show "h < length u" using assms(1) by (simp add: file_of_def split: if_splits)
  then show *: "\<exists>m. u ! h = Regular c m" using assms(1) by (cases "u ! h") (auto simp: file_of_def)
  show "h \<noteq> d" using * entry_folder [OF assms(2)] by (auto simp: is_folder_def)
qed

lemma writing_file:
  assumes w: "writing t d name temp bytes h c s" and n: "temp \<noteq> name" and m: "file_bytes n' = Some c'"
  shows "writing t d name temp bytes h c' (after_call s ((disk s)[h := n']))"
proof -
  let ?u = "disk s" and ?u' = "(disk s)[h := n']"
  note f = file_node [of ?u h c d temp]
  have h: "h < length ?u" "h \<noteq> d" using w f by (auto simp: writing_def)
  have e: "entry ?u' d x = entry ?u d x" for x using h by (simp add: entry_def is_folder_def)
  have fo: "file_of ?u' i = (if i = h then Some c' else file_of ?u i)" for i
    using h m by (auto simp: file_of_def)
  have at: "file_at ?u' d x = file_at ?u d x" if "x \<noteq> temp" for x
    using w that by (cases "entry ?u d x") (auto simp: file_at_def e fo writing_def)
  show ?thesis
    using w n at fo e by (auto simp: writing_def old_or_new_def crash_safe_def)
qed

lemma writing_drop: "writing t d name temp bytes h c s \<Longrightarrow> crash_safe t d name temp bytes s"
  by (simp add: writing_def)

lemma runs_write_all:
  assumes "alone out" "temp \<noteq> name"
  shows "runs (writing t d name temp bytes h []) (write_all out h bytes)
    (\<lambda>v. writing t d name temp bytes h bytes) (crash_safe t d name temp bytes)"
proof (rule runsI)
  fix s s' assume w: "writing t d name temp bytes h [] s"
  then obtain m where m: "disk s ! h = Regular [] m" using file_node [of "disk s" h "[]" d temp]
    by (auto simp: writing_def)
  have put: "writing t d name temp bytes h bs (after_call s (snd (sys_write h bs (disk s))))" for bs
    using writing_file [OF w assms(2), of "Regular bs m" bs] m by (simp add: sys_write_def)
  { fix v assume "write_all out h bytes s = (Inr v, s')"
    then have "s' = after_call s (snd (sys_write h bytes (disk s)))"
      using assms(1) by (auto simp: write_all_def sys_step_alone split: option.splits)
    then show "writing t d name temp bytes h bytes s'" using put by simp }
  { fix e assume "write_all out h bytes s = (Inl e, s')"
    then obtain bs where "s' = after_call s (snd (sys_write h bs (disk s)))"
      using assms(1) by (auto simp: write_all_def sys_step_alone split: option.splits)
    then show "crash_safe t d name temp bytes s'" using put writing_drop by blast }
qed

lemma crash_safe_sync: "crash_safe t d name temp bytes s \<Longrightarrow> crash_safe t d name temp bytes (after_call s (disk s))"
  by (rule crash_safe_call) (simp_all add: crash_safe_def)

lemma runs_chmod:
  assumes "alone out" "temp \<noteq> name"
  shows "runs (writing t d name temp bytes h c) (sys_call out (sys_chmod mode h))
    (\<lambda>v. writing t d name temp bytes h c) (crash_safe t d name temp bytes)"
proof -
  have put: "writing t d name temp bytes h c (after_call s (snd (sys_chmod mode h (disk s))))"
    if w: "writing t d name temp bytes h c s" for s
  proof -
    obtain m where "disk s ! h = Regular c m" using w file_node [of "disk s" h c d temp]
      by (auto simp: writing_def)
    then show ?thesis using writing_file [OF w assms(2), of "Regular c mode" c] by (simp add: sys_chmod_def)
  qed
  show ?thesis
    by (rule runs_call [OF assms(1)])
      (auto simp: sys_chmod_def intro: crash_safe_sync writing_drop put [unfolded sys_chmod_def, simplified])
qed

lemma runs_sync:
  assumes "alone out" "\<And>s. I s \<Longrightarrow> I (after_call s (disk s))" "\<And>s. I s \<Longrightarrow> E s" "\<And>s. E s \<Longrightarrow> E (after_call s (disk s))"
  shows "runs I (sys_call out sys_sync) (\<lambda>v. I) E"
  by (rule runs_call [OF assms(1)]) (simp_all add: sys_sync_def assms(2-4))

lemma runs_rename:
  assumes "alone out" "temp \<noteq> name"
  shows "runs (writing t d name temp bytes h bytes) (sys_call out (sys_rename d temp name))
    (\<lambda>v. published t d name temp bytes) (crash_safe t d name temp bytes)"
proof (rule runs_call [OF assms(1)])
  fix s v assume w: "writing t d name temp bytes h bytes s" and ok: "fst (sys_rename d temp name (disk s)) = Inr v"
  let ?u = "snd (sys_rename d temp name (disk s))"
  have e: "entry (disk s) d temp = Some h" "entry (disk s) d name \<noteq> Some h" "file_of (disk s) h = Some bytes"
    using w assms(2) by (auto simp: writing_def)
  have "sys_rename d temp name (disk s) = (Inr (), ?u)" using ok by (metis prod.collapse unit.exhaust)
  note at = file_at_rename [OF this e(1,2)]
  have "old_or_new t d name temp bytes ?u" "file_at ?u d name = Some bytes" "file_at ?u d temp = None"
    using w at e(3) assms(2) by (auto simp: writing_def crash_safe_def old_or_new_def)
  then show "published t d name temp bytes (after_call s ?u)"
    using w by (auto simp: published_def writing_def intro: crash_safe_call)
next
  fix s e assume w: "writing t d name temp bytes h bytes s" and "fst (sys_rename d temp name (disk s)) = Inl e"
  then have "snd (sys_rename d temp name (disk s)) = disk s"
    by (auto simp: sys_rename_def split: option.splits if_splits)
  then show "crash_safe t d name temp bytes (after_call s (snd (sys_rename d temp name (disk s))))"
    using w by (simp add: crash_safe_sync writing_drop)
qed (intro crash_safe_sync writing_drop)

lemma runs_create:
  assumes "alone out" "temp \<noteq> name" "sound t d"
  shows "runs (\<lambda>s. s = start t) (sys_call out (sys_create d temp))
    (\<lambda>h. writing t d name temp bytes h []) (crash_safe t d name temp bytes)"
proof (rule runs_call [OF assms(1)])
  have base: "crash_safe t d name temp bytes (start t)" by (simp add: crash_safe_def old_or_new_def start_def)
  { fix s v assume s: "s = start t" and "fst (sys_create d temp (disk s)) = Inr v"
    then have c: "sys_create d temp t = (Inr v, snd (sys_create d temp t))" by (simp add: start_def prod_eq_iff)
    note created = file_at_create [OF c assms(3)]
    have "old_or_new t d name temp bytes (snd (sys_create d temp t))"
      using assms(2) by (auto simp: old_or_new_def created(1))
    then show "writing t d name temp bytes v [] (after_call s (snd (sys_create d temp (disk s))))"
      using base created by (auto simp: writing_def s start_def intro: crash_safe_call) }
  { fix s e assume "s = start t" "fst (sys_create d temp (disk s)) = Inl e"
    moreover from this have "snd (sys_create d temp (disk s)) = disk s" by (auto simp: sys_create_def)
    ultimately show "crash_safe t d name temp bytes (after_call s (snd (sys_create d temp (disk s))))"
      using base by (simp add: crash_safe_sync) }
  show "s = start t \<Longrightarrow> crash_safe t d name temp bytes (after_call s (disk s))" for s
    using base by (simp add: crash_safe_sync)
qed

lemma crash_safe_clean:
  assumes "alone out" "temp \<noteq> name" "crash_safe t d name temp bytes s"
  shows "crash_safe t d name temp bytes (snd (attempt out (sys_unlink d temp) s))"
proof -
  have "old_or_new t d name temp bytes (snd (sys_unlink d temp (disk s)))"
    using assms(2,3) by (auto simp: crash_safe_def old_or_new_def file_at_unlink)
  then show ?thesis
    using assms crash_safe_call crash_safe_sync
    by (auto simp: attempt_def sys_step_alone split: option.splits)
qed

lemma crash_safe_drop: "published t d name temp bytes s \<Longrightarrow> crash_safe t d name temp bytes s"
  by (simp add: published_def)

lemma published_sync: "published t d name temp bytes s \<Longrightarrow> published t d name temp bytes (after_call s (disk s))"
  by (simp add: published_def crash_safe_sync)

lemma writing_sync: "writing t d name temp bytes h c s \<Longrightarrow> writing t d name temp bytes h c (after_call s (disk s))"
  by (simp add: writing_def crash_safe_sync)

lemma runs_sync_writing:
  "alone out \<Longrightarrow> runs (writing t d name temp bytes h c) (sys_call out sys_sync)
     (\<lambda>_. writing t d name temp bytes h c) (crash_safe t d name temp bytes)"
  by (rule runs_sync) (auto intro: writing_sync writing_drop crash_safe_sync)

lemma runs_sync_published:
  "alone out \<Longrightarrow> runs (published t d name temp bytes) (sys_call out sys_sync)
     (\<lambda>_. published t d name temp bytes) (crash_safe t d name temp bytes)"
  by (rule runs_sync) (auto intro: published_sync crash_safe_drop crash_safe_sync)

lemma bind_lift [simp]: "bind_sys (lift_sys (Inr b)) k = k b"
  by (rule ext) (simp add: bind_sys_def lift_sys_def)

lemma runs_mailbox_write:
  assumes "alone out" "temp_name nonce \<noteq> name" "sound t d" "encode v = Inr bytes"
  shows "runs (\<lambda>s. s = start t) (mailbox_write out encode nonce d name v public)
    (\<lambda>_. published t d name (temp_name nonce) bytes) (crash_safe t d name (temp_name nonce) bytes)"
proof -
  let ?temp = "temp_name nonce"
  have chmod: "runs (writing t d name ?temp bytes h bytes)
      (if public then sys_call out (sys_chmod 420 h) else return_sys ())
      (\<lambda>_. writing t d name ?temp bytes h bytes) (crash_safe t d name ?temp bytes)" for h
    using runs_chmod [OF assms(1,2)] by (auto intro: runsI simp: return_sys_def)
  have "runs (writing t d name ?temp bytes h []) (fill_and_rename out encode nonce d name v public h)
      (\<lambda>_. published t d name ?temp bytes) (crash_safe t d name ?temp bytes)" for h
    unfolding fill_and_rename_def assms(4) bind_lift
    by (intro runs_bind [OF runs_write_all [OF assms(1,2)]] runs_bind [OF chmod]
        runs_bind [OF runs_sync_writing [OF assms(1)]] runs_bind [OF runs_rename [OF assms(1,2)]]
        runs_sync_published [OF assms(1)])
  then show ?thesis
    unfolding mailbox_write_def
    by (intro runs_bind [OF runs_create [OF assms(1-3)]] runs_or_clean crash_safe_clean assms(1,2))
qed

section \<open>Reading\<close>

text \<open>
  Whatever other processes do between the calls, a document that is read comes from a regular
  file that the mailbox listed under its name, opened without following a link, and is decoded
  from at most \<open>MAX_MANIFEST_BYTES\<close> of what that file held when it was read.
\<close>

lemma call_step:
  assumes "sys_call out f s = (Inr v, s')"
  shows "steps s' = steps s @ [(others out (calls s) (disk s), disk s')]"
    and "fst (f (others out (calls s) (disk s))) = Inr v"
  using assms by (auto simp: sys_call_def sys_step_def Let_def split: prod.splits option.splits elim!: map_sum_InrE)

lemma mailbox_read_source:
  assumes "mailbox_read out decode d name s = (Inr v, s')"
  obtains a b i bytes content mode where
    "(a, b) \<in> set (steps s')" "entry a d name = Some i" "i < length a" "\<not> link_node (a ! i)"
    "length bytes \<le> MAX_MANIFEST_BYTES" "decode bytes = Inr v"
    "\<exists>(a', b')\<in>set (steps s'). a' ! i = Regular content mode \<and> bytes = content"
proof -
  obtain i s1 n s2 where o: "sys_call out (sys_open_read d name) s = (Inr i, s1)"
    and st: "sys_call out (sys_stat i) s1 = (Inr n, s2)"
    and rest: "(case n of
         Regular content _ \<Rightarrow>
           if length content > MAX_MANIFEST_BYTES
           then lift_sys (Inl ''shared update record is not a regular bounded file'')
           else bind_sys (sys_call out (sys_read (MAX_MANIFEST_BYTES + 1) i)) (\<lambda>bytes.
             if length bytes > MAX_MANIFEST_BYTES
             then lift_sys (Inl ''shared update record grew beyond limit'')
             else lift_sys (decode bytes))
       | _ \<Rightarrow> lift_sys (Inl ''shared update record is not a regular bounded file'')) s2 = (Inr v, s')"
    using assms by (auto simp: mailbox_read_def bind_sys_def split: prod.splits sum.splits)
  obtain bytes where r: "sys_call out (sys_read (MAX_MANIFEST_BYTES + 1) i) s2 = (Inr bytes, s')"
    and len: "length bytes \<le> MAX_MANIFEST_BYTES" and dec: "decode bytes = Inr v"
    using rest by (auto simp: bind_sys_def lift_sys_def split: node.splits if_splits prod.splits sum.splits)
  define a where "a = others out (calls s) (disk s)"
  define c where "c = others out (calls s2) (disk s2)"
  have tr: "(a, disk s1) \<in> set (steps s')" "(c, disk s') \<in> set (steps s')"
    using call_step(1) [OF o] call_step(1) [OF st] call_step(1) [OF r] by (simp_all add: a_def c_def)
  have e: "entry a d name = Some i" "i < length a" "\<not> link_node (a ! i)"
    using call_step(2) [OF o] by (auto simp: a_def sys_open_read_def split: option.splits if_splits)
  obtain content mode where "c ! i = Regular content mode" "bytes = take (MAX_MANIFEST_BYTES + 1) content"
    using call_step(2) [OF r] by (cases "c ! i") (auto simp: c_def sys_read_def split: if_splits)
  moreover from this len have "bytes = content" by simp
  ultimately show thesis using that [OF tr(1) e len dec] tr(2) by blast
qed

definition undisturbed :: outside where
  "undisturbed = \<lparr>others = (\<lambda>n t. t), refusal = (\<lambda>n. None), partial = (\<lambda>n. 0)\<rparr>"

lemma undisturbed_call:
  "sys_call undisturbed f u = (map_sum sys_error_display id (fst (f (disk u))), after_call u (snd (f (disk u))))"
  by (simp add: sys_call_def sys_step_alone alone_def undisturbed_def)

lemma read_undisturbed:
  assumes "file_at (disk s) d name = Some bytes" "length bytes \<le> MAX_MANIFEST_BYTES"
  shows "fst (mailbox_read undisturbed decode d name s) = decode bytes"
proof -
  obtain i m where e: "entry (disk s) d name = Some i" "i < length (disk s)" "disk s ! i = Regular bytes m"
    using assms(1) by (auto simp: file_at_def file_of_def bind_eq_Some_conv split: if_splits elim!: file_bytes.elims)
  show ?thesis
    using e assms(2) by (simp add: mailbox_read_def bind_sys_def undisturbed_call sys_open_read_def sys_stat_def sys_read_def lift_sys_def)
qed

text \<open>
  The view of the mailbox on which the update protocol is modelled: a document is missing,
  refused or there. Without interference a read succeeds exactly when it is there.
\<close>

definition document_at :: "(u8 list \<Rightarrow> string + 'v) \<Rightarrow> nodes \<Rightarrow> nat \<Rightarrow> string \<Rightarrow> 'v json_file" where
  "document_at decode t d name =
     (case entry t d name of
        None \<Rightarrow> Missing
      | Some i \<Rightarrow>
          (case file_of t i of
             None \<Rightarrow> Refused ''shared update record is not a regular bounded file''
           | Some bytes \<Rightarrow>
               if length bytes > MAX_MANIFEST_BYTES
               then Refused ''shared update record is not a regular bounded file''
               else (case decode bytes of Inl e \<Rightarrow> Refused e | Inr v \<Rightarrow> Json v)))"

lemma mailbox_read_refines_view:
  "fst (mailbox_read undisturbed decode d name s) = Inr v \<longleftrightarrow> document_at decode (disk s) d name = Json v"
proof (cases "entry (disk s) d name")
  case None
  then show ?thesis by (simp add: mailbox_read_def bind_sys_def undisturbed_call sys_open_read_def document_at_def)
next
  case (Some i)
  show ?thesis
  proof (cases "i < length (disk s)")
    case True
    with Some show ?thesis
      by (cases "disk s ! i"; cases "decode (case disk s ! i of Regular bytes m \<Rightarrow> bytes | _ \<Rightarrow> [])")
        (simp_all add: mailbox_read_def bind_sys_def undisturbed_call sys_open_read_def sys_stat_def
          sys_read_def lift_sys_def document_at_def file_of_def)
  next
    case False
    with Some show ?thesis
      by (simp add: mailbox_read_def bind_sys_def undisturbed_call sys_open_read_def document_at_def file_of_def)
  qed
qed

text \<open>
  C16. While no other process interferes, a document written into the mailbox reads back:
  the write succeeded only if afterwards the name denotes the new document and the temporary
  file is gone, every state a crash or a failing call leaves behind holds the old or the
  complete new document, and all other documents are untouched.
\<close>

theorem mailbox_write_atomic:
  assumes "alone out" "sound t d" "temp_name nonce \<noteq> name"
    and "encode v = Inr bytes" "decode bytes = Inr v" "length bytes \<le> MAX_MANIFEST_BYTES"
    and "mailbox_write out encode nonce d name v public (start t) = (r, s)"
  shows "(\<forall>(a, b)\<in>set (steps s). old_or_new t d name (temp_name nonce) bytes b)
    \<and> (r = Inr () \<longrightarrow> file_at (disk s) d (temp_name nonce) = None
         \<and> fst (mailbox_read undisturbed decode d name s) = Inr v)"
proof (cases r)
  case (Inl e)
  then have "crash_safe t d name (temp_name nonce) bytes s"
    using runsD(2) [OF runs_mailbox_write [where encode = encode, OF assms(1,3,2,4)] refl] assms(7) by simp
  then show ?thesis using Inl by (simp add: crash_safe_def)
next
  case (Inr w)
  then have "published t d name (temp_name nonce) bytes s"
    using runsD(1) [OF runs_mailbox_write [where encode = encode, OF assms(1,3,2,4)] refl] assms(7) by simp
  moreover from this have "fst (mailbox_read undisturbed decode d name s) = Inr v"
    using read_undisturbed [of s d name bytes decode] assms(5,6) by (simp add: published_def)
  ultimately show ?thesis by (simp add: published_def crash_safe_def)
qed

section \<open>Witnesses\<close>

text \<open>
  A state directory 1 with an empty mailbox 3, and a folder 2 outside that the attacker wants
  the helper to write into: between the calls it swaps the mailbox for the link 4 to it.
\<close>

definition sample_nodes :: nodes where
  "sample_nodes = [Folder [(''state'', 1), (''outside'', 2)] (0, 0) 493,
     Folder [(''update'', 3)] (7, 7) 488, Folder [] (0, 0) 493, Folder [] (7, 7) 488, Link ''/outside'']"

definition swap_update :: "nat \<Rightarrow> nodes \<Rightarrow> nodes" where
  "swap_update i t = (if length t = 5 then t[1 := Folder [(''update'', i)] (7, 7) 488] else t)"

definition link_attacker :: outside where
  "link_attacker = \<lparr>others = (\<lambda>n. swap_update (if n = 1 then 4 else 3)), refusal = (\<lambda>n. None), partial = (\<lambda>n. 0)\<rparr>"

definition early_attacker :: outside where
  "early_attacker = \<lparr>others = (\<lambda>n. swap_update 4), refusal = (\<lambda>n. None), partial = (\<lambda>n. 0)\<rparr>"

definition sample_codec_out :: "u8 list \<Rightarrow> string + u8 list" where
  "sample_codec_out bytes = Inr bytes"

definition sample_put :: "outside \<Rightarrow> (string + unit) \<times> sys_state" where
  "sample_put out = put_document out (0, 0) (\<lambda>t. Inr 0) ''state'' sample_codec_out ''n'' []
     ''p'' [1, 2] (start sample_nodes)"

lemma sample_put_runs:
  "fst (sample_put early_attacker) = Inl ''Not a directory''"
  "fst (mailbox_open link_attacker (0, 0) (\<lambda>t. Inr 0) ''state'' True (start sample_nodes)) = Inr 3"
  by code_simp+


theorem mailbox_write_atomic_witness:
  "fst (mailbox_write undisturbed sample_codec_out ''n'' 3 ''health.json'' [1, 2] False (start sample_nodes)) = Inr ()
   \<and> fst (mailbox_read undisturbed Inr 3 ''health.json''
        (snd (mailbox_write undisturbed sample_codec_out ''n'' 3 ''health.json'' [1, 2] False (start sample_nodes))))
      = Inr [1, 2]"
proof -
  have r: "fst (mailbox_write undisturbed sample_codec_out ''n'' 3 ''health.json'' [1, 2] False (start sample_nodes)) = Inr ()"
    by code_simp
  have a: "alone undisturbed" "sound sample_nodes 3" "sample_codec_out [1, 2] = Inr [1, 2]"
    by (simp_all add: alone_def undisturbed_def sound_def sample_nodes_def entry_def sample_codec_out_def)
  show ?thesis
    using r mailbox_write_atomic [where decode = Inr and encode = sample_codec_out, OF a(1,2) _ a(3) refl _ surjective_pairing [of "mailbox_write undisturbed sample_codec_out ''n'' 3 ''health.json'' [1, 2] False (start sample_nodes)"]]
    by (simp add: temp_name_def MAX_MANIFEST_BYTES_def)
qed

end
