(* ===== verification/Root_Documents.thy ===== *)
theory Root_Documents
  imports Shared_Mailbox
begin

text \<open>
  \<open>atomic_json\<close>, \<open>read_json\<close>, \<open>sync_dir\<close> and the file helpers of \<open>src/src/update.rs\<close> in the Unix
  build: how the privileged helper keeps the ledger, its journal and the package cache in its
  own directory. Every path is resolved again by each call; \<open>parent\<close> is the operating system's
  resolution of the directory and \<open>shown\<close> its path in messages.
\<close>

definition at_path :: "(nodes \<Rightarrow> string + nat) \<Rightarrow> (nat \<Rightarrow> 'a call) \<Rightarrow> 'a call" where
  "at_path parent f t = (case parent t of Inl e \<Rightarrow> (Inl (SysError e), t) | Inr d \<Rightarrow> f d t)"

definition labelled :: "string \<Rightarrow> 'a sys \<Rightarrow> 'a sys" where
  "labelled msg m s = (case m s of (Inl e, s') \<Rightarrow> (Inl (msg @ e), s') | (Inr v, s') \<Rightarrow> (Inr v, s'))"

definition sync_dir :: "outside \<Rightarrow> (nodes \<Rightarrow> string + nat) \<Rightarrow> string \<Rightarrow> unit sys" where
  "sync_dir out parent shown =
     labelled (''cannot fsync directory '' @ shown @ '': '') (sys_call out (at_path parent (\<lambda>d. sys_sync)))"

definition create_private_file :: "outside \<Rightarrow> (nodes \<Rightarrow> string + nat) \<Rightarrow> string \<Rightarrow> nat sys" where
  "create_private_file out parent name = sys_call out (at_path parent (\<lambda>d. sys_create d name))"

definition open_read_nofollow :: "outside \<Rightarrow> (nodes \<Rightarrow> string + nat) \<Rightarrow> string \<Rightarrow> nat sys" where
  "open_read_nofollow out parent name = sys_call out (at_path parent (\<lambda>d. sys_open_read d name))"

definition replace_file :: "outside \<Rightarrow> (nodes \<Rightarrow> string + nat) \<Rightarrow> string \<Rightarrow> string \<Rightarrow> unit sys" where
  "replace_file out parent source target = sys_call out (at_path parent (\<lambda>d. sys_rename d source target))"

definition atomic_json ::
  "outside \<Rightarrow> ('v \<Rightarrow> string + u8 list) \<Rightarrow> string \<Rightarrow> (nodes \<Rightarrow> string + nat) \<Rightarrow> string \<Rightarrow> string \<Rightarrow> 'v \<Rightarrow> unit sys" where
  "atomic_json out encode nonce parent shown name v =
     or_clean
       (bind_sys (lift_sys (encode v)) (\<lambda>bytes.
        bind_sys (create_private_file out parent (temp_name nonce)) (\<lambda>handle.
        bind_sys (write_all out handle bytes) (\<lambda>_.
        bind_sys (sys_call out sys_sync) (\<lambda>_.
        bind_sys (replace_file out parent (temp_name nonce) name) (\<lambda>_.
        sync_dir out parent shown))))))
       (attempt out (at_path parent (\<lambda>d. sys_unlink d (temp_name nonce))))"

text \<open>\<open>symlink_metadata\<close> does not follow the last component.\<close>

definition sys_lstat :: "nat \<Rightarrow> string \<Rightarrow> node call" where
  "sys_lstat d name t =
     (case entry t d name of
        Some i \<Rightarrow> (if i < length t then Inr (t ! i) else Inl NoEntry, t)
      | None \<Rightarrow> (Inl NoEntry, t))"

definition bounded_regular :: "nat \<Rightarrow> node \<Rightarrow> bool" where
  "bounded_regular limit n \<longleftrightarrow> (case file_bytes n of Some content \<Rightarrow> length content \<le> limit | None \<Rightarrow> False)"

definition read_json_file ::
  "outside \<Rightarrow> (u8 list \<Rightarrow> string + 'v) \<Rightarrow> (nodes \<Rightarrow> string + nat) \<Rightarrow> string \<Rightarrow> string \<Rightarrow> nat \<Rightarrow> 'v sys" where
  "read_json_file out decode parent path name limit =
     bind_sys (sys_call out (at_path parent (\<lambda>d. sys_lstat d name))) (\<lambda>n.
     if \<not> bounded_regular limit n
     then lift_sys (Inl (path @ '' is not a regular bounded JSON file''))
     else bind_sys (open_read_nofollow out parent name) (\<lambda>i.
       bind_sys (sys_call out (sys_read (limit + 1) i)) (\<lambda>bytes.
         if length bytes > limit then lift_sys (Inl ''JSON file grew beyond limit'')
         else lift_sys (decode bytes))))"

section \<open>A stored document\<close>

lemma at_path_Inr [simp]: "parent t = Inr d \<Longrightarrow> at_path parent f t = f d t"
  by (simp add: at_path_def)

lemma at_path_fixed: "(\<And>t. parent t = Inr d) \<Longrightarrow> at_path parent f = f d"
  by (rule ext) simp

lemma runs_labelled: "runs I m Q E \<Longrightarrow> runs I (labelled msg m) Q E"
  by (auto simp: runs_def labelled_def split: prod.splits sum.splits) (metis old.sum.simps)+

lemma runs_atomic_json:
  assumes "alone out" "temp_name nonce \<noteq> name" "sound t d" "encode v = Inr bytes" "\<And>t. parent t = Inr d"
  shows "runs (\<lambda>s. s = start t) (atomic_json out encode nonce parent shown name v)
    (\<lambda>_. published t d name (temp_name nonce) bytes) (crash_safe t d name (temp_name nonce) bytes)"
proof -
  note direct = at_path_fixed [of parent d, OF assms(5)]
  show ?thesis
    unfolding atomic_json_def create_private_file_def replace_file_def sync_dir_def direct assms(4) bind_lift
    by (intro runs_or_clean crash_safe_clean runs_bind [OF runs_create [OF assms(1-3)]]
        runs_bind [OF runs_write_all [OF assms(1,2)]] runs_bind [OF runs_sync_writing [OF assms(1)]]
        runs_bind [OF runs_rename [OF assms(1,2)]] runs_labelled runs_sync_published [OF assms(1)] assms(1,2))
qed

text \<open>
  A document of the helper is replaced as a whole: every state a crash or a failing call leaves
  holds the old or the complete new document, and after a success the new one reads back.
\<close>

lemma read_json_file_undisturbed:
  assumes "file_at (disk s) d name = Some bytes" "length bytes \<le> limit" "\<And>t. parent t = Inr d"
  shows "fst (read_json_file undisturbed decode parent path name limit s) = decode bytes"
proof -
  obtain i m where e: "entry (disk s) d name = Some i" "i < length (disk s)" "disk s ! i = Regular bytes m"
    using assms(1) by (auto simp: file_at_def file_of_def bind_eq_Some_conv split: if_splits elim!: file_bytes.elims)
  show ?thesis
    using e assms(2,3) by (simp add: read_json_file_def open_read_nofollow_def bind_sys_def undisturbed_call
        sys_open_read_def sys_lstat_def sys_read_def lift_sys_def bounded_regular_def)
qed

theorem stored_document_atomic:
  assumes "alone out" "sound t d" "temp_name nonce \<noteq> name" "\<And>t. parent t = Inr d"
    and "encode v = Inr bytes" "decode bytes = Inr v" "length bytes \<le> limit"
    and "atomic_json out encode nonce parent shown name v (start t) = (r, s)"
  shows "(\<forall>(a, b)\<in>set (steps s). old_or_new t d name (temp_name nonce) bytes b)
    \<and> (r = Inr () \<longrightarrow> file_at (disk s) d (temp_name nonce) = None
         \<and> fst (read_json_file undisturbed decode parent path name limit s) = Inr v)"
proof (cases r)
  case (Inl e)
  then have "crash_safe t d name (temp_name nonce) bytes s"
    using runsD(2) [OF runs_atomic_json [where encode = encode, OF assms(1,3,2,5,4)] refl] assms(8) by simp
  then show ?thesis using Inl by (simp add: crash_safe_def)
next
  case (Inr w)
  then have "published t d name (temp_name nonce) bytes s"
    using runsD(1) [OF runs_atomic_json [where encode = encode, OF assms(1,3,2,5,4)] refl] assms(8) by simp
  moreover from this have "fst (read_json_file undisturbed decode parent path name limit s) = Inr v"
    using read_json_file_undisturbed [of s d name bytes limit parent decode] assms(4,6,7) by (simp add: published_def)
  ultimately show ?thesis by (simp add: published_def crash_safe_def)
qed

text \<open>
  A value that cannot be encoded touches nothing but the temporary name, and the clean-up of a
  failed creation removes whatever had that name: the random nonce is what keeps it unused.
\<close>

lemma unencodable_only_cleans:
  assumes "encode v = Inl e"
  shows "fst (atomic_json out encode nonce parent shown name v s) = Inl e"
    and "steps (snd (atomic_json out encode nonce parent shown name v s)) =
      steps s @ drop (length (steps s)) (steps (snd (attempt out (at_path parent (\<lambda>d. sys_unlink d (temp_name nonce))) s)))"
  by (simp_all add: atomic_json_def or_clean_def bind_sys_def lift_sys_def assms attempt_def sys_step_def Let_def
      split: option.splits prod.splits)

lemma read_json_bounded:
  assumes "read_json_file out decode parent path name limit s = (Inr v, s')"
  shows "\<exists>bytes. length bytes \<le> limit \<and> decode bytes = Inr v"
  using assms by (auto simp: read_json_file_def bind_sys_def lift_sys_def not_less
      split: prod.splits sum.splits if_splits)

end
