(* ===== verification/Directory_Pins.thy ===== *)
theory Directory_Pins
  imports Prelude
begin

text \<open>
  \<open>SharedUpdateDir\<close> in the Windows build: \<open>pin_shared_directory\<close>, \<open>pin_directory\<close> and
  \<open>rename_windows_file\<close> of \<open>src/src/update.rs\<close>, and \<open>pin_directory_guard\<close> of
  \<open>src/src/update/windows.rs\<close>. The two directories of the mailbox are held open, and a guard file
  inside keeps them from being turned into junctions. The answers of the system calls are
  inputs; the section on the attacker states what Windows guarantees about a held directory.
\<close>

unbundle bit_operations_syntax

section \<open>Attributes of a held directory\<close>

definition FILE_ATTRIBUTE_DIRECTORY :: u32 where
  "FILE_ATTRIBUTE_DIRECTORY = 0x10"

definition FILE_ATTRIBUTE_REPARSE_POINT :: u32 where
  "FILE_ATTRIBUTE_REPARSE_POINT = 0x400"

definition plain_directory :: "u32 \<Rightarrow> bool" where
  "plain_directory attributes \<longleftrightarrow>
     \<not> (attributes AND FILE_ATTRIBUTE_REPARSE_POINT \<noteq> 0 \<or> attributes AND FILE_ATTRIBUTE_DIRECTORY = 0)"

definition validate_pinned_directory :: "string + u32 \<Rightarrow> string + unit" where
  "validate_pinned_directory metadata =
     and_then metadata (\<lambda>attributes.
       guard_else (plain_directory attributes) ''shared update directories must not be reparse points'')"

text \<open>\<open>pin_directory\<close>: \<open>opened\<close> is the answer of the open, with what the handle then reports.\<close>

definition pin_directory :: "string \<Rightarrow> string + (string + u32) \<Rightarrow> string + unit" where
  "pin_directory path opened =
     (case opened of
        Inl e \<Rightarrow> Inl (''cannot pin '' @ path @ '': '' @ e)
      | Inr metadata \<Rightarrow> validate_pinned_directory metadata)"

text \<open>
  \<open>NtCreateFile\<close> relative to the held directory: its status (negative for an error), whether
  the handle is null, what the guard reports, and what the directory then reports.
\<close>

record guard_answer =
  ga_status :: "32 word"
  ga_error :: string
  ga_null :: bool
  ga_guard :: "string + bool \<times> u32 \<times> u64"
  ga_directory :: "string + u32"

definition pin_directory_guard :: "guard_answer \<Rightarrow> string + unit" where
  "pin_directory_guard ga =
     (if sint (ga_status ga) < 0 then Inl (''cannot hold shared directory guard: '' @ ga_error ga)
      else if ga_null ga then Inl ''shared directory guard returned an invalid handle''
      else and_then (ga_guard ga) (\<lambda>(is_file, attributes, len).
        if \<not> is_file \<or> attributes AND FILE_ATTRIBUTE_REPARSE_POINT \<noteq> 0 \<or> len \<noteq> 0
        then Inl ''shared directory guard must be a regular empty file''
        else and_then (ga_directory ga) (\<lambda>attributes.
          guard_else (plain_directory attributes)
            ''shared update directory changed into a reparse point'')))"

text \<open>\<open>pin_shared_directory\<close>; the last argument is what the directory reports at the end.\<close>

definition pin_shared_directory ::
  "string \<Rightarrow> string + (string + u32) \<Rightarrow> guard_answer \<Rightarrow> string + u32 \<Rightarrow> string + unit" where
  "pin_shared_directory path opened ga metadata =
     and_then (pin_directory path opened) (\<lambda>_.
     and_then (pin_directory_guard ga) (\<lambda>_.
       validate_pinned_directory metadata))"

text \<open>The name handed to the kernel: UTF-16 with its length in bytes on 16 bits.\<close>

definition GUARD_NAME :: string where
  "GUARD_NAME = ''.lariska-directory-pin''"

definition guard_name_units :: "16 word list" where
  "guard_name_units = map (\<lambda>c. of_nat (of_char c)) GUARD_NAME"

definition guard_name_length :: "16 word" where
  "guard_name_length = of_nat (length guard_name_units * 2)"

section \<open>The attacker\<close>

text \<open>
  A directory held open without write and delete sharing: whether it is a junction, whether the
  held guard file is in it, and its other children. The service that owns the directory may
  add and remove children and clear a junction at any time, but Windows only turns an empty
  directory into a junction, and a file that is held open cannot be removed. A refused
  operation changes nothing.
\<close>

record held_dir =
  hd_junction :: bool
  hd_guard :: bool
  hd_children :: "string list"

datatype move = SetJunction | ClearJunction | AddChild string | RemoveChild string

fun apply_move :: "move \<Rightarrow> held_dir \<Rightarrow> held_dir" where
  "apply_move SetJunction h =
     (if hd_guard h \<or> hd_children h \<noteq> [] then h else h\<lparr>hd_junction := True\<rparr>)"
| "apply_move ClearJunction h = h\<lparr>hd_junction := False\<rparr>"
| "apply_move (AddChild name) h =
     (if name \<in> set (hd_children h) then h else h\<lparr>hd_children := name # hd_children h\<rparr>)"
| "apply_move (RemoveChild name) h = h\<lparr>hd_children := removeAll name (hd_children h)\<rparr>"

definition dir_attributes :: "held_dir \<Rightarrow> u32" where
  "dir_attributes h =
     (if hd_junction h then FILE_ATTRIBUTE_DIRECTORY OR FILE_ATTRIBUTE_REPARSE_POINT
      else FILE_ATTRIBUTE_DIRECTORY)"

text \<open>
  A pinning run against the attacker's moves before each of the four observations; the guard
  is created in the held directory itself, whatever its junction says.
\<close>

definition pin_run ::
  "move list \<Rightarrow> move list \<Rightarrow> move list \<Rightarrow> move list \<Rightarrow> held_dir \<Rightarrow> (string + unit) \<times> held_dir" where
  "pin_run before_check before_guard before_recheck before_last h =
     (let h1 = fold apply_move before_check h;
          h2 = (fold apply_move before_guard h1)\<lparr>hd_guard := True\<rparr>;
          h3 = fold apply_move before_recheck h2;
          h4 = fold apply_move before_last h3
      in (pin_shared_directory ''update'' (Inr (Inr (dir_attributes h1)))
            \<lparr>ga_status = 0, ga_error = [], ga_null = False, ga_guard = Inr (True, 0x80, 0),
             ga_directory = Inr (dir_attributes h3)\<rparr>
            (Inr (dir_attributes h4)), h4))"

lemma plain_dir_attributes [simp]: "plain_directory (dir_attributes h) \<longleftrightarrow> \<not> hd_junction h"
  by (simp add: plain_directory_def dir_attributes_def FILE_ATTRIBUTE_DIRECTORY_def
      FILE_ATTRIBUTE_REPARSE_POINT_def)

lemma pin_run_ok:
  "fst (pin_run m1 m2 m3 m4 h) = Inr () \<longleftrightarrow>
     \<not> hd_junction (fold apply_move m1 h)
     \<and> \<not> hd_junction (fold apply_move m3 ((fold apply_move m2 (fold apply_move m1 h))\<lparr>hd_guard := True\<rparr>))
     \<and> \<not> hd_junction (snd (pin_run m1 m2 m3 m4 h))"
  by (simp add: pin_run_def Let_def pin_shared_directory_def pin_directory_def validate_pinned_directory_def
      pin_directory_guard_def guard_else_def FILE_ATTRIBUTE_REPARSE_POINT_def)

lemma move_keeps_guard: "hd_guard h \<Longrightarrow> hd_guard (apply_move m h)"
  by (cases m) auto

lemma guarded_not_converted:
  "hd_guard h \<Longrightarrow> \<not> hd_junction h \<Longrightarrow> hd_guard (fold apply_move ms h) \<and> \<not> hd_junction (fold apply_move ms h)"
proof (induction ms arbitrary: h)
  case (Cons m ms)
  have "\<not> hd_junction (apply_move m h)" using Cons.prems by (cases m) auto
  then show ?case using Cons move_keeps_guard by simp
qed simp

lemma guard_stays: "hd_guard h \<Longrightarrow> hd_guard (fold apply_move ms h)"
  by (induction ms arbitrary: h) (auto intro: move_keeps_guard)

text \<open>
  However the owner of the directory interleaves its operations with the pinning, once
  the directory is pinned it is not a junction, and nothing the owner does later can turn it
  into one; and the pinning fails whenever the directory is a junction at one of the checks.
\<close>

theorem pinned_directory_stays_plain:
  "(fst (pin_run m1 m2 m3 m4 h) = Inr () \<longrightarrow>
      \<not> hd_junction (fold apply_move later (snd (pin_run m1 m2 m3 m4 h))))
   \<and> (fst (pin_run m1 m2 m3 m4 h) = Inr () \<or>
      hd_junction (fold apply_move m1 h) \<or>
      hd_junction (fold apply_move m3 ((fold apply_move m2 (fold apply_move m1 h))\<lparr>hd_guard := True\<rparr>)))"
proof -
  let ?h4 = "snd (pin_run m1 m2 m3 m4 h)"
  let ?h3 = "fold apply_move m3 ((fold apply_move m2 (fold apply_move m1 h))\<lparr>hd_guard := True\<rparr>)"
  have h4: "?h4 = fold apply_move m4 ?h3" by (simp add: pin_run_def Let_def)
  have g: "hd_guard ?h3" by (rule guard_stays) simp
  show ?thesis
    using guarded_not_converted [OF g] guarded_not_converted [of ?h4 later] guard_stays [OF g, of m4]
    unfolding pin_run_ok h4 by blast
qed

text \<open>
  Without the guard the check of the attributes alone is worthless: an empty directory that
  passed it can be converted afterwards.
\<close>

lemma unguarded_is_converted:
  "plain_directory (dir_attributes h) \<and> hd_junction (fold apply_move [SetJunction] h)"
  if "h = \<lparr>hd_junction = False, hd_guard = False, hd_children = []\<rparr>"
  using that by simp

section \<open>The rename request\<close>

text \<open>
  \<open>rename_windows_file\<close> builds the variable-length \<open>RenameInfo\<close> by hand. With pointers of \<open>p\<close>
  bytes the fields \<open>replace_if_exists\<close>, \<open>root_directory\<close>, \<open>file_name_length\<close> and \<open>file_name\<close> lie at
  0, \<open>p\<close>, \<open>2 * p\<close> and \<open>2 * p + 4\<close>, and the structure is padded to a multiple of \<open>p\<close>.
\<close>

definition div_ceil :: "nat \<Rightarrow> nat \<Rightarrow> nat" where
  "div_ceil a b = a div b + (if a mod b > 0 then 1 else 0)"

definition rename_info_size :: "nat \<Rightarrow> nat" where
  "rename_info_size p = div_ceil (2 * p + 6) p * p"

primrec le_bytes :: "nat \<Rightarrow> nat \<Rightarrow> u8 list" where
  "le_bytes 0 v = []"
| "le_bytes (Suc n) v = of_nat v # le_bytes n (v div 256)"

definition put_bytes :: "nat \<Rightarrow> u8 list \<Rightarrow> u8 list \<Rightarrow> u8 list" where
  "put_bytes i bytes buffer = take i buffer @ bytes @ drop (i + length bytes) buffer"

definition usize_checked :: "nat \<Rightarrow> nat \<Rightarrow> string \<Rightarrow> string + nat" where
  "usize_checked p n msg = (if n < 256 ^ p then Inr n else Inl msg)"

definition u32_checked :: "nat \<Rightarrow> string \<Rightarrow> string + nat" where
  "u32_checked n msg = (if n < 2 ^ 32 then Inr n else Inl msg)"

definition bad_unit :: "u16 \<Rightarrow> bool" where
  "bad_unit c \<longleftrightarrow> c \<in> {0, 0x2f, 0x5c, 0x3a}"

text \<open>The buffer and the length that are passed to the kernel.\<close>

definition rename_request :: "nat \<Rightarrow> u16 list \<Rightarrow> string + u8 list \<times> nat" where
  "rename_request p name =
     (if name = [] \<or> list_ex bad_unit name
      then Inl ''atomic publication requires a simple file name''
      else and_then (usize_checked p (length name * 2) ''file name length overflow'') (\<lambda>name_bytes.
        and_then (usize_checked p (rename_info_size p + name_bytes) ''rename buffer length overflow'') (\<lambda>len.
        let zeroed = replicate (div_ceil len p * p) 0;
            b1 = put_bytes 0 (le_bytes 4 1) zeroed;
            b2 = put_bytes p (replicate p 0) b1
        in and_then (u32_checked name_bytes ''file name is too long'') (\<lambda>name_len.
           let b3 = put_bytes (2 * p) (le_bytes 4 name_len) b2;
               b4 = put_bytes (2 * p + 4) (concat (map (\<lambda>c. le_bytes 2 (unat c)) name)) b3
           in and_then (u32_checked len ''rename buffer is too large'') (\<lambda>len.
              Inr (b4, len))))))"

text \<open>What the kernel reads from the buffer.\<close>

definition le_value :: "u8 list \<Rightarrow> nat" where
  "le_value bytes = foldr (\<lambda>b v. unat b + 256 * v) bytes 0"

definition field_at :: "nat \<Rightarrow> nat \<Rightarrow> u8 list \<Rightarrow> nat" where
  "field_at i n buffer = le_value (take n (drop i buffer))"

lemma length_le_bytes [simp]: "length (le_bytes n v) = n"
  by (induction n arbitrary: v) simp_all

lemma le_value_le_bytes: "v < 256 ^ n \<Longrightarrow> le_value (le_bytes n v) = v"
proof (induction n arbitrary: v)
  case (Suc n)
  then have "v < 256 ^ n * 256" by (simp only: power_Suc2)
  then have "v div 256 < 256 ^ n" by (rule less_mult_imp_div_less)
  from Suc.IH [OF this] have "le_value (le_bytes (Suc n) v) = unat (of_nat v :: u8) + 256 * (v div 256)"
    by (simp add: le_value_def)
  also have "unat (of_nat v :: u8) = v mod 256" by (simp add: unat_of_nat)
  finally show ?case by simp
qed (simp add: le_value_def)

lemma le_value_zero [simp]: "le_value (replicate n 0) = 0"
  by (induction n) (simp_all add: le_value_def)

lemma length_put_bytes [simp]:
  "i + length bytes \<le> length buffer \<Longrightarrow> length (put_bytes i bytes buffer) = length buffer"
  by (simp add: put_bytes_def)

lemma take_put_bytes:
  "i + length bytes \<le> length buffer \<Longrightarrow> take (length bytes) (drop i (put_bytes i bytes buffer)) = bytes"
  by (simp add: put_bytes_def)

lemma put_bytes_before:
  "i + length bytes \<le> length buffer \<Longrightarrow> j + n \<le> i \<Longrightarrow>
   take n (drop j (put_bytes i bytes buffer)) = take n (drop j buffer)"
  by (simp add: put_bytes_def drop_take min_def) linarith

lemmas put_bytes_front = put_bytes_before [where j = 0, unfolded drop_0 add_0]

lemma put_bytes_after:
  "i + length bytes \<le> length buffer \<Longrightarrow> i + length bytes \<le> j \<Longrightarrow>
   drop j (put_bytes i bytes buffer) = drop j buffer"
  by (simp add: put_bytes_def)

lemma div_ceil_le: "0 < p \<Longrightarrow> n \<le> div_ceil n p * p"
  by (auto simp: div_ceil_def) (metis add.commute add_le_cancel_right div_mult_mod_eq less_imp_le mod_less_divisor)+

lemma length_units [simp]: "length (concat (map (\<lambda>c. le_bytes 2 (unat c)) name)) = 2 * length name"
  by (induction name) simp_all

lemma rename_request_buffer:
  assumes "p = 4 \<or> p = 8" and "rename_request p name = Inr (buffer, len)"
  obtains b2 where "name \<noteq> []" "\<not> list_ex bad_unit name" "length name * 2 < 2 ^ 32" "len < 2 ^ 32"
    "len = rename_info_size p + length name * 2"
    "b2 = put_bytes p (replicate p 0) (put_bytes 0 (le_bytes 4 1) (replicate (div_ceil len p * p) 0))"
    "buffer = put_bytes (2 * p + 4) (concat (map (\<lambda>c. le_bytes 2 (unat c)) name))
                (put_bytes (2 * p) (le_bytes 4 (length name * 2)) b2)"
proof -
  have "name \<noteq> [] \<and> \<not> list_ex bad_unit name"
    using assms(2) by (auto simp: rename_request_def split: if_splits)
  moreover from this have "length name * 2 < 2 ^ 32 \<and> len < 2 ^ 32 \<and> len = rename_info_size p + length name * 2
    \<and> buffer = put_bytes (2 * p + 4) (concat (map (\<lambda>c. le_bytes 2 (unat c)) name))
        (put_bytes (2 * p) (le_bytes 4 (length name * 2))
          (put_bytes p (replicate p 0) (put_bytes 0 (le_bytes 4 1) (replicate (div_ceil len p * p) 0))))"
    using assms(2) by (simp add: rename_request_def usize_checked_def u32_checked_def Let_def and_then_def
        split: if_splits) auto
  ultimately show thesis by (intro that [OF _ _ _ _ _ refl]) blast+
qed

text \<open>
  C36. An accepted rename request is well formed for 4-byte and 8-byte pointers: the kernel
  reads back the replace flag, no root directory, the exact length of the name and the name
  itself with a terminating zero, all inside the buffer and within the length passed, and the
  name is one component, so the rename stays in the directory of the held file.
\<close>

theorem rename_request_well_formed:
  assumes "p = 4 \<or> p = 8" and "rename_request p name = Inr (buffer, len)"
  shows "field_at 0 4 buffer = 1 \<and> field_at p p buffer = 0
    \<and> field_at (2 * p) 4 buffer = 2 * length name
    \<and> take (2 * length name) (drop (2 * p + 4) buffer) = concat (map (\<lambda>c. le_bytes 2 (unat c)) name)
    \<and> field_at (2 * p + 4 + 2 * length name) 2 buffer = 0
    \<and> 2 * p + 4 + 2 * length name + 2 \<le> len \<and> len \<le> length buffer
    \<and> name \<noteq> [] \<and> list_all (\<lambda>c. \<not> bad_unit c) name"
proof -
  obtain b2 where n: "name \<noteq> []" "\<not> list_ex bad_unit name" "length name * 2 < 2 ^ 32"
    and len: "len = rename_info_size p + length name * 2"
    and b2: "b2 = put_bytes p (replicate p 0) (put_bytes 0 (le_bytes 4 1) (replicate (div_ceil len p * p) 0))"
    and buf: "buffer = put_bytes (2 * p + 4) (concat (map (\<lambda>c. le_bytes 2 (unat c)) name))
                (put_bytes (2 * p) (le_bytes 4 (length name * 2)) b2)"
    using assms by (rule rename_request_buffer)
  let ?zero = "replicate (div_ceil len p * p) (0 :: u8)" and ?units = "concat (map (\<lambda>c. le_bytes 2 (unat c)) name)"
  have size: "rename_info_size p = 2 * p + 8" using assms(1) by (auto simp: rename_info_size_def div_ceil_def)
  have room: "len \<le> length ?zero" using assms(1) div_ceil_le [of p len] by auto
  have l: "length (put_bytes 0 (le_bytes 4 1) ?zero) = length ?zero" "length b2 = length ?zero"
    "length (put_bytes (2 * p) (le_bytes 4 (length name * 2)) b2) = length ?zero" "length buffer = length ?zero"
    using assms(1) room len size by (auto simp: b2 buf)
  have fits: "2 * p + 4 + length ?units \<le> length ?zero" "2 * p + 4 \<le> length b2" "4 \<le> length ?zero"
    "p + p \<le> length ?zero" using assms(1) room len size l by auto
  have f0: "field_at 0 4 buffer = 1"
    using assms(1) fits l take_put_bytes [of 0 "le_bytes 4 1" ?zero] le_value_le_bytes [of 1 4]
    by (auto simp: field_at_def buf b2 put_bytes_front)
  have f1: "field_at p p buffer = 0"
    using assms(1) fits l take_put_bytes [of p "replicate p 0" "put_bytes 0 (le_bytes 4 1) ?zero"]
    by (auto simp: field_at_def buf b2 put_bytes_before)
  have f2: "field_at (2 * p) 4 buffer = 2 * length name"
    using fits l n(3) take_put_bytes [of "2 * p" "le_bytes 4 (length name * 2)" b2] le_value_le_bytes [of "length name * 2" 4]
    by (simp add: field_at_def buf put_bytes_before)
  have f3: "take (2 * length name) (drop (2 * p + 4) buffer) = ?units"
    using fits l take_put_bytes [of "2 * p + 4" ?units] by (simp add: buf)
  have tail: "drop (2 * p + 4 + 2 * length name) buffer = drop (2 * p + 4 + 2 * length name) ?zero"
    using fits l assms(1) by (auto simp: buf b2 put_bytes_after)
  have f4: "field_at (2 * p + 4 + 2 * length name) 2 buffer = 0"
    unfolding field_at_def tail by (simp add: take_replicate drop_replicate)
  show ?thesis
    using f0 f1 f2 f3 f4 room l len size n by (simp add: list_all_iff list_ex_iff)
qed

theorem rename_request_well_formed_witness:
  "\<exists>buffer. rename_request 8 [0x61, 0x62] = Inr (buffer, 28) \<and> field_at 16 4 buffer = 4 \<and> 28 \<le> length buffer"
proof -
  have "\<exists>buffer. rename_request 8 [0x61, 0x62] = Inr (buffer, 28)"
    by (simp add: rename_request_def bad_unit_def usize_checked_def u32_checked_def rename_info_size_def
        div_ceil_def Let_def and_then_def)
  then obtain buffer where "rename_request 8 [0x61, 0x62] = Inr (buffer, 28)" ..
  with rename_request_well_formed [OF _ this] show ?thesis by simp
qed

theorem pinned_directory_stays_plain_witness:
  "let h = \<lparr>hd_junction = False, hd_guard = False, hd_children = []\<rparr> in
   fst (pin_run [] [] [SetJunction] [] h) = Inr ()
   \<and> \<not> hd_junction (fold apply_move [SetJunction] (snd (pin_run [] [] [SetJunction] [] h)))
   \<and> fst (pin_run [] [SetJunction] [] [] h) \<noteq> Inr ()"
proof -
  let ?h = "\<lparr>hd_junction = False, hd_guard = False, hd_children = []\<rparr>"
  have r: "fst (pin_run [] [] [SetJunction] [] ?h) = Inr ()" "fst (pin_run [] [SetJunction] [] [] ?h) \<noteq> Inr ()"
    by code_simp+
  with pinned_directory_stays_plain [of "[]" "[]" "[SetJunction]" "[]" ?h "[SetJunction]"]
  show ?thesis by (simp add: Let_def)
qed

end
