(* ===== verification/Startup.thy ===== *)
theory Startup
  imports Identity Config Collection
begin

text \<open>
  The start of the process: the crash reports of \<open>src/crash.rs\<close>, the instance lock of
  \<open>src/service.rs\<close>, the log filter of \<open>src/telemetry.rs\<close>, the command line of \<open>src/main.rs\<close>
  and the order in which \<open>run_internal\<close> of \<open>src/app.rs\<close> puts them together. The clock, the
  JSON codec, the filter parser, the advisory locks of the system and the failures of file
  operations are inputs; the builds are those of Unix.
\<close>

section \<open>Crash reports\<close>

record crash_report =
  cp_timestamp :: string
  cp_version :: string
  cp_message :: string
  cp_location :: "string option"

definition CRASH_REPORT_FILE :: string where "CRASH_REPORT_FILE = ''crash_report.json''"
definition LAST_CRASH_REPORT_FILE :: string where "LAST_CRASH_REPORT_FILE = ''crash_report.last.json''"

text \<open>\<open>String::truncate\<close> counts bytes and panics inside a character: no result.\<close>

fun truncate_bytes :: "nat \<Rightarrow> string \<Rightarrow> string option" where
  "truncate_bytes n [] = Some []"
| "truncate_bytes n (c # s) =
     (if n = 0 then Some []
      else if utf8_len [c] \<le> n then map_option ((#) c) (truncate_bytes (n - utf8_len [c]) s) else None)"

definition sanitize_panic_message :: "string \<Rightarrow> string option" where
  "sanitize_panic_message message =
     (let sanitized = trim message in
      if length sanitized > 500 then map_option (\<lambda>t. t @ ''... (truncated)'') (truncate_bytes 500 sanitized)
      else Some sanitized)"

text \<open>
  The panic hook: the formatted time, the payload if it is text, the place of the panic.
  Results of writing and renaming are ignored; a panic inside the hook is no result.
\<close>

record panic_io =
  pa_time :: "string + string"
  pa_payload :: "string option"
  pa_location :: "(string \<times> nat \<times> nat) option"
  pa_version :: string
  pa_encode :: "crash_report \<Rightarrow> string + u8 list"
  pa_plan :: fault_plan
  pa_pid :: nat

definition temp_report_name :: "nat \<Rightarrow> string" where
  "temp_report_name pid = ''crash_report.tmp-'' @ show_nat pid"

definition report_of :: "panic_io \<Rightarrow> crash_report option" where
  "report_of io = map_option (\<lambda>message.
       \<lparr>cp_timestamp = (case pa_time io of Inl _ \<Rightarrow> ''1970-01-01T00:00:00Z'' | Inr t \<Rightarrow> t),
        cp_version = pa_version io, cp_message = message,
        cp_location = map_option (\<lambda>(f, l, c). f @ '':'' @ show_nat l @ '':'' @ show_nat c) (pa_location io)\<rparr>)
     (sanitize_panic_message (unwrap_or (pa_payload io) ''unspecified panic payload''))"

definition panic_hook :: "panic_io \<Rightarrow> u8 list dir \<Rightarrow> u8 list dir list option" where
  "panic_hook io d =
     (case report_of io of
        None \<Rightarrow> None
      | Some report \<Rightarrow> Some
          (case pa_encode io report of
             Inl _ \<Rightarrow> [d]
           | Inr json \<Rightarrow>
               (let temp = temp_report_name (pa_pid io); plan = pa_plan io in
                if fault plan CreateTemp \<noteq> None then [d]
                else case write_temp plan id temp json d of (_, states) \<Rightarrow>
                  (let written = last states in
                   states @ (if fault plan Publish \<noteq> None then []
                             else [AList.update CRASH_REPORT_FILE (unwrap_or (map_of written temp) [])
                                     (AList.delete temp written)])))))"

definition check_and_report_previous_crash ::
  "(u8 list \<Rightarrow> string + crash_report) \<Rightarrow> fault_plan \<Rightarrow> u8 list dir \<Rightarrow> crash_report option \<times> u8 list dir" where
  "check_and_report_previous_crash decode plan d =
     (case map_of d CRASH_REPORT_FILE of
        None \<Rightarrow> (None, d)
      | Some content \<Rightarrow>
          (let report = (if fault plan ReadFile \<noteq> None then None
                         else case decode content of Inl _ \<Rightarrow> None | Inr r \<Rightarrow> Some r) in
           (report, if fault plan Publish \<noteq> None then d
                    else AList.update LAST_CRASH_REPORT_FILE content (AList.delete CRASH_REPORT_FILE d))))"

section \<open>The instance lock\<close>

definition LOCK_FILE_NAME :: string where "LOCK_FILE_NAME = ''lariska.lock''"

datatype service_error = ServiceIo string | AlreadyRunning string

fun service_error_display :: "service_error \<Rightarrow> string" where
  "service_error_display (ServiceIo message) = message"
| "service_error_display (AlreadyRunning path) =
     ''another Lariska instance already holds the lock at '' @ path
       @ '' - is it already running for this state directory?''"

text \<open>The dash of the message is not an ASCII one in the source. The advisory locks that are held: the process of each lock file.\<close>

type_synonym locks = "string \<rightharpoonup> nat"

definition acquire :: "string + unit \<Rightarrow> string + unit \<Rightarrow> nat \<Rightarrow> string \<Rightarrow> locks \<Rightarrow> (service_error + unit) \<times> locks" where
  "acquire created opened pid state_dir held =
     (let path = path_join state_dir LOCK_FILE_NAME in
      case created of
        Inl e \<Rightarrow> (Inl (ServiceIo (''failed to create state directory: '' @ e)), held)
      | Inr _ \<Rightarrow>
          (case opened of
             Inl e \<Rightarrow> (Inl (ServiceIo (''failed to open lock file '' @ path @ '': '' @ e)), held)
           | Inr _ \<Rightarrow> if held path \<noteq> None then (Inl (AlreadyRunning path), held) else (Inr (), held(path \<mapsto> pid))))"

section \<open>The log filter\<close>

text \<open>The filter in force, once a subscriber was installed.\<close>

record 'f telemetry =
  tl_handle :: "'f option"
  tl_to_file :: "string option"

text \<open>\<open>parse\<close> is \<open>EnvFilter::try_new\<close>, \<open>lenient\<close> is \<open>EnvFilter::new\<close>, \<open>from_env\<close> the filter of \<open>RUST_LOG\<close>.\<close>

definition base_filter :: "string + 'f \<Rightarrow> (string \<Rightarrow> 'f) \<Rightarrow> string \<Rightarrow> 'f" where
  "base_filter from_env lenient level = (case from_env of Inr f \<Rightarrow> f | Inl _ \<Rightarrow> lenient level)"

text \<open>\<open>taken\<close>: another subscriber is in place already, so that installing fails.\<close>

definition install_filter :: "bool \<Rightarrow> 'f \<Rightarrow> string option \<Rightarrow> 'f telemetry \<Rightarrow> 'f telemetry" where
  "install_filter taken f file t =
     (if taken \<or> tl_handle t \<noteq> None then t else \<lparr>tl_handle = Some f, tl_to_file = file\<rparr>)"

definition set_log_level :: "(string \<Rightarrow> string + 'f) \<Rightarrow> (unit \<Rightarrow> string + unit) \<Rightarrow> string \<Rightarrow> 'f telemetry \<Rightarrow> 'f telemetry" where
  "set_log_level parse reload level t =
     (case tl_handle t of
        None \<Rightarrow> t
      | Some _ \<Rightarrow> (case parse level of
          Inl _ \<Rightarrow> t
        | Inr f \<Rightarrow> (case reload () of Inl _ \<Rightarrow> t | Inr _ \<Rightarrow> t\<lparr>tl_handle := Some f\<rparr>)))"

definition MAX_LOG_BYTES :: nat where "MAX_LOG_BYTES = 8 * 1024 * 1024"

text \<open>
  Logging to a file, rotated once at the start. The directory holds the contents; the
  rotated file's name is the path with its extension replaced by \<open>log.1\<close>.
\<close>

definition init_to_file ::
  "bool \<Rightarrow> 'f \<Rightarrow> string \<Rightarrow> string \<Rightarrow> fault_plan \<Rightarrow> u8 list dir \<Rightarrow> 'f telemetry \<Rightarrow> 'f telemetry \<times> u8 list dir" where
  "init_to_file taken f path rotated plan d t =
     (let d = (case map_of d path of
                 Some content \<Rightarrow> if fault plan StatFile = None \<and> length content > MAX_LOG_BYTES \<and> fault plan Publish = None
                                 then AList.update rotated content (AList.delete path d) else d
               | None \<Rightarrow> d)
      in if fault plan OpenFile \<noteq> None then (install_filter taken f None t, d)
         else (install_filter taken f (Some path) t, if map_of d path = None then AList.update path [] d else d))"

section \<open>The command line\<close>

datatype cli_command =
    CliRun string bool | CliCheckConfig string | CliSupervise string bool | CliSeed string string string
  | CliVersion | CliInventory | CliHelp

definition DEFAULT_CONFIG_PATH :: string where "DEFAULT_CONFIG_PATH = ''lariska.toml''"

text \<open>The argument after the first occurrence of a flag that has one.\<close>

fun flag_argument :: "string \<Rightarrow> string list \<Rightarrow> string option" where
  "flag_argument flag (a # b # rest) = (if a = flag then Some b else flag_argument flag (b # rest))"
| "flag_argument flag _ = None"

definition required_argument :: "string list \<Rightarrow> string \<Rightarrow> string + string" where
  "required_argument args flag = ok_or (flag_argument flag args) (''required argument: '' @ flag @ '' path'')"

definition config_path :: "string option \<Rightarrow> string list \<Rightarrow> string" where
  "config_path env args = unwrap_or (option_or (flag_argument ''--config'' args) env) DEFAULT_CONFIG_PATH"

definition ensure_inventory_args :: "string list \<Rightarrow> string + unit" where
  "ensure_inventory_args args =
     (if args = [] \<or> args = [''--output'', ''json''] then Inr ()
      else Inl ''usage: lariska inventory [--output json]'')"

text \<open>What \<open>dispatch\<close> goes on to do, in the Unix build; \<open>env\<close> is \<open>LARISKA_CONFIG\<close>.\<close>

definition dispatch :: "string option \<Rightarrow> string list \<Rightarrow> string + cli_command" where
  "dispatch env args =
     (case args of
        [] \<Rightarrow> Inr CliHelp
      | cmd # rest \<Rightarrow>
          if cmd = ''run'' then Inr (CliRun (config_path env rest) (''--service'' \<in> set rest))
          else if cmd = ''--winservice'' then Inl ''--winservice is only supported when running on Windows''
          else if cmd = ''check-config'' then Inr (CliCheckConfig (config_path env rest))
          else if cmd = ''update-supervisor'' then Inr (CliSupervise (config_path env rest) (''--once'' \<in> set rest))
          else if cmd = ''update-seed'' then
            and_then (required_argument rest ''--manifest'') (\<lambda>m.
            and_then (required_argument rest ''--artifact'') (\<lambda>a. Inr (CliSeed (config_path env rest) m a)))
          else if cmd = ''--version'' \<or> cmd = ''version'' then Inr CliVersion
          else if cmd = ''inventory'' then and_then (ensure_inventory_args rest) (\<lambda>_. Inr CliInventory)
          else if cmd \<in> {''help'', ''--help'', ''-h''} then Inr CliHelp
          else Inl (''unknown command: '' @ cmd))"

section \<open>Starting the agent\<close>

record start_io =
  sa_config :: "config_error + config"
  sa_decode_report :: "u8 list \<Rightarrow> string + crash_report"
  sa_report_plan :: fault_plan
  sa_created :: "string + unit"
  sa_opened :: "string + unit"
  sa_pid :: nat
  sa_read_utf8 :: "u8 list \<Rightarrow> string + string"
  sa_identity_plan :: fault_plan
  sa_identity_created :: "string + unit"
  sa_rng :: "string + u8 list"
  sa_runtime :: "string + unit"

text \<open>
  \<open>run_internal\<close> until it enters the asynchronous part: the result, every state of the
  state directory, and the locks.
\<close>

definition run_internal ::
  "start_io \<Rightarrow> bool \<Rightarrow> u8 list dir \<Rightarrow> locks \<Rightarrow> (string + config \<times> string) \<times> u8 list dir list \<times> locks" where
  "run_internal io running_as_service d held =
     (case sa_config io of
        Inl e \<Rightarrow> (Inl (config_error_display e), [d], held)
      | Inr c \<Rightarrow>
          (let d1 = snd (check_and_report_previous_crash (sa_decode_report io) (sa_report_plan io) d) in
           if running_as_service \<and> \<not> is_absolute (cf_state_dir c)
           then (Inl ''state_dir must be an absolute path when running with --service'', [d, d1], held)
           else case acquire (sa_created io) (sa_opened io) (sa_pid io) (cf_state_dir c) held of
             (Inl e, held') \<Rightarrow> (Inl (service_error_display e), [d, d1], held')
           | (Inr _, held') \<Rightarrow>
               (case load_or_create (sa_read_utf8 io) (sa_identity_plan io) (sa_pid io) (sa_identity_created io) (sa_rng io) d1 of
                  (Inl e, states) \<Rightarrow> (Inl (identity_error_display e), [d, d1] @ states, held')
                | (Inr aid, states) \<Rightarrow>
                    (and_then (map_err (\<lambda>e. ''failed to start async runtime: '' @ e) (sa_runtime io)) (\<lambda>_. Inr (c, aid)),
                     [d, d1] @ states, held'))))"

section \<open>Lemmas\<close>

text \<open>A truncated ASCII message is short, and a message of two-byte characters can make the hook panic.\<close>

lemma truncate_ascii:
  "list_all (\<lambda>c. scalar c < 128) s \<Longrightarrow> truncate_bytes n s = Some (take n s)"
proof (induction s arbitrary: n)
  case (Cons c s)
  then have "utf8_len [c] = 1" by (simp add: utf8_len_def)
  then show ?case using Cons by (cases n) auto
qed simp

lemma truncate_bytes_length: "truncate_bytes n s = Some t \<Longrightarrow> utf8_len t \<le> n"
proof (induction n s arbitrary: t rule: truncate_bytes.induct)
  case (2 n c s)
  then show ?case by (fastforce simp: utf8_len_def split: if_splits)
qed (simp add: utf8_len_def)

lemma sanitized_ascii_bounded:
  assumes "list_all (\<lambda>c. scalar c < 128) message"
  shows "\<exists>t. sanitize_panic_message message = Some t \<and> length t \<le> 515"
proof -
  have "list_all (\<lambda>c. scalar c < 128) (trim message)"
    using assms by (auto simp: list_all_iff trim_def trim_start_def trim_end_def dest!: set_dropWhileD)
  then show ?thesis by (simp add: sanitize_panic_message_def truncate_ascii Let_def)
qed

lemma truncate_two_byte: "\<not> scalar c < 128 \<Longrightarrow> odd n \<Longrightarrow> n < 2 * k \<Longrightarrow> truncate_bytes n (replicate k c) = None"
proof (induction k arbitrary: n)
  case (Suc k)
  have u: "utf8_len [c] = 2" using Suc.prems(1) by (simp add: utf8_len_def)
  show ?case
  proof (cases "n = 1")
    case False
    with Suc.prems(2) have "n \<ge> 3" by presburger
    with Suc show ?thesis by (simp add: u)
  qed (simp add: u)
qed simp

lemma truncation_may_panic:
  "sanitize_panic_message (CHR ''x'' # replicate 500 (CHR 0xE9)) = None"
proof -
  have "trim (CHR ''x'' # replicate 500 (CHR 0xE9)) = CHR ''x'' # replicate 500 (CHR 0xE9)"
    by code_simp
  moreover have "truncate_bytes 499 (replicate 500 (CHR 0xE9)) = None"
    by (rule truncate_two_byte) (simp_all add: scalar_def)
  moreover have "utf8_len [CHR ''x''] = 1" by (simp add: utf8_len_def scalar_def)
  ultimately show ?thesis by (simp add: sanitize_panic_message_def)
qed

text \<open>A report that was written is found at the next start, once, and kept aside.\<close>

lemma report_names [simp]:
  "temp_report_name pid \<noteq> CRASH_REPORT_FILE" "CRASH_REPORT_FILE \<noteq> LAST_CRASH_REPORT_FILE"
  "CRASH_REPORT_FILE \<noteq> temp_report_name pid" "LAST_CRASH_REPORT_FILE \<noteq> CRASH_REPORT_FILE"
  "CRASH_REPORT_FILE \<noteq> IDENTITY_FILE" "LAST_CRASH_REPORT_FILE \<noteq> IDENTITY_FILE"
  "IDENTITY_FILE \<noteq> CRASH_REPORT_FILE" "IDENTITY_FILE \<noteq> LAST_CRASH_REPORT_FILE"
  by (simp_all add: temp_report_name_def CRASH_REPORT_FILE_def LAST_CRASH_REPORT_FILE_def IDENTITY_FILE_def)

lemma panic_hook_writes:
  assumes "report_of io = Some report" and "pa_encode io report = Inr json" and "pa_plan io = no_faults"
  shows "\<exists>states. panic_hook io d = Some states \<and> states \<noteq> [] \<and> map_of (last states) CRASH_REPORT_FILE = Some json"
proof -
  obtain r ts where w: "write_temp no_faults id (temp_report_name (pa_pid io)) json d = (r, ts)" by force
  then have "last ts = AList.update (temp_report_name (pa_pid io)) json d" by (auto simp: write_temp_def)
  then show ?thesis using assms w by (simp add: panic_hook_def Let_def)
qed

lemma crash_report_recovered:
  assumes "report_of io = Some report" and "pa_encode io report = Inr json" and "pa_plan io = no_faults"
    and "decode json = Inr report"
  shows "\<exists>states d'. panic_hook io d = Some states
    \<and> check_and_report_previous_crash decode no_faults (last states) = (Some report, d')
    \<and> map_of d' LAST_CRASH_REPORT_FILE = Some json
    \<and> check_and_report_previous_crash decode no_faults d' = (None, d')"
proof -
  obtain states where s: "panic_hook io d = Some states" "map_of (last states) CRASH_REPORT_FILE = Some json"
    using panic_hook_writes [OF assms(1-3)] by blast
  then show ?thesis
    using assms(4) by (auto simp: check_and_report_previous_crash_def Let_def)
qed

text \<open>The result of writing is ignored: on a full disk an empty file replaces an older report.\<close>

lemma failed_write_is_published:
  assumes "report_of io = Some report" and "pa_encode io report = Inr json"
    and "pa_plan io = \<lparr>fault = (\<lambda>op. if op = WriteTemp then Some e else None), bytes_written = 0\<rparr>"
  shows "\<exists>states. panic_hook io d = Some states \<and> map_of (last states) CRASH_REPORT_FILE = Some []"
  using assms by (simp add: panic_hook_def write_temp_def temp_states_def Let_def)

text \<open>The lock excludes other processes from the directory until its holder ends.\<close>

lemma acquire_exclusive:
  assumes "acquire created opened pid dir held = (Inr (), held')"
  shows "held (path_join dir LOCK_FILE_NAME) = None" and "held' = held(path_join dir LOCK_FILE_NAME \<mapsto> pid)"
    and "fst (acquire created' opened' pid' dir held') \<noteq> Inr ()"
  using assms by (auto simp: acquire_def Let_def split: sum.splits if_splits)

lemma acquire_error: "acquire created opened pid dir held = (Inl e, held') \<Longrightarrow> held' = held"
  by (auto simp: acquire_def Let_def split: sum.splits if_splits)

lemma crash_check_keeps_identity:
  "map_of (snd (check_and_report_previous_crash decode plan d)) IDENTITY_FILE = map_of d IDENTITY_FILE"
  by (auto simp: check_and_report_previous_crash_def Let_def split: option.splits)

text \<open>
  The identity is created only by the holder of the lock: when the identity file differs in
  any state of a start, the lock was free before and is held by this process after.
\<close>

lemma identity_created_under_lock:
  assumes "run_internal io as_service d held = (r, states, held')"
    and "e \<in> set states" and "map_of e IDENTITY_FILE \<noteq> map_of d IDENTITY_FILE"
  shows "\<exists>c. sa_config io = Inr c \<and> held (path_join (cf_state_dir c) LOCK_FILE_NAME) = None
    \<and> held' = held(path_join (cf_state_dir c) LOCK_FILE_NAME \<mapsto> sa_pid io)"
proof (cases "sa_config io")
  case (Inl e')
  then show ?thesis using assms by (auto simp: run_internal_def)
next
  case (Inr c)
  let ?d1 = "snd (check_and_report_previous_crash (sa_decode_report io) (sa_report_plan io) d)"
  obtain l held1 where l: "acquire (sa_created io) (sa_opened io) (sa_pid io) (cf_state_dir c) held = (l, held1)" by force
  note keep = crash_check_keeps_identity [of "sa_decode_report io" "sa_report_plan io" d]
  have "e \<notin> {d, ?d1}" using assms(3) keep by auto
  then have "l = Inr () \<and> held' = held1"
    using assms(1,2) Inr l
    by (auto simp: run_internal_def Let_def split: if_splits sum.splits prod.splits)
  then show ?thesis using acquire_exclusive(1,2) l Inr by fastforce
qed

text \<open>An unparseable level leaves the filter, and a second initialisation changes nothing.\<close>

lemma bad_level_keeps_filter: "parse level = Inl e \<Longrightarrow> set_log_level parse reload level t = t"
  by (simp add: set_log_level_def split: option.splits)

lemma filter_installed_once:
  "tl_handle (install_filter False f file t) \<noteq> None
   \<and> install_filter taken g file' (install_filter False f file t) = install_filter False f file t"
  by (simp add: install_filter_def)

lemma log_rotated:
  assumes "init_to_file taken f path rotated no_faults d t = (t', d')" and "path \<noteq> rotated"
  shows "\<exists>content. map_of d' path = Some content \<and> length content \<le> MAX_LOG_BYTES"
    and "map_of d path = Some content \<Longrightarrow> length content > MAX_LOG_BYTES \<Longrightarrow> map_of d' rotated = Some content"
  using assms by (auto simp: init_to_file_def Let_def split: option.splits if_splits)

text \<open>The command line's configuration path comes before the environment's.\<close>

lemma config_path_precedence:
  "flag_argument ''--config'' args = Some p \<Longrightarrow> config_path env args = p"
  "flag_argument ''--config'' args = None \<Longrightarrow> config_path env args = unwrap_or env DEFAULT_CONFIG_PATH"
  by (auto simp: config_path_def option_or_def split: option.splits)

lemma flag_argument_split:
  "flag_argument flag args = Some v \<Longrightarrow> \<exists>before after. args = before @ flag # v # after \<and> flag \<notin> set before"
proof (induction flag args rule: flag_argument.induct)
  case (1 flag a b rest)
  show ?case
  proof (cases "a = flag")
    case True
    then have "a # b # rest = [] @ flag # v # rest" using 1 by simp
    then show ?thesis by (metis empty_iff empty_set)
  next
    case False
    then obtain before after where "b # rest = before @ flag # v # after" "flag \<notin> set before" using 1 by auto
    then have "a # b # rest = (a # before) @ flag # v # after" "flag \<notin> set (a # before)" using False by auto
    then show ?thesis by metis
  qed
qed simp_all

end
