(* ===== verification/Agent_Process.thy ===== *)
theory Agent_Process
  imports Agent Startup Native_Commands
begin

text \<open>
  The life of the process: the asynchronous part of \<open>run\<close> in \<open>src/src/app.rs\<close> from the clients
  to the outcome of its \<open>select!\<close>, the signals and the Windows service of
  \<open>src/src/service.rs\<close>, the diagnostic snapshot of the command line, and the restart of the
  Windows service by \<open>src/src/native_update.rs\<close>. Answers of the operating system and the
  branch that \<open>select!\<close> sees first are inputs; what the process did is a list of actions.
\<close>

section \<open>The asynchronous part\<close>

text \<open>How the first finished branch of the \<open>select!\<close> ended.\<close>

datatype ended =
    HeartbeatEnded loop_outcome
  | InventoryEnded
  | DeliveryEnded
  | SignalReceived
  | ExternalStop

datatype action =
    OpenedQueue
  | RegisteredAgent nat
  | PublishedHealth health_ack
  | StartedLoops
  | SentShutdown

record async_io =
  as_api :: "api_error + unit"
  as_queue :: "spool_error + unit"
  as_register :: "nat \<Rightarrow> (register_request, agent_info) call_io"
  as_host :: string
  as_version :: string
  as_labels :: "(string \<times> string) list"
  as_ack :: "string + health_ack option"
  as_ended :: ended

definition shutdown_sent :: "ended \<Rightarrow> bool" where
  "shutdown_sent e \<longleftrightarrow> (case e of SignalReceived \<Rightarrow> True | ExternalStop \<Rightarrow> True | _ \<Rightarrow> False)"

definition updated_to :: "ended \<Rightarrow> string option" where
  "updated_to e = (case e of HeartbeatEnded (Updated version) \<Rightarrow> Some version | _ \<Rightarrow> None)"

text \<open>The publication of the health acknowledgement: an error is only logged.\<close>

definition health_actions :: "string + health_ack option \<Rightarrow> action list" where
  "health_actions ack = (case ack of Inr (Some a) \<Rightarrow> [PublishedHealth a] | _ \<Rightarrow> [])"

definition run_async :: "async_io \<Rightarrow> string \<Rightarrow> (string + unit) \<times> action list" where
  "run_async io aid =
     (case as_api io of
        Inl e \<Rightarrow> (Inl (api_error_display e), [])
      | Inr _ \<Rightarrow>
          (case as_queue io of
             Inl e \<Rightarrow> (Inl (spool_error_display e), [])
           | Inr _ \<Rightarrow>
               (case register_with_retry (as_register io) aid (as_host io) (as_version io) (as_labels io) heartbeat_client_new of
                  (Inl e, _, n, _) \<Rightarrow> (Inl e, [OpenedQueue])
                | (Inr _, _, n, _) \<Rightarrow>
                    (case updated_to (as_ended io) of
                       Some version \<Rightarrow> Inl (''restarting to run the newly installed build '' @ version)
                     | None \<Rightarrow> Inr (),
                     [OpenedQueue, RegisteredAgent n] @ health_actions (as_ack io) @ [StartedLoops]
                       @ (if shutdown_sent (as_ended io) then [SentShutdown] else [])))))"

text \<open>The whole run: the start, then the asynchronous part with the identity it loaded.\<close>

definition run_agent ::
  "start_io \<Rightarrow> async_io \<Rightarrow> bool \<Rightarrow> u8 list dir \<Rightarrow> locks \<Rightarrow> (string + unit) \<times> action list" where
  "run_agent start io running_as_service d held =
     (case run_internal start running_as_service d held of
        (Inl e, _) \<Rightarrow> (Inl e, [])
      | (Inr (c, aid), _) \<Rightarrow> run_async io aid)"

section \<open>Signals\<close>

datatype signal_event = Terminate | Interrupt | InterruptError

text \<open>
  \<open>wait_for_shutdown_signal\<close> in the Unix build: how many of the events it waits through, none
  if they do not end it. Without the handler for \<open>SIGTERM\<close> only the interrupt remains.
\<close>

fun wait_for_shutdown_signal :: "bool \<Rightarrow> signal_event list \<Rightarrow> nat option" where
  "wait_for_shutdown_signal installed [] = None"
| "wait_for_shutdown_signal installed (e # es) =
     (if installed \<or> e \<noteq> Terminate then Some 1
      else map_option Suc (wait_for_shutdown_signal installed es))"

section \<open>The Windows service\<close>

datatype service_control = ControlStop | ControlShutdown | ControlInterrogate | ControlOther

datatype handler_result = NoError | NotImplemented

text \<open>The control handler: its answer and whether it asks the agent to stop.\<close>

fun event_handler :: "service_control \<Rightarrow> handler_result \<times> bool" where
  "event_handler ControlStop = (NoError, True)"
| "event_handler ControlShutdown = (NoError, True)"
| "event_handler ControlInterrogate = (NoError, False)"
| "event_handler ControlOther = (NotImplemented, False)"

datatype service_state =
    ServiceStopped | ServiceStartPending | ServiceStopPending | ServiceRunning | ServiceOther nat

datatype exit_code = Win32Code u32 | ServiceSpecific u32

record service_io =
  si_register :: "string + unit"
  si_report_running :: "string + unit"
  si_report_stopped :: "string + unit"

text \<open>
  \<open>run_service\<close>: its result and the states reported to the service manager, in order.
  \<open>agent\<close> is the run of the agent, whose stop request comes from the handler.
\<close>

definition run_service ::
  "service_io \<Rightarrow> string + unit \<Rightarrow> (string + unit) \<times> (service_state \<times> exit_code) list" where
  "run_service io agent =
     (case si_register io of
        Inl e \<Rightarrow> (Inl (''failed to register service control handler: '' @ e), [])
      | Inr _ \<Rightarrow>
          (case si_report_running io of
             Inl e \<Rightarrow> (Inl (''failed to report service status: '' @ e), [])
           | Inr _ \<Rightarrow>
               (agent, (ServiceRunning, Win32Code 0) #
                  (case si_report_stopped io of
                     Inr _ \<Rightarrow> [(ServiceStopped, if is_ok agent then Win32Code 0 else ServiceSpecific 1)]
                   | Inl e \<Rightarrow> []))))"

text \<open>
  \<open>service_main\<close> appends the error to a file of a fixed directory; failing to is ignored.
\<close>

definition STARTUP_LOG :: string where "STARTUP_LOG = ''startup-error.log''"

definition startup_line :: "string + string \<Rightarrow> string \<Rightarrow> string" where
  "startup_line stamp error =
     (case stamp of Inr t \<Rightarrow> t | Inl _ \<Rightarrow> ''unknown-time'') @ '' service failed to start: '' @ error @ [CHR 0x0A]"

definition record_startup_failure :: "string + string \<Rightarrow> fault_plan \<Rightarrow> string \<Rightarrow> string dir \<Rightarrow> string dir" where
  "record_startup_failure stamp plan error d =
     (let line = startup_line stamp error in
      if fault plan OpenFile \<noteq> None then d
      else AList.update STARTUP_LOG
             (unwrap_or (map_of d STARTUP_LOG) []
              @ (if fault plan WriteTemp = None then line else take (bytes_written plan) line)) d)"

definition service_main ::
  "string + string \<Rightarrow> fault_plan \<Rightarrow> service_io \<Rightarrow> string + unit \<Rightarrow> string dir
   \<Rightarrow> (service_state \<times> exit_code) list \<times> string dir" where
  "service_main stamp plan io agent d =
     (case run_service io agent of
        (Inl e, reports) \<Rightarrow> (reports, record_startup_failure stamp plan e d)
      | (Inr _, reports) \<Rightarrow> (reports, d))"

section \<open>Restarting the Windows service\<close>

text \<open>
  \<open>wait_windows_service\<close>: every query answers with a state, and at the milliseconds since the
  start at which the deadline is then compared. None while it polls.
\<close>

record service_poll =
  sp_state :: "string + service_state"
  sp_elapsed :: nat

fun wait_windows_service :: "string \<Rightarrow> service_state \<Rightarrow> service_poll list \<Rightarrow> (string + unit) option" where
  "wait_windows_service shown expected [] = None"
| "wait_windows_service shown expected (q # qs) =
     (case sp_state q of
        Inl e \<Rightarrow> Some (Inl e)
      | Inr state \<Rightarrow>
          if state = expected then Some (Inr ())
          else if sp_elapsed q \<ge> 60000 then Some (Inl (''Lariska service failed to reach '' @ shown))
          else wait_windows_service shown expected qs)"

record restart_io =
  ri_open :: "string + unit"
  ri_status :: "string + service_state"
  ri_stop :: "string + unit"
  ri_stopping :: "service_poll list"
  ri_start :: "string + unit"
  ri_starting :: "service_poll list"

datatype service_request = RequestStop | RequestStart

text \<open>The result, none while it waits, and the requests that the manager accepted.\<close>

definition stop_service :: "restart_io \<Rightarrow> service_state \<Rightarrow> (string + unit) option \<times> service_request list" where
  "stop_service io state =
     (if state = ServiceStopped then (Some (Inr ()), [])
      else case (if state = ServiceStopPending then Inr () else ri_stop io) of
        Inl e \<Rightarrow> (Some (Inl e), [])
      | Inr _ \<Rightarrow> (wait_windows_service ''Stopped'' ServiceStopped (ri_stopping io),
                  if state = ServiceStopPending then [] else [RequestStop]))"

definition restart_windows_service :: "restart_io \<Rightarrow> (string + unit) option \<times> service_request list" where
  "restart_windows_service io =
     (case and_then (ri_open io) (\<lambda>_. ri_status io) of
        Inl e \<Rightarrow> (Some (Inl e), [])
      | Inr state \<Rightarrow>
          (case stop_service io state of
             (Some (Inr _), requests) \<Rightarrow>
               (case ri_start io of
                  Inl e \<Rightarrow> (Some (Inl e), requests)
                | Inr _ \<Rightarrow> (wait_windows_service ''Running'' ServiceRunning (ri_starting io), requests @ [RequestStart]))
           | (r, requests) \<Rightarrow> (r, requests)))"

section \<open>The diagnostic snapshot\<close>

text \<open>
  \<open>diagnostic_snapshot\<close>, printed by the command line: a version 2 snapshot with fixed ids, of
  the host \<open>c\<close> as it is now.
\<close>

definition diagnostic_snapshot :: "cycle \<Rightarrow> collector_result \<Rightarrow> endpoint_identifier list \<Rightarrow> inventory_snapshot" where
  "diagnostic_snapshot c collected ids =
     (let env = ho_env (cy_host c);
          release = linux_os_release (read_metadata env (file_system.truncate (ho_files (cy_host c)))) in
      snapshot_new_v2 (ce_sha env) ''diagnostic-snapshot'' ''agent_00000000000000000000000000000000''
        ''1970-01-01T00:00:00Z'' ''localhost'' (Some ''linux'') (Some (unwrap_or (or_name release) ''linux''))
        (or_version release) (Some (cy_arch c)) (ce_version env) (host_labels c) ids
        (cr_entries collected) (safe_collector_warnings (cr_sources collected)) (cr_sources collected))"

section \<open>What a run guarantees\<close>

lemma registered_attempt:
  assumes "register_with_retry io aid host version tags capability = (Inr (), ds, n, c)"
  shows "is_ok (attempt_result io aid host version tags n)"
  using register_loop_outcome [OF assms [unfolded register_with_retry_def]] by (auto split: sum.splits)

lemma run_async_cases:
  assumes "run_async io aid = (r, acts)"
  obtains e where "r = Inl e" "acts = [] \<or> acts = [OpenedQueue]"
  | n ds cap where "register_with_retry (as_register io) aid (as_host io) (as_version io) (as_labels io) heartbeat_client_new = (Inr (), ds, n, cap)"
      "acts = [OpenedQueue, RegisteredAgent n] @ health_actions (as_ack io) @ [StartedLoops]
         @ (if shutdown_sent (as_ended io) then [SentShutdown] else [])"
      "r = (case updated_to (as_ended io) of
         Some version \<Rightarrow> Inl (''restarting to run the newly installed build '' @ version) | None \<Rightarrow> Inr ())"
  using assms by (auto simp: run_async_def split: sum.splits prod.splits)

text \<open>
  Nothing the agent tells the server or the updater precedes a registration that the
  server accepted: a run that acknowledges an update's health or starts its loops first opened
  the queue and registered in its \<open>n\<close>-th attempt, and that attempt succeeded.
\<close>

theorem health_follows_registration:
  assumes "run_async io aid = (r, acts)" and "PublishedHealth ack \<in> set acts \<or> StartedLoops \<in> set acts"
  shows "\<exists>n rest. acts = OpenedQueue # RegisteredAgent n # rest \<and> n \<le> 5
    \<and> is_ok (attempt_result (as_register io) aid (as_host io) (as_version io) (as_labels io) n)
    \<and> (PublishedHealth ack \<in> set acts \<longrightarrow> as_ack io = Inr (Some ack))"
  using assms(1)
proof (cases rule: run_async_cases)
  case (2 n ds cap)
  have "n \<le> 5" using register_loop_outcome [OF 2(1) [unfolded register_with_retry_def]] by auto
  then show ?thesis
    using 2(2) registered_attempt [OF 2(1)] by (auto simp: health_actions_def split: sum.splits option.splits)
qed (use assms(2) in auto)

text \<open>
  Under the Windows service manager a run that accepted its status reports runs and
  then stops, with exit code 0 exactly when the agent registered and ended without a newly
  installed build; in every other case the manager sees a failure, which makes it restart the
  service, and the reason is the last line of the startup log.
\<close>

theorem service_restarts_after_update:
  assumes "si_register io = Inr ()" "si_report_running io = Inr ()" "si_report_stopped io = Inr ()"
    and "service_main stamp no_faults io (fst (run_async as aid)) d = (reports, d')"
  shows "\<exists>code. reports = [(ServiceRunning, Win32Code 0), (ServiceStopped, code)]
    \<and> (code = Win32Code 0 \<longleftrightarrow> StartedLoops \<in> set (snd (run_async as aid)) \<and> updated_to (as_ended as) = None)
    \<and> (code \<noteq> Win32Code 0 \<longrightarrow> code = ServiceSpecific 1 \<and>
         (\<exists>e. fst (run_async as aid) = Inl e \<and>
            map_of d' STARTUP_LOG = Some (unwrap_or (map_of d STARTUP_LOG) [] @ startup_line stamp e)))"
proof -
  obtain r acts where run: "run_async as aid = (r, acts)" by force
  have ok: "is_ok r \<longleftrightarrow> StartedLoops \<in> set acts \<and> updated_to (as_ended as) = None"
    using run by (cases rule: run_async_cases) (auto split: option.splits)
  show ?thesis
  proof (cases r)
    case (Inl e)
    then show ?thesis
      using assms run ok by (auto simp: service_main_def run_service_def record_startup_failure_def Let_def)
  next
    case (Inr u)
    then show ?thesis
      using assms run ok by (auto simp: service_main_def run_service_def)
  qed
qed

text \<open>The wait ends: with 200 milliseconds between the queries, 301 of them are enough.\<close>

lemma wait_windows_ends:
  assumes "\<And>i. i < length qs \<Longrightarrow> 200 * (k + i) \<le> sp_elapsed (qs ! i)" and "301 \<le> k + length qs" and "k \<le> 300"
  shows "wait_windows_service shown expected qs \<noteq> None"
  using assms
proof (induction qs arbitrary: k)
  case (Cons q qs)
  show ?case
  proof (cases "sp_elapsed q \<ge> 60000")
    case False
    have "200 * (Suc k + i) \<le> sp_elapsed (qs ! i)" if "i < length qs" for i
      using Cons.prems(1) [of "Suc i"] that by simp
    moreover have "Suc k \<le> 300" using Cons.prems(1) [of 0] False by simp
    ultimately show ?thesis using Cons.IH [of "Suc k"] Cons.prems(2) by (auto split: sum.splits)
  qed (auto split: sum.splits)
qed simp

lemma wait_windows_ok:
  "wait_windows_service shown expected qs = Some (Inr ()) \<Longrightarrow> \<exists>q\<in>set qs. sp_state q = Inr expected"
  by (induction qs) (auto split: sum.splits if_splits)

text \<open>
  The service is started only after the manager reported it stopped, it is asked to stop at
  most once, and success means that it was seen running.
\<close>

lemma restart_windows_safe:
  assumes "restart_windows_service io = (r, requests)"
  shows "requests \<in> {[], [RequestStop], [RequestStart], [RequestStop, RequestStart]}"
    and "RequestStart \<in> set requests \<Longrightarrow>
      ri_status io = Inr ServiceStopped \<or> (\<exists>q\<in>set (ri_stopping io). sp_state q = Inr ServiceStopped)"
    and "r = Some (Inr ()) \<Longrightarrow> \<exists>q\<in>set (ri_starting io). sp_state q = Inr ServiceRunning"
  using assms by (auto simp: restart_windows_service_def stop_service_def and_then_def
      dest: wait_windows_ok split: sum.splits option.splits if_splits)

lemma signal_ends_wait: "wait_for_shutdown_signal True (e # es) = Some 1"
  by simp

definition sample_run :: "ended \<Rightarrow> async_io" where
  "sample_run e = \<lparr>as_api = Inr (), as_queue = Inr (), as_register = sample_register_io, as_host = ''host'',
     as_version = ''0.5.0'', as_labels = [], as_ack = Inr (Some \<lparr>ha_nonce = ''n'', ha_version = ''0.5.0'', ha_at = 7\<rparr>),
     as_ended = e\<rparr>"

lemma sample_run_outcome:
  "run_async (sample_run e) ''agent_1'' =
     (case updated_to e of Some version \<Rightarrow> Inl (''restarting to run the newly installed build '' @ version) | None \<Rightarrow> Inr (),
      [OpenedQueue, RegisteredAgent 3, PublishedHealth \<lparr>ha_nonce = ''n'', ha_version = ''0.5.0'', ha_at = 7\<rparr>, StartedLoops]
        @ (if shutdown_sent e then [SentShutdown] else []))"
proof -
  have "\<exists>c. register_with_retry sample_register_io ''agent_1'' ''host'' ''0.5.0'' [] heartbeat_client_new = (Inr (), [1, 2], 3, c)"
    by (simp add: register_with_retry_def register_loop.simps register_def call_with_refresh_def sample_register_io_def
        is_retryable_def REGISTER_MAX_ATTEMPTS_def REGISTER_BASE_BACKOFF_def Let_def)
  then show ?thesis by (auto simp: run_async_def sample_run_def health_actions_def)
qed

theorem health_follows_registration_witness:
  "\<exists>n rest. snd (run_async (sample_run SignalReceived) ''agent_1'') = OpenedQueue # RegisteredAgent n # rest
    \<and> is_ok (attempt_result sample_register_io ''agent_1'' ''host'' ''0.5.0'' [] n)"
  using health_follows_registration [OF sample_run_outcome [of SignalReceived], of "\<lparr>ha_nonce = ''n'', ha_version = ''0.5.0'', ha_at = 7\<rparr>"]
  by (auto simp: sample_run_outcome) (simp_all add: sample_run_def)

theorem service_restarts_after_update_witness:
  "let out = service_main (Inr ''t'') no_faults \<lparr>si_register = Inr (), si_report_running = Inr (), si_report_stopped = Inr ()\<rparr>
       (fst (run_async (sample_run (HeartbeatEnded (Updated ''0.6.0''))) ''agent_1'')) []
   in fst out = [(ServiceRunning, Win32Code 0), (ServiceStopped, ServiceSpecific 1)]"
  using service_restarts_after_update
    [of "\<lparr>si_register = Inr (), si_report_running = Inr (), si_report_stopped = Inr ()\<rparr>" "Inr ''t''"
        "sample_run (HeartbeatEnded (Updated ''0.6.0''))" "''agent_1''" "[]", OF _ _ _ surjective_pairing]
  by (auto simp: Let_def updated_to_def sample_run_def)

end
