(* ===== verification/Handshake.thy ===== *)
theory Handshake
  imports Native_Reach Agent_Process
begin

text \<open>
  The health handshake between the two processes of an update: the supervisor publishes the
  pending transaction (\<open>src/src/native_update.rs\<close>, \<open>src/src/update.rs\<close>), the agent it
  restarted acknowledges it after a registration or a heartbeat that the server accepted
  (\<open>src/src/app.rs\<close>, \<open>src/src/heartbeat.rs\<close>), and the supervisor commits the release. The agent
  here is the program itself, in any version; what a hostile agent can do to the mailbox is
  covered by the reachable states of the supervisor.
\<close>

section \<open>The two processes\<close>

text \<open>A contact: an accepted registration or heartbeat by a version, and the transaction it acknowledges.\<close>

record contact =
  co_version :: string
  co_nonce :: string
  co_at :: u64

record site =
  st_disk :: native_disk
  st_agent :: "string option"
  st_ack :: "health_ack option"
  st_contacts :: "contact list"

definition as_version_of :: "'v update_env \<Rightarrow> string \<Rightarrow> 'v update_env" where
  "as_version_of env v = env\<lparr>ue_pkg_version := v\<rparr>"

definition contacted :: "string \<Rightarrow> health_ack \<Rightarrow> site \<Rightarrow> site" where
  "contacted v a s = s\<lparr>st_ack := Some a,
     st_contacts := \<lparr>co_version = v, co_nonce = ha_nonce a, co_at = ha_at a\<rparr> # st_contacts s\<rparr>"

text \<open>
  What can happen, in any order. A turn and a seeding have any plan of faults and crashes. A
  process of any version starts and stops; when the server accepted its registration or a
  heartbeat it reads the mailbox, and some time later writes its acknowledgement, or fails to.
\<close>

inductive site_step :: "('v::linorder) native_env \<Rightarrow> site \<Rightarrow> site \<Rightarrow> bool" for env where
  turn: "site_step env s
    (s\<lparr>st_disk := nw_disk (snd (supervise_turn env run exists examined requests (start_world (st_disk s))))\<rparr>)"
| seeding: "site_step env s (s\<lparr>st_disk := nw_disk (snd (seed env run tag request (start_world (st_disk s))))\<rparr>)"
| starts: "site_step env s (s\<lparr>st_agent := Some v, st_ack := None\<rparr>)"
| stops: "site_step env s (s\<lparr>st_agent := None, st_ack := None\<rparr>)"
| registers: "st_agent s = Some v \<Longrightarrow> as_version io = v
    \<Longrightarrow> as_ack io = ack_health (as_version_of (ne_update env) v) clock can_open (nd_pending_health (st_disk s))
    \<Longrightarrow> run_async io aid = (r, acts) \<Longrightarrow> PublishedHealth a \<in> set acts
    \<Longrightarrow> site_step env s (contacted v a s)"
| beats: "st_agent s = Some v
    \<Longrightarrow> heartbeat_with_revision (as_version_of (ne_update env) v) io aid Idle None None applied capability = (Inr x, capability')
    \<Longrightarrow> ack_health (as_version_of (ne_update env) v) clock can_open (nd_pending_health (st_disk s)) = Inr (Some a)
    \<Longrightarrow> site_step env s (contacted v a s)"
| writes: "st_ack s = Some a
    \<Longrightarrow> site_step env s (s\<lparr>st_disk := (st_disk s)\<lparr>nd_health := Json a\<rparr>, st_ack := None\<rparr>)"
| fails: "site_step env s (s\<lparr>st_ack := None\<rparr>)"
| mailbox: "site_step env s (s\<lparr>st_disk := (st_disk s)\<lparr>nd_mailbox_open := opened, nd_result := result\<rparr>\<rparr>)"

inductive site_reaches :: "('v::linorder) native_env \<Rightarrow> site \<Rightarrow> site \<Rightarrow> bool" for env where
  refl: "site_reaches env s s"
| step: "site_reaches env s t \<Longrightarrow> site_step env t u \<Longrightarrow> site_reaches env s u"

section \<open>Relations that every step of the supervisor obeys\<close>

definition obeys :: "(native_disk \<Rightarrow> native_disk \<Rightarrow> bool) \<Rightarrow> 'a nio \<Rightarrow> bool" where
  "obeys R m \<longleftrightarrow> (\<forall>w. R (nw_disk w) (nw_disk (snd (m w))))"

lemma obeysI: "(\<And>w r w'. m w = (r, w') \<Longrightarrow> R (nw_disk w) (nw_disk w')) \<Longrightarrow> obeys R m"
  unfolding obeys_def by (metis prod.collapse)

lemma obeysD: "obeys R m \<Longrightarrow> m w = (r, w') \<Longrightarrow> R (nw_disk w) (nw_disk w')"
  unfolding obeys_def by (metis snd_conv)

locale disk_relation =
  fixes R :: "native_disk \<Rightarrow> native_disk \<Rightarrow> bool"
  assumes stays: "R d d" and chains: "R a b \<Longrightarrow> R b c \<Longrightarrow> R a c"
begin

lemma simple:
  "obeys R (return_nio a)" "obeys R (lift_nio r)" "obeys R (read_disk f)" "obeys R get_journal"
  "obeys R open_mailbox" "obeys R (now_or_zero run)" "obeys R (set_journal g)" "obeys R (\<lambda>w. (h w, w))"
  by (simp_all add: obeys_def stays return_nio_def lift_nio_def read_disk_def get_journal_def open_mailbox_def
      now_or_zero_def set_journal_def)

lemma bind:
  assumes "obeys R m" and "\<And>a. obeys R (k a)"
  shows "obeys R (bind_nio m k)"
proof (rule obeysI)
  fix w r w' assume b: "bind_nio m k w = (r, w')"
  obtain x w1 where m: "m w = (x, w1)" by force
  show "R (nw_disk w) (nw_disk w')"
    using b m obeysD [OF assms(1) m] obeysD [OF assms(2)] by (cases x) (auto simp: bind_nio_def intro: chains)
qed

lemma steps: "(\<And>d. R d (f d)) \<Longrightarrow> obeys R (durable run f)"
  by (simp add: obeys_def durable_def Let_def stays split: option.split io_fault.split)

lemma idle: "obeys R (durable run id)"
  by (rule steps) (simp add: stays)

lemma ignored: "obeys R m \<Longrightarrow> obeys R (ignore m)"
  by (simp add: obeys_def ignore_def)

lemma cleaned:
  assumes "obeys R m" and "obeys R c"
  shows "obeys R (on_error m c)"
proof (rule obeysI)
  fix w r w' assume b: "on_error m c w = (r, w')"
  obtain x w1 where m: "m w = (x, w1)" by force
  obtain y w2 where c: "c w1 = (y, w2)" by force
  show "R (nw_disk w) (nw_disk w')"
    using b m c obeysD [OF assms(1) m] obeysD [OF assms(2) c] by (cases x) (auto simp: on_error_def intro: chains)
qed

lemma chosen: "obeys R a \<Longrightarrow> obeys R b \<Longrightarrow> obeys R (if c then a else b)"
  by simp

lemma paired: "(\<And>a b. obeys R (f a b)) \<Longrightarrow> obeys R (case p of (a, b) \<Rightarrow> f a b)"
  by (cases p) simp

lemma optional: "obeys R a \<Longrightarrow> (\<And>x. obeys R (f x)) \<Longrightarrow> obeys R (case v of None \<Rightarrow> a | Some x \<Rightarrow> f x)"
  by (cases v) simp_all

lemmas rules = simple idle ignored cleaned chosen paired optional bind

end

text \<open>Most steps leave the ledger and the acknowledgement alone.\<close>

definition same_docs :: "native_disk \<Rightarrow> native_disk \<Rightarrow> bool" where
  "same_docs d d' \<longleftrightarrow> nd_ledger d' = nd_ledger d \<and> nd_health d' = nd_health d"

interpretation docs: disk_relation same_docs
  by unfold_locales (auto simp: same_docs_def)

text \<open>An acknowledgement on disk, and a release recorded as healthy, go back to a contact.\<close>

definition healthy_vouched :: "contact list \<Rightarrow> history_entry list \<Rightarrow> bool" where
  "healthy_vouched C hs \<longleftrightarrow> (\<forall>h\<in>set hs. he_outcome h = ''healthy'' \<longrightarrow>
     (\<exists>c\<in>set C. co_version c = he_version h \<and> co_nonce c = he_nonce h))"

definition vouched :: "contact list \<Rightarrow> native_disk \<Rightarrow> bool" where
  "vouched C d \<longleftrightarrow>
     (\<forall>a. nd_health d = Json a \<longrightarrow> \<lparr>co_version = ha_version a, co_nonce = ha_nonce a, co_at = ha_at a\<rparr> \<in> set C)
     \<and> (\<forall>l. nd_ledger d = Json l \<longrightarrow> healthy_vouched C (ledger_history l))"

definition keeps_vouched :: "contact list \<Rightarrow> native_disk \<Rightarrow> native_disk \<Rightarrow> bool" where
  "keeps_vouched C d d' \<longleftrightarrow> (vouched C d \<longrightarrow> vouched C d')"

interpretation vouch: disk_relation "keeps_vouched C" for C
  by unfold_locales (auto simp: keeps_vouched_def)

lemma docs_vouch: "obeys same_docs m \<Longrightarrow> obeys (keeps_vouched C) m"
  by (simp add: obeys_def same_docs_def keeps_vouched_def vouched_def)

section \<open>Steps that leave the documents alone\<close>

lemma docs_remove_dir: "obeys same_docs (remove_dir run name)"
  unfolding remove_dir_def by (rule docs.steps) (simp add: same_docs_def)

lemma docs_remove_dirs: "obeys same_docs (remove_dirs run names)"
  by (induction names) (auto intro: docs.rules docs_remove_dir)

lemma docs_write_journal: "obeys same_docs (write_journal env run)"
  unfolding write_journal_def by (intro docs.rules docs.steps) (simp add: same_docs_def)

lemma docs_read_ledger: "obeys same_docs (read_ledger_io env run)"
  unfolding read_ledger_io_def by (intro docs.rules)

lemma docs_prune_cache: "obeys same_docs (prune_cache run)"
  unfolding prune_cache_def by (intro docs.rules docs_remove_dirs)

lemma docs_prune_consumed: "obeys same_docs (prune_consumed env run)"
  unfolding prune_consumed_def by (intro docs.rules docs_read_ledger)

lemma docs_remember_nonce: "obeys same_docs (remember_consumed_nonce env run nonce version sequence)"
  unfolding remember_consumed_nonce_def by (intro docs.rules docs_prune_consumed docs_write_journal)

lemma docs_remember: "obeys same_docs (remember_consumed_request env run nonce manifest)"
  unfolding remember_consumed_request_def by (rule docs_remember_nonce)

lemma docs_copy_request: "obeys same_docs (copy_request run request dest max_bytes)"
  unfolding copy_request_def
  by (intro docs.rules docs.steps docs_remove_dir) (simp_all add: same_docs_def set_dir_def)

lemma docs_verify: "obeys same_docs (verify_cached env run name)"
  "obeys same_docs (verify_cached_for_recovery env run name)"
  unfolding verify_cached_def verify_cached_for_recovery_def by (intro docs.rules)+

lemma docs_op_install: "obeys same_docs (op_install run nonce manifest dir)"
  unfolding op_install_def by (intro docs.rules docs.steps) (simp add: same_docs_def log_install_def)

lemma docs_op_restart: "obeys same_docs (op_restart run)"
  unfolding op_restart_def by (intro docs.rules)

lemma docs_refuse: "obeys same_docs (refuse_failed_release env run manifest)"
  unfolding refuse_failed_release_def by (intro docs.rules docs_read_ledger)

lemma docs_ack_request: "obeys same_docs (ack_request run nonce outcome)"
  unfolding ack_request_def by (intro docs.rules docs.steps) (simp add: same_docs_def)

lemmas docs_rules = docs_remove_dir docs_write_journal docs_read_ledger docs_prune_cache docs_remember_nonce docs_remember
  docs_copy_request docs_verify docs_op_install docs_op_restart docs_refuse docs_ack_request

section \<open>Steps that write the ledger\<close>

lemma vouched_mono: "vouched C d \<Longrightarrow> set C \<subseteq> set C' \<Longrightarrow> vouched C' d"
  unfolding vouched_def healthy_vouched_def by blast

lemma keeps_vouched_cleared [simp]:
  "keeps_vouched C d (d\<lparr>nd_health := Missing\<rparr>)" "keeps_vouched C d (d\<lparr>nd_pending_health := p\<rparr>)"
  "keeps_vouched C d (d\<lparr>nd_mailbox_open := opened, nd_result := result\<rparr>)"
  by (simp_all add: keeps_vouched_def vouched_def)

lemma vouch_publish: "obeys (keeps_vouched C) (publish_pending_health run pending)"
  unfolding publish_pending_health_def by (intro vouch.rules vouch.steps) simp_all

text \<open>A ledger computed from the one on disk is written back.\<close>

lemma vouch_ledger:
  assumes "\<And>w x. vouched C (nw_disk w) \<Longrightarrow> g w = Inr x \<Longrightarrow> healthy_vouched C (ledger_history (f x))"
    and "\<And>x. obeys (keeps_vouched C) (k x)"
  shows "obeys (keeps_vouched C)
    (bind_nio (\<lambda>w. (g w, w)) (\<lambda>x. bind_nio (durable run (\<lambda>d. d\<lparr>nd_ledger := Json (f x)\<rparr>)) (\<lambda>_. k x)))"
proof (rule obeysI)
  fix w r w'
  assume b: "bind_nio (\<lambda>w. (g w, w)) (\<lambda>x. bind_nio (durable run (\<lambda>d. d\<lparr>nd_ledger := Json (f x)\<rparr>)) (\<lambda>_. k x)) w = (r, w')"
  show "keeps_vouched C (nw_disk w) (nw_disk w')"
  proof (cases "g w")
    case (Inl e)
    with b show ?thesis by (auto simp: bind_nio_def keeps_vouched_def)
  next
    case (Inr x)
    then have m: "bind_nio (durable run (\<lambda>d. d\<lparr>nd_ledger := Json (f x)\<rparr>)) (\<lambda>_. k x) w = (r, w')"
      using b by (simp add: bind_nio_def)
    obtain y w1 where d: "durable run (\<lambda>d. d\<lparr>nd_ledger := Json (f x)\<rparr>) w = (y, w1)" by force
    have one: "keeps_vouched C (nw_disk w) (nw_disk w1)"
      using d assms(1) [OF _ Inr]
      by (auto simp: durable_def Let_def keeps_vouched_def vouched_def split: if_splits option.splits io_fault.splits)
    show ?thesis
    proof (cases y)
      case (Inl e)
      with m d one show ?thesis by (simp add: bind_nio_def)
    next
      case (Inr u)
      then have "k x w1 = (r, w')" using m d by (simp add: bind_nio_def)
      from vouch.chains [OF one obeysD [OF assms(2) this]] show ?thesis .
    qed
  qed
qed

lemma read_ledger_vouched:
  "vouched C d \<Longrightarrow> read_ledger env (nd_ledger d) = Inr l \<Longrightarrow> healthy_vouched C (ledger_history l)"
  by (cases "nd_ledger d")
     (auto simp: vouched_def read_ledger_def default_ledger_def healthy_vouched_def and_then_Inr_iff split: if_splits)

lemma vouch_commit: "obeys (keeps_vouched C) (commit_pending env run manifest nonce)"
  unfolding commit_pending_def case_prod_beta
  by (intro vouch.bind vouch.idle vouch_ledger vouch_publish)
     (auto simp: ledger_commit_def and_then_Inr_iff split: if_splits dest: read_ledger_vouched)

lemma vouch_arm: "obeys (keeps_vouched C) (arm_health env run nonce)"
  unfolding arm_health_def case_prod_beta
  by (intro vouch.bind vouch.idle vouch_ledger vouch_publish vouch.simple)
     (auto simp: ledger_arm_def and_then_Inr_iff Let_def split: if_splits dest: read_ledger_vouched)

text \<open>Finishing adds one record; it is vouched for unless it says healthy without a contact.\<close>

lemma finish_vouched:
  assumes "vouched C d" and "ledger_finish env uc clock nonce healthy reason (nd_ledger d) = Inr l'"
    and "\<And>l p. healthy \<Longrightarrow> read_ledger env (nd_ledger d) = Inr l \<Longrightarrow> ledger_pending l = Some p
      \<Longrightarrow> \<exists>c\<in>set C. co_version c = pu_version p \<and> co_nonce c = pu_nonce p"
  shows "healthy_vouched C (ledger_history l')"
proof -
  obtain l p now n where l: "read_ledger env (nd_ledger d) = Inr l" "ledger_pending l = Some p"
    and h: "ledger_history l' = drop n (ledger_history l @ [finish_record p now healthy reason])"
    using assms(2) by (auto simp: ledger_finish_def and_then_Inr_iff Let_def simp del: drop_append
        dest!: raise_floor_le split: if_splits)
  have "healthy_vouched C (ledger_history l @ [finish_record p now healthy reason])"
    using read_ledger_vouched [OF assms(1) l(1)] assms(3) [OF _ l]
    by (auto simp: healthy_vouched_def finish_record_def)
  then show ?thesis unfolding h healthy_vouched_def by (meson in_set_dropD)
qed

lemma finish_cleanup: "obeys (keeps_vouched C) (ignore (bind_nio open_mailbox (\<lambda>_.
    bind_nio (ignore (durable run (\<lambda>d. d\<lparr>nd_pending_health := Missing\<rparr>))) (\<lambda>_.
      durable run (\<lambda>d. d\<lparr>nd_health := Missing\<rparr>)))))"
  by (intro vouch.rules vouch.steps) simp_all

lemma vouch_rolled_back: "obeys (keeps_vouched C) (finish_update env run nonce False reason)"
  unfolding finish_update_def
  by (intro vouch.bind vouch.idle vouch_ledger finish_cleanup) (auto dest: finish_vouched)

text \<open>
  The one step that records a release as healthy: between the check of the acknowledgement
  and the record nothing else happens, and the ledger is the one the transaction came from.
\<close>

lemma vouch_healthy:
  assumes v: "vouched C (nw_disk w)" and l: "read_ledger (ne_update env) (nd_ledger (nw_disk w)) = Inr l" "ledger_pending l = Some p"
    and ok: "health_status_for_pending clock (nd_mailbox_open (nw_disk w)) (nd_health (nw_disk w)) p = Inr True"
  shows "vouched C (nw_disk (snd (finish_update env run nonce True reason w)))"
proof -
  obtain a where a: "nd_health (nw_disk w) = Json a" "ha_nonce a = pu_nonce p" "ha_version a = pu_version p"
    using ok by (auto simp: health_status_for_pending_def and_then_Inr_iff split: if_splits json_file.splits)
  then have c: "\<exists>c\<in>set C. co_version c = pu_version p \<and> co_nonce c = pu_nonce p"
    using v by (force simp: vouched_def)
  define g where "g w = ledger_finish (ne_update env) (ne_policy env) (unix_now run w) nonce True reason (nd_ledger (nw_disk w))" for w
  let ?rest = "\<lambda>x. bind_nio (durable run (\<lambda>d. d\<lparr>nd_ledger := Json x\<rparr>)) (\<lambda>_. ignore (bind_nio open_mailbox (\<lambda>_.
       bind_nio (ignore (durable run (\<lambda>d. d\<lparr>nd_pending_health := Missing\<rparr>))) (\<lambda>_.
         durable run (\<lambda>d. d\<lparr>nd_health := Missing\<rparr>)))))"
  obtain r w1 where d: "durable run id w = (r, w1)" by force
  then have same: "nw_disk w1 = nw_disk w"
    by (auto simp: durable_def Let_def split: if_splits option.splits io_fault.splits)
  have "obeys (keeps_vouched C) (?rest x)" if "g w1 = Inr x" for x
  proof -
    have "healthy_vouched C (ledger_history x)"
      using that v l c by (auto simp: g_def same intro!: finish_vouched [of C "nw_disk w"])
    then show ?thesis
      by (intro vouch.bind vouch.steps finish_cleanup) (auto simp: keeps_vouched_def vouched_def)
  qed
  then have "vouched C (nw_disk (snd (bind_nio (\<lambda>w. (g w, w)) ?rest w1)))"
    using v same by (cases "g w1") (auto simp: bind_nio_def obeys_def keeps_vouched_def)
  then show ?thesis
    using d v same by (cases r) (auto simp: finish_update_def g_def bind_nio_def)
qed

lemma vouch_rollback: "obeys (keeps_vouched C) (rollback_with env run reason)"
  unfolding rollback_with_def
  by (intro vouch.rules vouch_rolled_back docs_rules [THEN docs_vouch])

lemma vouch_accept: "obeys (keeps_vouched C) (accept_request_with env run nonce request)"
proof -
  have install: "obeys (keeps_vouched C) (install_and_restart env run nonce manifest dir)" for manifest dir
    unfolding install_and_restart_def by (intro vouch.rules vouch_arm docs_rules [THEN docs_vouch])
  have "obeys (keeps_vouched C) (install_or_roll_back env run nonce manifest dir)" for manifest dir
  proof (rule obeysI)
    fix w r w' assume b: "install_or_roll_back env run nonce manifest dir w = (r, w')"
    obtain x w1 where i: "install_and_restart env run nonce manifest dir w = (x, w1)" by force
    show "keeps_vouched C (nw_disk w) (nw_disk w')"
    proof (cases x)
      case (Inl e)
      obtain y w2 where k: "rollback_with env run (''native_install_failed: '' @ e) w1 = (y, w2)" by force
      from b i Inl k have "w' = w2" by (cases y) (auto simp: install_or_roll_back_def)
      with vouch.chains [OF obeysD [OF install i] obeysD [OF vouch_rollback k]] show ?thesis by simp
    next
      case (Inr u)
      with b i have "w' = w1" by (simp add: install_or_roll_back_def)
      with obeysD [OF install i] show ?thesis by simp
    qed
  qed
  then show ?thesis
    unfolding accept_request_with_def reserve_request_def
    by (intro vouch.rules vouch_commit docs_rules [THEN docs_vouch])
qed

lemma vouch_serve: "obeys (keeps_vouched C) (serve_requests env run exists examined requests)"
proof (induction requests arbitrary: examined)
  case Nil
  then show ?case by (simp add: vouch.simple)
next
  case (Cons request requests)
  obtain nonce r where "request = (nonce, r)" by force
  then show ?case
    by (auto simp: Let_def intro!: vouch.rules vouch_accept docs_rules [THEN docs_vouch] Cons.IH)
qed

lemma vouch_resolve:
  assumes "vouched C (nw_disk w)" and "read_ledger (ne_update env) (nd_ledger (nw_disk w)) = Inr l" and "ledger_pending l = Some a"
  shows "vouched C (nw_disk (snd (resolve_pending env run a p w)))"
proof -
  obtain x w1 where x: "remember_consumed_request env run (np_nonce p) (cr_manifest (np_release p)) w = (x, w1)" by force
  then have d: "same_docs (nw_disk w) (nw_disk w1)" by (rule obeysD [OF docs_remember])
  with assms have v: "vouched C (nw_disk w1)" and l: "read_ledger (ne_update env) (nd_ledger (nw_disk w1)) = Inr l"
    by (simp_all add: same_docs_def vouched_def)
  let ?healthy = "health_status_for_pending (unix_now run w1) (nd_mailbox_open (nw_disk w1)) (nd_health (nw_disk w1)) a = Inr True"
  let ?settle = "bind_nio (set_journal (\<lambda>j. j\<lparr>jn_active := Some (np_release p), jn_pending := None\<rparr>)) (\<lambda>_.
      bind_nio (write_journal env run) (\<lambda>_. prune_cache run))"
  have settle: "obeys (keeps_vouched C) ?settle" by (intro vouch.rules docs_rules [THEN docs_vouch])
  show ?thesis
  proof (cases "is_ok x \<and> ?healthy")
    case True
    obtain y w2 where y: "finish_update env run (np_nonce p) True ''healthy_heartbeat'' w1 = (y, w2)" by force
    then have "vouched C (nw_disk w2)" using vouch_healthy [OF v l assms(3)] True by (metis snd_conv)
    with True x y settle show ?thesis
      by (cases x; cases y) (auto simp: resolve_pending_def bind_nio_def obeys_def keeps_vouched_def)
  next
    case False
    have "obeys (keeps_vouched C) (bind_nio (now_or_zero run) (\<lambda>t. if t \<ge> pu_deadline a
        then rollback_with env run ''healthy_heartbeat_timeout'' else return_nio ()))"
      by (intro vouch.rules vouch_rollback)
    with False x v show ?thesis
      by (cases x) (auto simp: resolve_pending_def bind_nio_def obeys_def keeps_vouched_def)
  qed
qed

lemma vouch_recover: "obeys (keeps_vouched C) (recover_or_ack_with env run)"
proof (rule obeysI)
  fix w r w' assume b: "recover_or_ack_with env run w = (r, w')"
  obtain x w1 where x: "read_ledger_io env run w = (x, w1)" by force
  have d1: "same_docs (nw_disk w) (nw_disk w1)" by (rule obeysD [OF docs_read_ledger x])
  then have v1: "vouched C (nw_disk w) \<Longrightarrow> vouched C (nw_disk w1)" by (simp add: same_docs_def vouched_def)
  show "keeps_vouched C (nw_disk w) (nw_disk w')" unfolding keeps_vouched_def
  proof
    assume "vouched C (nw_disk w)"
    with v1 have v: "vouched C (nw_disk w1)" by simp
    show "vouched C (nw_disk w')"
    proof (cases x)
      case (Inl e)
      with b x v show ?thesis by (simp add: recover_or_ack_with_def bind_nio_def)
    next
      case (Inr l)
      have l: "read_ledger (ne_update env) (nd_ledger (nw_disk w1)) = Inr l"
        using x Inr by (auto simp: read_ledger_io_def bind_nio_def split: prod.splits sum.splits)
      define rest where "rest = (case jn_pending (nw_journal w1) of
         None \<Rightarrow> (case ledger_pending l of
            None \<Rightarrow> return_nio ()
          | Some interrupted \<Rightarrow>
              bind_nio (remember_consumed_nonce env run (pu_nonce interrupted) (pu_version interrupted)
                (pu_sequence interrupted)) (\<lambda>_.
              finish_update env run (pu_nonce interrupted) False ''interrupted_before_install''))
       | Some pending \<Rightarrow> (case ledger_pending l of
            None \<Rightarrow> recover_completed env run l pending
          | Some authoritative \<Rightarrow>
              if pu_nonce authoritative \<noteq> np_nonce pending
                 \<or> pu_version authoritative \<noteq> rm_version (cr_manifest (np_release pending))
                 \<or> pu_sequence authoritative \<noteq> rm_sequence (cr_manifest (np_release pending))
              then lift_nio (Inl ''protected transaction identities disagree'')
              else resolve_pending env run authoritative pending))"
      have run: "rest w1 = (r, w')"
        using b x Inr by (simp add: recover_or_ack_with_def bind_nio_def get_journal_def rest_def)
      show ?thesis
      proof (cases "\<exists>p a. jn_pending (nw_journal w1) = Some p \<and> ledger_pending l = Some a \<and> rest = resolve_pending env run a p")
        case True
        then obtain p a where a: "ledger_pending l = Some a" "rest = resolve_pending env run a p" by blast
        show ?thesis using vouch_resolve [OF v l a(1)] run a(2) by (metis snd_conv)
      next
        case False
        then have "obeys (keeps_vouched C) rest"
          unfolding rest_def recover_completed_def Let_def
          by (auto split: option.splits if_splits intro!: vouch.rules vouch_rolled_back docs_rules [THEN docs_vouch])
        with obeysD [OF this run] v show ?thesis by (simp add: keeps_vouched_def)
      qed
    qed
  qed
qed

lemma vouch_turn: "obeys (keeps_vouched C) (supervise_turn env run exists examined requests)"
  unfolding supervise_turn_def
  by (intro vouch.rules vouch_recover vouch_serve docs_rules [THEN docs_vouch])

lemma vouch_seed: "obeys (keeps_vouched C) (seed env run tag request)"
  unfolding seed_def Let_def
  by (intro vouch.rules vouch_ledger docs_rules [THEN docs_vouch])
    (auto simp: and_then_Inr_iff dest!: raise_floor_le dest: read_ledger_vouched)

section \<open>What a healthy record means\<close>

definition ack_vouched :: "site \<Rightarrow> bool" where
  "ack_vouched s \<longleftrightarrow> (\<forall>a. st_ack s = Some a \<longrightarrow>
     \<lparr>co_version = ha_version a, co_nonce = ha_nonce a, co_at = ha_at a\<rparr> \<in> set (st_contacts s))"

lemma ack_health_version:
  assumes "ack_health (as_version_of env v) clock can_open file = Inr (Some a)"
  shows "ha_version a = v"
  using assms
  by (auto simp: ack_health_def as_version_of_def and_then_Inr_iff split: if_splits json_file.splits)

lemma contact_vouched:
  assumes "vouched (st_contacts s) (st_disk s)" and "ha_version a = v"
  shows "vouched (st_contacts (contacted v a s)) (st_disk (contacted v a s)) \<and> ack_vouched (contacted v a s)"
  using vouched_mono [OF assms(1), of "st_contacts (contacted v a s)"] assms(2)
  by (auto simp: contacted_def ack_vouched_def)

lemma step_vouched:
  assumes "site_step env s t" and "vouched (st_contacts s) (st_disk s)" and "ack_vouched s"
  shows "vouched (st_contacts t) (st_disk t) \<and> ack_vouched t"
  using assms
proof (induction rule: site_step.induct)
  case (turn s run exists examined requests)
  then show ?case
    using vouch_turn [of "st_contacts s" env run exists examined requests]
    by (simp add: obeys_def keeps_vouched_def start_world_def ack_vouched_def)
next
  case (seeding s run tag request)
  then show ?case
    using vouch_seed [of "st_contacts s" env run tag request]
    by (simp add: obeys_def keeps_vouched_def start_world_def ack_vouched_def)
next
  case (registers s v io clock can_open aid r acts a)
  from registers(4,5) have "as_ack io = Inr (Some a)"
    by (cases rule: run_async_cases) (auto simp: health_actions_def split: sum.splits option.splits)
  with registers(3) have "ha_version a = v" by (simp add: ack_health_version)
  with registers show ?case by (intro contact_vouched)
next
  case (beats s v io aid applied capability x capability' clock can_open a)
  then show ?case by (intro contact_vouched) (simp_all add: ack_health_version)
next
  case (writes s a)
  then show ?case by (auto simp: vouched_def ack_vouched_def)
qed (auto simp: vouched_def ack_vouched_def)

lemma reaches_vouched:
  assumes "site_reaches env s t" and "vouched (st_contacts s) (st_disk s)" and "ack_vouched s"
  shows "vouched (st_contacts t) (st_disk t) \<and> ack_vouched t"
  using assms by (induction rule: site_reaches.induct) (auto dest: step_vouched)


section \<open>A run of the handshake\<close>

definition sample_ack :: health_ack where
  "sample_ack = \<lparr>ha_nonce = sample_nonce, ha_version = ''1.1'', ha_at = 9\<rparr>"

definition committed_disk :: native_disk where
  "committed_disk = nw_disk (snd (supervise_turn sample_native_env (calm_run 10) (\<lambda>_. True) [] []
     (start_world (served_disk\<lparr>nd_health := Json sample_ack\<rparr>))))"

definition sample_site :: "native_disk \<Rightarrow> contact list \<Rightarrow> site" where
  "sample_site d cs = \<lparr>st_disk = d, st_agent = Some ''1.1'', st_ack = None, st_contacts = cs\<rparr>"

definition sample_contact :: contact where
  "sample_contact = \<lparr>co_version = ''1.1'', co_nonce = sample_nonce, co_at = 9\<rparr>"

lemma committed_ledger:
  "nd_ledger committed_disk = Json \<lparr>floor_version = ''1.1'', floor_sequence = 5, ledger_pending = None,
     ledger_history = [\<lparr>he_nonce = sample_nonce, he_version = ''1.1'', he_sequence = 5, he_at = 10,
       he_outcome = ''healthy'', he_reason = ''healthy_heartbeat''\<rparr>]\<rparr>"
proof -
  have "\<not> bad_cache_directory ''seed-3''" by code_simp
  with sample_nonce_props show ?thesis
    by (simp add: committed_disk_def served_disk_eq served_event_def served_ledger_def served_journal_def served_slot_def
        served_pending_def served_release_def key_of_def sample_ack_def health_status_for_pending_def
        finish_update_def ledger_finish_def raise_floor_def finish_record_def resolve_pending_def valid_nonce_directory
        supervisor_defs nio_defs cache_defs sample_run_defs sample_verify_defs)
qed

lemma sample_site_steps:
  "site_reaches sample_native_env (sample_site seeded_disk []) (sample_site committed_disk [sample_contact])"
proof -
  let ?s = "sample_site served_disk []"
  let ?io = "\<lparr>ci_token = Inr ''t'', ci_refreshed = Inr ''t'', ci_post = (\<lambda>_ _ _ _.
      Inr \<lparr>hp_info = sample_info, hp_directive = sample_directive\<rparr>)\<rparr>"
  have s1: "site_step sample_native_env (sample_site seeded_disk []) ?s"
    using site_step.turn [of sample_native_env "sample_site seeded_disk []" "calm_run 7" "\<lambda>_. True" "[]"
        "[(sample_nonce, sample_request ''1.1'' 5)]"] by (simp add: served_disk_def sample_site_def)
  have s2: "site_step sample_native_env ?s (contacted ''1.1'' sample_ack ?s)"
  proof (rule site_step.beats)
    show "st_agent ?s = Some ''1.1''" by (simp add: sample_site_def)
    show "heartbeat_with_revision (as_version_of (ne_update sample_native_env) ''1.1'') ?io ''agent_1'' Idle None None None 1
        = (Inr (sample_info, sample_directive), record_capability sample_info)"
      by (simp add: heartbeat_with_revision_def call_with_refresh_def)
    show "ack_health (as_version_of (ne_update sample_native_env) ''1.1'') (Inr 9) True (nd_pending_health (st_disk ?s))
        = Inr (Some sample_ack)"
      using sample_nonce_props
      by (simp add: ack_health_def sample_site_def served_disk_eq served_pending_def as_version_of_def sample_ack_def)
  qed
  have s3: "site_step sample_native_env (contacted ''1.1'' sample_ack ?s)
      (sample_site (served_disk\<lparr>nd_health := Json sample_ack\<rparr>) [sample_contact])"
    using site_step.writes [of "contacted ''1.1'' sample_ack ?s" sample_ack sample_native_env]
    by (simp add: contacted_def sample_site_def sample_contact_def sample_ack_def)
  have s4: "site_step sample_native_env (sample_site (served_disk\<lparr>nd_health := Json sample_ack\<rparr>) [sample_contact])
      (sample_site committed_disk [sample_contact])"
    using site_step.turn [of sample_native_env "sample_site (served_disk\<lparr>nd_health := Json sample_ack\<rparr>) [sample_contact]"
        "calm_run 10" "\<lambda>_. True" "[]" "[]"] by (simp add: committed_disk_def sample_site_def)
  show ?thesis
    by (rule site_reaches.step [OF site_reaches.step [OF site_reaches.step [OF site_reaches.step [OF site_reaches.refl s1] s2] s3] s4])
qed


end
