(* ===== verification/Spec2Isabelle.thy ===== *)
theory Spec2Isabelle
  imports Snapshot_Validate Snapshot_Diff Api Auth Wire_Format Delivery_Current Native_Reach Agent Platforms Transport
    Root_Documents Directory_Pins Native_Commands Startup Handshake
begin

text \<open>
  Lariska is an endpoint agent. It collects the software inventory of a host, delivers it to a
  server, keeps itself registered there, applies the settings and offers of the server, and
  updates itself with the help of a privileged supervisor. This library models the agent and
  the supervisor; every definition is translated from the Rust sources under \<open>src/src\<close>, and
  paths below are relative to that directory.

  The parts and how they interact. \<open>main.rs\<close> parses the command line, installs the panic hook,
  takes the instance lock and starts \<open>app.rs\<close>, or the supervisor of \<open>native_update.rs\<close>. The
  agent registers (\<open>heartbeat.rs\<close>), acknowledges a pending update (\<open>update.rs\<close>) and then runs
  three loops at once: heartbeats, inventory cycles and the delivery worker. A cycle asks the collectors (\<open>inventory\<close>, through its cache) for
  entries and the state of their sources, builds and normalises a snapshot (\<open>model.rs\<close>) and
  gives it to the delivery client (\<open>delivery\<close>), which stores it in the spool and sends it with
  retries through \<open>api.rs\<close>, with tokens of \<open>auth.rs\<close> and the client certificate that \<open>mtls.rs\<close>
  enrols, renews and recovers. A
  heartbeat brings settings and update offers back (\<open>managed.rs\<close>); an accepted offer is
  downloaded, verified and staged (\<open>update.rs\<close>). The supervisor picks staged releases up,
  verifies them again, installs them, publishes the transaction in the shared mailbox and
  commits or rolls back by the acknowledgement that the agent leaves there.

  The shared theories. \<open>Prelude\<close>: results as sums with the error on the left, sorting, the
  comparison interface. \<open>Text\<close>: the string functions of the standard library, on scalar values
  up to U+00FF. \<open>Btree\<close>: ordered maps as ascending association lists. \<open>Atomic_File\<close>: a directory
  of files with the operating system's failures as inputs, and the replacement of a file by a
  temporary sibling.

  The model of the inventory. \<open>Version_Order\<close>, \<open>Inventory_Model\<close>, \<open>Snapshot\<close>,
  \<open>Snapshot_Validate\<close> and \<open>Snapshot_Diff\<close> are \<open>model.rs\<close>: the records, the release comparison,
  normalisation with identities and de-duplication, validation, and the difference of two
  snapshots. \<open>Json\<close> has the JSON values, \<open>Wire_Format\<close> the JSON form that the derived
  implementations give the model.

  The inventory of a host. \<open>Collection\<close> is \<open>inventory/mod.rs\<close> and \<open>inventory/linux.rs\<close>;
  \<open>Runtime_Collectors\<close>, \<open>Mac_Collector\<close> and \<open>Windows_Collector\<close> the other collectors;
  \<open>Fingerprint\<close> and \<open>Inventory_Cache\<close> are \<open>inventory/cache.rs\<close>; \<open>Environment\<close> and \<open>Platforms\<close>
  are \<open>inventory/environment.rs\<close>, \<open>qos.rs\<close> and the branches of the macOS, Windows and
  unsupported builds; \<open>Identity\<close> is \<open>identity.rs\<close>.

  Delivery. \<open>Api\<close> and \<open>Transport\<close> are \<open>api.rs\<close> and \<open>delivery/retry.rs\<close>, \<open>Auth\<close> is \<open>auth.rs\<close>,
  \<open>Client_Certificate\<close> is \<open>mtls.rs\<close>, \<open>Spool\<close>, \<open>Delivery_State\<close> and \<open>Delivery\<close> are \<open>delivery\<close>;
  \<open>Delivery_Tasks\<close> and \<open>Delivery_Current\<close> are the client under the two tasks that share it.

  The agent. \<open>Config\<close> is \<open>config.rs\<close>, \<open>Managed\<close> is \<open>managed.rs\<close>, \<open>Heartbeat\<close> is \<open>heartbeat.rs\<close>,
  \<open>Agent\<close> and \<open>Agent_Process\<close> are \<open>app.rs\<close>, \<open>Startup\<close> is \<open>crash.rs\<close>, \<open>service.rs\<close>,
  \<open>telemetry.rs\<close> and \<open>main.rs\<close>.

  Updates. \<open>Update\<close> is the signed-update protocol of \<open>update.rs\<close>; \<open>Root_Documents\<close>,
  \<open>Shared_Mailbox\<close> and \<open>Directory_Pins\<close> are its files: the protected documents, the shared
  directory on Unix call by call, and its pinned form on Windows (also \<open>update/windows.rs\<close>).
  \<open>Trusted_Paths\<close>, \<open>Native_Commands\<close> and \<open>Native_Update\<close> are \<open>native_update.rs\<close>;
  \<open>Native_Invariant\<close>, \<open>Native_Safety\<close> and \<open>Native_Reach\<close> its invariant and reachable states;
  \<open>Handshake\<close> is the supervisor and the agents together.
\<close>

text \<open>
  Correspondence. Structs are records whose fields have a prefix of their own, enumerations are
  datatypes with the source's constructors, and a function has the source's name where
  Isabelle allows it. A function that fails returns a sum whose left side is the error's text
  (or the enumeration of the source); every early return is a branch. State is passed
  explicitly: a record of the fields a component keeps, and for files a directory, a disk of
  documents or a list of file system nodes. A call outside the program (system call, request,
  clock, random draw, started command) is an input of the function that makes it, either its
  answer, a function that answers it, or a plan that says which of the numbered calls fail. Integers that
  can overflow are words or carry their checks; where the source saturates or wraps, so does
  the model. Durations are seconds or milliseconds as natural numbers, fractions are rational
  numbers in place of floating point.

  What the lemmas show. Orders: the release comparison and the comparisons built on it are
  total, so that sorting and de-duplication do not depend on the input order (interface
  \<open>total_comparison\<close>). Snapshots: normalisation yields a strictly sorted list that keeps the
  newest entry of a group, validation accepts exactly the valid snapshots and every new one,
  replaying a difference on the old snapshot gives the new one, and the JSON form reads back
  (interface \<open>wire_type\<close>). Collectors: what they return is covered by the sources they report,
  and a source is complete only when nothing was unreadable (\<open>source_collector\<close>,
  \<open>reporting_collector\<close>); a cached result is used exactly for an unchanged fingerprint. Files:
  a reader finds the old or the new document after any crash (\<open>durable_store\<close>,
  \<open>Shared_Mailbox\<close>), and the privileged helper writes nothing outside its folders whatever
  other processes do between its calls. Delivery: bounded bodies, requests and retries; no entry is lost in
  any interleaving of the two tasks with crashes, and the server ends up with the content that
  was offered last (an undisturbed run of the worker's turns is proved to be a drain). Certificates: no key is lost, requests are spaced.
  Updates: only packages signed by a trusted key are staged, installed or rolled back to, the
  floor never falls, no request is installed twice, each installation was written ahead in the
  journal, a pending transaction ends in a commit or a rollback, and a release counts as
  healthy only when a process of that release had reached the server (interface
  \<open>disk_relation\<close>: a relation that every single write keeps is kept by a whole turn). Agent:
  accepted configurations are bounded, settings are acknowledged only when they took effect,
  registration ends, and only authoritative snapshots are queued.

  Bounds and fuel. Loops over a counter are recursions over the list of its values: the two attempts
  of a request and the attempts of a delivery. The polls of a started command and of a Windows
  service's stop are functions of the list of answers that run out of answers in \<open>None\<close>; 6001
  and 301 answers are proved to be enough, the source's deadline by its sleep, and one. Directory trees in fingerprints are walked to the
  source's own depth and entry bounds. The loops of the agent that run until shutdown are
  functions of the list of their wake-ups, with termination by the length of that list; the
  supervisor, which never ends, is the inductive relation of its turns.

  Parameters. SHA-256, Ed25519, X.509 and TLS, semantic versions, URL, TOML, JSON text, property
  lists, zstd, the registry and the answers of the operating system are arguments, with laws
  only where a proof needs them: a codec decodes what it encoded, and SHA-256 does not collide
  on the two inputs that a proof compares. A law is a named hypothesis and has a witness with a concrete
  function.

  Not modelled, and why. The printed texts of usage, warnings, traces and the service's event
  log, because nothing reads them back. The PowerShell script whose report \<open>Trusted_Paths\<close>
  checks, and the system calls behind \<open>libc\<close>, \<open>ntdll\<close> and the service manager, because their
  code is not in the repository. The scheduling of the asynchronous runtime: which branch of a
  \<open>select!\<close> ends first is an input, and two tasks interleave at the granularity of one
  supervisor turn or one agent step (\<open>Handshake\<close>), of one system call (\<open>Shared_Mailbox\<close>), of the
  code between two awaits (\<open>Delivery_Tasks\<close>) or of one wake-up (\<open>Heartbeat\<close>). Tests and the redacting debug output. Strings with scalar
  values above U+00FF.
\<close>

end
